(* ===== verification/Sous_Prelude.thy ===== *)
theory Sous_Prelude
  imports Main "HOL-Library.AList"
begin

text \<open>
  Shared vocabulary of the development.

  \<^item> \<open>outcome\<close> is the result of a Go function that may return an error or panic.
  \<^item> \<open>gomap\<close> is a Go map. It is an association list with distinct keys (\<open>gwf\<close>);
    the order of the list stands for the order in which one \<open>range\<close> loop happens to visit
    the entries, so a theorem about every well-formed list is a theorem about every
    iteration order. Lookup is \<^const>\<open>map_of\<close>, assignment \<^const>\<open>AList.update\<close>,
    \<open>delete\<close> is \<^const>\<open>AList.delete\<close>, \<open>len\<close> is \<^const>\<open>length\<close>. A nil map and an
    empty map read alike; where the code tells them apart the field is an \<^typ>\<open>'a option\<close>.
  \<^item> \<open>split_on\<close>, \<open>split_n2\<close> and \<open>join_with\<close> are \<open>strings.Split\<close>, \<open>strings.SplitN\<close>
    with limit 2, and \<open>strings.Join\<close>, for a separator of one byte.
\<close>

named_theorems gomap_simps \<open>lookup, domain and well-formedness of the map operations\<close>

datatype ('e, 'a) outcome = Ok 'a | Err 'e | Panic

type_synonym ('k, 'v) gomap = "('k \<times> 'v) list"

abbreviation gget :: "('k, 'v) gomap \<Rightarrow> 'k \<Rightarrow> 'v option" where
  "gget m k \<equiv> map_of m k"

abbreviation gset :: "'k \<Rightarrow> 'v \<Rightarrow> ('k, 'v) gomap \<Rightarrow> ('k, 'v) gomap" where
  "gset k v m \<equiv> AList.update k v m"

abbreviation gdel :: "'k \<Rightarrow> ('k, 'v) gomap \<Rightarrow> ('k, 'v) gomap" where
  "gdel k m \<equiv> AList.delete k m"

abbreviation gkeys :: "('k, 'v) gomap \<Rightarrow> 'k list" where
  "gkeys m \<equiv> map fst m"

definition ghas :: "('k, 'v) gomap \<Rightarrow> 'k \<Rightarrow> bool" where
  "ghas m k = (map_of m k \<noteq> None)"

definition gwf :: "('k, 'v) gomap \<Rightarrow> bool" where
  "gwf m = distinct (map fst m)"

text \<open>Two maps are the same Go map when they hold the same entries, in any order.\<close>

definition gsame :: "('k, 'v) gomap \<Rightarrow> ('k, 'v) gomap \<Rightarrow> bool" where
  "gsame m n = (set m = set n)"

fun gset_all :: "('k, 'v) gomap \<Rightarrow> ('k, 'v) gomap \<Rightarrow> ('k, 'v) gomap" where
  "gset_all m [] = m"
| "gset_all m ((k, v) # es) = gset_all (gset k v m) es"

definition nilmap :: "('k, 'v) gomap option \<Rightarrow> ('k, 'v) gomap" where
  "nilmap m = (case m of None \<Rightarrow> [] | Some es \<Rightarrow> es)"

fun split_on :: "char \<Rightarrow> string \<Rightarrow> string list" where
  "split_on d [] = [[]]"
| "split_on d (c # cs) =
     (if c = d then [] # split_on d cs
      else (case split_on d cs of [] \<Rightarrow> [[c]] | h # t \<Rightarrow> (c # h) # t))"

fun split_n2 :: "char \<Rightarrow> string \<Rightarrow> string list" where
  "split_n2 d [] = [[]]"
| "split_n2 d (c # cs) =
     (if c = d then [[], cs]
      else (case split_n2 d cs of [] \<Rightarrow> [[c]] | h # t \<Rightarrow> (c # h) # t))"

fun join_with :: "string \<Rightarrow> string list \<Rightarrow> string" where
  "join_with sep [] = []"
| "join_with sep [s] = s"
| "join_with sep (s # t # ss) = s @ sep @ join_with sep (t # ss)"

section \<open>Maps\<close>

lemma ghas_iff [gomap_simps]: "ghas m k \<longleftrightarrow> k \<in> set (gkeys m)"
  by (simp add: ghas_def map_of_eq_None_iff)

lemma gwf_Nil [simp]: "gwf []"
  by (simp add: gwf_def)

lemma gwf_Cons [simp]: "gwf ((k, v) # m) \<longleftrightarrow> k \<notin> set (gkeys m) \<and> gwf m"
  by (simp add: gwf_def)

lemma gwf_update [simp, intro]: "gwf m \<Longrightarrow> gwf (gset k v m)"
  by (simp add: gwf_def distinct_update)

lemma gwf_delete [simp, intro]: "gwf m \<Longrightarrow> gwf (gdel k m)"
  by (simp add: gwf_def distinct_delete)

lemma gwf_filter [simp, intro]: "gwf m \<Longrightarrow> gwf (filter P m)"
  by (simp add: gwf_def distinct_map_filter)

lemma gwf_set_all [simp, intro]: "gwf m \<Longrightarrow> gwf (gset_all m es)"
  by (induction m es rule: gset_all.induct) auto

lemma gwf_map_values [simp]: "gwf (map (\<lambda>(k, v). (k, f k v)) m) \<longleftrightarrow> gwf m"
  by (simp add: gwf_def comp_def case_prod_beta)

lemma gget_update [gomap_simps]: "gget (gset k v m) j = (if j = k then Some v else gget m j)"
  by (simp add: update_conv')

lemma gget_delete [gomap_simps]: "gget (gdel k m) j = (if j = k then None else gget m j)"
  by (simp add: delete_conv')

lemma gget_iff_mem: "gwf m \<Longrightarrow> gget m k = Some v \<longleftrightarrow> (k, v) \<in> set m"
  by (simp add: gwf_def)

lemma gwf_filter_get:
  "gwf m \<Longrightarrow> gget (filter P m) k = (case gget m k of None \<Rightarrow> None
     | Some v \<Rightarrow> if P (k, v) then Some v else None)"
  by (induction m) (auto split: option.splits if_splits dest: map_of_SomeD simp: rev_image_eqI)

lemma gget_map_values [gomap_simps]:
  "gget (map (\<lambda>(k, v). (k, f k v)) m) k = map_option (f k) (gget m k)"
  by (induction m) auto

lemma gget_set_all:
  "gwf es \<Longrightarrow> gget (gset_all m es) k = (case gget es k of None \<Rightarrow> gget m k | Some v \<Rightarrow> Some v)"
proof (induction m es rule: gset_all.induct)
  case (2 m k' v es)
  then show ?case
    by (auto simp: gget_update split: option.splits dest: map_of_SomeD simp: rev_image_eqI)
qed simp

lemma gsame_iff_get: "gwf m \<Longrightarrow> gwf n \<Longrightarrow> gsame m n \<longleftrightarrow> map_of m = map_of n"
  unfolding gsame_def gwf_def by (metis map_of_inject_set)

lemma gsame_refl [simp]: "gsame m m"
  by (simp add: gsame_def)

lemma gsame_keys: "gsame m n \<Longrightarrow> set (gkeys m) = set (gkeys n)"
  by (simp add: gsame_def)

lemma gsame_length: "gwf m \<Longrightarrow> gwf n \<Longrightarrow> gsame m n \<Longrightarrow> length m = length n"
  unfolding gsame_def gwf_def by (metis distinct_card distinct_map)

text \<open>The idiom \<open>len(m) == len(o)\<close> and every entry of \<open>m\<close> is in \<open>o\<close> decides map equality.\<close>

lemma gsame_by_length:
  assumes "gwf m" and "gwf n" and "length m = length n"
    and "\<And>k v. (k, v) \<in> set m \<Longrightarrow> gget n k = Some v"
  shows "gsame m n"
proof -
  have dm: "distinct m" and dn: "distinct n"
    using assms(1,2) by (auto simp: gwf_def distinct_map)
  have sub: "set m \<subseteq> set n"
    using assms(4) by (auto dest: map_of_SomeD)
  have "card (set m) = card (set n)"
    using assms(3) dm dn by (simp add: distinct_card)
  with sub have "set m = set n"
    by (simp add: card_subset_eq)
  then show ?thesis by (simp add: gsame_def)
qed

lemma nilmap_simps [simp]: "nilmap None = []" "nilmap (Some m) = m"
  by (simp_all add: nilmap_def)

lemma gset_absent: "k \<notin> set (gkeys m) \<Longrightarrow> gset k v m = m @ [(k, v)]"
  by (induction m) auto

lemma gset_all_append: "gwf (m @ es) \<Longrightarrow> gset_all m es = m @ es"
proof (induction m es rule: gset_all.induct)
  case (2 m k v es)
  then have "k \<notin> set (gkeys m)" and "gwf ((m @ [(k, v)]) @ es)"
    by (auto simp: gwf_def)
  with 2 show ?case by (simp add: gset_absent)
qed simp

lemma gset_all_id [simp]: "gwf es \<Longrightarrow> gset_all [] es = es"
  by (simp add: gset_all_append)

section \<open>Strings\<close>

lemma split_on_not_Nil [simp]: "split_on d s \<noteq> []"
  by (induction s) (auto split: list.splits)

lemma split_on_absent [simp]: "d \<notin> set s \<Longrightarrow> split_on d s = [s]"
  by (induction s) auto

lemma split_on_append: "d \<notin> set s \<Longrightarrow> split_on d (s @ d # t) = s # split_on d t"
  by (induction s) auto

lemma split_n2_absent [simp]: "d \<notin> set s \<Longrightarrow> split_n2 d s = [s]"
  by (induction s) auto

lemma split_n2_append: "d \<notin> set s \<Longrightarrow> split_n2 d (s @ d # t) = [s, t]"
  by (induction s) auto

lemma split_on_no_sep: "p \<in> set (split_on d s) \<Longrightarrow> d \<notin> set p"
  by (induction s arbitrary: p) (auto split: list.splits if_splits)

lemma join_split_on: "join_with [d] (split_on d s) = s"
proof (induction s)
  case (Cons c cs)
  show ?case
  proof (cases "c = d")
    case True
    then show ?thesis using Cons by (cases "split_on d cs") auto
  next
    case False
    then show ?thesis
      using Cons by (cases "split_on d cs"; cases "tl (split_on d cs)") auto
  qed
qed simp

end
