(* ===== verification/Semv.thy ===== *)
theory Semv
  imports Sous_Prelude "HOL-Library.Char_ord" "HOL-Library.List_Lexorder"
begin

text \<open>
  Semantic versions as the vendored package \<open>github.com/samsalisbury/semv\<close> has them
  (\<open>version.go\<close>, \<open>parse_version.go\<close>): the \<open>Version\<close> struct, its precedence order
  \<open>Less\<close> and \<open>Equals\<close>, \<open>Format\<close>/\<open>String\<close>, and the permissive parser \<open>Parse\<close>. Go's
  \<open>strconv.Atoi\<close>, \<open>fmt.Sprint\<close> on integers and \<open>strings.Replace\<close> are modelled as far as the
  package uses them. Strings are compared bytewise (theory \<open>List_Lexorder\<close> over
  \<open>Char_ord\<close>). The value beside an out-of-range number error is not the clamped one (no caller reads it).
  The parser walks bytes: a non-ASCII rune and its first byte are rejected
  at the same position. Shown here: \<open>Equals\<close> is reflexive and symmetric, the decimal
  printer and \<open>Atoi\<close> are inverse, and \<open>Parse\<close> inverts \<open>String\<close> on canonical versions.
\<close>

record Version =
  vMajor :: int
  vMinor :: int
  vPatch :: int
  vPre :: string
  vMeta :: string
  vDefaultFormat :: string

definition zeroVersion :: Version where
  "zeroVersion = \<lparr>vMajor = 0, vMinor = 0, vPatch = 0, vPre = [], vMeta = [], vDefaultFormat = []\<rparr>"

section \<open>Decimal numbers\<close>

definition is_digit :: "char \<Rightarrow> bool" where
  "is_digit c = (48 \<le> (of_char c :: nat) \<and> (of_char c :: nat) \<le> 57)"

definition digits_val :: "string \<Rightarrow> int" where
  "digits_val ds = foldl (\<lambda>n c. 10 * n + int (of_char c - 48)) 0 ds"

definition in_int64 :: "int \<Rightarrow> bool" where
  "in_int64 n = (- (2 ^ 63) \<le> n \<and> n < 2 ^ 63)"

definition atoi :: "string \<Rightarrow> int option" where
  "atoi s =
     (case s of [] \<Rightarrow> None
      | c # cs \<Rightarrow>
          (let neg = (c = CHR ''-'');
               ds = (if c = CHR ''-'' \<or> c = CHR ''+'' then cs else s)
           in if ds = [] \<or> \<not> list_all is_digit ds then None
              else let n = digits_val ds; v = (if neg then - n else n)
                   in if in_int64 v then Some v else None))"

definition digit_char :: "nat \<Rightarrow> char" where
  "digit_char n = char_of (48 + n)"

fun show_nat :: "nat \<Rightarrow> string" where
  "show_nat n = (if n < 10 then [digit_char n] else show_nat (n div 10) @ [digit_char (n mod 10)])"

declare show_nat.simps [simp del]

definition itoa :: "int \<Rightarrow> string" where
  "itoa n = (if n < 0 then CHR ''-'' # show_nat (nat (- n)) else show_nat (nat n))"

section \<open>Order\<close>

text \<open>
  The loop of \<open>Less\<close> over the dot-separated parts of the two pre-release fields. The
  second equation is the out-of-range read \<open>vPreParts[i]\<close>; it is not reached, because the
  third equation returns as soon as the left list ends before the right one.
\<close>

fun pre_less :: "string list \<Rightarrow> string list \<Rightarrow> bool" where
  "pre_less vs [] = False"
| "pre_less [] (t # ts) = False"
| "pre_less (v # vs) (t # ts) =
     (let rest = (if v < t then True else if t < v then False
                  else if vs = [] \<and> ts \<noteq> [] then True else pre_less vs ts)
      in case atoi v of None \<Rightarrow> rest
         | Some vi \<Rightarrow> (case atoi t of None \<Rightarrow> True
             | Some ti \<Rightarrow> if vi < ti then True else if ti < vi then False else rest))"

definition Version_Less :: "Version \<Rightarrow> Version \<Rightarrow> bool" where
  "Version_Less v o' =
     (if vMajor v < vMajor o' then True else if vMajor v > vMajor o' then False
      else if vMinor v < vMinor o' then True else if vMinor v > vMinor o' then False
      else if vPatch v < vPatch o' then True else if vPatch v > vPatch o' then False
      else if vPre v \<noteq> [] \<and> vPre o' = [] then True
      else if vPre v = [] \<and> vPre o' \<noteq> [] then False
      else pre_less (split_on CHR ''.'' (vPre v)) (split_on CHR ''.'' (vPre o')))"

definition Version_Equals :: "Version \<Rightarrow> Version \<Rightarrow> bool" where
  "Version_Equals v o' = (\<not> Version_Less v o' \<and> \<not> Version_Less o' v)"

section \<open>Printing\<close>

function replace_all :: "string \<Rightarrow> string \<Rightarrow> string \<Rightarrow> string" where
  "replace_all s old new =
     (if s = [] then []
      else if old \<noteq> [] \<and> take (length old) s = old
        then new @ replace_all (drop (length old) s) old new
      else hd s # replace_all (tl s) old new)"
  by pat_completeness auto
termination
  by (relation "measure (\<lambda>(s, old, new). length s)") auto

declare replace_all.simps [simp del]

definition Complete :: string where
  "Complete = ''M.m.p-?+?''"

definition MajorMinorPatch :: string where
  "MajorMinorPatch = ''M.m.p''"

definition Version_Format :: "Version \<Rightarrow> string \<Rightarrow> string" where
  "Version_Format v format =
     (let f0 = (if format = [] then Complete else format);
          f1 = replace_all f0 ''M'' (itoa (vMajor v));
          f2 = replace_all f1 ''m'' (itoa (vMinor v));
          f3 = replace_all f2 ''p'' (itoa (vPatch v));
          f4 = replace_all f3 ''-?'' (if vPre v \<noteq> [] then CHR ''-'' # vPre v else []);
          f5 = replace_all f4 ''+?'' (if vMeta v \<noteq> [] then CHR ''+'' # vMeta v else []);
          f6 = replace_all f5 ''-!'' (vPre v)
      in replace_all f6 ''+!'' (vMeta v))"

definition Version_String :: "Version \<Rightarrow> string" where
  "Version_String v = Version_Format v (vDefaultFormat v)"

section \<open>Parsing\<close>

datatype mode = ModeMajor | ModeMinor | ModePatch | ModePre | ModeMeta

datatype semv_error =
    UnexpectedCharacter nat
  | VersionIncomplete string
  | ZeroLengthNumeric string
  | LeadingZero string
  | NumError string

record pstate =
  pmode :: mode
  bMajor :: string
  bMinor :: string
  bPatch :: string
  bPre :: string
  bMeta :: string
  parsedMinor :: bool
  parsedPatch :: bool
  parsedPre :: bool
  parsedMeta :: bool

definition pstart :: pstate where
  "pstart = \<lparr>pmode = ModeMajor, bMajor = [], bMinor = [], bPatch = [], bPre = [], bMeta = [],
     parsedMinor = False, parsedPatch = False, parsedPre = False, parsedMeta = False\<rparr>"

definition validPreAndMetaChar :: "char \<Rightarrow> bool" where
  "validPreAndMetaChar c =
     (is_digit c \<or> c = CHR ''.'' \<or> c = CHR ''-''
      \<or> (97 \<le> (of_char c :: nat) \<and> (of_char c :: nat) \<le> 122)
      \<or> (65 \<le> (of_char c :: nat) \<and> (of_char c :: nat) \<le> 90))"

text \<open>The flags set at the top of the loop body.\<close>

definition mark_mode :: "pstate \<Rightarrow> pstate" where
  "mark_mode st = (case pmode st of
      ModeMajor \<Rightarrow> st | ModeMinor \<Rightarrow> st\<lparr>parsedMinor := True\<rparr>
    | ModePatch \<Rightarrow> st\<lparr>parsedPatch := True\<rparr> | ModePre \<Rightarrow> st\<lparr>parsedPre := True\<rparr>
    | ModeMeta \<Rightarrow> st\<lparr>parsedMeta := True\<rparr>)"

text \<open>\<open>changeMode\<close>: an error, or the new state and whether the mode changed.\<close>

definition changeMode :: "nat \<Rightarrow> char \<Rightarrow> pstate \<Rightarrow> semv_error + (pstate \<times> bool)" where
  "changeMode i c st =
     (if (pmode st = ModePre \<or> pmode st = ModeMeta) \<and> c = CHR ''-'' then Inr (st, False)
      else if pmode st = ModeMeta \<and> c = CHR ''+'' then Inl (UnexpectedCharacter i)
      else if pmode st = ModePatch \<and> c = CHR ''.'' then Inl (UnexpectedCharacter i)
      else if pmode st = ModeMajor \<and> c = CHR ''.'' then Inr (st\<lparr>pmode := ModeMinor\<rparr>, True)
      else if pmode st = ModeMinor \<and> c = CHR ''.'' then Inr (st\<lparr>pmode := ModePatch\<rparr>, True)
      else if c = CHR ''-'' then Inr (st\<lparr>pmode := ModePre\<rparr>, True)
      else if c = CHR ''+'' then Inr (st\<lparr>pmode := ModeMeta\<rparr>, True)
      else Inr (st, False))"

definition write_rune :: "char \<Rightarrow> pstate \<Rightarrow> pstate" where
  "write_rune c st = (case pmode st of
      ModeMajor \<Rightarrow> st\<lparr>bMajor := bMajor st @ [c]\<rparr> | ModeMinor \<Rightarrow> st\<lparr>bMinor := bMinor st @ [c]\<rparr>
    | ModePatch \<Rightarrow> st\<lparr>bPatch := bPatch st @ [c]\<rparr> | ModePre \<Rightarrow> st\<lparr>bPre := bPre st @ [c]\<rparr>
    | ModeMeta \<Rightarrow> st\<lparr>bMeta := bMeta st @ [c]\<rparr>)"

definition accepts :: "mode \<Rightarrow> char \<Rightarrow> bool" where
  "accepts m c = (if m = ModePre \<or> m = ModeMeta then validPreAndMetaChar c else is_digit c)"

fun parse_loop :: "nat \<Rightarrow> pstate \<Rightarrow> string \<Rightarrow> pstate \<times> semv_error option" where
  "parse_loop i st [] = (st, None)"
| "parse_loop i st (c # cs) =
     (let st1 = mark_mode st;
          r = (if c = CHR ''.'' \<or> c = CHR ''-'' \<or> c = CHR ''+'' then changeMode i c st1
               else Inr (st1, False))
      in case r of Inl e \<Rightarrow> (st1, Some e)
         | Inr (st2, changed) \<Rightarrow>
             if changed then parse_loop (Suc i) st2 cs
             else if accepts (pmode st2) c then parse_loop (Suc i) (write_rune c st2) cs
             else (st2, Some (UnexpectedCharacter i)))"

declare parse_loop.simps(2) [simp del]

definition validateMMPFormat :: "string \<Rightarrow> string \<Rightarrow> semv_error list" where
  "validateMMPFormat s name =
     (if s = [] then [ZeroLengthNumeric name]
      else if length s > 1 \<and> hd s = CHR ''0'' then [LeadingZero name] else [])"

definition finalise :: "pstate \<Rightarrow> semv_error list \<Rightarrow> Version \<times> semv_error list" where
  "finalise st known =
     (let v0 = zeroVersion\<lparr>vDefaultFormat := ''M''\<rparr>;
          e0 = known @ validateMMPFormat (bMajor st) ''major''
      in case atoi (bMajor st) of None \<Rightarrow> (v0, e0 @ [NumError ''major''])
      | Some mj \<Rightarrow>
         (let v1 = v0\<lparr>vMajor := mj\<rparr>;
              e1 = (if parsedMinor st then e0 @ validateMMPFormat (bMinor st) ''minor'' else e0)
          in case (if parsedMinor st then atoi (bMinor st) else Some 0) of
               None \<Rightarrow> (v1\<lparr>vDefaultFormat := ''M.m''\<rparr>, e1 @ [NumError ''minor''])
          | Some mn \<Rightarrow>
             (let v2 = (if parsedMinor st then v1\<lparr>vMinor := mn, vDefaultFormat := ''M.m''\<rparr> else v1);
                  e2 = (if parsedPatch st then e1 @ validateMMPFormat (bPatch st) ''patch'' else e1)
              in case (if parsedPatch st then atoi (bPatch st) else Some 0) of
                   None \<Rightarrow> (v2\<lparr>vDefaultFormat := ''M.m.p''\<rparr>, e2 @ [NumError ''patch''])
              | Some pt \<Rightarrow>
                 (let v3 = (if parsedPatch st then v2\<lparr>vPatch := pt, vDefaultFormat := ''M.m.p''\<rparr> else v2);
                      f4 = vDefaultFormat v3 @ (if parsedPre st then ''-?'' else [])
                             @ (if parsedMeta st then ''+?'' else [])
                  in (v3\<lparr>vDefaultFormat := f4, vPre := bPre st, vMeta := bMeta st\<rparr>, e2)))))"

definition semv_parse :: "string \<Rightarrow> Version \<times> semv_error list" where
  "semv_parse s =
     (case parse_loop 0 pstart s of
        (st, Some e) \<Rightarrow> finalise st [e]
      | (st, None) \<Rightarrow>
          if \<not> parsedMinor st then finalise st [VersionIncomplete ''minor'']
          else if \<not> parsedPatch st then finalise st [VersionIncomplete ''patch'']
          else finalise st [])"

fun tolerated :: "semv_error \<Rightarrow> bool" where
  "tolerated (LeadingZero _) = True"
| "tolerated (VersionIncomplete _) = True"
| "tolerated _ = False"

definition Semv_Parse :: "string \<Rightarrow> Version \<times> semv_error option" where
  "Semv_Parse s =
     (let (v, errs) = semv_parse s
      in (v, case filter (\<lambda>e. \<not> tolerated e) errs of [] \<Rightarrow> None | e # _ \<Rightarrow> Some e))"

section \<open>Facts about numbers\<close>

lemma of_char_digit_char [simp]: "n < 10 \<Longrightarrow> of_char (digit_char n) = (48 + n :: nat)"
  by (simp add: digit_char_def)

lemma is_digit_digit_char [simp]: "n < 10 \<Longrightarrow> is_digit (digit_char n)"
  by (simp add: is_digit_def)

lemma is_digit_not_mark: "is_digit c \<Longrightarrow> c \<noteq> CHR ''.'' \<and> c \<noteq> CHR ''-'' \<and> c \<noteq> CHR ''+''"
  by (auto simp: is_digit_def)

lemma show_nat_digits: "list_all is_digit (show_nat n)"
  by (induction n rule: show_nat.induct) (subst show_nat.simps, auto)

lemma show_nat_not_Nil [simp]: "show_nat n \<noteq> []"
  by (subst show_nat.simps) simp

lemma digits_val_snoc: "digits_val (ds @ [c]) = 10 * digits_val ds + int (of_char c - 48)"
  by (simp add: digits_val_def)

lemma digits_val_show_nat: "digits_val (show_nat n) = int n"
proof (induction n rule: show_nat.induct)
  case (1 n)
  show ?case
  proof (cases "n < 10")
    case True
    then show ?thesis by (subst show_nat.simps) (simp add: digits_val_def)
  next
    case False
    then have "digits_val (show_nat n) = 10 * int (n div 10) + int (n mod 10)"
      by (subst show_nat.simps) (simp add: digits_val_snoc 1)
    also have "\<dots> = int (10 * (n div 10) + n mod 10)"
      by (simp only: of_nat_add of_nat_mult of_nat_numeral)
    finally show ?thesis by simp
  qed
qed

lemma atoi_digits:
  assumes "list_all is_digit ds" and "ds \<noteq> []"
  shows "atoi ds = (if in_int64 (digits_val ds) then Some (digits_val ds) else None)"
  using assms by (cases ds) (auto simp: atoi_def Let_def dest!: is_digit_not_mark)

lemma itoa_nonneg: "0 \<le> n \<Longrightarrow> itoa n = show_nat (nat n)"
  by (simp add: itoa_def)

lemma atoi_itoa: "in_int64 n \<Longrightarrow> atoi (itoa n) = Some n"
proof (cases "n < 0")
  case True
  assume "in_int64 n"
  with True show ?thesis
    by (simp add: itoa_def atoi_def Let_def show_nat_digits digits_val_show_nat)
next
  case False
  assume "in_int64 n"
  with False show ?thesis
    by (simp add: itoa_nonneg atoi_digits show_nat_digits digits_val_show_nat)
qed

lemma itoa_digits: "0 \<le> n \<Longrightarrow> list_all is_digit (itoa n)"
  by (simp add: itoa_nonneg show_nat_digits)

lemma itoa_not_Nil [simp]: "itoa n \<noteq> []"
  by (simp add: itoa_def)

lemma digits_no_char: "list_all is_digit ds \<Longrightarrow> \<not> is_digit c \<Longrightarrow> c \<notin> set ds"
  by (auto simp: list_all_iff)

section \<open>Equality of versions\<close>

lemma pre_less_irrefl [simp]: "\<not> pre_less vs vs"
proof (induction vs)
  case (Cons v vs)
  then show ?case by (cases "atoi v") (simp_all add: Let_def)
qed simp

lemma Version_Less_irrefl [simp]: "\<not> Version_Less v v"
  by (simp add: Version_Less_def)

lemma Version_Equals_refl [simp, intro]: "Version_Equals v v"
  by (simp add: Version_Equals_def)

lemma Version_Equals_sym: "Version_Equals v w \<Longrightarrow> Version_Equals w v"
  by (simp add: Version_Equals_def)

lemma Version_Equals_numbers:
  "Version_Equals v w \<Longrightarrow> vMajor v = vMajor w \<and> vMinor v = vMinor w \<and> vPatch v = vPatch w"
  by (auto simp: Version_Equals_def Version_Less_def split: if_splits)

lemma Version_Equals_ignores_meta:
  "Version_Equals (v\<lparr>vMeta := m\<rparr>) w \<longleftrightarrow> Version_Equals v w"
  "Version_Equals v (w\<lparr>vMeta := m\<rparr>) \<longleftrightarrow> Version_Equals v w"
  by (simp_all add: Version_Equals_def Version_Less_def)

section \<open>Replacement\<close>

lemma replace_all_Nil [simp]: "replace_all [] old new = []"
  by (subst replace_all.simps) simp

lemma replace_all_absent: "c \<in> set old \<Longrightarrow> c \<notin> set s \<Longrightarrow> replace_all s old new = s"
proof (induction s)
  case (Cons x xs)
  have "take (length old) (x # xs) \<noteq> old"
    using Cons.prems in_set_takeD by metis
  with Cons show ?case by (subst replace_all.simps) simp
qed simp

lemma replace_all_prefix:
  "old \<noteq> [] \<Longrightarrow> hd old \<notin> set a \<Longrightarrow> replace_all (a @ s) old new = a @ replace_all s old new"
proof (induction a)
  case (Cons x xs)
  have "take (length old) (x # xs @ s) \<noteq> old"
    using Cons.prems by (cases old) auto
  with Cons show ?case by (subst replace_all.simps) simp
qed simp

lemma replace_all_here:
  "old \<noteq> [] \<Longrightarrow> replace_all (old @ s) old new = new @ replace_all s old new"
  by (subst replace_all.simps) simp

lemma replace_all_skip:
  "c \<noteq> d \<Longrightarrow> replace_all (c # s) (d # ds) new = c # replace_all s (d # ds) new"
  by (subst replace_all.simps) simp

lemma replace_all_one: "replace_all (c # s) [c] new = new @ replace_all s [c] new"
  by (subst replace_all.simps) simp

lemma replace_all_two: "replace_all (c # d # s) [c, d] new = new @ replace_all s [c, d] new"
  by (subst replace_all.simps) simp

lemmas replace_all_literal = replace_all_skip replace_all_one replace_all_two replace_all_prefix

section \<open>Parsing inverts printing\<close>

definition wf_version :: "Version \<Rightarrow> bool" where
  "wf_version v =
     (0 \<le> vMajor v \<and> in_int64 (vMajor v) \<and> 0 \<le> vMinor v \<and> in_int64 (vMinor v)
      \<and> 0 \<le> vPatch v \<and> in_int64 (vPatch v)
      \<and> list_all validPreAndMetaChar (vPre v) \<and> list_all validPreAndMetaChar (vMeta v))"

definition canonical_format :: "Version \<Rightarrow> string" where
  "canonical_format v = ''M.m.p'' @ (if vPre v \<noteq> [] then ''-?'' else [])
                          @ (if vMeta v \<noteq> [] then ''+?'' else [])"

definition pre_suffix :: "Version \<Rightarrow> string" where
  "pre_suffix v = (if vPre v \<noteq> [] then CHR ''-'' # vPre v else [])"

definition meta_suffix :: "Version \<Rightarrow> string" where
  "meta_suffix v = (if vMeta v \<noteq> [] then CHR ''+'' # vMeta v else [])"

definition version_text :: "Version \<Rightarrow> string" where
  "version_text v = itoa (vMajor v) @ ''.'' @ itoa (vMinor v) @ ''.'' @ itoa (vPatch v)
                      @ pre_suffix v @ meta_suffix v"

lemma valid_not_special:
  "validPreAndMetaChar c \<Longrightarrow> c \<noteq> CHR ''+'' \<and> c \<noteq> CHR ''?'' \<and> c \<noteq> CHR ''!'' \<and> c \<noteq> CHR '',''"
  by (auto simp: validPreAndMetaChar_def is_digit_def)

lemma suffix_chars:
  assumes "wf_version v"
  shows "CHR ''!'' \<notin> set (pre_suffix v)" and "CHR ''!'' \<notin> set (meta_suffix v)"
    and "CHR ''+'' \<notin> set (pre_suffix v)"
    and "CHR '','' \<notin> set (pre_suffix v)" and "CHR '','' \<notin> set (meta_suffix v)"
  using assms
  by (auto simp: wf_version_def pre_suffix_def meta_suffix_def list_all_iff dest: valid_not_special)

lemma number_chars:
  assumes "wf_version v" and "\<not> is_digit c"
  shows "c \<notin> set (itoa (vMajor v))" and "c \<notin> set (itoa (vMinor v))" and "c \<notin> set (itoa (vPatch v))"
  using assms by (auto simp: wf_version_def list_all_iff dest: itoa_digits)

lemma not_digit_marks [simp]:
  "\<not> is_digit CHR ''M''" "\<not> is_digit CHR ''m''" "\<not> is_digit CHR ''p''" "\<not> is_digit CHR ''-''"
  "\<not> is_digit CHR ''+''" "\<not> is_digit CHR ''!''" "\<not> is_digit CHR ''.''" "\<not> is_digit CHR '',''"
  by (simp_all add: is_digit_def)

text \<open>The format strings that show every component a version has.\<close>

definition full_format :: "Version \<Rightarrow> string \<Rightarrow> bool" where
  "full_format v f = (f = [] \<or> f = Complete \<or> f = canonical_format v)"

lemma Format_numbers:
  assumes "wf_version v" and "t = ''-?+?'' \<or> t = ''-?'' \<or> t = ''+?'' \<or> t = []"
  shows "replace_all (replace_all (replace_all (''M.m.p'' @ t) ''M'' (itoa (vMajor v)))
            ''m'' (itoa (vMinor v))) ''p'' (itoa (vPatch v))
         = itoa (vMajor v) @ ''.'' @ itoa (vMinor v) @ ''.'' @ itoa (vPatch v) @ t"
  using assms(2) number_chars [OF assms(1), of "CHR ''m''"] number_chars [OF assms(1), of "CHR ''p''"]
  by (elim disjE) (simp_all add: replace_all_literal)

lemma Format_pre_meta:
  assumes wf: "wf_version v"
    and n: "CHR ''-'' \<notin> set n" "CHR ''+'' \<notin> set n" "CHR ''!'' \<notin> set n"
    and t: "t = ''-?+?'' \<or>
            t = (if vPre v \<noteq> [] then ''-?'' else []) @ (if vMeta v \<noteq> [] then ''+?'' else [])"
  shows "replace_all (replace_all (replace_all (replace_all (n @ t) ''-?'' (pre_suffix v))
           ''+?'' (meta_suffix v)) ''-!'' (vPre v)) ''+!'' (vMeta v) = n @ pre_suffix v @ meta_suffix v"
proof -
  have 1: "replace_all (n @ t) ''-?'' (pre_suffix v)
           = n @ pre_suffix v @ (if t = ''-?+?'' \<or> vMeta v \<noteq> [] then ''+?'' else [])"
    using t
  proof
    assume "t = ''-?+?''"
    with n(1) show ?thesis by (simp add: replace_all_literal)
  next
    assume "t = (if vPre v \<noteq> [] then ''-?'' else []) @ (if vMeta v \<noteq> [] then ''+?'' else [])"
    with n(1) show ?thesis
      by (cases "vPre v"; cases "vMeta v")
        (simp_all add: replace_all_literal pre_suffix_def replace_all_absent [where c = "CHR ''-''"])
  qed
  have "replace_all ((n @ pre_suffix v) @ (if t = ''-?+?'' \<or> vMeta v \<noteq> [] then ''+?'' else []))
              ''+?'' (meta_suffix v) = (n @ pre_suffix v) @ meta_suffix v"
    using n suffix_chars(3) [OF wf]
    by (subst replace_all_prefix) (simp_all add: replace_all_literal meta_suffix_def)
  then have 2: "replace_all (n @ pre_suffix v @ (if t = ''-?+?'' \<or> vMeta v \<noteq> [] then ''+?'' else []))
              ''+?'' (meta_suffix v) = n @ pre_suffix v @ meta_suffix v" by simp
  have "CHR ''!'' \<notin> set (n @ pre_suffix v @ meta_suffix v)"
    using n suffix_chars(1,2) [OF wf] by simp
  then show ?thesis
    unfolding 1 2 by (simp add: replace_all_absent [where c = "CHR ''!''"])
qed

lemma Version_Format_text:
  assumes wf: "wf_version v" and f: "full_format v f"
  shows "Version_Format v f = version_text v"
proof -
  let ?pm = "(if vPre v \<noteq> [] then ''-?'' else []) @ (if vMeta v \<noteq> [] then ''+?'' else [])"
  let ?n = "itoa (vMajor v) @ ''.'' @ itoa (vMinor v) @ ''.'' @ itoa (vPatch v)"
  obtain t where ft: "(if f = [] then Complete else f) = ''M.m.p'' @ t" and t: "t = ''-?+?'' \<or> t = ?pm"
    using f by (auto simp: full_format_def Complete_def canonical_format_def)
  have n: "CHR ''-'' \<notin> set ?n" "CHR ''+'' \<notin> set ?n" "CHR ''!'' \<notin> set ?n"
    using number_chars [OF wf, of "CHR ''-''"] number_chars [OF wf, of "CHR ''+''"]
      number_chars [OF wf, of "CHR ''!''"] by simp_all
  have nums: "replace_all (replace_all (replace_all (''M.m.p'' @ t) ''M'' (itoa (vMajor v)))
            ''m'' (itoa (vMinor v))) ''p'' (itoa (vPatch v)) = ?n @ t"
    using Format_numbers [OF wf, of t] t by (auto split: if_splits)
  have "Version_Format v f =
      replace_all (replace_all (replace_all (replace_all (?n @ t) ''-?'' (pre_suffix v))
           ''+?'' (meta_suffix v)) ''-!'' (vPre v)) ''+!'' (vMeta v)"
    unfolding Version_Format_def Let_def ft nums pre_suffix_def meta_suffix_def by simp
  also have "\<dots> = ?n @ pre_suffix v @ meta_suffix v"
    by (rule Format_pre_meta [OF wf n t])
  finally show ?thesis by (simp add: version_text_def)
qed

lemma parse_accept:
  assumes "accepts (pmode st) c"
  shows "parse_loop i st (c # cs) = parse_loop (Suc i) (write_rune c (mark_mode st)) cs"
  using assms
  by (cases "pmode st")
    (auto simp: parse_loop.simps accepts_def changeMode_def mark_mode_def write_rune_def Let_def
       dest: is_digit_not_mark valid_not_special)

text \<open>The state after a run of accepted characters: the mode stays, the buffer of the mode grows.\<close>

definition put_run :: "string \<Rightarrow> pstate \<Rightarrow> pstate" where
  "put_run ds st = (case pmode st of
      ModeMajor \<Rightarrow> st\<lparr>bMajor := bMajor st @ ds\<rparr>
    | ModeMinor \<Rightarrow> st\<lparr>bMinor := bMinor st @ ds, parsedMinor := True\<rparr>
    | ModePatch \<Rightarrow> st\<lparr>bPatch := bPatch st @ ds, parsedPatch := True\<rparr>
    | ModePre \<Rightarrow> st\<lparr>bPre := bPre st @ ds, parsedPre := True\<rparr>
    | ModeMeta \<Rightarrow> st\<lparr>bMeta := bMeta st @ ds, parsedMeta := True\<rparr>)"

lemma put_run_step: "put_run ds (write_rune c (mark_mode st)) = put_run (c # ds) st"
  by (cases "pmode st") (simp_all add: put_run_def write_rune_def mark_mode_def)

lemma write_rune_put_run: "write_rune c (mark_mode st) = put_run [c] st"
  by (cases "pmode st") (simp_all add: put_run_def write_rune_def mark_mode_def)

lemma pmode_put_run [simp]: "pmode (put_run ds st) = pmode st"
  by (cases "pmode st") (simp_all add: put_run_def)

lemma parse_run:
  assumes "list_all (accepts (pmode st)) ds" and "ds \<noteq> []"
  shows "parse_loop i st (ds @ cs) = parse_loop (i + length ds) (put_run ds st) cs"
  using assms
proof (induction ds arbitrary: i st)
  case (Cons c ds)
  then have c: "parse_loop i st ((c # ds) @ cs) = parse_loop (Suc i) (put_run [c] st) (ds @ cs)"
    by (simp add: parse_accept write_rune_put_run)
  show ?case
  proof (cases "ds = []")
    case False
    with Cons have "parse_loop (Suc i) (put_run [c] st) (ds @ cs)
        = parse_loop (Suc i + length ds) (put_run ds (put_run [c] st)) cs"
      by simp
    then show ?thesis
      unfolding c by (simp add: put_run_step write_rune_put_run [symmetric])
  qed (use c in simp)
qed simp

lemma parse_mark:
  "pmode st = ModeMajor \<Longrightarrow> parse_loop i st (CHR ''.'' # cs) = parse_loop (Suc i) (st\<lparr>pmode := ModeMinor\<rparr>) cs"
  "pmode st = ModeMinor \<Longrightarrow> parsedMinor st \<Longrightarrow>
     parse_loop i st (CHR ''.'' # cs) = parse_loop (Suc i) (st\<lparr>pmode := ModePatch\<rparr>) cs"
  "pmode st = ModePatch \<Longrightarrow> parsedPatch st \<Longrightarrow>
     parse_loop i st (CHR ''-'' # cs) = parse_loop (Suc i) (st\<lparr>pmode := ModePre\<rparr>) cs"
  "pmode st = ModePatch \<Longrightarrow> parsedPatch st \<Longrightarrow>
     parse_loop i st (CHR ''+'' # cs) = parse_loop (Suc i) (st\<lparr>pmode := ModeMeta\<rparr>) cs"
  "pmode st = ModePre \<Longrightarrow> parsedPre st \<Longrightarrow>
     parse_loop i st (CHR ''+'' # cs) = parse_loop (Suc i) (st\<lparr>pmode := ModeMeta\<rparr>) cs"
  by (cases st; simp add: parse_loop.simps mark_mode_def changeMode_def Let_def)+

text \<open>The state of the loop after the three numbers, and at the end of a well-formed text.\<close>

definition numbers_pstate :: "Version \<Rightarrow> pstate" where
  "numbers_pstate v =
     \<lparr>pmode = ModePatch, bMajor = itoa (vMajor v), bMinor = itoa (vMinor v),
      bPatch = itoa (vPatch v), bPre = [], bMeta = [], parsedMinor = True, parsedPatch = True,
      parsedPre = False, parsedMeta = False\<rparr>"

definition version_pstate :: "Version \<Rightarrow> pstate" where
  "version_pstate v = (numbers_pstate v)
     \<lparr>pmode := (if vMeta v \<noteq> [] then ModeMeta else if vPre v \<noteq> [] then ModePre else ModePatch),
      bPre := vPre v, bMeta := vMeta v, parsedPre := (vPre v \<noteq> []), parsedMeta := (vMeta v \<noteq> [])\<rparr>"

lemma accepts_number:
  assumes "0 \<le> n" and "m \<noteq> ModePre" and "m \<noteq> ModeMeta"
  shows "list_all (accepts m) (itoa n)"
  using itoa_digits [OF assms(1)] assms by (simp add: accepts_def list_all_iff)

lemma parse_numbers:
  assumes "wf_version v"
  shows "\<exists>j. parse_loop 0 pstart (itoa (vMajor v) @ ''.'' @ itoa (vMinor v) @ ''.'' @ itoa (vPatch v) @ cs)
     = parse_loop j (numbers_pstate v) cs"
  using assms unfolding wf_version_def pstart_def numbers_pstate_def
  by (simp add: parse_run accepts_number put_run_def parse_mark) blast

lemma parse_suffixes:
  assumes "wf_version v"
  shows "parse_loop j (numbers_pstate v) (pre_suffix v @ meta_suffix v) = (version_pstate v, None)"
proof -
  have a: "list_all (accepts ModePre) (vPre v)" "list_all (accepts ModeMeta) (vMeta v)"
    using assms by (simp_all add: wf_version_def accepts_def list_all_iff)
  note run = parse_run [where cs = "[]", simplified]
  show ?thesis
    using a
    by (cases "vPre v = []"; cases "vMeta v = []")
      (simp_all add: pre_suffix_def meta_suffix_def numbers_pstate_def version_pstate_def
         parse_mark parse_run run put_run_def)
qed

lemma atoi_number: "0 \<le> n \<Longrightarrow> in_int64 n \<Longrightarrow> atoi (itoa n) = Some n"
  by (simp add: atoi_itoa)

lemma finalise_version:
  assumes "wf_version v" and "vDefaultFormat v = canonical_format v"
  shows "\<exists>errs. finalise (version_pstate v) [] = (v, errs) \<and> list_all tolerated errs"
proof -
  have *: "list_all tolerated (validateMMPFormat (itoa n) nm)" for n nm
    by (simp add: validateMMPFormat_def)
  show ?thesis
    using assms
    by (cases v)
      (auto simp: finalise_def version_pstate_def numbers_pstate_def wf_version_def atoi_itoa
         Let_def zeroVersion_def canonical_format_def *)
qed

lemma Semv_Parse_String:
  assumes "wf_version v" and "vDefaultFormat v = canonical_format v"
  shows "Semv_Parse (Version_String v) = (v, None)"
proof -
  have s: "Version_String v = itoa (vMajor v) @ ''.'' @ itoa (vMinor v) @ ''.'' @ itoa (vPatch v)
             @ pre_suffix v @ meta_suffix v"
    using Version_Format_text [OF assms(1), of "vDefaultFormat v"] assms
    by (simp add: Version_String_def full_format_def version_text_def)
  have "parse_loop 0 pstart (Version_String v) = (version_pstate v, None)"
    unfolding s using parse_numbers [OF assms(1)] parse_suffixes [OF assms(1)] by metis
  moreover have "parsedMinor (version_pstate v)" "parsedPatch (version_pstate v)"
    by (simp_all add: version_pstate_def numbers_pstate_def)
  ultimately have "semv_parse (Version_String v) = finalise (version_pstate v) []"
    by (simp add: semv_parse_def)
  with finalise_version [OF assms] show ?thesis
    by (auto simp: Semv_Parse_def list_all_iff filter_empty_conv split: list.splits
         dest: filter_eq_ConsD)
qed

end
