(* ===== verification/Source_IDs.thy ===== *)
theory Source_IDs
  imports Semv
begin

text \<open>
  Identifiers and their textual forms: \<open>SourceLocation\<close> (\<open>lib/source_location.go\<close>),
  \<open>SourceID\<close> (\<open>lib/source_id.go\<close>), \<open>ManifestID\<close> (\<open>lib/manifest_id.go\<close>), \<open>DeploymentID\<close>
  (\<open>lib/deploymentid.go\<close>) and the source hosts (\<open>lib/source_host.go\<close>,
  \<open>lib/source_host_chooser.go\<close>). Unicode normalisation (\<open>norm.NFC.String\<close> of
  \<open>golang.org/x/text\<close>) is the argument \<open>nfc\<close>; MD5 is the argument \<open>md5sum\<close>; the
  \<open>unmarshal\<close> callback of the YAML package is represented by what it delivers.

  The locale \<open>codec\<close> states what a printer and a parser owe each other; it is interpreted
  on each of the four identifier types.
\<close>

section \<open>Data\<close>

record SourceLocation =
  slRepo :: string
  slDir :: string

record SourceID =
  sidLocation :: SourceLocation
  sidVersion :: Version

record ManifestID =
  midSource :: SourceLocation
  midFlavor :: string

record DeploymentID =
  didManifestID :: ManifestID
  didCluster :: string

datatype id_error =
    MissingRepo string
  | MissingVersion string string
  | MissingPath string string
  | IncludesVersion string
  | VersionError semv_error
  | IllegalManifestID string
  | EmptyDeploymentID
  | NoColon
  | NotARepo string
  | NotRecognised string
  | UnmarshalError string

definition zeroLocation :: SourceLocation where
  "zeroLocation = \<lparr>slRepo = [], slDir = []\<rparr>"

definition zeroManifestID :: ManifestID where
  "zeroManifestID = \<lparr>midSource = zeroLocation, midFlavor = []\<rparr>"

section \<open>Source locations\<close>

definition NewSourceLocation :: "string \<Rightarrow> string \<Rightarrow> SourceLocation" where
  "NewSourceLocation repoURL repoOffset = \<lparr>slRepo = repoURL, slDir = repoOffset\<rparr>"

definition DefaultDelim :: char where
  "DefaultDelim = CHR '',''"

text \<open>The characters after which \<open>parseChunks\<close> keeps the default delimiter.\<close>

definition plain_start :: "char \<Rightarrow> bool" where
  "plain_start c =
     ((65 \<le> (of_char c :: nat) \<and> (of_char c :: nat) \<le> 90)
      \<or> (97 \<le> (of_char c :: nat) \<and> (of_char c :: nat) \<le> 122)
      \<or> (48 \<le> (of_char c :: nat) \<and> (of_char c :: nat) \<le> 57)
      \<or> c = CHR ''.'' \<or> c = CHR ''/'')"

text \<open>\<open>source[0]\<close> panics if normalisation delivers an empty string.\<close>

definition parseChunks :: "(string \<Rightarrow> string) \<Rightarrow> string \<Rightarrow> (id_error, string list) outcome" where
  "parseChunks nfc sourceStr =
     (if sourceStr = [] then Ok []
      else case nfc sourceStr of
          [] \<Rightarrow> Panic
        | c # rest \<Rightarrow>
            if \<not> plain_start c then Ok (split_on c rest)
            else Ok (split_on DefaultDelim (c # rest)))"

definition sourceLocationFromChunks :: "string \<Rightarrow> string list \<Rightarrow> (id_error, SourceLocation) outcome" where
  "sourceLocationFromChunks source chunks =
     (if length chunks > 2 then Err (IncludesVersion source)
      else if chunks = [] \<or> hd chunks = [] then Err (MissingRepo source)
      else let repoURL = chunks ! 0;
               repoOffset = (if length chunks > 1 then chunks ! 1 else [])
           in Ok \<lparr>slRepo = repoURL, slDir = repoOffset\<rparr>)"

definition ParseSourceLocation :: "(string \<Rightarrow> string) \<Rightarrow> string \<Rightarrow> (id_error, SourceLocation) outcome" where
  "ParseSourceLocation nfc s =
     (case parseChunks nfc s of
        Ok chunks \<Rightarrow> sourceLocationFromChunks s chunks | Err e \<Rightarrow> Err e | Panic \<Rightarrow> Panic)"

definition MustParseSourceLocation :: "(string \<Rightarrow> string) \<Rightarrow> string \<Rightarrow> (id_error, SourceLocation) outcome" where
  "MustParseSourceLocation nfc s =
     (case ParseSourceLocation nfc s of Ok sl \<Rightarrow> Ok sl | _ \<Rightarrow> Panic)"

definition SourceLocation_String :: "SourceLocation \<Rightarrow> string" where
  "SourceLocation_String sl =
     (if slDir sl = [] then slRepo sl else slRepo sl @ '','' @ slDir sl)"

definition SourceLocation_MarshalYAML :: "SourceLocation \<Rightarrow> (id_error, string) outcome" where
  "SourceLocation_MarshalYAML sl = Ok (SourceLocation_String sl)"

definition SourceLocation_MarshalText :: "SourceLocation \<Rightarrow> (id_error, string) outcome" where
  "SourceLocation_MarshalText sl = Ok (SourceLocation_String sl)"

text \<open>The new value of the receiver; parse errors are dropped, only a panic gets through.\<close>

definition SourceLocation_UnmarshalText ::
    "(string \<Rightarrow> string) \<Rightarrow> string \<Rightarrow> (id_error, SourceLocation) outcome" where
  "SourceLocation_UnmarshalText nfc b =
     (case ParseSourceLocation nfc b of
        Ok sl \<Rightarrow> Ok sl | Err _ \<Rightarrow> Ok zeroLocation | Panic \<Rightarrow> Panic)"

definition SourceLocation_UnmarshalYAML ::
    "(string \<Rightarrow> string) \<Rightarrow> string + string \<Rightarrow> (id_error, SourceLocation) outcome" where
  "SourceLocation_UnmarshalYAML nfc unmarshalled =
     (case unmarshalled of Inl e \<Rightarrow> Err (UnmarshalError e) | Inr s \<Rightarrow> ParseSourceLocation nfc s)"

definition SourceLocation_SourceID :: "SourceLocation \<Rightarrow> Version \<Rightarrow> SourceID" where
  "SourceLocation_SourceID sl version = \<lparr>sidLocation = sl, sidVersion = version\<rparr>"

definition ShortName :: "SourceLocation \<Rightarrow> (id_error, string) outcome" where
  "ShortName sl =
     (let splitRepo = split_on CHR ''/'' (slRepo sl)
      in if length splitRepo < 3 then Err (NotARepo (slRepo sl)) else Ok (last splitRepo))"

section \<open>Source IDs\<close>

definition MakeSourceID :: "string \<Rightarrow> string \<Rightarrow> string \<Rightarrow> (id_error, SourceID) outcome" where
  "MakeSourceID repo dir version =
     (case Semv_Parse version of
        (v, None) \<Rightarrow> Ok \<lparr>sidLocation = \<lparr>slRepo = repo, slDir = dir\<rparr>, sidVersion = v\<rparr>
      | (v, Some e) \<Rightarrow> Panic)"

definition SourceID_String :: "SourceID \<Rightarrow> string" where
  "SourceID_String sid =
     (if slDir (sidLocation sid) = []
      then slRepo (sidLocation sid) @ '','' @ Version_String (sidVersion sid)
      else slRepo (sidLocation sid) @ '','' @ Version_String (sidVersion sid) @ '','' @ slDir (sidLocation sid))"

definition SourceID_QueryValues :: "SourceID \<Rightarrow> (string, string list) gomap" where
  "SourceID_QueryValues sid =
     gset ''version'' [Version_String (sidVersion sid)]
       (gset ''offset'' [slDir (sidLocation sid)]
         (gset ''repo'' [slRepo (sidLocation sid)] []))"

definition SourceID_Tag :: "SourceID \<Rightarrow> string" where
  "SourceID_Tag sid = Version_Format (sidVersion sid) MajorMinorPatch"

definition SourceID_RevID :: "SourceID \<Rightarrow> string" where
  "SourceID_RevID sid = vMeta (sidVersion sid)"

definition SourceID_Equal :: "SourceID \<Rightarrow> SourceID \<Rightarrow> bool" where
  "SourceID_Equal sid o' =
     (if \<not> Version_Equals (sidVersion sid) (sidVersion o') then False
      else sid\<lparr>sidVersion := sidVersion o'\<rparr> = o')"

text \<open>\<open>chunks[0]\<close> and \<open>chunks[1]\<close> are read without a length check.\<close>

definition sourceIDFromChunks :: "string \<Rightarrow> string list \<Rightarrow> (id_error, SourceID) outcome" where
  "sourceIDFromChunks source chunks =
     (if chunks = [] then Panic
      else if chunks ! 0 = [] then Err (MissingRepo source)
      else if length chunks < 2 then Panic
      else case Semv_Parse (chunks ! 1) of
          (v, Some e) \<Rightarrow> Err (VersionError e)
        | (v, None) \<Rightarrow>
            Ok \<lparr>sidLocation = \<lparr>slRepo = chunks ! 0, slDir = (if length chunks > 2 then chunks ! 2 else [])\<rparr>,
                sidVersion = v\<rparr>)"

definition ParseSourceID :: "(string \<Rightarrow> string) \<Rightarrow> string \<Rightarrow> (id_error, SourceID) outcome" where
  "ParseSourceID nfc s =
     (case parseChunks nfc s of
        Ok chunks \<Rightarrow> sourceIDFromChunks s chunks | Err e \<Rightarrow> Err e | Panic \<Rightarrow> Panic)"

definition MustParseSourceID :: "(string \<Rightarrow> string) \<Rightarrow> string \<Rightarrow> (id_error, SourceID) outcome" where
  "MustParseSourceID nfc s = (case ParseSourceID nfc s of Ok sid \<Rightarrow> Ok sid | _ \<Rightarrow> Panic)"

definition NewSourceID :: "string \<Rightarrow> string \<Rightarrow> string \<Rightarrow> (id_error, SourceID) outcome" where
  "NewSourceID repo offset version =
     (case Semv_Parse version of
        (v, Some e) \<Rightarrow> Err (VersionError e)
      | (v, None) \<Rightarrow> Ok \<lparr>sidLocation = \<lparr>slRepo = repo, slDir = offset\<rparr>, sidVersion = v\<rparr>)"

definition MustNewSourceID :: "string \<Rightarrow> string \<Rightarrow> string \<Rightarrow> (id_error, SourceID) outcome" where
  "MustNewSourceID repo offset version =
     (case NewSourceID repo offset version of Ok sid \<Rightarrow> Ok sid | _ \<Rightarrow> Panic)"

section \<open>Manifest IDs\<close>

definition FlavorSeparator :: char where
  "FlavorSeparator = CHR ''~''"

definition ManifestID_String :: "ManifestID \<Rightarrow> string" where
  "ManifestID_String mid =
     (let f = (if midFlavor mid \<noteq> [] then FlavorSeparator # midFlavor mid else [])
      in SourceLocation_String (midSource mid) @ f)"

definition ManifestID_QueryMap :: "ManifestID \<Rightarrow> (string, string) gomap" where
  "ManifestID_QueryMap mid =
     gset ''flavor'' (midFlavor mid)
       (gset ''offset'' (slDir (midSource mid)) (gset ''repo'' (slRepo (midSource mid)) []))"

definition ManifestID_MarshalText :: "ManifestID \<Rightarrow> (id_error, string) outcome" where
  "ManifestID_MarshalText mid = Ok (ManifestID_String mid)"

text \<open>
  \<open>UnmarshalText\<close> updates its receiver \<open>mid\<close>: a text with no separator leaves the
  receiver's flavor as it was.
\<close>

definition ManifestID_UnmarshalText ::
    "(string \<Rightarrow> string) \<Rightarrow> ManifestID \<Rightarrow> string \<Rightarrow> (id_error, ManifestID) outcome" where
  "ManifestID_UnmarshalText nfc mid b =
     (let parts = split_on FlavorSeparator b
      in if length parts > 2 then Err (IllegalManifestID b)
         else case SourceLocation_UnmarshalText nfc (parts ! 0) of
             Panic \<Rightarrow> Panic | Err e \<Rightarrow> Err e
           | Ok sl \<Rightarrow>
               let mid' = mid\<lparr>midSource := sl\<rparr>
               in Ok (if length parts = 2 then mid'\<lparr>midFlavor := parts ! 1\<rparr> else mid'))"

definition ManifestID_MarshalYAML :: "ManifestID \<Rightarrow> (id_error, string) outcome" where
  "ManifestID_MarshalYAML mid = Ok (ManifestID_String mid)"

definition ManifestID_UnmarshalYAML ::
    "(string \<Rightarrow> string) \<Rightarrow> ManifestID \<Rightarrow> string + string \<Rightarrow> (id_error, ManifestID) outcome" where
  "ManifestID_UnmarshalYAML nfc mid unmarshalled =
     (case unmarshalled of Inl e \<Rightarrow> Err (UnmarshalError e) | Inr s \<Rightarrow> ManifestID_UnmarshalText nfc mid s)"

definition ParseManifestID :: "(string \<Rightarrow> string) \<Rightarrow> string \<Rightarrow> (id_error, ManifestID) outcome" where
  "ParseManifestID nfc s = ManifestID_UnmarshalText nfc zeroManifestID s"

definition MustParseManifestID :: "(string \<Rightarrow> string) \<Rightarrow> string \<Rightarrow> (id_error, ManifestID) outcome" where
  "MustParseManifestID nfc s = (case ParseManifestID nfc s of Ok mid \<Rightarrow> Ok mid | _ \<Rightarrow> Panic)"

section \<open>Deployment IDs\<close>

definition ParseDeploymentID :: "(string \<Rightarrow> string) \<Rightarrow> string \<Rightarrow> (id_error, DeploymentID) outcome" where
  "ParseDeploymentID nfc s =
     (if s = [] then Err EmptyDeploymentID
      else let clusterManifest = split_n2 CHR '':'' s
           in if length clusterManifest \<noteq> 2 then Err NoColon
              else case ParseManifestID nfc (clusterManifest ! 1) of
                  Panic \<Rightarrow> Panic | Err e \<Rightarrow> Err e
                | Ok manifestID \<Rightarrow> Ok \<lparr>didManifestID = manifestID, didCluster = clusterManifest ! 0\<rparr>)"

definition DeploymentID_digest_input :: "DeploymentID \<Rightarrow> string" where
  "DeploymentID_digest_input did =
     SourceLocation_String (midSource (didManifestID did)) @ [char_of (0 :: nat)]
       @ midFlavor (didManifestID did) @ [char_of (0 :: nat)] @ didCluster did"

definition DeploymentID_Digest :: "(string \<Rightarrow> string) \<Rightarrow> DeploymentID \<Rightarrow> string" where
  "DeploymentID_Digest md5sum did = md5sum (DeploymentID_digest_input did)"

definition DeploymentID_String :: "DeploymentID \<Rightarrow> string" where
  "DeploymentID_String did = didCluster did @ '':'' @ ManifestID_String (didManifestID did)"

definition DeploymentID_QueryMap :: "DeploymentID \<Rightarrow> (string, string) gomap" where
  "DeploymentID_QueryMap did =
     gset ''flavor'' (midFlavor (didManifestID did))
       (gset ''offset'' (slDir (midSource (didManifestID did)))
         (gset ''cluster'' (didCluster did)
           (gset ''repo'' (slRepo (midSource (didManifestID did))) [])))"

section \<open>Source hosts\<close>

text \<open>The two parsing methods and \<open>Owns\<close> of the interface \<open>SourceHost\<close>, as a value.\<close>

record SourceHost =
  hCanParseSourceLocation :: "string \<Rightarrow> bool"
  hParseSourceLocation :: "string \<Rightarrow> (id_error, SourceLocation) outcome"
  hOwns :: "SourceLocation \<Rightarrow> bool"

definition GenericHost :: "(string \<Rightarrow> string) \<Rightarrow> SourceHost" where
  "GenericHost nfc = \<lparr>hCanParseSourceLocation = (\<lambda>_. True),
     hParseSourceLocation = ParseSourceLocation nfc, hOwns = (\<lambda>_. True)\<rparr>"

fun SourceHostChooser_ParseSourceLocation ::
    "SourceHost list \<Rightarrow> string \<Rightarrow> (id_error, SourceLocation) outcome" where
  "SourceHostChooser_ParseSourceLocation [] s = Err (NotRecognised s)"
| "SourceHostChooser_ParseSourceLocation (h # hs) s =
     (if hCanParseSourceLocation h s then hParseSourceLocation h s
      else SourceHostChooser_ParseSourceLocation hs s)"

section \<open>Printers and parsers\<close>

text \<open>
  What a printer and a parser owe each other: on the values of the carrier, parsing the
  printed form gives the value back. So the printed form identifies the value, which is what
  lets it serve as a map key in serialised state.
\<close>

locale codec =
  fixes carrier :: "'a \<Rightarrow> bool"
    and print :: "'a \<Rightarrow> string"
    and parse :: "string \<Rightarrow> (id_error, 'a) outcome"
  assumes parse_print: "carrier x \<Longrightarrow> parse (print x) = Ok x"
begin

lemma print_inj: "carrier x \<Longrightarrow> carrier y \<Longrightarrow> print x = print y \<longleftrightarrow> x = y"
  using parse_print by (metis outcome.inject(1))

lemma print_image_inj: "(\<And>x. x \<in> A \<Longrightarrow> carrier x) \<Longrightarrow> inj_on print A"
  by (auto intro: inj_onI simp: print_inj)

end

text \<open>
  The locations that survive a round trip: a repository that starts with a letter, digit,
  dot or slash, no delimiter in either part, and a text that is already normalised.
\<close>

definition wf_location :: "(string \<Rightarrow> string) \<Rightarrow> SourceLocation \<Rightarrow> bool" where
  "wf_location nfc sl =
     (slRepo sl \<noteq> [] \<and> plain_start (hd (slRepo sl))
      \<and> DefaultDelim \<notin> set (slRepo sl) \<and> DefaultDelim \<notin> set (slDir sl)
      \<and> nfc (SourceLocation_String sl) = SourceLocation_String sl)"

definition wf_manifest_id :: "(string \<Rightarrow> string) \<Rightarrow> ManifestID \<Rightarrow> bool" where
  "wf_manifest_id nfc mid =
     (wf_location nfc (midSource mid)
      \<and> FlavorSeparator \<notin> set (slRepo (midSource mid)) \<and> FlavorSeparator \<notin> set (slDir (midSource mid))
      \<and> FlavorSeparator \<notin> set (midFlavor mid))"

definition wf_deployment_id :: "(string \<Rightarrow> string) \<Rightarrow> DeploymentID \<Rightarrow> bool" where
  "wf_deployment_id nfc did = (wf_manifest_id nfc (didManifestID did) \<and> CHR '':'' \<notin> set (didCluster did))"

definition wf_source_id :: "(string \<Rightarrow> string) \<Rightarrow> SourceID \<Rightarrow> bool" where
  "wf_source_id nfc sid =
     (slRepo (sidLocation sid) \<noteq> [] \<and> plain_start (hd (slRepo (sidLocation sid)))
      \<and> DefaultDelim \<notin> set (slRepo (sidLocation sid)) \<and> DefaultDelim \<notin> set (slDir (sidLocation sid))
      \<and> nfc (SourceID_String sid) = SourceID_String sid
      \<and> wf_version (sidVersion sid)
      \<and> vDefaultFormat (sidVersion sid) = canonical_format (sidVersion sid))"

lemma parseChunks_plain:
  assumes "s \<noteq> []" and "plain_start (hd s)" and "nfc s = s"
  shows "parseChunks nfc s = Ok (split_on DefaultDelim s)"
  using assms by (cases s) (simp_all add: parseChunks_def)

lemma location_chunks:
  assumes "wf_location nfc sl"
  shows "parseChunks nfc (SourceLocation_String sl)
         = Ok (if slDir sl = [] then [slRepo sl] else [slRepo sl, slDir sl])"
proof -
  have "hd (SourceLocation_String sl) = hd (slRepo sl)" "SourceLocation_String sl \<noteq> []"
    using assms by (auto simp: wf_location_def SourceLocation_String_def)
  then have "parseChunks nfc (SourceLocation_String sl) = Ok (split_on DefaultDelim (SourceLocation_String sl))"
    using assms by (simp add: parseChunks_plain wf_location_def)
  then show ?thesis
    using assms by (auto simp: wf_location_def SourceLocation_String_def DefaultDelim_def split_on_append)
qed

lemma ParseSourceLocation_String:
  "wf_location nfc sl \<Longrightarrow> ParseSourceLocation nfc (SourceLocation_String sl) = Ok sl"
  by (simp add: ParseSourceLocation_def location_chunks sourceLocationFromChunks_def wf_location_def)

lemma UnmarshalText_location_String [simp]:
  "wf_location nfc sl \<Longrightarrow> SourceLocation_UnmarshalText nfc (SourceLocation_String sl) = Ok sl"
  by (simp add: SourceLocation_UnmarshalText_def ParseSourceLocation_String)

lemma location_String_set:
  "c \<in> set (SourceLocation_String sl) \<Longrightarrow> c \<in> set (slRepo sl) \<or> c \<in> set (slDir sl) \<or> c = DefaultDelim"
  by (auto simp: SourceLocation_String_def DefaultDelim_def split: if_splits)

lemma ParseManifestID_String:
  assumes "wf_manifest_id nfc mid"
  shows "ParseManifestID nfc (ManifestID_String mid) = Ok mid"
proof -
  let ?s = "SourceLocation_String (midSource mid)"
  have loc: "wf_location nfc (midSource mid)" and fl: "FlavorSeparator \<notin> set (midFlavor mid)"
    using assms by (simp_all add: wf_manifest_id_def)
  have s: "FlavorSeparator \<notin> set ?s"
    using assms location_String_set [of FlavorSeparator "midSource mid"]
    by (auto simp: wf_manifest_id_def FlavorSeparator_def DefaultDelim_def)
  have "split_on FlavorSeparator (ManifestID_String mid)
        = (if midFlavor mid = [] then [?s] else [?s, midFlavor mid])"
    using s fl by (simp add: ManifestID_String_def split_on_append)
  with loc show ?thesis
    by (cases mid) (auto simp: ParseManifestID_def ManifestID_UnmarshalText_def zeroManifestID_def)
qed

lemma ParseDeploymentID_String:
  assumes "wf_deployment_id nfc did"
  shows "ParseDeploymentID nfc (DeploymentID_String did) = Ok did"
  using assms
  by (simp add: ParseDeploymentID_def DeploymentID_String_def split_n2_append wf_deployment_id_def
        ParseManifestID_String)

lemma version_no_delim:
  assumes "wf_version v" and "vDefaultFormat v = canonical_format v"
  shows "DefaultDelim \<notin> set (Version_String v)"
  using Version_Format_text [OF assms(1), of "vDefaultFormat v"] assms(2)
    number_chars [OF assms(1), of "CHR '',''"] suffix_chars [OF assms(1)]
  by (auto simp: Version_String_def full_format_def version_text_def DefaultDelim_def)

lemma ParseSourceID_String:
  assumes "wf_source_id nfc sid"
  shows "ParseSourceID nfc (SourceID_String sid) = Ok sid"
proof -
  let ?v = "Version_String (sidVersion sid)" and ?l = "sidLocation sid"
  have wf: "wf_version (sidVersion sid)" "vDefaultFormat (sidVersion sid) = canonical_format (sidVersion sid)"
    and l: "slRepo ?l \<noteq> []" "DefaultDelim \<notin> set (slRepo ?l)" "DefaultDelim \<notin> set (slDir ?l)"
    using assms by (simp_all add: wf_source_id_def)
  have d: "DefaultDelim \<notin> set ?v"
    by (rule version_no_delim [OF wf])
  have "hd (SourceID_String sid) = hd (slRepo ?l)" "SourceID_String sid \<noteq> []"
    using l by (auto simp: SourceID_String_def)
  then have "parseChunks nfc (SourceID_String sid) = Ok (split_on DefaultDelim (SourceID_String sid))"
    using assms by (simp add: parseChunks_plain wf_source_id_def)
  also have "split_on DefaultDelim (SourceID_String sid)
             = (if slDir ?l = [] then [slRepo ?l, ?v] else [slRepo ?l, ?v, slDir ?l])"
    using l d by (simp add: SourceID_String_def DefaultDelim_def split_on_append)
  finally show ?thesis
    using l by (simp add: ParseSourceID_def sourceIDFromChunks_def Semv_Parse_String [OF wf])
qed

interpretation loc_codec: codec "wf_location nfc" SourceLocation_String "ParseSourceLocation nfc" for nfc
  by unfold_locales (rule ParseSourceLocation_String)

interpretation mid_codec: codec "wf_manifest_id nfc" ManifestID_String "ParseManifestID nfc" for nfc
  by unfold_locales (rule ParseManifestID_String)

interpretation did_codec: codec "wf_deployment_id nfc" DeploymentID_String "ParseDeploymentID nfc" for nfc
  by unfold_locales (rule ParseDeploymentID_String)

interpretation sid_codec: codec "wf_source_id nfc" SourceID_String "ParseSourceID nfc" for nfc
  by unfold_locales (rule ParseSourceID_String)

section \<open>Properties\<close>

text \<open>C32: A well-formed deployment ID is recovered from its text, and the text identifies
  the deployment among all well-formed ones, whatever the normalisation does to other texts.\<close>

theorem deployment_id_roundtrip:
  assumes "wf_deployment_id nfc did"
  shows "ParseDeploymentID nfc (DeploymentID_String did) = Ok did
     \<and> (\<forall>did'. wf_deployment_id nfc did' \<longrightarrow>
          (DeploymentID_String did' = DeploymentID_String did \<longleftrightarrow> did' = did))"
  using assms by (auto simp: did_codec.parse_print did_codec.print_inj)

definition example_did :: DeploymentID where
  "example_did = \<lparr>didManifestID = \<lparr>midSource = \<lparr>slRepo = ''github.com/opentable/sous'', slDir = ''cmd''\<rparr>,
     midFlavor = ''vanilla''\<rparr>, didCluster = ''left''\<rparr>"

lemma wf_example_did: "wf_deployment_id id example_did"
  by (simp add: wf_deployment_id_def wf_manifest_id_def wf_location_def example_did_def plain_start_def
        DefaultDelim_def FlavorSeparator_def)

theorem deployment_id_roundtrip_witness:
  "ParseDeploymentID id ''left:github.com/opentable/sous,cmd~vanilla'' = Ok example_did"
  using deployment_id_roundtrip [OF wf_example_did]
  by (simp add: DeploymentID_String_def ManifestID_String_def SourceLocation_String_def
        FlavorSeparator_def example_did_def)

text \<open>A source ID with a canonical version is recovered from its text
  \<open>repo,version,dir\<close>: location, version numbers, pre-release and revision.\<close>

theorem source_id_roundtrip:
  assumes "wf_source_id nfc sid"
  shows "ParseSourceID nfc (SourceID_String sid) = Ok sid"
  using assms by (rule sid_codec.parse_print)

definition example_sid :: SourceID where
  "example_sid = \<lparr>sidLocation = \<lparr>slRepo = ''github.com/opentable/sous'', slDir = []\<rparr>,
     sidVersion = \<lparr>vMajor = 1, vMinor = 20, vPatch = 3, vPre = ''rc.1'', vMeta = ''abcdef'',
                   vDefaultFormat = ''M.m.p-?+?''\<rparr>\<rparr>"

theorem source_id_roundtrip_witness:
  "ParseSourceID id (SourceID_String example_sid) = Ok example_sid"
  by (rule source_id_roundtrip)
    (simp add: wf_source_id_def example_sid_def plain_start_def DefaultDelim_def wf_version_def
       in_int64_def validPreAndMetaChar_def is_digit_def canonical_format_def)

text \<open>What \<open>ParseSourceID\<close> does with a text of plain start, by the number of its
  comma-separated parts: a text without a comma makes it panic, and otherwise the second part
  has to be a version and the third, if there is one, is the directory.\<close>

theorem ParseSourceID_cases:
  assumes "s \<noteq> []" and "plain_start (hd s)" and "nfc s = s"
  shows "(DefaultDelim \<notin> set s \<longrightarrow> ParseSourceID nfc s = Panic)
     \<and> (\<forall>r t. s = r @ DefaultDelim # t \<and> DefaultDelim \<notin> set r \<longrightarrow>
          ParseSourceID nfc s =
            (case Semv_Parse (hd (split_on DefaultDelim t)) of
               (v, Some e) \<Rightarrow> Err (VersionError e)
             | (v, None) \<Rightarrow> Ok \<lparr>sidLocation = \<lparr>slRepo = r,
                  slDir = (case tl (split_on DefaultDelim t) of [] \<Rightarrow> [] | d # _ \<Rightarrow> d)\<rparr>, sidVersion = v\<rparr>))"
proof (intro conjI impI allI)
  assume "DefaultDelim \<notin> set s"
  with assms show "ParseSourceID nfc s = Panic"
    by (simp add: ParseSourceID_def parseChunks_plain sourceIDFromChunks_def)
next
  fix r t assume st: "s = r @ DefaultDelim # t \<and> DefaultDelim \<notin> set r"
  have r: "r \<noteq> []"
    using assms st by (cases r) (auto simp: plain_start_def DefaultDelim_def)
  obtain c cs where t: "split_on DefaultDelim t = c # cs"
    by (cases "split_on DefaultDelim t") auto
  have "parseChunks nfc s = Ok (r # c # cs)"
    using parseChunks_plain [of s nfc, OF assms] st t by (simp add: split_on_append)
  then show "ParseSourceID nfc s = (case Semv_Parse (hd (split_on DefaultDelim t)) of
               (v, Some e) \<Rightarrow> Err (VersionError e)
             | (v, None) \<Rightarrow> Ok \<lparr>sidLocation = \<lparr>slRepo = r,
                  slDir = (case tl (split_on DefaultDelim t) of [] \<Rightarrow> [] | d # _ \<Rightarrow> d)\<rparr>, sidVersion = v\<rparr>)"
    using r t by (cases cs; cases "Semv_Parse c")
      (auto simp: ParseSourceID_def sourceIDFromChunks_def split: option.splits)
qed

theorem ParseSourceID_cases_witness: "ParseSourceID id ''github.com/opentable/sous'' = Panic"
  using ParseSourceID_cases [of "''github.com/opentable/sous''" id]
  by (simp add: plain_start_def DefaultDelim_def)

end
