(* ===== verification/Deploy_Config.thy ===== *)
theory Deploy_Config
  imports Source_IDs Complex_Main "HOL-Library.Multiset"
begin

text \<open>
  The configuration of a deployment: volumes (\<open>lib/volumes.go\<close>), resources
  (\<open>lib/resources.go\<close>), startup checks (\<open>lib/startup.go\<close>), owner sets
  (\<open>lib/owner_set.go\<close>), \<open>DeployConfig\<close> (\<open>lib/deploy_config.go\<close>), \<open>DeploySpec\<close>
  (\<open>lib/deploy_spec.go\<close>), manifest kinds (\<open>lib/manifestkind.go\<close>) and flaws (\<open>lib/flaw.go\<close>).

  Conventions. A volume list holds no nil pointer: nil entries are the business of
  \<open>NilVolumeFlaw\<close>, which is modelled on lists of optional volumes. The human-readable
  difference strings are values of the type \<open>difference\<close>, one constructor per message with
  the message's arguments. \<open>strconv.ParseFloat\<close> is modelled with its grammar and its range
  error; a finite result is the exact rational, not its nearest double. The slices of failure
  statuses are values: the in-place sorting that \<open>diff\<close> and \<open>UnmergeDefaults\<close> do to their
  arguments shows only in the value they return.
\<close>

section \<open>Volumes\<close>

record Volume =
  volHost :: string
  volContainer :: string
  volMode :: string

type_synonym Volumes = "Volume list"

definition Volume_Equal :: "Volume \<Rightarrow> Volume \<Rightarrow> bool" where
  "Volume_Equal v o' = (volHost v = volHost o' \<and> volContainer v = volContainer o' \<and> volMode v = volMode o')"

text \<open>The inner loop: the first index whose volume equals \<open>v\<close>.\<close>

fun vol_find :: "Volume \<Rightarrow> Volumes \<Rightarrow> nat \<Rightarrow> nat option" where
  "vol_find v [] i = None"
| "vol_find v (ov # c) i = (if Volume_Equal v ov then Some i else vol_find v c (Suc i))"

text \<open>The outer loop: a match is overwritten by the last element and the slice shortened.\<close>

fun vol_match :: "Volumes \<Rightarrow> Volumes \<Rightarrow> bool" where
  "vol_match [] c = (c = [])"
| "vol_match (v # vs) c =
     (case vol_find v c 0 of
        None \<Rightarrow> False
      | Some i \<Rightarrow> vol_match vs (butlast (c[i := last c])))"

definition Volumes_Equal :: "Volumes \<Rightarrow> Volumes \<Rightarrow> bool" where
  "Volumes_Equal vs o' = (if length vs \<noteq> length o' then False else vol_match vs o')"

definition Volumes_Clone :: "Volumes \<Rightarrow> Volumes" where
  "Volumes_Clone vs = vs"

section \<open>Resources\<close>

type_synonym Resources = "(string, string) gomap"

datatype gofloat = Fin rat | PInf | NInf | NaN

definition lower :: "char \<Rightarrow> char" where
  "lower c = (if 65 \<le> (of_char c :: nat) \<and> (of_char c :: nat) \<le> 90 then char_of (of_char c + 32 :: nat) else c)"

definition special_float :: "string \<Rightarrow> gofloat option" where
  "special_float s =
     (let l = map lower s
      in if l = ''inf'' \<or> l = ''infinity'' \<or> l = ''+inf'' \<or> l = ''+infinity'' then Some PInf
         else if l = ''-inf'' \<or> l = ''-infinity'' then Some NInf
         else if l = ''nan'' then Some NaN else None)"

text \<open>
  The mantissa: digits with at most one dot. The result is the value of the digits, the number
  of digits after the dot, whether a digit was seen, and the rest of the text.
\<close>

fun read_mantissa :: "bool \<Rightarrow> bool \<Rightarrow> int \<Rightarrow> nat \<Rightarrow> string \<Rightarrow> int \<times> nat \<times> bool \<times> string" where
  "read_mantissa sawdot sawdigits m k [] = (m, k, sawdigits, [])"
| "read_mantissa sawdot sawdigits m k (c # cs) =
     (if c = CHR ''.'' then
        (if sawdot then (m, k, sawdigits, c # cs) else read_mantissa True sawdigits m k cs)
      else if is_digit c then
        read_mantissa sawdot True (10 * m + int (of_char c - 48)) (if sawdot then Suc k else k) cs
      else (m, k, sawdigits, c # cs))"

definition read_exponent :: "string \<Rightarrow> nat option" where
  "read_exponent ds =
     (if ds = [] \<or> \<not> list_all is_digit ds then None
      else Some (foldl (\<lambda>e c. if e < 10000 then 10 * e + (of_char c - 48) else e) 0 ds))"

definition float_limit :: rat where
  "float_limit = 2 ^ 1024 - 2 ^ 970"

definition finite_float :: "bool \<Rightarrow> int \<Rightarrow> nat \<Rightarrow> bool \<Rightarrow> nat \<Rightarrow> gofloat option" where
  "finite_float neg m k eneg e =
     (let x = (of_int m :: rat) / 10 ^ k;
          y = (if eneg then x / 10 ^ e else x * 10 ^ e)
      in if float_limit \<le> y then None else Some (Fin (if neg then - y else y)))"

definition parseFloat :: "string \<Rightarrow> gofloat option" where
  "parseFloat s =
     (case special_float s of Some f \<Rightarrow> Some f
      | None \<Rightarrow>
          (let signed = (s \<noteq> [] \<and> (hd s = CHR ''+'' \<or> hd s = CHR ''-''));
               neg = (s \<noteq> [] \<and> hd s = CHR ''-'');
               (m, k, sawdigits, rest) = read_mantissa False False 0 0 (if signed then tl s else s)
           in if \<not> sawdigits then None
              else case rest of
                  [] \<Rightarrow> finite_float neg m k False 0
                | c # es \<Rightarrow>
                    if c \<noteq> CHR ''e'' \<and> c \<noteq> CHR ''E'' then None
                    else let esigned = (es \<noteq> [] \<and> (hd es = CHR ''+'' \<or> hd es = CHR ''-''));
                             eneg = (es \<noteq> [] \<and> hd es = CHR ''-'')
                         in (case read_exponent (if esigned then tl es else es) of
                               None \<Rightarrow> None | Some e \<Rightarrow> finite_float neg m k eneg e)))"

text \<open>\<open>math.Abs(a - b) > 0.001\<close> in floating-point arithmetic with infinities and NaN.\<close>

fun differ_by_milli :: "gofloat \<Rightarrow> gofloat \<Rightarrow> bool" where
  "differ_by_milli (Fin a) (Fin b) = (\<bar>a - b\<bar> > 1 / 1000)"
| "differ_by_milli NaN _ = False"
| "differ_by_milli _ NaN = False"
| "differ_by_milli PInf PInf = False"
| "differ_by_milli NInf NInf = False"
| "differ_by_milli _ _ = True"

definition rez_lookup :: "Resources \<Rightarrow> string \<Rightarrow> string" where
  "rez_lookup r k = (case gget r k of None \<Rightarrow> [] | Some v \<Rightarrow> v)"

definition Resources_Cpus :: "Resources \<Rightarrow> gofloat" where
  "Resources_Cpus r = (case parseFloat (rez_lookup r ''cpus'') of None \<Rightarrow> Fin (1 / 10) | Some f \<Rightarrow> f)"

definition Resources_Memory :: "Resources \<Rightarrow> gofloat" where
  "Resources_Memory r = (case parseFloat (rez_lookup r ''memory'') of None \<Rightarrow> Fin 100 | Some f \<Rightarrow> f)"

definition in_int32 :: "int \<Rightarrow> bool" where
  "in_int32 n = (- (2 ^ 31) \<le> n \<and> n < 2 ^ 31)"

definition Resources_Ports :: "Resources \<Rightarrow> int" where
  "Resources_Ports r =
     (case atoi (rez_lookup r ''ports'') of
        None \<Rightarrow> 1 | Some n \<Rightarrow> if in_int32 n then n else 1)"

definition Resources_Equal :: "Resources \<Rightarrow> Resources \<Rightarrow> bool" where
  "Resources_Equal r o' =
     (if length r \<noteq> length o' then False
      else if Resources_Ports r \<noteq> Resources_Ports o' then False
      else if differ_by_milli (Resources_Cpus r) (Resources_Cpus o') then False
      else if differ_by_milli (Resources_Memory r) (Resources_Memory o') then False
      else True)"

definition Resources_Clone :: "Resources \<Rightarrow> Resources" where
  "Resources_Clone r = gset_all [] r"

section \<open>Startup\<close>

record Startup =
  SkipCheck :: bool
  ConnectDelay :: int
  Timeout :: int
  ConnectInterval :: int
  CheckReadyProtocol :: string
  CheckReadyURIPath :: string
  CheckReadyPortIndex :: int
  CheckReadyFailureStatuses :: "int list"
  CheckReadyURITimeout :: int
  CheckReadyInterval :: int
  CheckReadyRetries :: int

definition zeroStartup :: Startup where
  "zeroStartup = \<lparr>SkipCheck = False, ConnectDelay = 0, Timeout = 0, ConnectInterval = 0,
     CheckReadyProtocol = [], CheckReadyURIPath = [], CheckReadyPortIndex = 0,
     CheckReadyFailureStatuses = [], CheckReadyURITimeout = 0, CheckReadyInterval = 0,
     CheckReadyRetries = 0\<rparr>"

text \<open>One field of \<open>MergeDefaults\<close>: the base value unless it is the zero value.\<close>

definition merge_field :: "'a \<Rightarrow> 'a \<Rightarrow> 'a \<Rightarrow> 'a" where
  "merge_field zero s n = (if n = zero then s else n)"

definition Startup_MergeDefaults :: "Startup \<Rightarrow> Startup \<Rightarrow> Startup" where
  "Startup_MergeDefaults s base =
     \<lparr>SkipCheck = merge_field (SkipCheck zeroStartup) (SkipCheck s) (SkipCheck base),
      ConnectDelay = merge_field (ConnectDelay zeroStartup) (ConnectDelay s) (ConnectDelay base),
      Timeout = merge_field (Timeout zeroStartup) (Timeout s) (Timeout base),
      ConnectInterval = merge_field (ConnectInterval zeroStartup) (ConnectInterval s) (ConnectInterval base),
      CheckReadyProtocol =
        merge_field (CheckReadyProtocol zeroStartup) (CheckReadyProtocol s) (CheckReadyProtocol base),
      CheckReadyURIPath =
        merge_field (CheckReadyURIPath zeroStartup) (CheckReadyURIPath s) (CheckReadyURIPath base),
      CheckReadyPortIndex =
        merge_field (CheckReadyPortIndex zeroStartup) (CheckReadyPortIndex s) (CheckReadyPortIndex base),
      CheckReadyFailureStatuses =
        (if length (CheckReadyFailureStatuses base) = length (CheckReadyFailureStatuses zeroStartup)
         then CheckReadyFailureStatuses s else CheckReadyFailureStatuses base),
      CheckReadyURITimeout =
        merge_field (CheckReadyURITimeout zeroStartup) (CheckReadyURITimeout s) (CheckReadyURITimeout base),
      CheckReadyInterval =
        merge_field (CheckReadyInterval zeroStartup) (CheckReadyInterval s) (CheckReadyInterval base),
      CheckReadyRetries =
        merge_field (CheckReadyRetries zeroStartup) (CheckReadyRetries s) (CheckReadyRetries base)\<rparr>"

text \<open>One field of \<open>UnmergeDefaults\<close>.\<close>

definition unmerge_field :: "'a \<Rightarrow> 'a \<Rightarrow> 'a \<Rightarrow> 'a \<Rightarrow> 'a" where
  "unmerge_field zero s base old = (if base = s \<and> old = zero then zero else base)"

text \<open>
  The failure statuses: when the lengths agree and the old value has none, both slices are
  sorted in place, and \<open>n\<close> shares the slice of \<open>base\<close>.
\<close>

definition unmerge_statuses :: "int list \<Rightarrow> int list \<Rightarrow> int list \<Rightarrow> int list" where
  "unmerge_statuses s base old =
     (if length base = length s \<and> length old = length (CheckReadyFailureStatuses zeroStartup)
      then (if sort s = sort base then CheckReadyFailureStatuses zeroStartup else sort base)
      else base)"

definition Startup_UnmergeDefaults :: "Startup \<Rightarrow> Startup \<Rightarrow> Startup \<Rightarrow> Startup" where
  "Startup_UnmergeDefaults s base old =
     \<lparr>SkipCheck = unmerge_field (SkipCheck zeroStartup) (SkipCheck s) (SkipCheck base) (SkipCheck old),
      ConnectDelay =
        unmerge_field (ConnectDelay zeroStartup) (ConnectDelay s) (ConnectDelay base) (ConnectDelay old),
      Timeout = unmerge_field (Timeout zeroStartup) (Timeout s) (Timeout base) (Timeout old),
      ConnectInterval =
        unmerge_field (ConnectInterval zeroStartup) (ConnectInterval s) (ConnectInterval base) (ConnectInterval old),
      CheckReadyProtocol =
        unmerge_field (CheckReadyProtocol zeroStartup) (CheckReadyProtocol s) (CheckReadyProtocol base)
          (CheckReadyProtocol old),
      CheckReadyURIPath =
        unmerge_field (CheckReadyURIPath zeroStartup) (CheckReadyURIPath s) (CheckReadyURIPath base)
          (CheckReadyURIPath old),
      CheckReadyPortIndex =
        unmerge_field (CheckReadyPortIndex zeroStartup) (CheckReadyPortIndex s) (CheckReadyPortIndex base)
          (CheckReadyPortIndex old),
      CheckReadyFailureStatuses =
        unmerge_statuses (CheckReadyFailureStatuses s) (CheckReadyFailureStatuses base)
          (CheckReadyFailureStatuses old),
      CheckReadyURITimeout =
        unmerge_field (CheckReadyURITimeout zeroStartup) (CheckReadyURITimeout s) (CheckReadyURITimeout base)
          (CheckReadyURITimeout old),
      CheckReadyInterval =
        unmerge_field (CheckReadyInterval zeroStartup) (CheckReadyInterval s) (CheckReadyInterval base)
          (CheckReadyInterval old),
      CheckReadyRetries =
        unmerge_field (CheckReadyRetries zeroStartup) (CheckReadyRetries s) (CheckReadyRetries base)
          (CheckReadyRetries old)\<rparr>"

section \<open>Differences\<close>

datatype difference =
    DNumInstances int int
  | DEnv "(string, string) gomap" "(string, string) gomap"
  | DMetadata "(string, string) gomap" "(string, string) gomap"
  | DResources Resources Resources
  | DVolumes Volumes Volumes
  | DSkipCheck bool bool
  | DConnectDelay int int
  | DConnectInterval int int
  | DTimeout int int
  | DCheckReadyProtocol string string
  | DCheckReadyPortIndex int int
  | DCheckReadyFailureStatuses "int list" "int list"
  | DCheckReadyInterval int int
  | DCheckReadyRetries int int
  | DCheckReadyURIPath string string
  | DCheckReadyURITimeout int int
  | DVersion Version Version
  | DClusterName string string
  | DSourceID SourceID SourceID
  | DFlavor string string
  | DKind string string
  | DSchedule string string
  | DNumOwners nat nat
  | DOwner string
  | DSource SourceLocation SourceLocation
  | DNumDeployments nat nat
  | DMissingDeployment string
  | DExtraDeployment string
  | DInCluster string difference
  | DMissingManifest ManifestID
  | DExtraManifest ManifestID
  | DInManifest ManifestID difference
  | DNoDeployment DeploymentID
  | DNotDeployments
  | DStatus string string

definition diff_if :: "bool \<Rightarrow> difference \<Rightarrow> difference list" where
  "diff_if b d = (if b then [d] else [])"

definition statuses_diff :: "int list \<Rightarrow> int list \<Rightarrow> difference list" where
  "statuses_diff l r =
     (if length l \<noteq> length r then [DCheckReadyFailureStatuses l r]
      else diff_if (sort l \<noteq> sort r) (DCheckReadyFailureStatuses (sort l) (sort r)))"

definition Startup_diff :: "Startup \<Rightarrow> Startup \<Rightarrow> difference list" where
  "Startup_diff s o' =
     (let l = (if SkipCheck s then zeroStartup else s);
          r = (if SkipCheck o' then zeroStartup else o')
      in diff_if (SkipCheck s \<noteq> SkipCheck o') (DSkipCheck (SkipCheck s) (SkipCheck o'))
       @ diff_if (ConnectDelay l \<noteq> ConnectDelay r) (DConnectDelay (ConnectDelay l) (ConnectDelay r))
       @ diff_if (ConnectInterval l \<noteq> ConnectInterval r) (DConnectInterval (ConnectInterval l) (ConnectInterval r))
       @ diff_if (Timeout l \<noteq> Timeout r) (DTimeout (Timeout l) (Timeout r))
       @ diff_if (CheckReadyProtocol l \<noteq> CheckReadyProtocol r)
              (DCheckReadyProtocol (CheckReadyProtocol l) (CheckReadyProtocol r))
       @ diff_if (CheckReadyPortIndex l \<noteq> CheckReadyPortIndex r)
              (DCheckReadyPortIndex (CheckReadyPortIndex l) (CheckReadyPortIndex r))
       @ statuses_diff (CheckReadyFailureStatuses l) (CheckReadyFailureStatuses r)
       @ diff_if (CheckReadyInterval l \<noteq> CheckReadyInterval r)
              (DCheckReadyInterval (CheckReadyInterval l) (CheckReadyInterval r))
       @ diff_if (CheckReadyRetries l \<noteq> CheckReadyRetries r)
              (DCheckReadyRetries (CheckReadyRetries l) (CheckReadyRetries r))
       @ diff_if (CheckReadyURIPath l \<noteq> CheckReadyURIPath r)
              (DCheckReadyURIPath (CheckReadyURIPath l) (CheckReadyURIPath r))
       @ diff_if (CheckReadyURITimeout l \<noteq> CheckReadyURITimeout r)
              (DCheckReadyURITimeout (CheckReadyURITimeout l) (CheckReadyURITimeout r)))"

definition Startup_Equal :: "Startup \<Rightarrow> Startup \<Rightarrow> bool" where
  "Startup_Equal s o' = (length (Startup_diff s o') = 0)"

section \<open>Owner sets\<close>

text \<open>A set of names, listed in the order in which a \<open>range\<close> loop visits it.\<close>

type_synonym OwnerSet = "string list"

definition OwnerSet_Add :: "OwnerSet \<Rightarrow> string \<Rightarrow> OwnerSet" where
  "OwnerSet_Add os owner = (if owner \<in> set os then os else os @ [owner])"

definition OwnerSet_Remove :: "OwnerSet \<Rightarrow> string \<Rightarrow> OwnerSet" where
  "OwnerSet_Remove os owner = filter (\<lambda>x. x \<noteq> owner) os"

definition NewOwnerSet :: "string list \<Rightarrow> OwnerSet" where
  "NewOwnerSet owners = foldl OwnerSet_Add [] owners"

definition OwnerSet_Clone :: "OwnerSet \<Rightarrow> OwnerSet" where
  "OwnerSet_Clone os = foldl OwnerSet_Add [] os"

definition OwnerSet_Merge :: "OwnerSet \<Rightarrow> OwnerSet \<Rightarrow> OwnerSet" where
  "OwnerSet_Merge os other = foldl OwnerSet_Add os other"

definition OwnerSet_Diff :: "OwnerSet \<Rightarrow> OwnerSet \<Rightarrow> bool \<times> difference list" where
  "OwnerSet_Diff os o' =
     (let diffs = diff_if (length os \<noteq> length o') (DNumOwners (length os) (length o'))
                  @ map DOwner (filter (\<lambda>ownr. ownr \<notin> set o') os)
      in (diffs \<noteq> [], diffs))"

definition OwnerSet_Equal :: "OwnerSet \<Rightarrow> OwnerSet \<Rightarrow> bool" where
  "OwnerSet_Equal os o' = (\<not> fst (OwnerSet_Diff os o'))"

definition OwnerSet_Slice :: "OwnerSet \<Rightarrow> string list" where
  "OwnerSet_Slice os = sort os"

section \<open>Deploy configurations\<close>

type_synonym Env = "(string, string) gomap"

type_synonym Metadata = "(string, string) gomap"

record DeployConfig =
  dcResources :: "Resources option"
  dcMetadata :: "Metadata option"
  dcEnv :: Env
  dcNumInstances :: int
  dcVolumes :: Volumes
  dcStartup :: Startup
  dcSchedule :: string

definition zeroDeployConfig :: DeployConfig where
  "zeroDeployConfig = \<lparr>dcResources = None, dcMetadata = None, dcEnv = [], dcNumInstances = 0,
     dcVolumes = [], dcStartup = zeroStartup, dcSchedule = []\<rparr>"

text \<open>The comparison loop of \<open>Env.Equal\<close> and \<open>Metadata.Equal\<close>.\<close>

fun entries_in :: "(string, string) gomap \<Rightarrow> (string, string) gomap \<Rightarrow> bool" where
  "entries_in [] o' = True"
| "entries_in ((name, value) # e) o' =
     (case gget o' name of
        None \<Rightarrow> False
      | Some ov \<Rightarrow> if ov \<noteq> value then False else entries_in e o')"

definition Env_Equal :: "Env \<Rightarrow> Env \<Rightarrow> bool" where
  "Env_Equal e o' = (if length e \<noteq> length o' then False else entries_in e o')"

definition Metadata_Equal :: "Metadata \<Rightarrow> Metadata \<Rightarrow> bool" where
  "Metadata_Equal e o' = (if length e \<noteq> length o' then False else entries_in e o')"

definition DeployConfig_Diff :: "DeployConfig \<Rightarrow> DeployConfig \<Rightarrow> bool \<times> difference list" where
  "DeployConfig_Diff dc o' =
     (let md = nilmap (dcMetadata dc); omd = nilmap (dcMetadata o');
          rz = nilmap (dcResources dc); orz = nilmap (dcResources o');
          diffs =
            diff_if (dcNumInstances dc \<noteq> dcNumInstances o') (DNumInstances (dcNumInstances dc) (dcNumInstances o'))
          @ diff_if ((length (dcEnv dc) \<noteq> 0 \<or> length (dcEnv o') \<noteq> 0) \<and> \<not> Env_Equal (dcEnv dc) (dcEnv o'))
                    (DEnv (dcEnv dc) (dcEnv o'))
          @ diff_if ((length md \<noteq> 0 \<or> length omd \<noteq> 0) \<and> \<not> Metadata_Equal md omd) (DMetadata md omd)
          @ diff_if ((length rz \<noteq> 0 \<or> length orz \<noteq> 0) \<and> \<not> Resources_Equal rz orz) (DResources rz orz)
          @ diff_if ((length (dcVolumes dc) \<noteq> 0 \<or> length (dcVolumes o') \<noteq> 0)
                       \<and> \<not> Volumes_Equal (dcVolumes dc) (dcVolumes o'))
                    (DVolumes (dcVolumes dc) (dcVolumes o'))
          @ Startup_diff (dcStartup dc) (dcStartup o')
      in (length diffs = 0, diffs))"

definition DeployConfig_Equal :: "DeployConfig \<Rightarrow> DeployConfig \<Rightarrow> bool" where
  "DeployConfig_Equal dc o' = (\<not> fst (DeployConfig_Diff dc o'))"

definition DeployConfig_Clone :: "DeployConfig \<Rightarrow> DeployConfig" where
  "DeployConfig_Clone dc =
     \<lparr>dcResources = Some (gset_all [] (nilmap (dcResources dc))),
      dcMetadata = map_option (gset_all []) (dcMetadata dc),
      dcEnv = gset_all [] (dcEnv dc),
      dcNumInstances = dcNumInstances dc,
      dcVolumes = Volumes_Clone (dcVolumes dc),
      dcStartup = dcStartup dc,
      dcSchedule = dcSchedule dc\<rparr>"

fun stringSlicesEqual :: "string list \<Rightarrow> string list \<Rightarrow> bool" where
  "stringSlicesEqual [] right = (right = [])"
| "stringSlicesEqual (l # left) right =
     (case right of [] \<Rightarrow> False | r # rs \<Rightarrow> (if l \<noteq> r then False else stringSlicesEqual left rs))"

text \<open>\<open>for n, v := range m\<close>: set what is not yet set.\<close>

fun set_missing :: "(string, string) gomap \<Rightarrow> (string, string) gomap \<Rightarrow> (string, string) gomap" where
  "set_missing m [] = m"
| "set_missing m ((n, v) # es) = set_missing (if ghas m n then m else gset n v m) es"

fun flatten_loop :: "DeployConfig \<Rightarrow> DeployConfig list \<Rightarrow> DeployConfig" where
  "flatten_loop dc [] = dc"
| "flatten_loop dc (c # cs) =
     flatten_loop
       (dc\<lparr>dcResources := Some (set_missing (nilmap (dcResources dc)) (nilmap (dcResources c))),
           dcEnv := set_missing (dcEnv dc) (dcEnv c),
           dcMetadata := Some (set_missing (nilmap (dcMetadata dc)) (nilmap (dcMetadata c))),
           dcStartup := dcStartup c\<rparr>) cs"

definition first_that :: "('a \<Rightarrow> bool) \<Rightarrow> 'a \<Rightarrow> 'a list \<Rightarrow> 'a" where
  "first_that P z xs = (case filter P xs of [] \<Rightarrow> z | x # _ \<Rightarrow> x)"

definition flattenDeployConfigs :: "DeployConfig list \<Rightarrow> DeployConfig" where
  "flattenDeployConfigs dcs =
     flatten_loop
       (zeroDeployConfig\<lparr>dcResources := Some [], dcEnv := [], dcMetadata := Some [],
          dcNumInstances := first_that (\<lambda>n. n \<noteq> 0) 0 (map dcNumInstances dcs),
          dcVolumes := first_that (\<lambda>v. length v \<noteq> 0) [] (map dcVolumes dcs),
          dcSchedule := first_that (\<lambda>x. x \<noteq> []) [] (map dcSchedule dcs)\<rparr>) dcs"

section \<open>Deploy specs\<close>

record DeploySpec =
  dsDeployConfig :: DeployConfig
  dsVersion :: Version
  dsClusterName :: string

definition zeroDeploySpec :: DeploySpec where
  "zeroDeploySpec = \<lparr>dsDeployConfig = zeroDeployConfig, dsVersion = zeroVersion, dsClusterName = []\<rparr>"

definition DeploySpec_Clone :: "DeploySpec \<Rightarrow> DeploySpec" where
  "DeploySpec_Clone spec = spec\<lparr>dsDeployConfig := DeployConfig_Clone (dsDeployConfig spec)\<rparr>"

definition DeploySpec_Diff :: "DeploySpec \<Rightarrow> DeploySpec \<Rightarrow> bool \<times> difference list" where
  "DeploySpec_Diff spec other =
     (let diffs = diff_if (\<not> Version_Equals (dsVersion spec) (dsVersion other))
                          (DVersion (dsVersion spec) (dsVersion other))
                  @ snd (DeployConfig_Diff (dsDeployConfig spec) (dsDeployConfig other))
      in (length diffs \<noteq> 0, diffs))"

definition DeploySpec_Equal :: "DeploySpec \<Rightarrow> DeploySpec \<Rightarrow> bool" where
  "DeploySpec_Equal spec other = (\<not> fst (DeploySpec_Diff spec other))"

definition DeploySpec_isZero :: "DeploySpec \<Rightarrow> bool" where
  "DeploySpec_isZero spec = DeploySpec_Equal spec zeroDeploySpec"

section \<open>Flaws\<close>

text \<open>
  A flaw is a problem with the repair it carries. \<open>MissingResourceFlaw\<close> writes into the map it
  was built from: \<open>DcMap\<close> is the resource map of the configuration, \<open>FreshMap\<close> the map that
  \<open>Validate\<close> makes when the configuration has none, which nothing else refers to.
\<close>

datatype rez_map = DcMap | FreshMap

datatype flaw =
    NilVolumeFlaw
  | NoResourcesFlaw
  | MissingResourceFlaw rez_map string string "DeploymentID option" string
  | NegativeFlaw string int
  | BadProtocolFlaw string
  | LowercaseProtocolFlaw string
  | BadStatusFlaw int
  | InvalidKindFlaw string
  | MissingKindFlaw
  | CannotMergeFlaw

datatype flaw_context =
    CtxDeployConfig | CtxManifest | CtxState | CtxDeployment DeploymentID | CtxCluster string

fun flaw_AddContext :: "flaw_context \<Rightarrow> flaw \<Rightarrow> flaw" where
  "flaw_AddContext (CtxCluster name) (MissingResourceFlaw m f d did c) = MissingResourceFlaw m f d did name"
| "flaw_AddContext (CtxDeployment dep) (MissingResourceFlaw m f d did c) = MissingResourceFlaw m f d (Some dep) c"
| "flaw_AddContext _ f = f"

definition Resources_validateField :: "rez_map \<Rightarrow> Resources \<Rightarrow> string \<Rightarrow> string \<Rightarrow> flaw list" where
  "Resources_validateField which r name def =
     (if \<not> ghas r name then [MissingResourceFlaw which name def None []] else [])"

definition Resources_Validate :: "rez_map \<Rightarrow> Resources \<Rightarrow> flaw list" where
  "Resources_Validate which r =
     Resources_validateField which r ''cpus'' ''0.1''
     @ Resources_validateField which r ''memory'' ''100''
     @ Resources_validateField which r ''ports'' ''1''"

definition flaw_if :: "bool \<Rightarrow> flaw \<Rightarrow> flaw list" where
  "flaw_if b f = (if b then [f] else [])"

definition protocol_flaws :: "string \<Rightarrow> flaw list" where
  "protocol_flaws p =
     (if p = ''https'' \<or> p = ''http'' then [LowercaseProtocolFlaw p]
      else if p = ''HTTPS'' \<or> p = ''HTTP'' then []
      else [BadProtocolFlaw p])"

definition Startup_Validate :: "Startup \<Rightarrow> flaw list" where
  "Startup_Validate s =
     (if SkipCheck s then []
      else flaw_if (ConnectDelay s < 0) (NegativeFlaw ''ConnectDelay'' (ConnectDelay s))
         @ flaw_if (Timeout s < 0) (NegativeFlaw ''Timeout'' (Timeout s))
         @ flaw_if (ConnectInterval s < 0) (NegativeFlaw ''ConnectInterval'' (ConnectInterval s))
         @ flaw_if (CheckReadyPortIndex s < 0) (NegativeFlaw ''CheckReadyPortIndex'' (CheckReadyPortIndex s))
         @ flaw_if (CheckReadyURITimeout s < 0) (NegativeFlaw ''CheckReadyURITimeout'' (CheckReadyURITimeout s))
         @ flaw_if (CheckReadyInterval s < 0) (NegativeFlaw ''CheckReadyInterval'' (CheckReadyInterval s))
         @ flaw_if (CheckReadyRetries s < 0) (NegativeFlaw ''CheckReadyRetries'' (CheckReadyRetries s))
         @ protocol_flaws (CheckReadyProtocol s)
         @ map BadStatusFlaw (filter (\<lambda>n. n < 0) (CheckReadyFailureStatuses s)))"

text \<open>The nil check of the volume list, and its repair, on pointers.\<close>

definition nil_volume_flaws :: "Volume option list \<Rightarrow> flaw list" where
  "nil_volume_flaws vs = flaw_if (None \<in> set vs) NilVolumeFlaw"

definition NilVolumeFlaw_Repair :: "Volume option list \<Rightarrow> Volume option list" where
  "NilVolumeFlaw_Repair vs = filter (\<lambda>v. v \<noteq> None) vs"

definition DeployConfig_Validate :: "DeployConfig \<Rightarrow> flaw list" where
  "DeployConfig_Validate dc =
     (let flaws = nil_volume_flaws (map Some (dcVolumes dc))
                  @ (case dcResources dc of
                       None \<Rightarrow> NoResourcesFlaw # Resources_Validate FreshMap []
                     | Some r \<Rightarrow> Resources_Validate DcMap r)
                  @ Startup_Validate (dcStartup dc)
      in map (flaw_AddContext CtxDeployConfig) flaws)"

definition upper_protocol :: "string \<Rightarrow> string" where
  "upper_protocol p = (if p = ''http'' then ''HTTP'' else if p = ''https'' then ''HTTPS'' else p)"

text \<open>\<open>Repair\<close> of one flaw of a configuration: the new configuration, or \<open>None\<close> for an error.\<close>

fun flaw_Repair :: "flaw \<Rightarrow> DeployConfig \<Rightarrow> DeployConfig option" where
  "flaw_Repair NilVolumeFlaw dc = Some dc"
| "flaw_Repair NoResourcesFlaw dc = Some (dc\<lparr>dcResources := Some []\<rparr>)"
| "flaw_Repair (MissingResourceFlaw FreshMap field def did c) dc = Some dc"
| "flaw_Repair (MissingResourceFlaw DcMap field def did c) dc =
     Some (dc\<lparr>dcResources := Some (gset field def (nilmap (dcResources dc)))\<rparr>)"
| "flaw_Repair (LowercaseProtocolFlaw p) dc =
     Some (dc\<lparr>dcStartup := (dcStartup dc)\<lparr>CheckReadyProtocol := upper_protocol (CheckReadyProtocol (dcStartup dc))\<rparr>\<rparr>)"
| "flaw_Repair _ dc = None"

text \<open>\<open>RepairAll\<close>: the flaws whose repair failed, and the configuration afterwards.\<close>

fun RepairAll :: "flaw list \<Rightarrow> DeployConfig \<Rightarrow> flaw list \<times> DeployConfig" where
  "RepairAll [] dc = ([], dc)"
| "RepairAll (f # fs) dc =
     (case flaw_Repair f dc of
        Some dc' \<Rightarrow> RepairAll fs dc'
      | None \<Rightarrow> (let (rest, dc') = RepairAll fs dc in (f # rest, dc')))"

definition valid_kinds :: "string list" where
  "valid_kinds = [''http-service'', ''worker'', ''on-demand'', ''scheduled'', ''once'', ''scheduled-job'']"

definition ManifestKind_Validate :: "string \<Rightarrow> flaw list" where
  "ManifestKind_Validate mk = (if mk \<in> set valid_kinds then [] else [InvalidKindFlaw mk])"

section \<open>Facts about volumes\<close>

lemma Volume_Equal_iff [simp]: "Volume_Equal v w \<longleftrightarrow> v = w"
  by (cases v; cases w) (auto simp: Volume_Equal_def)

lemma vol_find_Some: "vol_find v c i = Some j \<Longrightarrow> i \<le> j \<and> j - i < length c \<and> c ! (j - i) = v"
proof (induction c arbitrary: i)
  case (Cons ov c)
  then show ?case
    by (cases "v = ov") (auto simp: Suc_diff_le nth_Cons' dest!: Cons.IH)
qed simp

lemma vol_find_None: "vol_find v c i = None \<longleftrightarrow> v \<notin> set c"
  by (induction c arbitrary: i) auto

lemma mset_swap_remove:
  assumes "i < length c"
  shows "mset (butlast (c[i := last c])) = mset c - {#c ! i#}"
proof -
  have ne: "c \<noteq> []" using assms by auto
  have "c[i := last c] \<noteq> []" using ne by simp
  moreover have "last (c[i := last c]) = last c"
    using ne by (simp add: last_list_update)
  ultimately have "mset (butlast (c[i := last c])) = mset (c[i := last c]) - {#last c#}"
    using append_butlast_last_id [of "c[i := last c]"]
    by (metis add_mset_remove_trivial mset_append mset_single_iff_right union_mset_add_mset_right add.right_neutral)
  also have "\<dots> = mset c - {#c ! i#}"
    using assms ne by (simp add: mset_update)
  finally show ?thesis .
qed

lemma vol_match_iff: "vol_match vs c \<longleftrightarrow> mset vs = mset c"
proof (induction vs arbitrary: c)
  case (Cons v vs)
  show ?case
  proof (cases "vol_find v c 0")
    case None
    then have "v \<notin># mset c" by (simp add: vol_find_None)
    moreover have "v \<in># mset (v # vs)" by simp
    ultimately have "mset (v # vs) \<noteq> mset c" by metis
    then show ?thesis using None by simp
  next
    case (Some i)
    then have i: "i < length c" "c ! i = v" using vol_find_Some by fastforce+
    then have "v \<in># mset c" by auto
    then have "mset (v # vs) = mset c \<longleftrightarrow> mset vs = mset c - {#v#}"
      by (metis add_mset_remove_trivial insert_DiffM mset.simps(2))
    then show ?thesis using Some i by (simp add: Cons.IH mset_swap_remove)
  qed
qed auto

lemma Volumes_Equal_iff: "Volumes_Equal vs ws \<longleftrightarrow> mset vs = mset ws"
  by (auto simp: Volumes_Equal_def vol_match_iff dest: mset_eq_length)

section \<open>Facts about startup checks\<close>

lemma merge_field_zero [simp]: "merge_field z z n = n"
  by (simp add: merge_field_def)

lemma unmerge_merge_field [simp]: "unmerge_field z s (merge_field z s x) x = x"
  by (simp add: unmerge_field_def merge_field_def)

lemma merge_unmerge_field [simp]:
  "merge_field z s (unmerge_field z s (merge_field z s x) old) = merge_field z s x"
  by (simp add: unmerge_field_def merge_field_def)

definition sort_statuses :: "Startup \<Rightarrow> Startup" where
  "sort_statuses s = s\<lparr>CheckReadyFailureStatuses := sort (CheckReadyFailureStatuses s)\<rparr>"

lemma Startup_unmerge_merge:
  "Startup_UnmergeDefaults s (Startup_MergeDefaults s x) x = x"
  by (cases x) (simp add: Startup_UnmergeDefaults_def Startup_MergeDefaults_def unmerge_statuses_def
      zeroStartup_def)

lemma sort_Nil_iff [simp]: "sort xs = [] \<longleftrightarrow> xs = []" for xs :: "'a::linorder list"
  by (metis length_0_conv length_sort)

lemma Startup_merge_unmerge:
  "sort_statuses (Startup_MergeDefaults s (Startup_UnmergeDefaults s (Startup_MergeDefaults s x) old))
   = sort_statuses (Startup_MergeDefaults s x)"
  by (simp add: Startup_UnmergeDefaults_def Startup_MergeDefaults_def unmerge_statuses_def
      zeroStartup_def sort_statuses_def sorted_sort_id)

lemma diff_if_Nil [simp]: "diff_if b d = [] \<longleftrightarrow> \<not> b"
  by (simp add: diff_if_def)

lemma sort_eq_iff_mset: "sort xs = sort ys \<longleftrightarrow> mset xs = mset ys" for xs ys :: "'a::linorder list"
  by (metis mset_sort properties_for_sort sorted_sort)

lemma statuses_diff_Nil [simp]: "statuses_diff l r = [] \<longleftrightarrow> mset l = mset r"
  by (auto simp: statuses_diff_def sort_eq_iff_mset dest: mset_eq_length)

text \<open>What the comparison of startup checks decides: skipped checks are all alike, other
  checks have to agree in every field, the failure statuses as a multiset.\<close>

lemma Startup_Equal_iff:
  "Startup_Equal s o' \<longleftrightarrow>
     SkipCheck s = SkipCheck o' \<and>
     (SkipCheck s \<or>
      sort_statuses s = sort_statuses o')"
  by (cases s; cases o')
    (auto simp: Startup_Equal_def Startup_diff_def Let_def sort_statuses_def sort_eq_iff_mset)

lemma Startup_Equal_Nil: "Startup_diff s o' = [] \<longleftrightarrow> Startup_Equal s o'"
  by (simp add: Startup_Equal_def)

lemma Startup_Equal_refl [simp]: "Startup_Equal s s"
  by (simp add: Startup_Equal_iff)

lemma Startup_diff_refl [simp]: "Startup_diff s s = []"
  by (simp add: Startup_Equal_Nil)

section \<open>Facts about owner sets\<close>

lemma OwnerSet_Add_set [simp]: "set (OwnerSet_Add os x) = insert x (set os)"
  by (auto simp: OwnerSet_Add_def)

lemma OwnerSet_Add_distinct [simp]: "distinct os \<Longrightarrow> distinct (OwnerSet_Add os x)"
  by (simp add: OwnerSet_Add_def)

lemma OwnerSet_fold:
  "set (foldl OwnerSet_Add os xs) = set os \<union> set xs"
  "distinct os \<Longrightarrow> distinct (foldl OwnerSet_Add os xs)"
  by (induction xs arbitrary: os) auto

lemma OwnerSet_fold_distinct: "distinct (os @ xs) \<Longrightarrow> foldl OwnerSet_Add os xs = os @ xs"
  by (induction xs arbitrary: os) (simp_all add: OwnerSet_Add_def)

lemma NewOwnerSet_set [simp]: "set (NewOwnerSet xs) = set xs"
  by (simp add: NewOwnerSet_def OwnerSet_fold)

lemma NewOwnerSet_distinct [simp]: "distinct (NewOwnerSet xs)"
  by (simp add: NewOwnerSet_def OwnerSet_fold)

lemma NewOwnerSet_id [simp]: "distinct xs \<Longrightarrow> NewOwnerSet xs = xs"
  by (simp add: NewOwnerSet_def OwnerSet_fold_distinct)

lemma OwnerSet_Clone_id [simp]: "distinct xs \<Longrightarrow> OwnerSet_Clone xs = xs"
  by (simp add: OwnerSet_Clone_def OwnerSet_fold_distinct)

lemma OwnerSet_Equal_iff:
  assumes "distinct os" and "distinct ps"
  shows "OwnerSet_Equal os ps \<longleftrightarrow> set os = set ps"
proof
  assume "OwnerSet_Equal os ps"
  then have l: "length os = length ps" and s: "set os \<subseteq> set ps"
    by (auto simp: OwnerSet_Equal_def OwnerSet_Diff_def Let_def filter_empty_conv)
  then show "set os = set ps"
    using assms by (metis card_subset_eq distinct_card finite_set)
next
  assume "set os = set ps"
  then show "OwnerSet_Equal os ps"
    using assms
    by (auto simp: OwnerSet_Equal_def OwnerSet_Diff_def Let_def filter_empty_conv distinct_card [symmetric])
qed

lemma OwnerSet_Slice_set [simp]: "set (OwnerSet_Slice os) = set os"
  by (simp add: OwnerSet_Slice_def)

lemma OwnerSet_Slice_NewOwnerSet:
  "sorted xs \<Longrightarrow> distinct xs \<Longrightarrow> OwnerSet_Slice (NewOwnerSet xs) = xs"
  by (simp add: OwnerSet_Slice_def sorted_sort_id)

section \<open>Facts about configurations\<close>

lemma entries_in_iff: "entries_in e o' \<longleftrightarrow> (\<forall>(k, v) \<in> set e. gget o' k = Some v)"
  by (induction e o' rule: entries_in.induct) (auto split: option.splits)

lemma Env_Equal_iff:
  assumes "gwf e" and "gwf o'"
  shows "Env_Equal e o' \<longleftrightarrow> gsame e o'"
proof
  assume "Env_Equal e o'"
  then show "gsame e o'"
    using assms by (intro gsame_by_length) (auto simp: Env_Equal_def entries_in_iff split: if_splits)
next
  assume g: "gsame e o'"
  then have "length e = length o'" using assms by (rule_tac gsame_length)
  with g assms show "Env_Equal e o'"
    by (auto simp: Env_Equal_def entries_in_iff gsame_def gget_iff_mem)
qed

lemma Metadata_Equal_iff: "gwf e \<Longrightarrow> gwf o' \<Longrightarrow> Metadata_Equal e o' \<longleftrightarrow> gsame e o'"
  using Env_Equal_iff by (simp add: Env_Equal_def Metadata_Equal_def)

lemma differ_by_milli_refl [simp]: "\<not> differ_by_milli f f"
  by (cases f) simp_all

lemma differ_by_milli_sym: "differ_by_milli f g = differ_by_milli g f"
  by (cases f; cases g) (simp_all add: abs_minus_commute)

lemma rez_lookup_same: "gwf r \<Longrightarrow> gwf q \<Longrightarrow> gsame r q \<Longrightarrow> rez_lookup r k = rez_lookup q k"
  by (simp add: rez_lookup_def gsame_iff_get)

lemma Resources_Equal_same:
  assumes "gwf r" and "gwf q" and "gsame r q"
  shows "Resources_Equal r q"
proof -
  have "rez_lookup r k = rez_lookup q k" for k
    using assms by (rule rez_lookup_same)
  then have "Resources_Ports r = Resources_Ports q" "Resources_Cpus r = Resources_Cpus q"
      "Resources_Memory r = Resources_Memory q"
    by (simp_all only: Resources_Ports_def Resources_Cpus_def Resources_Memory_def)
  moreover have "length r = length q" using assms by (rule gsame_length)
  ultimately show ?thesis by (simp add: Resources_Equal_def)
qed

lemma Resources_Equal_sym: "Resources_Equal r q = Resources_Equal q r"
  by (auto simp: Resources_Equal_def differ_by_milli_sym)

lemma set_missing_append: "gwf (m @ es) \<Longrightarrow> set_missing m es = m @ es"
proof (induction m es rule: set_missing.induct)
  case (2 m k v es)
  then have "k \<notin> set (gkeys m)" and "gwf ((m @ [(k, v)]) @ es)"
    by (auto simp: gwf_def)
  with 2 show ?case by (simp add: gset_absent ghas_iff)
qed simp

lemma set_missing_id [simp]: "gwf es \<Longrightarrow> set_missing [] es = es"
  by (simp add: set_missing_append)

lemma gwf_set_missing [simp, intro]: "gwf m \<Longrightarrow> gwf (set_missing m es)"
  by (induction m es rule: set_missing.induct) auto

lemma gget_set_missing:
  "gwf es \<Longrightarrow> gget (set_missing m es) k = (case gget m k of None \<Rightarrow> gget es k | Some v \<Rightarrow> Some v)"
proof (induction m es rule: set_missing.induct)
  case (2 m n v es)
  then have es: "gget es n = None" "gwf es"
    by (simp_all add: map_of_eq_None_iff)
  show ?case
  proof (cases "gget m n")
    case None
    with 2 es show ?thesis
      by (cases "k = n") (simp_all add: ghas_def gget_update split: option.splits)
  next
    case (Some a)
    with 2 es show ?thesis
      by (cases "k = n") (simp_all add: ghas_def split: option.splits)
  qed
qed (simp split: option.splits)

text \<open>A configuration whose maps are Go maps.\<close>

definition wf_config :: "DeployConfig \<Rightarrow> bool" where
  "wf_config dc = (gwf (nilmap (dcResources dc)) \<and> gwf (nilmap (dcMetadata dc)) \<and> gwf (dcEnv dc))"

text \<open>
  The same configuration up to the order of maps, volumes and failure statuses, and up to nil
  against empty maps.
\<close>

definition same_config :: "DeployConfig \<Rightarrow> DeployConfig \<Rightarrow> bool" where
  "same_config a b =
     (gsame (nilmap (dcResources a)) (nilmap (dcResources b))
      \<and> gsame (nilmap (dcMetadata a)) (nilmap (dcMetadata b))
      \<and> gsame (dcEnv a) (dcEnv b) \<and> dcNumInstances a = dcNumInstances b
      \<and> mset (dcVolumes a) = mset (dcVolumes b)
      \<and> sort_statuses (dcStartup a) = sort_statuses (dcStartup b)
      \<and> dcSchedule a = dcSchedule b)"

lemma same_config_refl [simp]: "same_config c c"
  by (simp add: same_config_def)

lemma SkipCheck_sort_statuses [simp]: "SkipCheck (sort_statuses s) = SkipCheck s"
  by (simp add: sort_statuses_def)

lemma DeployConfig_Diff_same:
  assumes "wf_config a" and "wf_config b" and "same_config a b"
  shows "snd (DeployConfig_Diff a b) = []"
proof -
  have "Startup_Equal (dcStartup a) (dcStartup b)"
    using assms(3) by (metis SkipCheck_sort_statuses Startup_Equal_iff same_config_def)
  then show ?thesis
    using assms
    by (simp add: DeployConfig_Diff_def Let_def wf_config_def same_config_def Env_Equal_iff
        Metadata_Equal_iff Resources_Equal_same Volumes_Equal_iff Startup_Equal_Nil)
qed

lemma DeployConfig_Diff_Nil_iff:
  assumes "wf_config a" and "wf_config b"
  shows "snd (DeployConfig_Diff a b) = [] \<longleftrightarrow>
     dcNumInstances a = dcNumInstances b \<and> gsame (dcEnv a) (dcEnv b)
     \<and> gsame (nilmap (dcMetadata a)) (nilmap (dcMetadata b))
     \<and> Resources_Equal (nilmap (dcResources a)) (nilmap (dcResources b))
     \<and> mset (dcVolumes a) = mset (dcVolumes b)
     \<and> Startup_Equal (dcStartup a) (dcStartup b)"
  using assms
  by (auto simp: DeployConfig_Diff_def Let_def wf_config_def Env_Equal_iff Metadata_Equal_iff
      Volumes_Equal_iff Startup_Equal_Nil Resources_Equal_same)

lemma DeployConfig_Clone_same: "wf_config c \<Longrightarrow> same_config (DeployConfig_Clone c) c"
  by (cases "dcMetadata c")
    (simp_all add: same_config_def DeployConfig_Clone_def wf_config_def Volumes_Clone_def)

lemma wf_config_Clone [simp]: "wf_config (DeployConfig_Clone c)"
  by (cases "dcMetadata c") (simp_all add: wf_config_def DeployConfig_Clone_def)

lemma flatten_single:
  "wf_config c \<Longrightarrow> flattenDeployConfigs [c] =
     c\<lparr>dcResources := Some (nilmap (dcResources c)), dcMetadata := Some (nilmap (dcMetadata c))\<rparr>"
  by (cases c) (auto simp: flattenDeployConfigs_def wf_config_def zeroDeployConfig_def first_that_def)

lemma flatten_single_same: "wf_config c \<Longrightarrow> same_config (flattenDeployConfigs [c]) c"
  by (simp add: flatten_single same_config_def)

lemma flatten_single_wf: "wf_config c \<Longrightarrow> wf_config (flattenDeployConfigs [c])"
  by (simp add: flatten_single wf_config_def)

section \<open>Facts about flaws\<close>

lemma RepairAll_append:
  "RepairAll (fs @ gs) dc =
     (let (l1, dc1) = RepairAll fs dc; (l2, dc2) = RepairAll gs dc1 in (l1 @ l2, dc2))"
  by (induction fs arbitrary: dc) (simp_all add: Let_def case_prod_beta split: option.splits)

text \<open>The flaws of startup checks that no repair removes.\<close>

fun fatal :: "flaw \<Rightarrow> bool" where
  "fatal (NegativeFlaw _ _) = True"
| "fatal (BadProtocolFlaw _) = True"
| "fatal (BadStatusFlaw _) = True"
| "fatal _ = False"

lemma RepairAll_fatal: "list_all fatal fs \<Longrightarrow> RepairAll fs dc = (fs, dc)"
proof (induction fs)
  case (Cons f fs)
  then show ?case by (cases f) auto
qed simp

lemma context_config [simp]: "flaw_AddContext CtxDeployConfig f = f"
  by (cases f) simp_all

lemma map_context_config [simp]: "map (flaw_AddContext CtxDeployConfig) fs = fs"
  by (induction fs) simp_all

lemma no_nil_volumes [simp]: "nil_volume_flaws (map Some vs) = []"
  by (simp add: nil_volume_flaws_def flaw_if_def image_iff)

definition numeric_flaws :: "Startup \<Rightarrow> flaw list" where
  "numeric_flaws s =
     flaw_if (ConnectDelay s < 0) (NegativeFlaw ''ConnectDelay'' (ConnectDelay s))
     @ flaw_if (Timeout s < 0) (NegativeFlaw ''Timeout'' (Timeout s))
     @ flaw_if (ConnectInterval s < 0) (NegativeFlaw ''ConnectInterval'' (ConnectInterval s))
     @ flaw_if (CheckReadyPortIndex s < 0) (NegativeFlaw ''CheckReadyPortIndex'' (CheckReadyPortIndex s))
     @ flaw_if (CheckReadyURITimeout s < 0) (NegativeFlaw ''CheckReadyURITimeout'' (CheckReadyURITimeout s))
     @ flaw_if (CheckReadyInterval s < 0) (NegativeFlaw ''CheckReadyInterval'' (CheckReadyInterval s))
     @ flaw_if (CheckReadyRetries s < 0) (NegativeFlaw ''CheckReadyRetries'' (CheckReadyRetries s))"

definition status_flaws :: "Startup \<Rightarrow> flaw list" where
  "status_flaws s = map BadStatusFlaw (filter (\<lambda>n. n < 0) (CheckReadyFailureStatuses s))"

lemma Startup_Validate_parts:
  "Startup_Validate s =
     (if SkipCheck s then [] else numeric_flaws s @ protocol_flaws (CheckReadyProtocol s) @ status_flaws s)"
  by (simp add: Startup_Validate_def numeric_flaws_def status_flaws_def)

lemma fatal_parts: "list_all fatal (numeric_flaws s)" "list_all fatal (status_flaws s)"
  by (auto simp: numeric_flaws_def status_flaws_def flaw_if_def list_all_iff)

definition fix_protocol :: "DeployConfig \<Rightarrow> DeployConfig" where
  "fix_protocol dc = (if SkipCheck (dcStartup dc) then dc
     else dc\<lparr>dcStartup := (dcStartup dc)\<lparr>CheckReadyProtocol := upper_protocol (CheckReadyProtocol (dcStartup dc))\<rparr>\<rparr>)"

lemma fix_protocol_resources [simp]: "dcResources (fix_protocol dc) = dcResources dc"
  by (simp add: fix_protocol_def)

lemma fix_protocol_id: "upper_protocol (CheckReadyProtocol (dcStartup dc)) = CheckReadyProtocol (dcStartup dc)
    \<Longrightarrow> fix_protocol dc = dc"
  by (simp add: fix_protocol_def)

lemma upper_protocol_flaws:
  "protocol_flaws (upper_protocol p) = filter fatal (protocol_flaws p)"
  by (simp add: protocol_flaws_def upper_protocol_def)

lemma RepairAll_protocol:
  assumes "\<not> SkipCheck (dcStartup dc)"
  shows "RepairAll (protocol_flaws (CheckReadyProtocol (dcStartup dc))) dc
     = (filter fatal (protocol_flaws (CheckReadyProtocol (dcStartup dc))), fix_protocol dc)"
  using assms by (simp add: protocol_flaws_def fix_protocol_def upper_protocol_def)

lemma RepairAll_startup:
  "RepairAll (Startup_Validate (dcStartup dc)) dc
   = (Startup_Validate (dcStartup (fix_protocol dc)), fix_protocol dc)"
proof (cases "SkipCheck (dcStartup dc)")
  case True
  then show ?thesis by (simp add: Startup_Validate_parts fix_protocol_def)
next
  case False
  let ?s = "dcStartup dc"
  have "dcStartup (fix_protocol dc) = ?s\<lparr>CheckReadyProtocol := upper_protocol (CheckReadyProtocol ?s)\<rparr>"
    using False by (simp add: fix_protocol_def)
  moreover have "numeric_flaws (?s\<lparr>CheckReadyProtocol := p\<rparr>) = numeric_flaws ?s"
    "status_flaws (?s\<lparr>CheckReadyProtocol := p\<rparr>) = status_flaws ?s" for p
    by (simp_all add: numeric_flaws_def status_flaws_def)
  ultimately show ?thesis
    using False
    by (simp add: Startup_Validate_parts RepairAll_append RepairAll_fatal fatal_parts RepairAll_protocol
        upper_protocol_flaws)
qed

text \<open>The resource map with the default of every missing required field.\<close>

definition fill_resources :: "Resources \<Rightarrow> Resources" where
  "fill_resources r =
     (let add = (\<lambda>n d m. if ghas r n then m else gset n d m)
      in add ''ports'' ''1'' (add ''memory'' ''100'' (add ''cpus'' ''0.1'' r)))"

lemma RepairAll_resources:
  assumes "dcResources dc = Some r"
  shows "RepairAll (Resources_Validate DcMap r) dc = ([], dc\<lparr>dcResources := Some (fill_resources r)\<rparr>)"
  using assms
  by (cases dc) (simp add: Resources_Validate_def Resources_validateField_def fill_resources_def Let_def)

lemma Validate_fill_resources: "Resources_Validate w (fill_resources r) = []"
  by (auto simp: Resources_Validate_def Resources_validateField_def fill_resources_def Let_def ghas_def gget_update)

lemma RepairAll_fresh: "RepairAll (Resources_Validate FreshMap r) dc = ([], dc)"
  by (simp add: Resources_Validate_def Resources_validateField_def)

section \<open>Properties\<close>

text \<open>C29: \<open>Volumes.Equal\<close>, whose inner loop overwrites a match with the last element and
  shortens the slice, decides equality of the two lists as multisets: every volume is matched
  as often as it occurs, in any order.\<close>

theorem volumes_equal_multiset: "Volumes_Equal vs ws \<longleftrightarrow> mset vs = mset ws"
  by (rule Volumes_Equal_iff)

text \<open>\<open>UnmergeDefaults\<close> undoes \<open>MergeDefaults\<close>: a manifest's startup section survives
  being merged with the cluster defaults and put back, whatever the defaults; and what is put
  back after the merged value was kept merges to the same value again, up to the order of the
  failure statuses.\<close>

theorem startup_defaults_roundtrip:
  "Startup_UnmergeDefaults s (Startup_MergeDefaults s x) x = x
   \<and> sort_statuses (Startup_MergeDefaults s (Startup_UnmergeDefaults s (Startup_MergeDefaults s x) old))
     = sort_statuses (Startup_MergeDefaults s x)"
  by (simp add: Startup_unmerge_merge Startup_merge_unmerge)

text \<open>Two configurations have no differences exactly when instance counts, environment,
  metadata, volumes (as multisets) and startup checks agree and the resources are equivalent.
  \<open>DeployConfig.Equal\<close> returns the opposite: it holds when there is a difference, and fails
  for a configuration and itself.\<close>

theorem deploy_config_diff_and_equal:
  assumes "wf_config a" and "wf_config b"
  shows "(snd (DeployConfig_Diff a b) = [] \<longleftrightarrow>
           dcNumInstances a = dcNumInstances b \<and> gsame (dcEnv a) (dcEnv b)
           \<and> gsame (nilmap (dcMetadata a)) (nilmap (dcMetadata b))
           \<and> Resources_Equal (nilmap (dcResources a)) (nilmap (dcResources b))
           \<and> mset (dcVolumes a) = mset (dcVolumes b)
           \<and> Startup_Equal (dcStartup a) (dcStartup b))
     \<and> (DeployConfig_Equal a b \<longleftrightarrow> snd (DeployConfig_Diff a b) \<noteq> [])
     \<and> \<not> DeployConfig_Equal a a"
proof -
  have "DeployConfig_Equal x y \<longleftrightarrow> snd (DeployConfig_Diff x y) \<noteq> []" for x y
    by (simp add: DeployConfig_Equal_def DeployConfig_Diff_def Let_def)
  then show ?thesis
    using assms DeployConfig_Diff_Nil_iff DeployConfig_Diff_same [of a a] by simp
qed

theorem deploy_config_diff_and_equal_witness:
  "\<not> DeployConfig_Equal zeroDeployConfig zeroDeployConfig
   \<and> DeployConfig_Equal zeroDeployConfig (zeroDeployConfig\<lparr>dcNumInstances := 3\<rparr>)"
  using deploy_config_diff_and_equal [of zeroDeployConfig "zeroDeployConfig\<lparr>dcNumInstances := 3\<rparr>"]
  by (simp add: zeroDeployConfig_def wf_config_def)

text \<open>One pass of \<open>Validate\<close> and \<open>RepairAll\<close>. With a resource map present, the flaws
  left over are exactly those a second \<open>Validate\<close> finds, and the missing resources are filled
  in. With no resource map, the defaults go into a map that is thrown away: a second
  \<open>Validate\<close> reports the three missing resources again.\<close>

theorem deploy_config_repair:
  assumes "RepairAll (DeployConfig_Validate dc) dc = (left, dc')"
  shows "(\<forall>r. dcResources dc = Some r \<longrightarrow>
            DeployConfig_Validate dc' = left \<and> dcResources dc' = Some (fill_resources r))
     \<and> (dcResources dc = None \<longrightarrow>
            DeployConfig_Validate dc' = Resources_Validate DcMap [] @ left \<and> dcResources dc' = Some [])"
proof (intro conjI allI impI)
  fix r assume r: "dcResources dc = Some r"
  let ?d = "dc\<lparr>dcResources := Some (fill_resources r)\<rparr>"
  have "RepairAll (DeployConfig_Validate dc) dc = RepairAll (Startup_Validate (dcStartup ?d)) ?d"
    using r by (simp add: DeployConfig_Validate_def RepairAll_append RepairAll_resources case_prod_beta)
  then have "left = Startup_Validate (dcStartup (fix_protocol ?d))" and d: "dc' = fix_protocol ?d"
    using assms by (simp_all only: RepairAll_startup prod.inject)
  then show "DeployConfig_Validate dc' = left" and "dcResources dc' = Some (fill_resources r)"
    by (simp_all add: DeployConfig_Validate_def Validate_fill_resources)
next
  assume r: "dcResources dc = None"
  let ?d = "dc\<lparr>dcResources := Some []\<rparr>"
  have "RepairAll (DeployConfig_Validate dc) dc = RepairAll (Startup_Validate (dcStartup ?d)) ?d"
    using r by (simp add: DeployConfig_Validate_def RepairAll_append RepairAll_fresh case_prod_beta)
  then have "left = Startup_Validate (dcStartup (fix_protocol ?d))" and d: "dc' = fix_protocol ?d"
    using assms by (simp_all only: RepairAll_startup prod.inject)
  then show "DeployConfig_Validate dc' = Resources_Validate DcMap [] @ left" and "dcResources dc' = Some []"
    by (simp_all add: DeployConfig_Validate_def)
qed

theorem deploy_config_repair_witness:
  "DeployConfig_Validate (snd (RepairAll (DeployConfig_Validate zeroDeployConfig) zeroDeployConfig))
   = Resources_Validate DcMap [] @ [BadProtocolFlaw []]"
proof -
  have "RepairAll (DeployConfig_Validate zeroDeployConfig) zeroDeployConfig
        = ([BadProtocolFlaw []], zeroDeployConfig\<lparr>dcResources := Some []\<rparr>)"
    by code_simp
  from deploy_config_repair [OF this] this show ?thesis
    by (simp add: zeroDeployConfig_def)
qed

end
