(* ===== verification/CMap.thy ===== *)
theory CMap
  imports Sous_Prelude
begin

text \<open>
  The concurrent map blueprint \<open>util/blueprints/cmap/cmap.go\<close>, from which \<open>Manifests\<close>,
  \<open>Deployments\<close> and \<open>DeployStates\<close> are generated. A map is the entries it holds; the two
  functions that the blueprint takes from its value type, \<open>ID\<close> and \<open>Clone\<close>, are arguments.
  Every method runs under one lock for its whole body (\<open>read\<close>, \<open>write\<close>), so a method is a
  function on the map, except \<open>AddAll\<close>, \<open>Merge\<close>, \<open>Clone\<close> and \<open>Any\<close>, which take a snapshot
  first and are modelled on the snapshot. The panic on an uninitialised map is outside the
  model: a map is made by one of the constructors.

  The locale \<open>keyed_values\<close> states what the blueprint expects of its value type; inside it are
  the laws of the operations on maps that are keyed by \<open>ID\<close>.
\<close>

definition MakeCMap :: "nat \<Rightarrow> ('k, 'v) gomap" where
  "MakeCMap capacity = []"

fun NewCMapFromMap :: "('k, 'v) gomap list \<Rightarrow> ('k, 'v) gomap" where
  "NewCMapFromMap froms = foldl gset_all [] froms"

definition CMap_Get :: "('k, 'v) gomap \<Rightarrow> 'k \<Rightarrow> 'v option" where
  "CMap_Get m key = gget m key"

definition CMap_Set :: "('k, 'v) gomap \<Rightarrow> 'k \<Rightarrow> 'v \<Rightarrow> ('k, 'v) gomap" where
  "CMap_Set m key value = gset key value m"

definition CMap_Add :: "('v \<Rightarrow> 'k) \<Rightarrow> ('k, 'v) gomap \<Rightarrow> 'v \<Rightarrow> ('k, 'v) gomap \<times> bool" where
  "CMap_Add ID m v = (let k = ID v in if ghas m k then (m, False) else (gset k v m, True))"

fun CMap_new_loop :: "('v \<Rightarrow> 'k) \<Rightarrow> ('k, 'v) gomap \<Rightarrow> 'v list \<Rightarrow> ('k, ('k, 'v) gomap) outcome" where
  "CMap_new_loop ID m [] = Ok m"
| "CMap_new_loop ID m (v # vs) =
     (case CMap_Add ID m v of (m', ok) \<Rightarrow> if \<not> ok then Panic else CMap_new_loop ID m' vs)"

definition NewCMap :: "('v \<Rightarrow> 'k) \<Rightarrow> 'v list \<Rightarrow> ('k, ('k, 'v) gomap) outcome" where
  "NewCMap ID vs = CMap_new_loop ID [] vs"

definition CMap_Snapshot :: "('k, 'v) gomap \<Rightarrow> ('k, 'v) gomap" where
  "CMap_Snapshot m = gset_all [] m"

definition CMap_FilteredSnapshot :: "('v \<Rightarrow> bool) \<Rightarrow> ('k, 'v) gomap \<Rightarrow> ('k, 'v) gomap" where
  "CMap_FilteredSnapshot predicate m = gset_all [] (filter (\<lambda>(k, v). predicate v) m)"

fun CMap_clone_loop :: "('v \<Rightarrow> 'k) \<Rightarrow> ('v \<Rightarrow> 'v) \<Rightarrow> ('k, 'v) gomap \<Rightarrow> ('k, 'v) gomap \<Rightarrow> ('k, 'v) gomap" where
  "CMap_clone_loop ID Clone c [] = c"
| "CMap_clone_loop ID Clone c ((k, v) # es) = CMap_clone_loop ID Clone (fst (CMap_Add ID c (Clone v))) es"

definition CMap_Clone :: "('v \<Rightarrow> 'k) \<Rightarrow> ('v \<Rightarrow> 'v) \<Rightarrow> ('k, 'v) gomap \<Rightarrow> ('k, 'v) gomap" where
  "CMap_Clone ID Clone m = CMap_clone_loop ID Clone [] (CMap_Snapshot m)"

definition CMap_Filter ::
    "('v \<Rightarrow> 'k) \<Rightarrow> ('v \<Rightarrow> 'v) \<Rightarrow> ('k, 'v) gomap \<Rightarrow> ('v \<Rightarrow> bool) option \<Rightarrow> ('k, 'v) gomap" where
  "CMap_Filter ID Clone m predicate =
     (case predicate of
        None \<Rightarrow> CMap_Clone ID Clone m
      | Some p \<Rightarrow> NewCMapFromMap [gset_all [] (filter (\<lambda>(k, v). p v) m)])"

definition CMap_Single :: "('k, 'v) gomap \<Rightarrow> ('v \<Rightarrow> bool) \<Rightarrow> 'v option" where
  "CMap_Single m predicate =
     (case CMap_FilteredSnapshot predicate m of [(k, v)] \<Rightarrow> Some v | _ \<Rightarrow> None)"

definition CMap_Any :: "('v \<Rightarrow> 'k) \<Rightarrow> ('v \<Rightarrow> 'v) \<Rightarrow> ('k, 'v) gomap \<Rightarrow> ('v \<Rightarrow> bool) option \<Rightarrow> 'v option" where
  "CMap_Any ID Clone m predicate =
     (case CMap_Snapshot (CMap_Filter ID Clone m predicate) of [] \<Rightarrow> None | (k, v) # _ \<Rightarrow> Some v)"

definition CMap_Merge :: "('k, 'v) gomap \<Rightarrow> ('k, 'v) gomap \<Rightarrow> ('k, 'v) gomap" where
  "CMap_Merge m other = NewCMapFromMap [CMap_Snapshot m, CMap_Snapshot other]"

definition CMap_MustAdd :: "('v \<Rightarrow> 'k) \<Rightarrow> ('k, 'v) gomap \<Rightarrow> 'v \<Rightarrow> ('k, ('k, 'v) gomap) outcome" where
  "CMap_MustAdd ID m v = (case CMap_Add ID m v of (m', ok) \<Rightarrow> if \<not> ok then Panic else Ok m')"

text \<open>\<open>AddAll\<close>: the conflicting key, or \<open>None\<close> for success, beside the map.\<close>

fun first_conflict :: "('k, 'v) gomap \<Rightarrow> ('k, 'v) gomap \<Rightarrow> 'k option" where
  "first_conflict m [] = None"
| "first_conflict m ((k, v) # ss) = (if ghas m k then Some k else first_conflict m ss)"

definition CMap_AddAll :: "('k, 'v) gomap \<Rightarrow> ('k, 'v) gomap \<Rightarrow> ('k, 'v) gomap \<times> 'k option" where
  "CMap_AddAll m other =
     (let ss = CMap_Snapshot other
      in case first_conflict m ss of
           Some k \<Rightarrow> (m, Some k)
         | None \<Rightarrow> (gset_all m ss, None))"

definition CMap_Remove :: "('k, 'v) gomap \<Rightarrow> 'k \<Rightarrow> ('k, 'v) gomap" where
  "CMap_Remove m key = gdel key m"

definition CMap_Len :: "('k, 'v) gomap \<Rightarrow> nat" where
  "CMap_Len m = length m"

definition CMap_Keys :: "('k, 'v) gomap \<Rightarrow> 'k list" where
  "CMap_Keys m = map fst m"

definition CMap_GetAll :: "('k, 'v) gomap \<Rightarrow> ('k, 'v) gomap" where
  "CMap_GetAll m = CMap_Snapshot m"

definition CMap_SetAll :: "('k, 'v) gomap \<Rightarrow> ('k, 'v) gomap \<Rightarrow> ('k, 'v) gomap" where
  "CMap_SetAll m v = v"

section \<open>Laws that hold for every map\<close>

lemma CMap_Snapshot_id [simp]: "gwf m \<Longrightarrow> CMap_Snapshot m = m"
  by (simp add: CMap_Snapshot_def)

lemma gwf_CMap_Set [simp, intro]: "gwf m \<Longrightarrow> gwf (CMap_Set m k v)"
  by (simp add: CMap_Set_def)

lemma gwf_CMap_Remove [simp, intro]: "gwf m \<Longrightarrow> gwf (CMap_Remove m k)"
  by (simp add: CMap_Remove_def)

lemma gwf_CMap_Add [simp, intro]: "gwf m \<Longrightarrow> gwf (fst (CMap_Add ID m v))"
  by (simp add: CMap_Add_def Let_def)

lemma CMap_Get_Set: "CMap_Get (CMap_Set m k v) j = (if j = k then Some v else CMap_Get m j)"
  by (simp add: CMap_Get_def CMap_Set_def gget_update)

lemma CMap_Get_Remove: "CMap_Get (CMap_Remove m k) j = (if j = k then None else CMap_Get m j)"
  by (simp add: CMap_Get_def CMap_Remove_def gget_delete)

lemma first_conflict_None: "first_conflict m ss = None \<longleftrightarrow> set (gkeys m) \<inter> set (gkeys ss) = {}"
  by (induction m ss rule: first_conflict.induct) (auto simp: ghas_iff)

lemma first_conflict_Some:
  "first_conflict m ss = Some k \<Longrightarrow> k \<in> set (gkeys m) \<and> k \<in> set (gkeys ss)"
  by (induction m ss rule: first_conflict.induct) (auto simp: ghas_iff split: if_splits)

lemma CMap_AddAll_success:
  assumes "gwf other"
  shows "snd (CMap_AddAll m other) = None \<longleftrightarrow> set (gkeys m) \<inter> set (gkeys other) = {}"
  using assms first_conflict_None [of m other]
  by (cases "first_conflict m other") (simp_all add: CMap_AddAll_def)

lemma CMap_AddAll_disjoint:
  assumes "gwf m" and "gwf other" and "set (gkeys m) \<inter> set (gkeys other) = {}"
  shows "CMap_AddAll m other = (m @ other, None)"
proof -
  have "gwf (m @ other)" using assms by (simp add: gwf_def)
  moreover have "first_conflict m other = None" using assms(3) by (simp add: first_conflict_None)
  ultimately show ?thesis using assms by (simp add: CMap_AddAll_def gset_all_append)
qed

lemma CMap_AddAll_conflict:
  assumes "gwf other" and "CMap_AddAll m other = (m', Some k)"
  shows "m' = m \<and> k \<in> set (gkeys m) \<and> k \<in> set (gkeys other)"
  using assms first_conflict_Some [of m other k]
  by (auto simp: CMap_AddAll_def Let_def split: option.splits)

section \<open>Maps keyed by the identity of their values\<close>

definition keyed :: "('v \<Rightarrow> 'k) \<Rightarrow> ('k, 'v) gomap \<Rightarrow> bool" where
  "keyed ID m = (gwf m \<and> (\<forall>(k, v) \<in> set m. k = ID v))"

lemma keyedI: "gwf m \<Longrightarrow> (\<And>k v. (k, v) \<in> set m \<Longrightarrow> k = ID v) \<Longrightarrow> keyed ID m"
  by (auto simp: keyed_def)

lemma keyed_gwf: "keyed ID m \<Longrightarrow> gwf m"
  by (simp add: keyed_def)

lemma keyed_Get: "keyed ID m \<Longrightarrow> CMap_Get m k = Some v \<Longrightarrow> k = ID v"
  by (auto simp: keyed_def CMap_Get_def dest: map_of_SomeD)

lemma keyed_iff_get: "keyed ID m \<longleftrightarrow> gwf m \<and> (\<forall>k v. gget m k = Some v \<longrightarrow> k = ID v)"
  by (auto simp: keyed_def gget_iff_mem)

locale keyed_values =
  fixes ID :: "'v \<Rightarrow> 'k" and Clone :: "'v \<Rightarrow> 'v"
  assumes ID_Clone: "ID (Clone v) = ID v"
begin

lemma keyed_Nil: "keyed ID []"
  by (simp add: keyed_def)

lemma keyed_Set: "keyed ID m \<Longrightarrow> keyed ID (CMap_Set m (ID v) v)"
  by (auto simp: keyed_iff_get CMap_Set_def gget_update split: if_splits)

lemma keyed_Remove: "keyed ID m \<Longrightarrow> keyed ID (CMap_Remove m k)"
  by (auto simp: keyed_iff_get CMap_Remove_def gget_delete split: if_splits)

lemma keyed_Add: "keyed ID m \<Longrightarrow> keyed ID (fst (CMap_Add ID m v))"
  using keyed_Set by (auto simp: CMap_Add_def Let_def CMap_Set_def)

lemma keyed_AddAll:
  assumes "keyed ID m" and "keyed ID other"
  shows "keyed ID (fst (CMap_AddAll m other))"
  using assms
  by (auto simp: keyed_iff_get CMap_AddAll_def Let_def gget_set_all split: option.splits if_splits)

lemma keyed_Merge:
  assumes "keyed ID m" and "keyed ID n"
  shows "keyed ID (CMap_Merge m n)"
  using assms
  by (auto simp: keyed_iff_get CMap_Merge_def gget_set_all split: option.splits)

text \<open>An \<open>Add\<close> is refused exactly when the key is present, and then changes nothing.\<close>

lemma Add_result:
  "CMap_Add ID m v = (if CMap_Get m (ID v) = None then (CMap_Set m (ID v) v, True) else (m, False))"
  by (simp add: CMap_Add_def Let_def CMap_Get_def CMap_Set_def ghas_def)

lemma clone_loop_append:
  assumes "keyed ID (c @ es)"
  shows "CMap_clone_loop ID Clone (map (\<lambda>(k, v). (k, Clone v)) c) es
         = map (\<lambda>(k, v). (k, Clone v)) (c @ es)"
  using assms
proof (induction es arbitrary: c)
  case (Cons e es)
  obtain k v where e: "e = (k, v)" by (cases e)
  have k: "k = ID v" "k \<notin> set (gkeys c)"
    using Cons.prems by (auto simp: keyed_def e gwf_def)
  then have "ID v \<notin> set (gkeys (map (\<lambda>(k, v). (k, Clone v)) c))"
    by (auto simp: image_iff case_prod_beta)
  then have "fst (CMap_Add ID (map (\<lambda>(k, v). (k, Clone v)) c) (Clone v))
      = map (\<lambda>(k, v). (k, Clone v)) (c @ [(k, v)])"
    using k by (simp add: CMap_Add_def Let_def ghas_iff ID_Clone gset_absent)
  then show ?case
    using Cons.IH [of "c @ [(k, v)]"] Cons.prems e by simp
qed simp

lemma Clone_pointwise: "keyed ID m \<Longrightarrow> CMap_Clone ID Clone m = map (\<lambda>(k, v). (k, Clone v)) m"
  using clone_loop_append [of "[]" m] keyed_gwf [of ID m] by (simp add: CMap_Clone_def)

lemma Filter_Some: "gwf m \<Longrightarrow> CMap_Filter ID Clone m (Some p) = filter (\<lambda>(k, v). p v) m"
  by (simp add: CMap_Filter_def)

lemma New_distinct:
  "distinct (map ID vs) \<Longrightarrow> NewCMap ID vs = Ok (map (\<lambda>v. (ID v, v)) vs)"
proof -
  have "CMap_new_loop ID m vs = Ok (m @ map (\<lambda>v. (ID v, v)) vs)"
    if "distinct (map fst m @ map ID vs)" for m
    using that
  proof (induction vs arbitrary: m)
    case (Cons v vs)
    then have "\<not> ghas m (ID v)" by (auto simp: ghas_iff)
    with Cons show ?case
      by (simp add: CMap_Add_def Let_def gset_absent ghas_iff)
  qed simp
  then show "distinct (map ID vs) \<Longrightarrow> NewCMap ID vs = Ok (map (\<lambda>v. (ID v, v)) vs)"
    by (simp add: NewCMap_def)
qed

end

end
