(* ===== verification/Deployment.thy ===== *)
theory Deployment
  imports Deploy_Config CMap
begin

text \<open>
  The global deploy manifest: \<open>Cluster\<close>, \<open>Defs\<close> and \<open>State\<close> (\<open>lib/state.go\<close>),
  \<open>Manifest\<close> and \<open>Manifests\<close> (\<open>lib/manifest.go\<close>, \<open>lib/manifests.go\<close>,
  \<open>lib/manifests_generated.go\<close>), \<open>Deployment\<close> and \<open>Deployments\<close> (\<open>lib/deployment.go\<close>,
  \<open>lib/deployments.go\<close>, \<open>lib/deployments_generated.go\<close>). The translation between manifests
  and deployments is in theory \<open>State_Mapping\<close>.

  Pointers to deployments, manifests and clusters are values, so the comparison of a manifest
  with itself by pointer is not a case of its own; it has the same result as the comparison
  of contents (\<open>Manifest_Diff_refl\<close>). The locale \<open>keyed_values\<close> of theory \<open>CMap\<close> is
  interpreted on manifests and deployments.
\<close>

section \<open>Data\<close>

record Cluster =
  clName :: string
  clKind :: string
  clBaseURL :: string
  clEnv :: "(string, string) gomap"
  clStartup :: Startup
  clAllowedAdvisories :: "string list"

record EnvDef =
  edName :: string
  edDesc :: string
  edScope :: string
  edType :: string

record FieldDefinition =
  fdName :: string
  fdType :: string
  fdDefault :: string
  fdOptional :: bool

type_synonym Clusters = "(string, Cluster) gomap"

record Defs =
  defDockerRepo :: string
  defClusters :: Clusters
  defEnvVars :: "EnvDef list"
  defResources :: "FieldDefinition list"
  defMetadata :: "FieldDefinition list"

type_synonym DeploySpecs = "(string, DeploySpec) gomap"

record Manifest =
  mSource :: SourceLocation
  mFlavor :: string
  mOwners :: "string list"
  mKind :: string
  mDeployments :: DeploySpecs

type_synonym Manifests = "(ManifestID, Manifest) gomap"

record Deployment =
  dDeployConfig :: DeployConfig
  dClusterName :: string
  dCluster :: "Cluster option"
  dSourceID :: SourceID
  dFlavor :: string
  dOwners :: OwnerSet
  dKind :: string

type_synonym Deployments = "(DeploymentID, Deployment) gomap"

record State =
  sDefs :: Defs
  sManifests :: Manifests
  sEtag :: "string option"

definition ManifestKindService :: string where
  "ManifestKindService = ''http-service''"

definition ManifestKindWorker :: string where
  "ManifestKindWorker = ''worker''"

definition ManifestKindOnDemand :: string where
  "ManifestKindOnDemand = ''on-demand''"

definition ManifestKindScheduled :: string where
  "ManifestKindScheduled = ''scheduled''"

definition ManifestKindOnce :: string where
  "ManifestKindOnce = ''once''"

section \<open>Clusters and definitions\<close>

definition Cluster_Clone :: "Cluster \<Rightarrow> Cluster" where
  "Cluster_Clone c = c\<lparr>clAllowedAdvisories := clAllowedAdvisories c\<rparr>"

definition Clusters_Clone :: "Clusters \<Rightarrow> Clusters" where
  "Clusters_Clone cs = gset_all [] (map (\<lambda>(name, cluster). (name, Cluster_Clone cluster)) cs)"

definition Clusters_Names :: "Clusters \<Rightarrow> string list" where
  "Clusters_Names cs = sort (map fst cs)"

definition Clusters_String :: "Clusters \<Rightarrow> string" where
  "Clusters_String cs = join_with '', '' (map fst cs)"

definition Defs_Clone :: "Defs \<Rightarrow> Defs" where
  "Defs_Clone d = d\<lparr>defClusters := Clusters_Clone (defClusters d)\<rparr>"

section \<open>Manifests\<close>

definition Manifest_ID :: "Manifest \<Rightarrow> ManifestID" where
  "Manifest_ID m = \<lparr>midSource = mSource m, midFlavor = mFlavor m\<rparr>"

definition Manifest_SetID :: "ManifestID \<Rightarrow> Manifest \<Rightarrow> Manifest" where
  "Manifest_SetID mid m = m\<lparr>mSource := midSource mid, mFlavor := midFlavor mid\<rparr>"

definition Manifest_Clone :: "Manifest \<Rightarrow> Manifest" where
  "Manifest_Clone m =
     m\<lparr>mOwners := mOwners m,
       mDeployments := gset_all [] (map (\<lambda>(k, v). (k, DeploySpec_Clone v)) (mDeployments m))\<rparr>"

fun manifest_specs_diff :: "DeploySpecs \<Rightarrow> DeploySpecs \<Rightarrow> difference list" where
  "manifest_specs_diff [] o' = []"
| "manifest_specs_diff ((clusterName, deploySpec) # ds) o' =
     (case gget o' clusterName of
        None \<Rightarrow> DMissingDeployment clusterName # manifest_specs_diff ds o'
      | Some os \<Rightarrow> map (DInCluster clusterName) (snd (DeploySpec_Diff deploySpec os)) @ manifest_specs_diff ds o')"

definition Manifest_Diff :: "Manifest \<Rightarrow> Manifest \<Rightarrow> bool \<times> difference list" where
  "Manifest_Diff m o' =
     (let diffs =
            diff_if (mSource m \<noteq> mSource o') (DSource (mSource m) (mSource o'))
          @ diff_if (mKind m \<noteq> mKind o') (DKind (mKind m) (mKind o'))
          @ (if length (mOwners m) \<noteq> length (mOwners o')
             then [DNumOwners (length (mOwners m)) (length (mOwners o'))]
             else snd (OwnerSet_Diff (NewOwnerSet (mOwners m)) (NewOwnerSet (mOwners o'))))
          @ (if length (mDeployments m) \<noteq> length (mDeployments o')
             then [DNumDeployments (length (mDeployments m)) (length (mDeployments o'))]
             else manifest_specs_diff (mDeployments m) (mDeployments o')
                  @ map DExtraDeployment
                      (filter (\<lambda>c. \<not> ghas (mDeployments m) c) (map fst (mDeployments o'))))
      in (length diffs \<noteq> 0, diffs))"

definition Manifest_Equal :: "Manifest \<Rightarrow> Manifest \<Rightarrow> bool" where
  "Manifest_Equal m o' = (\<not> fst (Manifest_Diff m o'))"

definition Manifest_Validate :: "Manifest \<Rightarrow> flaw list" where
  "Manifest_Validate m =
     map (flaw_AddContext CtxManifest)
       (if mKind m = [] then [MissingKindFlaw] else ManifestKind_Validate (mKind m))"

datatype gdm_error =
    MultipleManifests
  | MultipleDeployments
  | NoClusterName
  | ClusterNotInDefs string
  | ClusterUndefined string ManifestID
  | ConflictingDeploys DeploymentID
  | EtagMismatch string string
  | NoEtag

text \<open>The generated map \<open>Manifests\<close>.\<close>

definition NewManifests :: "Manifest list \<Rightarrow> (ManifestID, Manifests) outcome" where
  "NewManifests vs = NewCMap Manifest_ID vs"

definition NewManifestsFromMap :: "Manifests list \<Rightarrow> Manifests" where
  "NewManifestsFromMap froms = NewCMapFromMap froms"

definition Manifests_Get :: "Manifests \<Rightarrow> ManifestID \<Rightarrow> Manifest option" where
  "Manifests_Get m key = CMap_Get m key"

definition Manifests_Set :: "Manifests \<Rightarrow> ManifestID \<Rightarrow> Manifest \<Rightarrow> Manifests" where
  "Manifests_Set m key value = CMap_Set m key value"

definition Manifests_Filter :: "Manifests \<Rightarrow> (Manifest \<Rightarrow> bool) option \<Rightarrow> Manifests" where
  "Manifests_Filter m predicate = CMap_Filter Manifest_ID Manifest_Clone m predicate"

definition Manifests_Single :: "Manifests \<Rightarrow> (Manifest \<Rightarrow> bool) \<Rightarrow> Manifest option" where
  "Manifests_Single m predicate = CMap_Single m predicate"

definition Manifests_Any :: "Manifests \<Rightarrow> (Manifest \<Rightarrow> bool) option \<Rightarrow> Manifest option" where
  "Manifests_Any m predicate = CMap_Any Manifest_ID Manifest_Clone m predicate"

definition Manifests_Clone :: "Manifests \<Rightarrow> Manifests" where
  "Manifests_Clone m = CMap_Clone Manifest_ID Manifest_Clone m"

definition Manifests_Merge :: "Manifests \<Rightarrow> Manifests \<Rightarrow> Manifests" where
  "Manifests_Merge m other = CMap_Merge m other"

definition Manifests_Add :: "Manifests \<Rightarrow> Manifest \<Rightarrow> Manifests \<times> bool" where
  "Manifests_Add m v = CMap_Add Manifest_ID m v"

definition Manifests_MustAdd :: "Manifests \<Rightarrow> Manifest \<Rightarrow> (ManifestID, Manifests) outcome" where
  "Manifests_MustAdd m v = CMap_MustAdd Manifest_ID m v"

definition Manifests_AddAll :: "Manifests \<Rightarrow> Manifests \<Rightarrow> Manifests \<times> ManifestID option" where
  "Manifests_AddAll m other = CMap_AddAll m other"

definition Manifests_Remove :: "Manifests \<Rightarrow> ManifestID \<Rightarrow> Manifests" where
  "Manifests_Remove m key = CMap_Remove m key"

definition Manifests_Keys :: "Manifests \<Rightarrow> ManifestID list" where
  "Manifests_Keys m = CMap_Keys m"

definition Manifests_Len :: "Manifests \<Rightarrow> nat" where
  "Manifests_Len m = CMap_Len m"

definition Manifests_Snapshot :: "Manifests \<Rightarrow> Manifests" where
  "Manifests_Snapshot m = CMap_Snapshot m"

definition Manifests_FilteredSnapshot :: "Manifests \<Rightarrow> (Manifest \<Rightarrow> bool) \<Rightarrow> Manifests" where
  "Manifests_FilteredSnapshot m predicate = CMap_FilteredSnapshot predicate m"

text \<open>\<open>Only\<close>: \<open>Ok None\<close> stands for the nil pointer.\<close>

definition Manifests_Only :: "Manifests \<Rightarrow> (gdm_error, Manifest option) outcome" where
  "Manifests_Only ms =
     (if Manifests_Len ms = 0 then Ok None
      else if Manifests_Len ms = 1 then
        (case Manifests_Get ms (Manifests_Keys ms ! 0) of None \<Rightarrow> Panic | Some p \<Rightarrow> Ok (Some p))
      else Err MultipleManifests)"

fun manifests_diff_loop :: "Manifests \<Rightarrow> Manifests \<Rightarrow> difference list" where
  "manifests_diff_loop [] o' = []"
| "manifests_diff_loop ((mid, m) # p) o' =
     (case gget o' mid of
        None \<Rightarrow> DMissingManifest mid # manifests_diff_loop p o'
      | Some n \<Rightarrow> map (DInManifest mid) (snd (Manifest_Diff m n)) @ manifests_diff_loop p o')"

definition Manifests_Diff :: "Manifests \<Rightarrow> Manifests \<Rightarrow> bool \<times> difference list" where
  "Manifests_Diff ms other =
     (let o' = Manifests_Snapshot other; p = Manifests_Snapshot ms;
          diffs = manifests_diff_loop p o'
                  @ map DExtraManifest (filter (\<lambda>mid. \<not> ghas p mid) (map fst o'))
      in (length diffs \<noteq> 0, diffs))"

definition Manifests_Flavors :: "Manifests \<Rightarrow> string list" where
  "Manifests_Flavors ms = NewOwnerSet (map midFlavor (Manifests_Keys ms))"

section \<open>Deployments\<close>

definition Deployment_ManifestID :: "Deployment \<Rightarrow> ManifestID" where
  "Deployment_ManifestID d = \<lparr>midSource = sidLocation (dSourceID d), midFlavor = dFlavor d\<rparr>"

definition Deployment_ID :: "Deployment \<Rightarrow> DeploymentID" where
  "Deployment_ID d = \<lparr>didManifestID = Deployment_ManifestID d, didCluster = dClusterName d\<rparr>"

definition Deployment_Clone :: "Deployment \<Rightarrow> Deployment" where
  "Deployment_Clone d =
     d\<lparr>dDeployConfig := DeployConfig_Clone (dDeployConfig d),
       dCluster := map_option Cluster_Clone (dCluster d),
       dOwners := OwnerSet_Clone (dOwners d)\<rparr>"

definition Deployment_DeploySpec :: "Deployment \<Rightarrow> DeploySpec" where
  "Deployment_DeploySpec d =
     \<lparr>dsDeployConfig = dDeployConfig d, dsVersion = sidVersion (dSourceID d), dsClusterName = dClusterName d\<rparr>"

definition Deployment_Validate :: "Deployment \<Rightarrow> flaw list" where
  "Deployment_Validate d =
     (let flaws = (if dKind d = [] then [MissingKindFlaw] else ManifestKind_Validate (dKind d))
                  @ DeployConfig_Validate (dDeployConfig d)
      in map (\<lambda>f. flaw_AddContext (CtxCluster (dClusterName d))
                    (flaw_AddContext (CtxDeployment (Deployment_ID d)) f)) flaws)"

definition tabbed_pair :: "string \<times> string \<Rightarrow> string" where
  "tabbed_pair kv = fst kv @ '': '' @ snd kv"

definition tab :: string where
  "tab = [char_of (9 :: nat)]"

definition Deployment_Tabbed :: "Deployment \<Rightarrow> string" where
  "Deployment_Tabbed d =
     (let o' = (case dOwners d of [] \<Rightarrow> ''<?>'' | onr # _ \<Rightarrow> onr);
          rs = map tabbed_pair (nilmap (dcResources (dDeployConfig d)));
          es = map tabbed_pair (dcEnv (dDeployConfig d))
      in join_with tab
           [dClusterName d, slRepo (sidLocation (dSourceID d)), Version_String (sidVersion (dSourceID d)),
            slDir (sidLocation (dSourceID d)), itoa (dcNumInstances (dDeployConfig d)), o',
            join_with '', '' rs, join_with '', '' es])"

definition Deployment_Diff :: "Deployment \<Rightarrow> Deployment \<Rightarrow> (gdm_error, bool \<times> difference list) outcome" where
  "Deployment_Diff d o' =
     (if Deployment_ID d \<noteq> Deployment_ID o' then Panic
      else let diffs =
             diff_if (dClusterName d \<noteq> dClusterName o') (DClusterName (dClusterName d) (dClusterName o'))
           @ diff_if (\<not> SourceID_Equal (dSourceID d) (dSourceID o')) (DSourceID (dSourceID d) (dSourceID o'))
           @ diff_if (dFlavor d \<noteq> dFlavor o') (DFlavor (dFlavor d) (dFlavor o'))
           @ diff_if (dKind d \<noteq> dKind o') (DKind (dKind d) (dKind o'))
           @ diff_if (dKind d = ManifestKindScheduled
                        \<and> dcSchedule (dDeployConfig d) \<noteq> dcSchedule (dDeployConfig o'))
                     (DSchedule (dcSchedule (dDeployConfig d)) (dcSchedule (dDeployConfig o')))
           @ diff_if (length (dOwners d) \<noteq> length (dOwners o'))
                     (DNumOwners (length (dOwners d)) (length (dOwners o')))
           @ map DOwner (filter (\<lambda>ow. ow \<notin> set (dOwners o')) (dOwners d))
           @ snd (DeployConfig_Diff (dDeployConfig d) (dDeployConfig o'))
         in Ok (length diffs \<noteq> 0, diffs))"

definition Deployment_Equal :: "Deployment \<Rightarrow> Deployment \<Rightarrow> (gdm_error, bool) outcome" where
  "Deployment_Equal d o' =
     (case Deployment_Diff d o' of Ok (diff, _) \<Rightarrow> Ok (\<not> diff) | Err e \<Rightarrow> Err e | Panic \<Rightarrow> Panic)"

text \<open>The generated map \<open>Deployments\<close>.\<close>

definition NewDeployments :: "Deployment list \<Rightarrow> (DeploymentID, Deployments) outcome" where
  "NewDeployments vs = NewCMap Deployment_ID vs"

definition NewDeploymentsFromMap :: "Deployments list \<Rightarrow> Deployments" where
  "NewDeploymentsFromMap froms = NewCMapFromMap froms"

definition Deployments_Get :: "Deployments \<Rightarrow> DeploymentID \<Rightarrow> Deployment option" where
  "Deployments_Get m key = CMap_Get m key"

definition Deployments_Set :: "Deployments \<Rightarrow> DeploymentID \<Rightarrow> Deployment \<Rightarrow> Deployments" where
  "Deployments_Set m key value = CMap_Set m key value"

definition Deployments_Filter :: "Deployments \<Rightarrow> (Deployment \<Rightarrow> bool) option \<Rightarrow> Deployments" where
  "Deployments_Filter m predicate = CMap_Filter Deployment_ID Deployment_Clone m predicate"

definition Deployments_Single :: "Deployments \<Rightarrow> (Deployment \<Rightarrow> bool) \<Rightarrow> Deployment option" where
  "Deployments_Single m predicate = CMap_Single m predicate"

definition Deployments_Any :: "Deployments \<Rightarrow> (Deployment \<Rightarrow> bool) option \<Rightarrow> Deployment option" where
  "Deployments_Any m predicate = CMap_Any Deployment_ID Deployment_Clone m predicate"

definition Deployments_Clone :: "Deployments \<Rightarrow> Deployments" where
  "Deployments_Clone m = CMap_Clone Deployment_ID Deployment_Clone m"

definition Deployments_Merge :: "Deployments \<Rightarrow> Deployments \<Rightarrow> Deployments" where
  "Deployments_Merge m other = CMap_Merge m other"

definition Deployments_Add :: "Deployments \<Rightarrow> Deployment \<Rightarrow> Deployments \<times> bool" where
  "Deployments_Add m v = CMap_Add Deployment_ID m v"

definition Deployments_MustAdd :: "Deployments \<Rightarrow> Deployment \<Rightarrow> (DeploymentID, Deployments) outcome" where
  "Deployments_MustAdd m v = CMap_MustAdd Deployment_ID m v"

definition Deployments_AddAll :: "Deployments \<Rightarrow> Deployments \<Rightarrow> Deployments \<times> DeploymentID option" where
  "Deployments_AddAll m other = CMap_AddAll m other"

definition Deployments_Remove :: "Deployments \<Rightarrow> DeploymentID \<Rightarrow> Deployments" where
  "Deployments_Remove m key = CMap_Remove m key"

definition Deployments_Keys :: "Deployments \<Rightarrow> DeploymentID list" where
  "Deployments_Keys m = CMap_Keys m"

definition Deployments_Len :: "Deployments \<Rightarrow> nat" where
  "Deployments_Len m = CMap_Len m"

definition Deployments_Snapshot :: "Deployments \<Rightarrow> Deployments" where
  "Deployments_Snapshot m = CMap_Snapshot m"

definition Deployments_FilteredSnapshot :: "Deployments \<Rightarrow> (Deployment \<Rightarrow> bool) \<Rightarrow> Deployments" where
  "Deployments_FilteredSnapshot m predicate = CMap_FilteredSnapshot predicate m"

definition Deployments_Only :: "Deployments \<Rightarrow> (gdm_error, Deployment option) outcome" where
  "Deployments_Only ds =
     (if Deployments_Len ds = 0 then Ok None
      else if Deployments_Len ds = 1 then
        (case Deployments_Get ds (Deployments_Keys ds ! 0) of None \<Rightarrow> Panic | Some p \<Rightarrow> Ok (Some p))
      else Err MultipleDeployments)"

text \<open>
  The loop of \<open>VariancesFrom\<close>: when the other set lacks a deployment, the message is added
  and \<open>dep.Diff(nil)\<close> dereferences the nil pointer.
\<close>

fun variances_loop :: "Deployments \<Rightarrow> Deployments \<Rightarrow> (gdm_error, difference list) outcome" where
  "variances_loop [] ods = Ok []"
| "variances_loop ((did, dep) # ds) ods =
     (case Deployments_Get ods did of
        None \<Rightarrow> Panic
      | Some od \<Rightarrow>
          (case Deployment_Diff dep od of
             Ok (_, dd) \<Rightarrow>
               (case variances_loop ds ods of Ok vs \<Rightarrow> Ok (dd @ vs) | Err e \<Rightarrow> Err e | Panic \<Rightarrow> Panic)
           | Err e \<Rightarrow> Err e
           | Panic \<Rightarrow> Panic))"

text \<open>\<open>None\<close> stands for a comparable that is not a \<open>*Deployments\<close>.\<close>

definition Deployments_VariancesFrom ::
    "Deployments \<Rightarrow> Deployments option \<Rightarrow> (gdm_error, difference list) outcome" where
  "Deployments_VariancesFrom ds other =
     (case other of
        None \<Rightarrow> Ok [DNotDeployments]
      | Some ods \<Rightarrow>
          (case variances_loop (Deployments_Snapshot ds) ods of
             Ok vs \<Rightarrow> Ok (diff_if (Deployments_Len ds \<noteq> Deployments_Len ods)
                               (DNumDeployments (Deployments_Len ds) (Deployments_Len ods)) @ vs)
           | Err e \<Rightarrow> Err e | Panic \<Rightarrow> Panic))"

definition DeploymentIDSlice_Less :: "(string \<Rightarrow> string) \<Rightarrow> DeploymentID list \<Rightarrow> nat \<Rightarrow> nat \<Rightarrow> bool" where
  "DeploymentIDSlice_Less md5sum dids i j =
     (DeploymentID_Digest md5sum (dids ! i) < DeploymentID_Digest md5sum (dids ! j))"

definition DeploymentIDSlice_Swap :: "DeploymentID list \<Rightarrow> nat \<Rightarrow> nat \<Rightarrow> DeploymentID list" where
  "DeploymentIDSlice_Swap dids i j = dids[i := dids ! j, j := dids ! i]"

section \<open>State\<close>

definition zeroDefs :: Defs where
  "zeroDefs = \<lparr>defDockerRepo = [], defClusters = [], defEnvVars = [], defResources = [], defMetadata = []\<rparr>"

definition NewState :: State where
  "NewState = \<lparr>sDefs = zeroDefs, sManifests = [], sEtag = None\<rparr>"

definition State_CheckEtag :: "State \<Rightarrow> string \<Rightarrow> (gdm_error, unit) outcome" where
  "State_CheckEtag s etag =
     (case sEtag s of
        None \<Rightarrow> Ok ()
      | Some e \<Rightarrow> if etag \<noteq> e then Err (EtagMismatch etag e) else Ok ())"

definition State_SetEtag :: "State \<Rightarrow> string \<Rightarrow> State" where
  "State_SetEtag s etag = s\<lparr>sEtag := Some etag\<rparr>"

definition State_GetEtag :: "State \<Rightarrow> (gdm_error, string) outcome" where
  "State_GetEtag s = (case sEtag s of Some e \<Rightarrow> Ok e | None \<Rightarrow> Err NoEtag)"

definition State_Clone :: "State \<Rightarrow> State" where
  "State_Clone s = s\<lparr>sManifests := Manifests_Clone (sManifests s), sDefs := Defs_Clone (sDefs s)\<rparr>"

definition State_ClusterMap :: "State \<Rightarrow> (string, string) gomap" where
  "State_ClusterMap s = gset_all [] (map (\<lambda>(name, cluster). (name, clBaseURL cluster)) (defClusters (sDefs s)))"

definition State_BaseURLs :: "State \<Rightarrow> string list" where
  "State_BaseURLs s = map (\<lambda>(name, cluster). clBaseURL cluster) (defClusters (sDefs s))"

section \<open>Facts\<close>

lemma Manifest_ID_Clone [simp]: "Manifest_ID (Manifest_Clone m) = Manifest_ID m"
  by (simp add: Manifest_ID_def Manifest_Clone_def)

lemma Deployment_ID_Clone [simp]: "Deployment_ID (Deployment_Clone d) = Deployment_ID d"
  by (simp add: Deployment_ID_def Deployment_ManifestID_def Deployment_Clone_def)

interpretation manifests: keyed_values Manifest_ID Manifest_Clone
  by unfold_locales simp

interpretation deployments: keyed_values Deployment_ID Deployment_Clone
  by unfold_locales simp

lemma Deployment_ID_iff:
  "Deployment_ID d = Deployment_ID e \<longleftrightarrow>
     sidLocation (dSourceID d) = sidLocation (dSourceID e) \<and> dFlavor d = dFlavor e
     \<and> dClusterName d = dClusterName e"
  by (simp add: Deployment_ID_def Deployment_ManifestID_def)

lemma SourceID_Equal_iff:
  "SourceID_Equal a b \<longleftrightarrow> sidLocation a = sidLocation b \<and> Version_Equals (sidVersion a) (sidVersion b)"
  by (cases a; cases b) (auto simp: SourceID_Equal_def)

definition wf_deployment :: "Deployment \<Rightarrow> bool" where
  "wf_deployment d = (wf_config (dDeployConfig d) \<and> distinct (dOwners d))"

lemma owners_diff_Nil:
  fixes os ps :: OwnerSet
  assumes "distinct os" and "distinct ps"
  shows "length os = length ps \<and> filter (\<lambda>x. x \<notin> set ps) os = [] \<longleftrightarrow> set os = set ps"
  using OwnerSet_Equal_iff [OF assms]
  by (auto simp: OwnerSet_Equal_def OwnerSet_Diff_def Let_def)

lemma Deployment_Diff_flag: "Deployment_Diff d e = Ok (b, ds) \<Longrightarrow> b \<longleftrightarrow> ds \<noteq> []"
  by (auto simp: Deployment_Diff_def Let_def split: if_splits)

lemma Deployment_Diff_total: "Deployment_ID d = Deployment_ID e \<Longrightarrow> \<exists>b ds. Deployment_Diff d e = Ok (b, ds)"
  by (simp add: Deployment_Diff_def Let_def)

lemma Deployment_Diff_Panic: "Deployment_Diff d e = Panic \<longleftrightarrow> Deployment_ID d \<noteq> Deployment_ID e"
  by (simp add: Deployment_Diff_def Let_def)

lemma Deployment_Diff_none_iff:
  assumes "wf_deployment d" and "wf_deployment e" and "Deployment_ID d = Deployment_ID e"
  shows "Deployment_Diff d e = Ok (False, []) \<longleftrightarrow>
     Version_Equals (sidVersion (dSourceID d)) (sidVersion (dSourceID e)) \<and> dKind d = dKind e
     \<and> (dKind d = ManifestKindScheduled \<longrightarrow>
          dcSchedule (dDeployConfig d) = dcSchedule (dDeployConfig e))
     \<and> set (dOwners d) = set (dOwners e)
     \<and> snd (DeployConfig_Diff (dDeployConfig d) (dDeployConfig e)) = []"
  using assms owners_diff_Nil [of "dOwners d" "dOwners e"]
  by (auto simp: Deployment_Diff_def Let_def wf_deployment_def SourceID_Equal_iff Deployment_ID_iff)

lemma wf_deployment_Clone: "wf_deployment d \<Longrightarrow> wf_deployment (Deployment_Clone d)"
  by (simp add: wf_deployment_def Deployment_Clone_def)

lemma Deployment_Clone_sel:
  "dSourceID (Deployment_Clone d) = dSourceID d" "dKind (Deployment_Clone d) = dKind d"
  "dDeployConfig (Deployment_Clone d) = DeployConfig_Clone (dDeployConfig d)"
  "dOwners (Deployment_Clone d) = OwnerSet_Clone (dOwners d)"
  "dcSchedule (DeployConfig_Clone dc) = dcSchedule dc"
  by (simp_all add: Deployment_Clone_def DeployConfig_Clone_def)

lemma Deployment_Diff_Clone:
  assumes "wf_deployment d"
  shows "Deployment_Diff (Deployment_Clone d) d = Ok (False, [])"
proof -
  have "snd (DeployConfig_Diff (DeployConfig_Clone (dDeployConfig d)) (dDeployConfig d)) = []"
    using assms by (simp add: DeployConfig_Diff_same DeployConfig_Clone_same wf_deployment_def)
  then show ?thesis
    using assms Deployment_Diff_none_iff [OF wf_deployment_Clone [OF assms] assms Deployment_ID_Clone]
    by (simp add: Deployment_Clone_sel wf_deployment_def)
qed

lemma Deployment_Diff_refl: "wf_deployment d \<Longrightarrow> Deployment_Diff d d = Ok (False, [])"
  by (simp add: Deployment_Diff_none_iff DeployConfig_Diff_same wf_deployment_def)

lemma variances_total:
  assumes "\<forall>(k, d) \<in> set ds. k = Deployment_ID d" and "keyed Deployment_ID ods"
  shows "variances_loop ds ods \<noteq> Panic \<longleftrightarrow> set (gkeys ds) \<subseteq> set (gkeys ods)"
  using assms(1)
proof (induction ds)
  case (Cons e ds)
  obtain k d where e: "e = (k, d)" by (cases e)
  then have k: "k = Deployment_ID d" using Cons.prems by simp
  show ?case
  proof (cases "Deployments_Get ods k")
    case None
    then have "k \<notin> set (gkeys ods)" by (simp add: Deployments_Get_def CMap_Get_def map_of_eq_None_iff)
    then show ?thesis using None e by simp
  next
    case (Some od)
    then have kod: "k = Deployment_ID od" and "k \<in> set (gkeys ods)"
      using keyed_Get [OF assms(2)] by (auto simp: Deployments_Get_def CMap_Get_def dest: map_of_SomeD intro: rev_image_eqI)
    moreover obtain b dd where "Deployment_Diff d od = Ok (b, dd)"
      using Deployment_Diff_total k kod by metis
    ultimately show ?thesis
      using Some Cons e by (auto split: outcome.splits)
  qed
qed simp

lemma Deployment_Diff_no_Err: "Deployment_Diff d e \<noteq> Err x"
  by (simp add: Deployment_Diff_def Let_def)

lemma variances_no_Err: "variances_loop ds ods \<noteq> Err e"
  by (induction ds) (auto simp: Deployment_Diff_no_Err split: option.splits outcome.splits)

text \<open>A manifest and itself.\<close>

definition wf_manifest :: "Manifest \<Rightarrow> bool" where
  "wf_manifest m = (gwf (mDeployments m) \<and> (\<forall>(c, spec) \<in> set (mDeployments m). wf_config (dsDeployConfig spec)))"

lemma DeploySpec_Diff_refl: "wf_config (dsDeployConfig sp) \<Longrightarrow> snd (DeploySpec_Diff sp sp) = []"
  by (simp add: DeploySpec_Diff_def Let_def DeployConfig_Diff_same)

lemma specs_diff_self:
  assumes "\<forall>(c, spec) \<in> set ds. gget o' c = Some spec \<and> wf_config (dsDeployConfig spec)"
  shows "manifest_specs_diff ds o' = []"
  using assms by (induction ds) (auto simp: DeploySpec_Diff_refl)

lemma Manifest_Diff_refl: "wf_manifest m \<Longrightarrow> Manifest_Diff m m = (False, [])"
  by (auto simp: Manifest_Diff_def Let_def OwnerSet_Diff_def wf_manifest_def filter_empty_conv ghas_iff
      intro!: specs_diff_self simp: gget_iff_mem)

section \<open>Properties\<close>

text \<open>\<open>Deployment.Diff\<close> panics exactly on deployments with different IDs; otherwise it
  reports no difference exactly when the versions have equal precedence, kind, owners and (for
  scheduled jobs) schedule agree, and the configurations do not differ.\<close>

theorem deployment_diff_spec:
  assumes "wf_deployment d" and "wf_deployment e"
  shows "(Deployment_Diff d e = Panic \<longleftrightarrow> Deployment_ID d \<noteq> Deployment_ID e)
     \<and> (Deployment_ID d = Deployment_ID e \<longrightarrow>
          (Deployment_Diff d e = Ok (False, []) \<longleftrightarrow>
             Version_Equals (sidVersion (dSourceID d)) (sidVersion (dSourceID e)) \<and> dKind d = dKind e
             \<and> (dKind d = ManifestKindScheduled \<longrightarrow>
                  dcSchedule (dDeployConfig d) = dcSchedule (dDeployConfig e))
             \<and> set (dOwners d) = set (dOwners e)
             \<and> snd (DeployConfig_Diff (dDeployConfig d) (dDeployConfig e)) = []))"
  using assms Deployment_Diff_none_iff Deployment_Diff_Panic by simp

definition example_deployment :: Deployment where
  "example_deployment = \<lparr>dDeployConfig = zeroDeployConfig\<lparr>dcNumInstances := 2\<rparr>, dClusterName = ''left'',
     dCluster = None, dSourceID = example_sid, dFlavor = [], dOwners = [''judson''], dKind = ''http-service''\<rparr>"

lemma wf_example_deployment: "wf_deployment example_deployment"
  by (simp add: wf_deployment_def example_deployment_def zeroDeployConfig_def wf_config_def)

theorem deployment_diff_spec_witness:
  "Deployment_Diff example_deployment (example_deployment\<lparr>dFlavor := ''sweet''\<rparr>) = Panic"
  using deployment_diff_spec [OF wf_example_deployment, of "example_deployment\<lparr>dFlavor := ''sweet''\<rparr>"]
  by (simp add: wf_deployment_def example_deployment_def zeroDeployConfig_def wf_config_def
      Deployment_ID_def Deployment_ManifestID_def)

text \<open>\<open>AddAll\<close> on \<open>Deployments\<close> is all or nothing: it succeeds exactly when the two
  maps share no ID, and then the result has the entries of both; otherwise the map is left as
  it was and the ID reported is in both maps.\<close>

theorem deployments_AddAll_atomic:
  assumes "keyed Deployment_ID m" and "keyed Deployment_ID other"
  shows "(set (gkeys m) \<inter> set (gkeys other) = {} \<longrightarrow>
            Deployments_AddAll m other = (m @ other, None) \<and> keyed Deployment_ID (m @ other))
     \<and> (set (gkeys m) \<inter> set (gkeys other) \<noteq> {} \<longrightarrow>
            (\<exists>k. Deployments_AddAll m other = (m, Some k) \<and> k \<in> set (gkeys m) \<and> k \<in> set (gkeys other)))"
proof (intro conjI impI)
  assume disj: "set (gkeys m) \<inter> set (gkeys other) = {}"
  then show a: "Deployments_AddAll m other = (m @ other, None)"
    using assms [THEN keyed_gwf] by (simp add: Deployments_AddAll_def CMap_AddAll_disjoint)
  then show "keyed Deployment_ID (m @ other)"
    using deployments.keyed_AddAll [OF assms] by (simp add: Deployments_AddAll_def)
next
  assume "set (gkeys m) \<inter> set (gkeys other) \<noteq> {}"
  then have "snd (CMap_AddAll m other) \<noteq> None"
    using assms(2) [THEN keyed_gwf] by (simp add: CMap_AddAll_success)
  then obtain m' k where r: "CMap_AddAll m other = (m', Some k)"
    by (cases "CMap_AddAll m other") auto
  with CMap_AddAll_conflict [OF _ r] keyed_gwf [OF assms(2)]
  show "\<exists>k. Deployments_AddAll m other = (m, Some k) \<and> k \<in> set (gkeys m) \<and> k \<in> set (gkeys other)"
    by (auto simp: Deployments_AddAll_def)
qed

theorem deployments_AddAll_atomic_witness:
  "\<exists>k. Deployments_AddAll [(Deployment_ID example_deployment, example_deployment)]
         [(Deployment_ID example_deployment, example_deployment)]
       = ([(Deployment_ID example_deployment, example_deployment)], Some k)"
  using deployments_AddAll_atomic [of "[(Deployment_ID example_deployment, example_deployment)]"
      "[(Deployment_ID example_deployment, example_deployment)]"]
  by (auto simp: keyed_def)

text \<open>Cloning a set of deployments keeps every key, and no deployment differs from its
  clone.\<close>

theorem deployments_Clone_faithful:
  assumes "keyed Deployment_ID m" and "\<forall>(k, d) \<in> set m. wf_deployment d"
  shows "gkeys (Deployments_Clone m) = gkeys m
     \<and> (\<forall>k d. Deployments_Get m k = Some d \<longrightarrow>
          (\<exists>c. Deployments_Get (Deployments_Clone m) k = Some c \<and> Deployment_Diff c d = Ok (False, [])))"
proof -
  have c: "Deployments_Clone m = map (\<lambda>(k, v). (k, Deployment_Clone v)) m"
    using deployments.Clone_pointwise [OF assms(1)] by (simp add: Deployments_Clone_def)
  moreover have "wf_deployment d" if "gget m k = Some d" for k d
    using that assms(2) by (auto dest: map_of_SomeD)
  ultimately show ?thesis
    using gget_map_values [of "\<lambda>_. Deployment_Clone" m]
    by (auto simp: Deployments_Get_def CMap_Get_def Deployment_Diff_Clone)
qed

theorem deployments_Clone_faithful_witness:
  "\<exists>c. Deployments_Get (Deployments_Clone [(Deployment_ID example_deployment, example_deployment)])
         (Deployment_ID example_deployment) = Some c \<and> Deployment_Diff c example_deployment = Ok (False, [])"
proof -
  have "keyed Deployment_ID [(Deployment_ID example_deployment, example_deployment)]"
    by (simp add: keyed_def)
  from deployments_Clone_faithful [OF this] wf_example_deployment show ?thesis
    by (auto simp: Deployments_Get_def CMap_Get_def split: if_splits)
qed

text \<open>\<open>VariancesFrom\<close> panics exactly when the other set lacks one of the deployments,
  instead of reporting the variance; a set that has them all is compared, and a set has no
  variances from itself.\<close>

theorem variances_panic_iff_missing:
  assumes "keyed Deployment_ID ds" and "keyed Deployment_ID ods"
  shows "(Deployments_VariancesFrom ds (Some ods) = Panic \<longleftrightarrow> \<not> set (gkeys ds) \<subseteq> set (gkeys ods))
     \<and> (set (gkeys ds) \<subseteq> set (gkeys ods) \<longrightarrow> (\<exists>vs. Deployments_VariancesFrom ds (Some ods) = Ok vs))"
proof -
  have "variances_loop ds ods \<noteq> Panic \<longleftrightarrow> set (gkeys ds) \<subseteq> set (gkeys ods)"
    using assms by (intro variances_total) (auto simp: keyed_def)
  then show ?thesis
    using keyed_gwf [OF assms(1)] variances_no_Err [of ds ods]
    by (cases "variances_loop ds ods") (auto simp: Deployments_VariancesFrom_def Deployments_Snapshot_def)
qed

theorem variances_panic_iff_missing_witness:
  "Deployments_VariancesFrom [(Deployment_ID example_deployment, example_deployment)] (Some []) = Panic"
  using variances_panic_iff_missing [of "[(Deployment_ID example_deployment, example_deployment)]" "[]"]
  by (simp add: keyed_def)

end
