(* ===== verification/Resolve_Errors.thy ===== *)
theory Resolve_Errors
  imports Deployment
begin

text \<open>
  The errors of a resolution (\<open>lib/resolve_errors.go\<close>) and the build artifacts some of them
  name (\<open>lib/buildpack.go\<close>). An error value is a term of \<open>goerror\<close>, one constructor per
  concrete Go type that the type switches look at; \<open>WithCause\<close> is an error of the package
  \<open>github.com/pkg/errors\<close>, whose \<open>Cause\<close> strips it. A wrapper behind a pointer and a
  wrapper held by value are different dynamic types, as they are in Go. The last four are the
  errors that the Singularity deployer makes or looks for (\<open>swaggering.ReqError\<close> with its HTTP
  status, and the errors of \<open>ext/singularity/deployment_builder.go\<close>).
\<close>

record Quality =
  qName :: string
  qKind :: string

record BuildArtifact =
  baName :: string
  baType :: string
  baQualities :: "Quality list"

datatype goerror =
    PlainError string string
  | WithCause string goerror
  | MissingImageNameError goerror
  | FailedStatusError
  | UnacceptableAdvisory Quality SourceID
  | CreateError Deployment goerror
  | DeleteError Deployment goerror
  | ChangeError "Deployment option" "Deployment option" goerror
  | WrapperPtr error_wrapper
  | WrapperVal error_wrapper
  | ResolveErrors "error_wrapper list"
  | ReqError int string
  | MalformedResponse string
  | NonSousError
  | NotThisClusterError string "string list"
and error_wrapper = EW (ewType: string) (ewString: string) (ewError: "goerror option")

fun errors_Cause :: "goerror \<Rightarrow> goerror" where
  "errors_Cause (WithCause msg e) = errors_Cause e"
| "errors_Cause e = e"

definition WrapResolveError :: "goerror \<Rightarrow> error_wrapper" where
  "WrapResolveError err = (case err of WrapperPtr ew \<Rightarrow> ew | _ \<Rightarrow> EW [] [] (Some err))"

text \<open>The name that \<open>%T\<close> prints for a dynamic type; a plain error carries its own.\<close>

fun type_name :: "goerror \<Rightarrow> string" where
  "type_name (PlainError t msg) = t"
| "type_name (WithCause msg e) = ''*errors.withStack''"
| "type_name (MissingImageNameError e) = ''*sous.MissingImageNameError''"
| "type_name FailedStatusError = ''*sous.FailedStatusError''"
| "type_name (UnacceptableAdvisory q sid) = ''*sous.UnacceptableAdvisory''"
| "type_name (CreateError d e) = ''*sous.CreateError''"
| "type_name (DeleteError d e) = ''*sous.DeleteError''"
| "type_name (ChangeError a b e) = ''*sous.ChangeError''"
| "type_name (WrapperPtr ew) = ''*sous.ErrorWrapper''"
| "type_name (WrapperVal ew) = ''sous.ErrorWrapper''"
| "type_name (ResolveErrors ews) = ''*sous.ResolveErrors''"
| "type_name (ReqError status msg) = ''*swaggering.ReqError''"
| "type_name (MalformedResponse msg) = ''singularity.malformedResponse''"
| "type_name NonSousError = ''singularity.nonSousError''"
| "type_name (NotThisClusterError found names) = ''singularity.notThisClusterError''"

text \<open>
  What remains of a wrapper after \<open>MarshalJSON\<close> and decoding: the type name and the message,
  rendered by the argument \<open>message\<close>, and no live error.
\<close>

definition ErrorWrapper_MarshalJSON :: "(goerror \<Rightarrow> string) \<Rightarrow> error_wrapper \<Rightarrow> error_wrapper" where
  "ErrorWrapper_MarshalJSON message ew =
     (case ewError ew of
        Some e \<Rightarrow> EW (type_name e) (message e) None
      | None \<Rightarrow> EW ''<nil>'' ''Failed to marshal error, it was NULL'' None)"

lemma size_errors_Cause: "size (errors_Cause e) \<le> size e"
  by (induction e rule: errors_Cause.induct) auto

lemma size_ewError: "ewError ew = Some e \<Longrightarrow> size e < size ew"
  by (cases ew) auto

function IsTransientResolveError :: "goerror \<Rightarrow> bool" where
  "IsTransientResolveError err =
     (case errors_Cause err of
        WrapperPtr ew \<Rightarrow>
          (case ewError ew of
             Some e \<Rightarrow> IsTransientResolveError e
           | None \<Rightarrow> if ewType ew = ''*sous.ChangeError'' then True
                      else if ewType ew = ''*sous.CreateError'' then True else False)
      | FailedStatusError \<Rightarrow> False
      | UnacceptableAdvisory _ _ \<Rightarrow> False
      | MissingImageNameError _ \<Rightarrow> False
      | ChangeError _ _ _ \<Rightarrow> True
      | CreateError _ _ \<Rightarrow> True
      | DeleteError _ _ \<Rightarrow> False
      | _ \<Rightarrow> False)"
  by pat_completeness auto
termination
proof (relation "measure size", simp)
  fix err ew e
  assume "errors_Cause err = WrapperPtr ew" and "ewError ew = Some e"
  then show "(e, err) \<in> measure size"
    using size_errors_Cause [of err] size_ewError [of ew e] by simp
qed

declare IsTransientResolveError.simps [simp del]

text \<open>The causes are wrappers by value, and they are passed on as they are.\<close>

definition AnyTransientResolveErrors :: "goerror \<Rightarrow> bool" where
  "AnyTransientResolveErrors err =
     (case errors_Cause err of
        ResolveErrors causes \<Rightarrow> list_ex (\<lambda>e. IsTransientResolveError (WrapperVal e)) causes
      | _ \<Rightarrow> False)"

fun ExistingDeployment :: "goerror \<Rightarrow> Deployment option" where
  "ExistingDeployment (DeleteError d e) = Some d"
| "ExistingDeployment (ChangeError prior post e) = prior"
| "ExistingDeployment _ = None"

fun IntendedDeployment :: "goerror \<Rightarrow> Deployment option" where
  "IntendedDeployment (CreateError d e) = Some d"
| "IntendedDeployment (ChangeError prior post e) = post"
| "IntendedDeployment _ = None"

section \<open>Facts\<close>

lemma transient_WithCause [simp]: "IsTransientResolveError (WithCause m e) = IsTransientResolveError e"
  by (subst (1 2) IsTransientResolveError.simps) simp

lemma transient_values [simp]:
  "IsTransientResolveError (CreateError d e)" "IsTransientResolveError (ChangeError a b e)"
  "\<not> IsTransientResolveError (DeleteError d e)" "\<not> IsTransientResolveError FailedStatusError"
  "\<not> IsTransientResolveError (UnacceptableAdvisory q sid)" "\<not> IsTransientResolveError (MissingImageNameError e)"
  "\<not> IsTransientResolveError (PlainError t m)" "\<not> IsTransientResolveError (WrapperVal ew)"
  "\<not> IsTransientResolveError (ResolveErrors ews)"
  by (simp_all add: IsTransientResolveError.simps)

lemma transient_WrapperPtr [simp]:
  "IsTransientResolveError (WrapperPtr (EW t s (Some e))) = IsTransientResolveError e"
  "IsTransientResolveError (WrapperPtr (EW t s None))
     \<longleftrightarrow> t = ''*sous.ChangeError'' \<or> t = ''*sous.CreateError''"
  by (subst IsTransientResolveError.simps, simp)+

section \<open>Properties\<close>

text \<open>C40: Wrapping an error does not change whether it is transient. Serialising the wrapper
  keeps the answer when the wrapped error is one of the resolution's own types; but no list of
  causes is ever transient, because the causes are wrappers by value, which the type switch
  does not know, so \<open>AnyTransientResolveErrors\<close> is false for every error.\<close>

theorem transient_errors:
  "IsTransientResolveError (WrapperPtr (WrapResolveError e)) = IsTransientResolveError e
   \<and> (type_name e \<in> {''*sous.CreateError'', ''*sous.ChangeError'', ''*sous.DeleteError'',
         ''*sous.FailedStatusError'', ''*sous.UnacceptableAdvisory'', ''*sous.MissingImageNameError''}
        \<and> (\<forall>t m. e \<noteq> PlainError t m) \<longrightarrow>
      IsTransientResolveError (WrapperPtr (ErrorWrapper_MarshalJSON message (EW [] [] (Some e))))
        = IsTransientResolveError e)
   \<and> \<not> AnyTransientResolveErrors e"
proof (intro conjI impI)
  show "IsTransientResolveError (WrapperPtr (WrapResolveError e)) = IsTransientResolveError e"
    by (cases e) (simp_all add: WrapResolveError_def)
  show "\<not> AnyTransientResolveErrors e"
    by (simp add: AnyTransientResolveErrors_def list_ex_iff split: goerror.splits)
qed (cases e; simp add: ErrorWrapper_MarshalJSON_def)

theorem transient_errors_witness:
  "IsTransientResolveError (WrapperPtr (ErrorWrapper_MarshalJSON (\<lambda>_. ''failed'')
     (EW [] [] (Some (CreateError example_deployment FailedStatusError)))))"
  using transient_errors [of "CreateError example_deployment FailedStatusError" "\<lambda>_. ''failed''"] by simp

end
