(* ===== verification/State_Mapping.thy ===== *)
theory State_Mapping
  imports Deployment
begin

text \<open>
  The two-way translation between the stored manifests and the flat set of deployments
  (\<open>lib/map_state_to_deployments.go\<close>), with \<open>State.UpdateDeployments\<close> and
  \<open>State.Validate\<close> (\<open>lib/state.go\<close>), which are built on it.

  Functions that return a value beside an error are pairs of the value and the optional
  error. The iteration order of a Go map is the order of its list, and it is fresh for every
  loop: the round-trip theorems are stated for every reordering of the deployments.
\<close>

section \<open>From manifests to deployments\<close>

definition flattenDeploySpecs :: "DeploySpec list \<Rightarrow> DeploySpec" where
  "flattenDeploySpecs dss =
     zeroDeploySpec\<lparr>dsDeployConfig := flattenDeployConfigs (map dsDeployConfig dss),
       dsVersion := first_that (\<lambda>v. v \<noteq> zeroVersion) zeroVersion (map dsVersion dss)\<rparr>"

definition BuildDeployment ::
    "Manifest \<Rightarrow> string \<Rightarrow> Cluster \<Rightarrow> DeploySpec \<Rightarrow> DeploySpec list \<Rightarrow> Deployment" where
  "BuildDeployment m nick cluster spec inherit =
     (let ownMap = NewOwnerSet (mOwners m);
          ds = flattenDeploySpecs (spec # inherit);
          dc = dsDeployConfig ds;
          dc1 = dc\<lparr>dcStartup := Startup_MergeDefaults (clStartup cluster) (dcStartup dc)\<rparr>;
          dc2 = dc1\<lparr>dcEnv := set_missing (dcEnv dc1) (clEnv cluster)\<rparr>
      in \<lparr>dDeployConfig = dc2, dClusterName = nick, dCluster = Some cluster,
          dSourceID = SourceLocation_SourceID (mSource m) (dsVersion ds),
          dFlavor = mFlavor m, dOwners = ownMap, dKind = mKind m\<rparr>)"

fun from_manifest_loop ::
    "Defs \<Rightarrow> Manifest \<Rightarrow> Deployments \<Rightarrow> DeploySpecs \<Rightarrow> Deployments \<times> gdm_error option" where
  "from_manifest_loop defs m ds [] = (ds, None)"
| "from_manifest_loop defs m ds ((clusterName, spec) # specs) =
     (case gget (defClusters defs) clusterName of
        None \<Rightarrow> (ds, Some (ClusterUndefined clusterName (Manifest_ID m)))
      | Some cluster \<Rightarrow>
          let d = BuildDeployment m clusterName cluster (spec\<lparr>dsClusterName := clBaseURL cluster\<rparr>) []
          in from_manifest_loop defs m (fst (Deployments_Add ds d)) specs)"

definition DeploymentsFromManifest :: "Defs \<Rightarrow> Manifest \<Rightarrow> Deployments \<times> gdm_error option" where
  "DeploymentsFromManifest defs m = from_manifest_loop defs m [] (mDeployments m)"

fun deployments_loop :: "Defs \<Rightarrow> Deployments \<Rightarrow> Manifests \<Rightarrow> Deployments \<times> gdm_error option" where
  "deployments_loop defs ds [] = (ds, None)"
| "deployments_loop defs ds ((mid, m) # ms) =
     (case DeploymentsFromManifest defs m of
        (deployments, Some err) \<Rightarrow> (ds, Some err)
      | (deployments, None) \<Rightarrow>
          (case Deployments_AddAll ds deployments of
             (ds', Some conflict) \<Rightarrow> (ds', Some (ConflictingDeploys conflict))
           | (ds', None) \<Rightarrow> deployments_loop defs ds' ms))"

definition Manifests_Deployments :: "Manifests \<Rightarrow> Defs \<Rightarrow> Deployments \<times> gdm_error option" where
  "Manifests_Deployments ms defs = deployments_loop defs [] (Manifests_Snapshot ms)"

definition State_Deployments :: "State \<Rightarrow> Deployments \<times> gdm_error option" where
  "State_Deployments s = Manifests_Deployments (sManifests s) (sDefs s)"

section \<open>From deployments to manifests\<close>

definition emptyManifest :: Manifest where
  "emptyManifest = \<lparr>mSource = zeroLocation, mFlavor = [], mOwners = [], mKind = [], mDeployments = []\<rparr>"

text \<open>The cluster of a deployment: its own, or the one the definitions give its name.\<close>

definition resolve_cluster :: "Defs \<Rightarrow> Deployment \<Rightarrow> gdm_error + Cluster" where
  "resolve_cluster defs d =
     (if dClusterName d = [] then Inl NoClusterName
      else case dCluster d of
          Some cluster \<Rightarrow> Inr cluster
        | None \<Rightarrow> (case gget (defClusters defs) (dClusterName d) of
                     None \<Rightarrow> Inl (ClusterNotInDefs (dClusterName d))
                   | Some cluster \<Rightarrow> Inr cluster))"

definition old_spec :: "Manifests \<Rightarrow> ManifestID \<Rightarrow> string \<Rightarrow> DeploySpec option" where
  "old_spec olds mid clusterName =
     (case Manifests_Get olds mid of None \<Rightarrow> None | Some old \<Rightarrow> gget (mDeployments old) clusterName)"

text \<open>
  The loop over the environment: a pair that repeats the cluster's default is deleted unless
  the old spec had the variable.
\<close>

definition keep_env :: "(string, string) gomap \<Rightarrow> DeploySpec option \<Rightarrow> string \<times> string \<Rightarrow> bool" where
  "keep_env clusterEnv oldSpec = (\<lambda>(k, v).
     (case gget clusterEnv k of
        None \<Rightarrow> True
      | Some clusterVal \<Rightarrow>
          if clusterVal = v
          then (case oldSpec of None \<Rightarrow> False | Some os \<Rightarrow> ghas (dcEnv (dsDeployConfig os)) k)
          else True))"

definition putback_spec :: "Cluster \<Rightarrow> DeploySpec option \<Rightarrow> Deployment \<Rightarrow> DeploySpec" where
  "putback_spec cluster oldSpec d =
     (let dc = DeployConfig_Clone (dDeployConfig d);
          os = (case oldSpec of None \<Rightarrow> zeroDeploySpec | Some os \<Rightarrow> os);
          dc1 = dc\<lparr>dcStartup := Startup_UnmergeDefaults (clStartup cluster) (dcStartup dc)
                                (dcStartup (dsDeployConfig os))\<rparr>;
          dc2 = dc1\<lparr>dcEnv := filter (keep_env (clEnv cluster) oldSpec) (dcEnv dc1)\<rparr>
      in zeroDeploySpec\<lparr>dsVersion := sidVersion (dSourceID d), dsDeployConfig := dc2\<rparr>)"

definition raw_spec :: "Deployment \<Rightarrow> DeploySpec" where
  "raw_spec d = zeroDeploySpec\<lparr>dsVersion := sidVersion (dSourceID d),
     dsDeployConfig := DeployConfig_Clone (dDeployConfig d)\<rparr>"

text \<open>The manifest of a deployment: the one built so far, or a new one with its owners.\<close>

definition manifest_for :: "Manifests \<Rightarrow> Deployment \<Rightarrow> Manifest" where
  "manifest_for ms d =
     (case Manifests_Get ms (Deployment_ManifestID d) of
        Some m \<Rightarrow> m
      | None \<Rightarrow> Manifest_SetID (Deployment_ManifestID d)
                 (emptyManifest\<lparr>mOwners := OwnerSet_Slice (dOwners d)\<rparr>))"

definition put_spec :: "Manifests \<Rightarrow> Deployment \<Rightarrow> DeploySpec \<Rightarrow> Manifests" where
  "put_spec ms d spec =
     (let m = manifest_for ms d
      in Manifests_Set ms (Deployment_ManifestID d)
           (m\<lparr>mDeployments := gset (dClusterName d) spec (mDeployments m), mKind := dKind d\<rparr>))"

fun putback_loop :: "Defs \<Rightarrow> Manifests \<Rightarrow> Manifests \<Rightarrow> Deployments \<Rightarrow> Manifests \<times> gdm_error option" where
  "putback_loop defs olds ms [] = (ms, None)"
| "putback_loop defs olds ms ((k, d) # ds) =
     (case resolve_cluster defs d of
        Inl err \<Rightarrow> (ms, Some err)
      | Inr cluster \<Rightarrow>
          let spec = putback_spec cluster (old_spec olds (Deployment_ManifestID d) (dClusterName d)) d
          in putback_loop defs olds (put_spec ms d spec) ds)"

text \<open>The closing loop, which sets every manifest again.\<close>

definition reset_all :: "Manifests \<Rightarrow> Manifests" where
  "reset_all ms =
     foldl (\<lambda>ms k. case Manifests_Get ms k of None \<Rightarrow> ms | Some m \<Rightarrow> Manifests_Set ms k m) ms (Manifests_Keys ms)"

definition PutbackManifests :: "Deployments \<Rightarrow> Defs \<Rightarrow> Manifests \<Rightarrow> Manifests \<times> gdm_error option" where
  "PutbackManifests ds defs olds =
     (case putback_loop defs olds [] ds of
        (ms, Some err) \<Rightarrow> (ms, Some err)
      | (ms, None) \<Rightarrow> (reset_all ms, None))"

fun raw_loop :: "Defs \<Rightarrow> Manifests \<Rightarrow> Deployments \<Rightarrow> Manifests \<times> gdm_error option" where
  "raw_loop defs ms [] = (ms, None)"
| "raw_loop defs ms ((k, d) # ds) =
     (case resolve_cluster defs d of
        Inl err \<Rightarrow> (ms, Some err)
      | Inr cluster \<Rightarrow> raw_loop defs (put_spec ms d (raw_spec d)) ds)"

definition RawManifests :: "Deployments \<Rightarrow> Defs \<Rightarrow> Manifests \<times> gdm_error option" where
  "RawManifests ds defs =
     (case raw_loop defs [] ds of
        (ms, Some err) \<Rightarrow> (ms, Some err)
      | (ms, None) \<Rightarrow> (reset_all ms, None))"

section \<open>State\<close>

fun upsert_all :: "Deployments \<Rightarrow> Deployment list \<Rightarrow> Deployments" where
  "upsert_all stateDeps [] = stateDeps"
| "upsert_all stateDeps (d # ds) = upsert_all (Deployments_Set stateDeps (Deployment_ID d) d) ds"

definition State_UpdateDeployments :: "State \<Rightarrow> Deployment list \<Rightarrow> State \<times> gdm_error option" where
  "State_UpdateDeployments s ds =
     (case State_Deployments s of
        (_, Some err) \<Rightarrow> (s, Some err)
      | (stateDeps, None) \<Rightarrow>
          (case PutbackManifests (upsert_all stateDeps ds) (sDefs s) (sManifests s) of
             (_, Some err) \<Rightarrow> (s, Some err)
           | (newManifests, None) \<Rightarrow> (s\<lparr>sManifests := newManifests\<rparr>, None)))"

definition State_Validate :: "State \<Rightarrow> flaw list" where
  "State_Validate s =
     (case State_Deployments s of
        (_, Some err) \<Rightarrow> [CannotMergeFlaw]
      | (ds, None) \<Rightarrow>
          map (flaw_AddContext CtxState)
            (concat (map (\<lambda>(k, m). Manifest_Validate m) (Manifests_Snapshot (sManifests s)))
             @ concat (map (\<lambda>(k, d). Deployment_Validate d) (Deployments_Snapshot ds))))"

section \<open>The deployments of a manifest\<close>

definition clusters_defined :: "Defs \<Rightarrow> Manifest \<Rightarrow> bool" where
  "clusters_defined defs m = list_all (\<lambda>c. ghas (defClusters defs) c) (map fst (mDeployments m))"

definition built :: "Defs \<Rightarrow> Manifest \<Rightarrow> string \<Rightarrow> DeploySpec \<Rightarrow> Deployment" where
  "built defs m c spec = BuildDeployment m c (the (gget (defClusters defs) c)) spec []"

definition manifest_deployments :: "Defs \<Rightarrow> Manifest \<Rightarrow> Deployments" where
  "manifest_deployments defs m =
     map (\<lambda>(c, spec). (Deployment_ID (built defs m c spec), built defs m c spec)) (mDeployments m)"

lemma BuildDeployment_clusterName:
  "BuildDeployment m c cl (spec\<lparr>dsClusterName := n\<rparr>) [] = BuildDeployment m c cl spec []"
  by (simp add: BuildDeployment_def flattenDeploySpecs_def Let_def)

lemma Deployment_ID_built:
  "Deployment_ID (built defs m c spec) = \<lparr>didManifestID = Manifest_ID m, didCluster = c\<rparr>"
  by (simp add: built_def BuildDeployment_def Deployment_ID_def Deployment_ManifestID_def
      Manifest_ID_def SourceLocation_SourceID_def Let_def)

lemma Deployment_ManifestID_built [simp]: "Deployment_ManifestID (built defs m c spec) = Manifest_ID m"
  using Deployment_ID_built [of defs m c spec] by (simp add: Deployment_ID_def)

lemma dClusterName_built [simp]: "dClusterName (built defs m c spec) = c"
  using Deployment_ID_built [of defs m c spec] by (simp add: Deployment_ID_def)

lemma from_manifest_loop_ok:
  assumes "list_all (\<lambda>c. ghas (defClusters defs) c) (map fst specs)"
    and "distinct (map fst acc @ map (\<lambda>(c, spec). Deployment_ID (built defs m c spec)) specs)"
  shows "from_manifest_loop defs m acc specs
     = (acc @ map (\<lambda>(c, spec). (Deployment_ID (built defs m c spec), built defs m c spec)) specs, None)"
  using assms
proof (induction specs arbitrary: acc)
  case (Cons e specs)
  obtain c spec where e: "e = (c, spec)" by (cases e)
  obtain cl where cl: "gget (defClusters defs) c = Some cl"
    using Cons.prems(1) e by (auto simp: ghas_def)
  let ?d = "built defs m c spec"
  have "Deployment_ID ?d \<notin> set (gkeys acc)" using Cons.prems(2) e by auto
  then have "fst (Deployments_Add acc ?d) = acc @ [(Deployment_ID ?d, ?d)]"
    by (simp add: Deployments_Add_def CMap_Add_def Let_def ghas_iff gset_absent)
  moreover have "BuildDeployment m c cl (spec\<lparr>dsClusterName := clBaseURL cl\<rparr>) [] = ?d"
    using cl by (simp add: BuildDeployment_clusterName built_def)
  ultimately show ?case
    using Cons.IH [of "acc @ [(Deployment_ID ?d, ?d)]"] Cons.prems e cl by (simp add: Let_def)
qed simp

lemma manifest_deployments_keys:
  "gkeys (manifest_deployments defs m)
   = map (\<lambda>c. \<lparr>didManifestID = Manifest_ID m, didCluster = c\<rparr>) (map fst (mDeployments m))"
  by (simp add: manifest_deployments_def Deployment_ID_built case_prod_beta)

lemma distinct_cluster_ids:
  "distinct cs \<Longrightarrow> distinct (map (\<lambda>c. \<lparr>didManifestID = mid, didCluster = c\<rparr>) cs)"
  by (simp add: distinct_map inj_on_def)

lemma gwf_manifest_deployments [simp]: "gwf (mDeployments m) \<Longrightarrow> gwf (manifest_deployments defs m)"
  unfolding gwf_def manifest_deployments_keys by (rule distinct_cluster_ids)

lemma DeploymentsFromManifest_ok:
  assumes "clusters_defined defs m" and "gwf (mDeployments m)"
  shows "DeploymentsFromManifest defs m = (manifest_deployments defs m, None)"
proof -
  have "distinct (map (\<lambda>(c, spec). Deployment_ID (built defs m c spec)) (mDeployments m))"
    using gwf_manifest_deployments [OF assms(2), of defs]
    by (simp add: gwf_def manifest_deployments_def comp_def split_def)
  then show ?thesis
    using assms from_manifest_loop_ok [of defs "mDeployments m" "[]" m]
    by (simp add: DeploymentsFromManifest_def clusters_defined_def manifest_deployments_def)
qed

lemma from_manifest_loop_err:
  "\<not> list_all (\<lambda>c. ghas (defClusters defs) c) (map fst specs) \<Longrightarrow>
   \<exists>c. snd (from_manifest_loop defs m acc specs) = Some (ClusterUndefined c (Manifest_ID m))
       \<and> c \<in> set (map fst specs) \<and> \<not> ghas (defClusters defs) c"
proof (induction specs arbitrary: acc)
  case (Cons e specs)
  then show ?case
    by (cases e; cases "gget (defClusters defs) (fst e)")
      (auto simp: ghas_def Let_def)
qed simp

lemma DeploymentsFromManifest_err:
  "\<not> clusters_defined defs m \<Longrightarrow>
   \<exists>c. snd (DeploymentsFromManifest defs m) = Some (ClusterUndefined c (Manifest_ID m))
       \<and> c \<in> set (gkeys (mDeployments m)) \<and> \<not> ghas (defClusters defs) c"
  unfolding DeploymentsFromManifest_def clusters_defined_def by (rule from_manifest_loop_err)

section \<open>The deployments of all manifests\<close>

definition all_deployments :: "Defs \<Rightarrow> Manifests \<Rightarrow> Deployments" where
  "all_deployments defs ms = concat (map (\<lambda>(mid, m). manifest_deployments defs m) ms)"

definition expandable :: "Defs \<Rightarrow> Manifests \<Rightarrow> bool" where
  "expandable defs ms =
     (keyed Manifest_ID ms \<and> (\<forall>(mid, m) \<in> set ms. clusters_defined defs m \<and> gwf (mDeployments m)))"

lemma all_deployments_Cons:
  "all_deployments defs ((mid, m) # ms) = manifest_deployments defs m @ all_deployments defs ms"
  by (simp add: all_deployments_def)

lemma keyed_Cons_iff:
  "keyed ID ((k, v) # m) \<longleftrightarrow> k = ID v \<and> k \<notin> set (gkeys m) \<and> keyed ID m"
  by (auto simp: keyed_def)

lemma expandable_Cons:
  "expandable defs ((mid, m) # ms) \<longleftrightarrow>
     mid = Manifest_ID m \<and> mid \<notin> set (gkeys ms) \<and> clusters_defined defs m \<and> gwf (mDeployments m)
     \<and> expandable defs ms"
  by (auto simp: expandable_def keyed_Cons_iff)

lemma gwf_append: "gwf (a @ b) \<longleftrightarrow> gwf a \<and> gwf b \<and> set (gkeys a) \<inter> set (gkeys b) = {}"
  by (simp add: gwf_def)

lemma manifest_deployments_key:
  "k \<in> set (gkeys (manifest_deployments defs m)) \<Longrightarrow> didManifestID k = Manifest_ID m"
  unfolding manifest_deployments_keys by auto

lemma manifest_deployments_mem:
  "(k, d) \<in> set (manifest_deployments defs m) \<longleftrightarrow>
     (\<exists>c spec. (c, spec) \<in> set (mDeployments m) \<and> d = built defs m c spec \<and> k = Deployment_ID d)"
  by (auto simp: manifest_deployments_def image_iff split_def Bex_def split_paired_Ex)

lemma all_deployments_mem:
  "(k, d) \<in> set (all_deployments defs ms) \<longleftrightarrow>
     (\<exists>mid m c spec. (mid, m) \<in> set ms \<and> (c, spec) \<in> set (mDeployments m)
        \<and> d = built defs m c spec \<and> k = Deployment_ID d)"
proof (induction ms)
  case (Cons e ms)
  then show ?case
    by (cases e) (simp add: all_deployments_Cons manifest_deployments_mem, blast)
qed (simp add: all_deployments_def)

lemma all_deployments_key:
  assumes "keyed Manifest_ID ms" and "k \<in> set (gkeys (all_deployments defs ms))"
  shows "didManifestID k \<in> set (gkeys ms)"
proof -
  obtain d where "(k, d) \<in> set (all_deployments defs ms)" using assms(2) by auto
  then obtain mid m c spec where m: "(mid, m) \<in> set ms" and k: "k = Deployment_ID (built defs m c spec)"
    unfolding all_deployments_mem by blast
  then have "mid = Manifest_ID m" using assms(1) by (auto simp: keyed_def)
  with m k show ?thesis by (force simp: Deployment_ID_built)
qed

lemma gwf_all_deployments: "expandable defs ms \<Longrightarrow> gwf (all_deployments defs ms)"
proof (induction ms)
  case Nil
  then show ?case by (simp add: all_deployments_def)
next
  case (Cons e ms)
  obtain mid m where e: "e = (mid, m)" by (cases e)
  have x: "expandable defs ms" "mid = Manifest_ID m" "mid \<notin> set (gkeys ms)" "gwf (mDeployments m)"
    using Cons.prems by (auto simp: e expandable_Cons)
  have "k \<notin> set (gkeys (all_deployments defs ms))" if "k \<in> set (gkeys (manifest_deployments defs m))" for k
    using manifest_deployments_key [OF that] all_deployments_key [of ms k defs] x
    by (metis expandable_def)
  then have "set (gkeys (manifest_deployments defs m)) \<inter> set (gkeys (all_deployments defs ms)) = {}"
    by blast
  then show ?case
    using Cons.IH x by (simp add: e all_deployments_Cons gwf_append)
qed

lemma keyed_all_deployments: "expandable defs ms \<Longrightarrow> keyed Deployment_ID (all_deployments defs ms)"
  using gwf_all_deployments by (intro keyedI) (auto simp: all_deployments_mem)

lemma deployments_loop_ok:
  assumes "expandable defs ms" and "gwf (acc @ all_deployments defs ms)"
  shows "deployments_loop defs acc ms = (acc @ all_deployments defs ms, None)"
  using assms
proof (induction ms arbitrary: acc)
  case Nil
  then show ?case by (simp add: all_deployments_def)
next
  case (Cons e ms)
  obtain mid m where e: "e = (mid, m)" by (cases e)
  have x: "expandable defs ms" "clusters_defined defs m" "gwf (mDeployments m)"
    using Cons.prems(1) by (auto simp: e expandable_Cons)
  have g: "gwf ((acc @ manifest_deployments defs m) @ all_deployments defs ms)"
    using Cons.prems(2) by (simp add: e all_deployments_Cons)
  then have "Deployments_AddAll acc (manifest_deployments defs m) = (acc @ manifest_deployments defs m, None)"
    unfolding Deployments_AddAll_def by (intro CMap_AddAll_disjoint) (auto simp: gwf_append)
  then show ?case
    using Cons.IH [OF x(1) g] DeploymentsFromManifest_ok [OF x(2,3)]
    by (simp add: e all_deployments_Cons)
qed

lemma Manifests_Deployments_ok:
  "expandable defs ms \<Longrightarrow> Manifests_Deployments ms defs = (all_deployments defs ms, None)"
  using deployments_loop_ok [of defs ms "[]"] gwf_all_deployments [of defs ms] keyed_gwf
  by (fastforce simp: Manifests_Deployments_def Manifests_Snapshot_def expandable_def)

lemma deployments_loop_err:
  assumes "\<exists>(mid, m) \<in> set ms. \<not> clusters_defined defs m"
  shows "snd (deployments_loop defs acc ms) \<noteq> None"
  using assms
proof (induction ms arbitrary: acc)
  case (Cons e ms)
  obtain mid m where e: "e = (mid, m)" by (cases e)
  show ?case
  proof (cases "clusters_defined defs m")
    case True
    with Cons show ?thesis by (auto simp: e split: prod.splits option.splits)
  next
    case False
    then obtain c where "snd (DeploymentsFromManifest defs m) = Some (ClusterUndefined c (Manifest_ID m))"
      using DeploymentsFromManifest_err by blast
    then show ?thesis by (cases "DeploymentsFromManifest defs m") (simp add: e)
  qed
qed simp

lemma gget_manifest_deployments:
  "gwf (mDeployments m) \<Longrightarrow>
   gget (manifest_deployments defs m) did =
     (if didManifestID did = Manifest_ID m
      then map_option (built defs m (didCluster did)) (gget (mDeployments m) (didCluster did)) else None)"
proof -
  have "gget (map (\<lambda>(c, spec). (Deployment_ID (built defs m c spec), built defs m c spec)) specs) did =
     (if didManifestID did = Manifest_ID m
      then map_option (built defs m (didCluster did)) (gget specs (didCluster did)) else None)" for specs
    by (induction specs) (auto simp: Deployment_ID_built)
  then show ?thesis by (simp add: manifest_deployments_def)
qed

lemma gget_all_deployments:
  assumes "expandable defs ms"
  shows "gget (all_deployments defs ms) did =
     (case gget ms (didManifestID did) of
        None \<Rightarrow> None
      | Some m \<Rightarrow> map_option (built defs m (didCluster did)) (gget (mDeployments m) (didCluster did)))"
  using assms
proof (induction ms)
  case Nil
  then show ?case by (simp add: all_deployments_def)
next
  case (Cons e ms)
  obtain mid m where e: "e = (mid, m)" by (cases e)
  have x: "expandable defs ms" "mid = Manifest_ID m" "mid \<notin> set (gkeys ms)" "gwf (mDeployments m)"
    using Cons.prems by (auto simp: e expandable_Cons)
  have "gget ms mid = None" using x(3) by (simp add: map_of_eq_None_iff)
  then show ?case
    using Cons.IH [OF x(1)] x
    by (auto simp: e all_deployments_Cons map_add_def gget_manifest_deployments split: option.splits)
qed

section \<open>Putting one spec back\<close>

text \<open>A spec as the translation returns it: nil maps have become empty, the nickname is dropped.\<close>

definition canon_spec :: "DeploySpec \<Rightarrow> DeploySpec" where
  "canon_spec spec =
     spec\<lparr>dsDeployConfig := (dsDeployConfig spec)
            \<lparr>dcResources := Some (nilmap (dcResources (dsDeployConfig spec))),
             dcMetadata := Some (nilmap (dcMetadata (dsDeployConfig spec)))\<rparr>,
          dsClusterName := []\<rparr>"

lemma set_missing_filter:
  "gwf es \<Longrightarrow> set_missing m es = m @ filter (\<lambda>(k, v). \<not> ghas m k) es"
proof (induction es arbitrary: m)
  case (Cons e es)
  obtain k v where e: "e = (k, v)" by (cases e)
  have k: "k \<notin> set (gkeys es)" and es: "gwf es" using Cons.prems by (simp_all add: e)
  show ?case
  proof (cases "ghas m k")
    case True
    then show ?thesis using Cons.IH [OF es] by (simp add: e)
  next
    case False
    then have "filter (\<lambda>(j, u). \<not> ghas (m @ [(k, v)]) j) es = filter (\<lambda>(j, u). \<not> ghas m j) es"
      using k by (intro filter_cong) (auto simp: ghas_iff rev_image_eqI)
    moreover have "gset k v m = m @ [(k, v)]"
      using False by (simp add: gset_absent ghas_iff)
    ultimately show ?thesis
      using False Cons.IH [OF es, of "m @ [(k, v)]"] by (simp add: e)
  qed
qed simp

lemma keep_env_getput:
  assumes "gwf C" and "gwf (dcEnv (dsDeployConfig spec))"
  shows "filter (keep_env C (Some spec)) (set_missing (dcEnv (dsDeployConfig spec)) C)
         = dcEnv (dsDeployConfig spec)"
proof -
  let ?E = "dcEnv (dsDeployConfig spec)"
  have "filter (keep_env C (Some spec)) ?E = ?E"
    by (intro filter_True) (auto simp: keep_env_def ghas_iff rev_image_eqI split: option.splits)
  moreover have "filter (keep_env C (Some spec)) (filter (\<lambda>(k, v). \<not> ghas ?E k) C) = []"
  proof (intro filter_False ballI)
    fix x assume "x \<in> set (filter (\<lambda>(k, v). \<not> ghas ?E k) C)"
    then obtain k v where x: "x = (k, v)" "(k, v) \<in> set C" "\<not> ghas ?E k" by auto
    then have "gget C k = Some v" using assms(1) by (simp add: gget_iff_mem)
    then show "\<not> keep_env C (Some spec) x" using x by (simp add: keep_env_def)
  qed
  ultimately show ?thesis using assms by (simp add: set_missing_filter)
qed

lemma putback_built:
  assumes "gget (defClusters defs) c = Some cl" and "gwf (clEnv cl)" and "wf_config (dsDeployConfig spec)"
  shows "putback_spec cl (Some spec) (built defs m c spec) = canon_spec spec"
proof -
  let ?dc = "dsDeployConfig spec"
  have E: "gwf (dcEnv ?dc)" "gwf (nilmap (dcResources ?dc))" "gwf (nilmap (dcMetadata ?dc))"
    using assms(3) by (simp_all add: wf_config_def)
  have v: "first_that (\<lambda>v. v \<noteq> zeroVersion) zeroVersion [w] = w" for w
    by (simp add: first_that_def)
  show ?thesis
    using assms E
    by (simp add: putback_spec_def built_def BuildDeployment_def flattenDeploySpecs_def Let_def
        flatten_single DeployConfig_Clone_def Volumes_Clone_def Startup_unmerge_merge keep_env_getput
        canon_spec_def SourceLocation_SourceID_def v zeroDeploySpec_def gwf_set_missing)
qed

section \<open>Putting all deployments back\<close>

text \<open>
  What a set of manifests has to do with the deployments it was built from: one manifest per
  manifest ID, with the given owners and kind, and one spec per deployment.
\<close>

abbreviation did_of :: "ManifestID \<Rightarrow> string \<Rightarrow> DeploymentID" where
  "did_of mid c \<equiv> \<lparr>didManifestID = mid, didCluster = c\<rparr>"

lemma did_of_eta [simp]: "did_of (didManifestID did) (didCluster did) = did"
  by simp

definition carries ::
    "(Deployment \<Rightarrow> DeploySpec) \<Rightarrow> (ManifestID \<Rightarrow> string list) \<Rightarrow> (ManifestID \<Rightarrow> string) \<Rightarrow>
     Deployments \<Rightarrow> ManifestID \<Rightarrow> Manifest \<Rightarrow> bool" where
  "carries S F K ds mid M =
     (Manifest_ID M = mid \<and> mOwners M = F mid \<and> mKind M = K mid \<and> gwf (mDeployments M)
      \<and> (\<forall>c. gget (mDeployments M) c = map_option S (gget ds (did_of mid c))))"

definition represents ::
    "(Deployment \<Rightarrow> DeploySpec) \<Rightarrow> (ManifestID \<Rightarrow> string list) \<Rightarrow> (ManifestID \<Rightarrow> string) \<Rightarrow>
     Deployments \<Rightarrow> Manifests \<Rightarrow> bool" where
  "represents S F K ds ms =
     (gwf ms \<and> (\<forall>mid. case gget ms mid of
          None \<Rightarrow> (\<forall>c. gget ds (did_of mid c) = None)
        | Some M \<Rightarrow> (\<exists>c. gget ds (did_of mid c) \<noteq> None) \<and> carries S F K ds mid M))"

lemma representsD:
  assumes "represents S F K ds ms"
  shows "gwf ms"
    and "gget ms mid = None \<Longrightarrow> gget ds (did_of mid c) = None"
    and "gget ms mid = Some M \<Longrightarrow> carries S F K ds mid M"
    and "gget ms mid = Some M \<Longrightarrow> \<exists>c. gget ds (did_of mid c) \<noteq> None"
  using assms unfolding represents_def by (auto dest: spec [of _ mid])

text \<open>Owners and kind of the deployments are those of their manifest.\<close>

definition uniform :: "(ManifestID \<Rightarrow> string list) \<Rightarrow> (ManifestID \<Rightarrow> string) \<Rightarrow> Deployments \<Rightarrow> bool" where
  "uniform F K ds =
     (\<forall>(k, d) \<in> set ds. OwnerSet_Slice (dOwners d) = F (Deployment_ManifestID d)
                     \<and> dKind d = K (Deployment_ManifestID d))"

lemma Deployment_ID_did_of: "Deployment_ID d = did_of (Deployment_ManifestID d) (dClusterName d)"
  by (simp add: Deployment_ID_def)

lemma gget_snoc:
  "k \<notin> set (gkeys ds) \<Longrightarrow> gget (ds @ [(k, d)]) j = (if j = k then Some d else gget ds j)"
  using map_of_eq_None_iff [of ds k] by (auto simp: map_add_def split: option.splits)

lemma manifest_for_carries:
  assumes r: "represents S F K ds ms"
    and o: "OwnerSet_Slice (dOwners d) = F (Deployment_ManifestID d)"
  shows "Manifest_ID (manifest_for ms d) = Deployment_ManifestID d
     \<and> mOwners (manifest_for ms d) = F (Deployment_ManifestID d) \<and> gwf (mDeployments (manifest_for ms d))
     \<and> (\<forall>c. gget (mDeployments (manifest_for ms d)) c
             = map_option S (gget ds (did_of (Deployment_ManifestID d) c)))"
proof (cases "gget ms (Deployment_ManifestID d)")
  case None
  with representsD(2) [OF r None] o show ?thesis
    by (simp add: manifest_for_def Manifests_Get_def CMap_Get_def Manifest_SetID_def Manifest_ID_def
        emptyManifest_def)
next
  case (Some M)
  with representsD(3) [OF r Some] show ?thesis
    by (simp add: manifest_for_def Manifests_Get_def CMap_Get_def carries_def)
qed

lemma represents_step:
  assumes r: "represents S F K ds ms" and k: "k \<notin> set (gkeys ds)" "k = Deployment_ID d"
    and u: "OwnerSet_Slice (dOwners d) = F (Deployment_ManifestID d)" "dKind d = K (Deployment_ManifestID d)"
  shows "represents S F K (ds @ [(k, d)]) (put_spec ms d (S d))"
proof -
  let ?mid = "Deployment_ManifestID d" and ?m = "manifest_for ms d"
  let ?M = "?m\<lparr>mDeployments := gset (dClusterName d) (S d) (mDeployments ?m), mKind := dKind d\<rparr>"
  let ?ds = "ds @ [(k, d)]"
  note mf = manifest_for_carries [OF r u(1)]
  have get: "gget ?ds j = (if j = did_of ?mid (dClusterName d) then Some d else gget ds j)" for j
    using gget_snoc [OF k(1), of d j] k(2) by (simp add: Deployment_ID_did_of)
  have ms: "gget (put_spec ms d (S d)) mid = (if mid = ?mid then Some ?M else gget ms mid)" for mid
    by (simp add: put_spec_def Let_def Manifests_Set_def CMap_Set_def gget_update)
  have M: "carries S F K ?ds ?mid ?M"
    using mf u(2) by (auto simp: carries_def get gget_update Manifest_ID_def simp del: map_of_append)
  have other: "carries S F K ?ds mid N \<longleftrightarrow> carries S F K ds mid N" if "mid \<noteq> ?mid" for mid N
    using that by (simp add: carries_def get del: map_of_append)
  have "gwf (put_spec ms d (S d))"
    using representsD(1) [OF r] by (simp add: put_spec_def Let_def Manifests_Set_def)
  moreover have "case gget (put_spec ms d (S d)) mid of
          None \<Rightarrow> (\<forall>c. gget ?ds (did_of mid c) = None)
        | Some M \<Rightarrow> (\<exists>c. gget ?ds (did_of mid c) \<noteq> None) \<and> carries S F K ?ds mid M" for mid
  proof (cases "mid = ?mid")
    case True
    then show ?thesis using M by (auto simp: ms get simp del: map_of_append)
  next
    case False
    then show ?thesis
      using representsD(2-4) [OF r, of mid] other [OF False]
      by (auto simp: ms get simp del: map_of_append split: option.splits)
  qed
  ultimately show ?thesis by (simp add: represents_def)
qed

lemma represents_fold:
  assumes "keyed Deployment_ID ds" and "uniform F K ds"
  shows "represents S F K ds (foldl (\<lambda>ms (k, d). put_spec ms d (S d)) [] ds)"
  using assms
proof (induction ds rule: rev_induct)
  case Nil
  then show ?case by (simp add: represents_def)
next
  case (snoc e ds)
  obtain k d where e: "e = (k, d)" by (cases e)
  have "keyed Deployment_ID ds" "uniform F K ds" "k \<notin> set (gkeys ds)" "k = Deployment_ID d"
    "OwnerSet_Slice (dOwners d) = F (Deployment_ManifestID d)" "dKind d = K (Deployment_ManifestID d)"
    using snoc.prems by (auto simp: e keyed_def gwf_append uniform_def)
  then show ?case
    using snoc.IH represents_step by (simp add: e)
qed

lemma putback_loop_fold:
  assumes "\<forall>(k, d) \<in> set ds. resolve_cluster defs d = Inr (cl d)"
  shows "putback_loop defs olds ms ds =
     (foldl (\<lambda>ms (k, d). put_spec ms d (putback_spec (cl d)
         (old_spec olds (Deployment_ManifestID d) (dClusterName d)) d)) ms ds, None)"
  using assms by (induction ds arbitrary: ms) (auto simp: Let_def)

lemma gset_same: "gwf m \<Longrightarrow> gget m k = Some v \<Longrightarrow> gset k v m = m"
  by (induction m) (auto simp: split: if_splits)

lemma reset_all_id: "gwf ms \<Longrightarrow> reset_all ms = ms"
proof -
  assume g: "gwf ms"
  have "foldl (\<lambda>ms k. case Manifests_Get ms k of None \<Rightarrow> ms | Some m \<Rightarrow> Manifests_Set ms k m) ms ks = ms" for ks
    using g by (induction ks)
      (simp_all add: Manifests_Get_def Manifests_Set_def CMap_Get_def CMap_Set_def gset_same split: option.splits)
  then show ?thesis by (simp add: reset_all_def)
qed

lemma PutbackManifests_represents:
  assumes "keyed Deployment_ID ds" and "uniform F K ds"
    and "\<forall>(k, d) \<in> set ds. resolve_cluster defs d = Inr (cl d)"
  shows "\<exists>ms. PutbackManifests ds defs olds = (ms, None) \<and>
     represents (\<lambda>d. putback_spec (cl d) (old_spec olds (Deployment_ManifestID d) (dClusterName d)) d) F K ds ms"
proof -
  let ?S = "\<lambda>d. putback_spec (cl d) (old_spec olds (Deployment_ManifestID d) (dClusterName d)) d"
  let ?ms = "foldl (\<lambda>ms (k, d). put_spec ms d (?S d)) [] ds"
  have r: "represents ?S F K ds ?ms" by (rule represents_fold [OF assms(1,2)])
  moreover have "PutbackManifests ds defs olds = (?ms, None)"
    using putback_loop_fold [OF assms(3), of olds "[]"] reset_all_id [OF representsD(1) [OF r]]
    by (simp add: PutbackManifests_def)
  ultimately show ?thesis by blast
qed

section \<open>Reading, then writing back\<close>

text \<open>
  The manifests that the translation preserves: every manifest has a deployment, its owners
  are in alphabetical order without repetition, every cluster has a name and a definition.
\<close>

definition wf_gdm :: "Defs \<Rightarrow> Manifests \<Rightarrow> bool" where
  "wf_gdm defs ms =
     (expandable defs ms \<and> (\<forall>(c, cl) \<in> set (defClusters defs). gwf (clEnv cl))
      \<and> (\<forall>(mid, m) \<in> set ms. mDeployments m \<noteq> [] \<and> sorted (mOwners m) \<and> distinct (mOwners m)
           \<and> [] \<notin> set (gkeys (mDeployments m))
           \<and> (\<forall>(c, spec) \<in> set (mDeployments m). wf_config (dsDeployConfig spec))))"

definition same_manifest :: "Manifest \<Rightarrow> Manifest \<Rightarrow> bool" where
  "same_manifest m' m =
     (mSource m' = mSource m \<and> mFlavor m' = mFlavor m \<and> mOwners m' = mOwners m \<and> mKind m' = mKind m
      \<and> gwf (mDeployments m')
      \<and> (\<forall>c. gget (mDeployments m') c = map_option canon_spec (gget (mDeployments m) c)))"

lemma wf_gdmD:
  assumes "wf_gdm defs ms" and "gget ms mid = Some m"
  shows "mid = Manifest_ID m" "mDeployments m \<noteq> []" "sorted (mOwners m)" "distinct (mOwners m)"
    "clusters_defined defs m" "gwf (mDeployments m)"
    "gget (mDeployments m) c = Some spec \<Longrightarrow> c \<noteq> [] \<and> wf_config (dsDeployConfig spec)"
proof -
  have mem: "(mid, m) \<in> set ms" using assms(2) by (rule map_of_SomeD)
  then show "mid = Manifest_ID m" "mDeployments m \<noteq> []" "sorted (mOwners m)" "distinct (mOwners m)"
    "clusters_defined defs m" "gwf (mDeployments m)"
    using assms(1) by (auto simp: wf_gdm_def expandable_def keyed_def)
  show "gget (mDeployments m) c = Some spec \<Longrightarrow> c \<noteq> [] \<and> wf_config (dsDeployConfig spec)"
  proof -
    assume "gget (mDeployments m) c = Some spec"
    then have cs: "(c, spec) \<in> set (mDeployments m)" by (rule map_of_SomeD)
    then have "c \<in> set (gkeys (mDeployments m))" by (force simp: image_iff)
    with cs mem assms(1) show "c \<noteq> [] \<and> wf_config (dsDeployConfig spec)"
      unfolding wf_gdm_def by blast
  qed
qed

lemma dCluster_built:
  "gget (defClusters defs) c = Some cl \<Longrightarrow> dCluster (built defs m c spec) = Some cl"
  by (simp add: built_def BuildDeployment_def Let_def)

lemma owners_built: "dOwners (built defs m c spec) = NewOwnerSet (mOwners m)"
  by (simp add: built_def BuildDeployment_def Let_def)

lemma kind_built: "dKind (built defs m c spec) = mKind m"
  by (simp add: built_def BuildDeployment_def Let_def)

lemma built_getput:
  assumes "wf_gdm defs ms" and "gget ms mid = Some m" and "gget (mDeployments m) c = Some spec"
  shows "resolve_cluster defs (built defs m c spec) = Inr (the (dCluster (built defs m c spec)))"
    and "putback_spec (the (dCluster (built defs m c spec)))
           (old_spec ms (Deployment_ManifestID (built defs m c spec)) (dClusterName (built defs m c spec)))
           (built defs m c spec) = canon_spec spec"
    and "OwnerSet_Slice (dOwners (built defs m c spec)) = mOwners m"
proof -
  note wf = wf_gdmD [OF assms(1,2)]
  have "c \<in> set (gkeys (mDeployments m))" using assms(3) by (auto dest!: map_of_SomeD simp: rev_image_eqI)
  then obtain cl where cl: "gget (defClusters defs) c = Some cl"
    using wf(5) by (auto simp: clusters_defined_def list_all_iff ghas_def)
  then have env: "gwf (clEnv cl)"
    using assms(1) by (auto simp: wf_gdm_def dest!: map_of_SomeD)
  show "resolve_cluster defs (built defs m c spec) = Inr (the (dCluster (built defs m c spec)))"
    using wf(7) [OF assms(3)] by (simp add: resolve_cluster_def dCluster_built [OF cl])
  have "old_spec ms (Manifest_ID m) c = Some spec"
    using assms wf(1) by (simp add: old_spec_def Manifests_Get_def CMap_Get_def)
  then show "putback_spec (the (dCluster (built defs m c spec)))
           (old_spec ms (Deployment_ManifestID (built defs m c spec)) (dClusterName (built defs m c spec)))
           (built defs m c spec) = canon_spec spec"
    using putback_built [OF cl env] wf(7) [OF assms(3)] by (simp add: dCluster_built [OF cl])
  show "OwnerSet_Slice (dOwners (built defs m c spec)) = mOwners m"
    using OwnerSet_Slice_NewOwnerSet wf(3,4) by (simp add: owners_built)
qed

lemma putback_getput:
  assumes wf: "wf_gdm defs ms" and ds: "gwf ds" "gsame (all_deployments defs ms) ds"
  shows "\<exists>ms'. PutbackManifests ds defs ms = (ms', None) \<and> gwf ms'
     \<and> (\<forall>mid. rel_option same_manifest (gget ms' mid) (gget ms mid))"
proof -
  let ?F = "\<lambda>mid. mOwners (the (gget ms mid))" and ?K = "\<lambda>mid. mKind (the (gget ms mid))"
  let ?S = "\<lambda>d. putback_spec (the (dCluster d)) (old_spec ms (Deployment_ManifestID d) (dClusterName d)) d"
  have ex: "expandable defs ms" using wf by (simp add: wf_gdm_def)
  have g: "gget ds = gget (all_deployments defs ms)"
    using ds gwf_all_deployments [OF ex] by (simp add: gsame_iff_get)
  have mem: "\<exists>m c spec. gget ms (Manifest_ID m) = Some m \<and> gget (mDeployments m) c = Some spec
        \<and> d = built defs m c spec" if kd: "(k, d) \<in> set ds" for k d
  proof -
    have "(k, d) \<in> set (all_deployments defs ms)" using kd ds(2) by (simp add: gsame_def)
    then obtain mid m c spec where m: "(mid, m) \<in> set ms" "(c, spec) \<in> set (mDeployments m)" "d = built defs m c spec"
      unfolding all_deployments_mem by blast
    with ex show ?thesis
      by (metis (mono_tags, lifting) case_prodD expandable_def gget_iff_mem keyed_def)
  qed
  have key: "keyed Deployment_ID ds"
    using keyed_all_deployments [OF ex] ds by (auto simp: keyed_def gsame_def)
  have u: "uniform ?F ?K ds"
    unfolding uniform_def using mem built_getput(3) [OF wf] by (fastforce simp: kind_built)
  have cl: "\<forall>(k, d) \<in> set ds. resolve_cluster defs d = Inr (the (dCluster d))"
    using mem built_getput(1) [OF wf] by fastforce
  obtain ms' where p: "PutbackManifests ds defs ms = (ms', None)" and r: "represents ?S ?F ?K ds ms'"
    using PutbackManifests_represents [OF key u cl] by blast
  have get: "gget ds (did_of mid c) = (case gget ms mid of None \<Rightarrow> None
       | Some m \<Rightarrow> map_option (built defs m c) (gget (mDeployments m) c))" for mid c
    by (simp add: g gget_all_deployments [OF ex] split: option.splits)
  have "rel_option same_manifest (gget ms' mid) (gget ms mid)" for mid
  proof (cases "gget ms mid")
    case None
    then show ?thesis using representsD(4) [OF r, of mid] get [of mid] by (cases "gget ms' mid") auto
  next
    case (Some m)
    obtain c0 sp0 where "gget (mDeployments m) c0 = Some sp0"
      using wf_gdmD(2) [OF wf Some] by (cases "mDeployments m") (auto intro: that [of "fst (hd (mDeployments m))"])
    then have "gget ms' mid \<noteq> None"
      using representsD(2) [OF r, of mid c0] get [of mid c0] Some by auto
    then obtain M where M: "gget ms' mid = Some M" by blast
    have c: "carries ?S ?F ?K ds mid M" by (rule representsD(3) [OF r M])
    have "gget (mDeployments M) c = map_option canon_spec (gget (mDeployments m) c)" for c
      using c get [of mid c] Some built_getput(2) [OF wf Some]
      by (cases "gget (mDeployments m) c") (simp_all add: carries_def)
    moreover have "Manifest_ID M = Manifest_ID m"
      using c wf_gdmD(1) [OF wf Some] by (simp add: carries_def)
    ultimately show ?thesis
      using c Some M by (simp add: same_manifest_def carries_def Manifest_ID_def)
  qed
  then show ?thesis using p representsD(1) [OF r] by blast
qed

section \<open>Writing, then reading back\<close>

text \<open>
  The deployments that can be stored as they are: the cluster of each is defined, its
  environment sets at least the variables of its cluster, its startup section is a completed
  one, and the deployments of one manifest agree in owners and kind.
\<close>

definition storable :: "Defs \<Rightarrow> Deployment \<Rightarrow> bool" where
  "storable defs d =
     (dClusterName d \<noteq> [] \<and> wf_deployment d \<and>
      (case gget (defClusters defs) (dClusterName d) of
         None \<Rightarrow> False
       | Some cl \<Rightarrow> (dCluster d = Some cl \<or> dCluster d = None) \<and> gwf (clEnv cl)
           \<and> set (gkeys (clEnv cl)) \<subseteq> set (gkeys (dcEnv (dDeployConfig d)))
           \<and> dcStartup (dDeployConfig d) = Startup_MergeDefaults (clStartup cl) (dcStartup (dDeployConfig d))))"

definition consistent :: "Deployments \<Rightarrow> bool" where
  "consistent ds =
     (\<forall>(k, d) \<in> set ds. \<forall>(j, e) \<in> set ds. Deployment_ManifestID d = Deployment_ManifestID e \<longrightarrow>
        set (dOwners d) = set (dOwners e) \<and> dKind d = dKind e)"

lemma storable_cluster:
  assumes "storable defs d"
  obtains cl where "gget (defClusters defs) (dClusterName d) = Some cl" "resolve_cluster defs d = Inr cl"
    "gwf (clEnv cl)" "set (gkeys (clEnv cl)) \<subseteq> set (gkeys (dcEnv (dDeployConfig d)))"
    "dcStartup (dDeployConfig d) = Startup_MergeDefaults (clStartup cl) (dcStartup (dDeployConfig d))"
  using assms by (auto simp: storable_def resolve_cluster_def split: option.splits)

lemma env_putget:
  assumes "gwf E" and "gwf C" and sub: "set (gkeys C) \<subseteq> set (gkeys E)"
  shows "gsame (set_missing (filter (keep_env C os) E) C) E"
proof -
  have "gget (set_missing (filter (keep_env C os) E) C) k = gget E k" for k
  proof (cases "gget E k")
    case None
    then have "gget C k = None" using sub by (auto simp: map_of_eq_None_iff)
    then show ?thesis using None assms by (simp add: gget_set_missing gwf_filter_get)
  next
    case (Some v)
    then show ?thesis
      using assms by (auto simp: gget_set_missing gwf_filter_get keep_env_def split: option.splits if_splits)
  qed
  then show ?thesis using assms by (simp add: gsame_iff_get ext)
qed

lemma config_putget:
  assumes st: "storable defs d" and cl: "gget (defClusters defs) (dClusterName d) = Some cl"
  shows "same_config (dDeployConfig (built defs M (dClusterName d) (putback_spec cl os d))) (dDeployConfig d)
       \<and> wf_config (dDeployConfig (built defs M (dClusterName d) (putback_spec cl os d)))"
proof -
  let ?dc = "dDeployConfig d"
  have dc: "gwf (nilmap (dcResources ?dc))" "gwf (nilmap (dcMetadata ?dc))" "gwf (dcEnv ?dc)"
    and s: "dcStartup ?dc = Startup_MergeDefaults (clStartup cl) (dcStartup ?dc)"
    and e: "gwf (clEnv cl)" "set (gkeys (clEnv cl)) \<subseteq> set (gkeys (dcEnv ?dc))"
    using st cl by (simp_all add: storable_def wf_deployment_def wf_config_def)
  have st: "sort_statuses (Startup_MergeDefaults (clStartup cl)
        (Startup_UnmergeDefaults (clStartup cl) (dcStartup ?dc) old)) = sort_statuses (dcStartup ?dc)" for old
    using Startup_merge_unmerge [of "clStartup cl" "dcStartup ?dc" old] s by simp
  have c: "wf_config (dsDeployConfig (putback_spec cl os d))"
    using dc by (cases "dcMetadata ?dc")
      (simp_all add: putback_spec_def Let_def wf_config_def DeployConfig_Clone_def zeroDeploySpec_def)
  show ?thesis
    using flatten_single [OF c] dc e env_putget [OF dc(3) e] st
    by (cases "dcMetadata ?dc")
      (simp_all add: built_def BuildDeployment_def flattenDeploySpecs_def Let_def cl same_config_def
        wf_config_def putback_spec_def DeployConfig_Clone_def zeroDeploySpec_def Volumes_Clone_def)
qed

lemma version_built: "sidVersion (dSourceID (built defs M c spec)) = dsVersion spec"
  by (simp add: built_def BuildDeployment_def flattenDeploySpecs_def Let_def SourceLocation_SourceID_def
      first_that_def)

lemma version_putback [simp]: "dsVersion (putback_spec cl os d) = sidVersion (dSourceID d)"
  by (simp add: putback_spec_def Let_def)

lemma deployment_putget:
  assumes st: "storable defs d" and cl: "gget (defClusters defs) (dClusterName d) = Some cl"
    and M: "Manifest_ID M = Deployment_ManifestID d" "set (mOwners M) = set (dOwners d)" "mKind M = dKind d"
  shows "Deployment_Diff (built defs M (dClusterName d) (putback_spec cl os d)) d = Ok (False, [])"
proof -
  let ?b = "built defs M (dClusterName d) (putback_spec cl os d)"
  note c = config_putget [OF st cl, of M os]
  have wf: "wf_deployment d" using st by (simp add: storable_def)
  have wb: "wf_deployment ?b" using c by (simp add: wf_deployment_def owners_built)
  have id: "Deployment_ID ?b = Deployment_ID d"
    using M(1) by (simp add: Deployment_ID_built Deployment_ID_def)
  have "snd (DeployConfig_Diff (dDeployConfig ?b) (dDeployConfig d)) = []"
    using c wf by (simp add: DeployConfig_Diff_same wf_deployment_def)
  moreover have "dcSchedule (dDeployConfig ?b) = dcSchedule (dDeployConfig d)"
    using c by (simp add: same_config_def)
  ultimately show ?thesis
    using Deployment_Diff_none_iff [OF wb wf id] M by (simp add: version_built kind_built owners_built)
qed

lemma consistent_uniform:
  assumes "consistent ds" and "\<forall>(k, d) \<in> set ds. distinct (dOwners d)"
  obtains F K where "uniform F K ds"
proof -
  define pick where "pick mid = (SOME d. (\<exists>k. (k, d) \<in> set ds) \<and> Deployment_ManifestID d = mid)" for mid
  have "OwnerSet_Slice (dOwners d) = OwnerSet_Slice (dOwners (pick (Deployment_ManifestID d)))
      \<and> dKind d = dKind (pick (Deployment_ManifestID d))" if kd: "(k, d) \<in> set ds" for k d
  proof -
    have "(\<exists>j. (j, pick (Deployment_ManifestID d)) \<in> set ds)
        \<and> Deployment_ManifestID (pick (Deployment_ManifestID d)) = Deployment_ManifestID d"
      unfolding pick_def by (rule someI [of _ d]) (use kd in blast)
    then obtain j where j: "(j, pick (Deployment_ManifestID d)) \<in> set ds"
      "Deployment_ManifestID (pick (Deployment_ManifestID d)) = Deployment_ManifestID d" by blast
    have "set (dOwners d) = set (dOwners (pick (Deployment_ManifestID d)))"
      "dKind d = dKind (pick (Deployment_ManifestID d))"
      using assms(1) kd j by (fastforce simp: consistent_def)+
    moreover have "distinct (dOwners d)" "distinct (dOwners (pick (Deployment_ManifestID d)))"
      using assms(2) kd j(1) by auto
    ultimately show ?thesis
      by (simp add: OwnerSet_Slice_def sort_eq_iff_mset set_eq_iff_mset_eq_distinct [symmetric])
  qed
  then have "uniform (\<lambda>mid. OwnerSet_Slice (dOwners (pick mid))) (\<lambda>mid. dKind (pick mid)) ds"
    by (fastforce simp: uniform_def)
  then show ?thesis by (rule that)
qed

lemma represents_expandable:
  assumes r: "represents S F K ds ms" and key: "keyed Deployment_ID ds"
    and cl: "\<forall>(k, d) \<in> set ds. ghas (defClusters defs) (dClusterName d)"
  shows "expandable defs ms"
proof -
  have "keyed Manifest_ID ms"
    using representsD(1,3) [OF r] by (auto simp: keyed_iff_get carries_def)
  moreover have "clusters_defined defs m \<and> gwf (mDeployments m)" if "(mid, m) \<in> set ms" for mid m
  proof -
    have "gget ms mid = Some m" using that representsD(1) [OF r] by (simp add: gget_iff_mem)
    then have c: "carries S F K ds mid m" by (rule representsD(3) [OF r])
    have "ghas (defClusters defs) c" if "c \<in> set (gkeys (mDeployments m))" for c
    proof -
      obtain sp where "gget (mDeployments m) c = Some sp"
        using \<open>c \<in> set (gkeys (mDeployments m))\<close> by (metis map_of_eq_None_iff not_None_eq set_map)
      then obtain d where "gget ds (did_of mid c) = Some d" using c by (auto simp: carries_def)
      then have "(did_of mid c, d) \<in> set ds" "did_of mid c = Deployment_ID d"
        using key by (auto dest: map_of_SomeD simp: keyed_def)
      then show ?thesis using cl by (auto simp: Deployment_ID_def)
    qed
    then show ?thesis using c by (simp add: clusters_defined_def list_all_iff carries_def)
  qed
  ultimately show ?thesis by (auto simp: expandable_def)
qed

lemma putback_putget:
  assumes key: "keyed Deployment_ID ds" and con: "consistent ds"
    and st: "\<forall>(k, d) \<in> set ds. storable defs d"
  shows "\<exists>ms ds'. PutbackManifests ds defs olds = (ms, None) \<and> Manifests_Deployments ms defs = (ds', None)
     \<and> keyed Deployment_ID ds'
     \<and> (\<forall>did. rel_option (\<lambda>d' d. Deployment_Diff d' d = Ok (False, [])) (gget ds' did) (gget ds did))"
proof -
  have mem: "storable defs d \<and> did = Deployment_ID d \<and> (did, d) \<in> set ds" if "gget ds did = Some d" for did d
    using map_of_SomeD [OF that] st key by (auto simp: keyed_def)
  obtain F K where u: "uniform F K ds"
    using consistent_uniform [OF con] st by (fastforce simp: storable_def wf_deployment_def)
  define cl where "cl d = the (gget (defClusters defs) (dClusterName d))" for d :: Deployment
  have cl: "gget (defClusters defs) (dClusterName d) = Some (cl d)" "resolve_cluster defs d = Inr (cl d)"
    if "storable defs d" for d :: Deployment
    using storable_cluster [OF that] unfolding cl_def by (metis option.sel)+
  have "\<forall>(k, d) \<in> set ds. resolve_cluster defs d = Inr (cl d)" using st cl by auto
  from PutbackManifests_represents [OF key u this]
  obtain ms where p: "PutbackManifests ds defs olds = (ms, None)"
    and r: "represents (\<lambda>d. putback_spec (cl d) (old_spec olds (Deployment_ManifestID d) (dClusterName d)) d) F K ds ms"
    (is "represents ?S F K ds ms") by blast
  have "\<forall>(k, d) \<in> set ds. ghas (defClusters defs) (dClusterName d)"
    using st cl by (auto simp: ghas_def)
  then have ex: "expandable defs ms" by (rule represents_expandable [OF r key])
  have "rel_option (\<lambda>d' d. Deployment_Diff d' d = Ok (False, [])) (gget (all_deployments defs ms) did) (gget ds did)" for did
  proof (cases "gget ms (didManifestID did)")
    case None
    then show ?thesis
      using representsD(2) [OF r None, of "didCluster did"] by (simp add: gget_all_deployments [OF ex])
  next
    case (Some M)
    note c = representsD(3) [OF r Some]
    show ?thesis
    proof (cases "gget ds did")
      case None
      then show ?thesis using c Some by (simp add: carries_def gget_all_deployments [OF ex])
    next
      case (Some d)
      have d: "storable defs d" "did = Deployment_ID d" "(did, d) \<in> set ds" using mem [OF Some] by blast+
      have mid: "didManifestID did = Deployment_ManifestID d" by (simp add: d(2) Deployment_ID_def)
      have "OwnerSet_Slice (dOwners d) = F (Deployment_ManifestID d)" "dKind d = K (Deployment_ManifestID d)"
        using u d(3) unfolding uniform_def by blast+
      then have "Manifest_ID M = Deployment_ManifestID d" "set (mOwners M) = set (dOwners d)" "mKind M = dKind d"
        using c unfolding carries_def mid by (simp, metis OwnerSet_Slice_set, simp)
      from deployment_putget [OF d(1) cl(1) [OF d(1)] this] show ?thesis
        using c Some d(2) \<open>gget ms (didManifestID did) = Some M\<close>
        by (simp add: carries_def gget_all_deployments [OF ex] Deployment_ID_def)
    qed
  qed
  then show ?thesis
    using p Manifests_Deployments_ok [OF ex] keyed_all_deployments [OF ex] by blast
qed

section \<open>Updating a state\<close>

lemma Merge_idem: "Startup_MergeDefaults s (Startup_MergeDefaults s x) = Startup_MergeDefaults s x"
  by (simp add: Startup_MergeDefaults_def merge_field_def zeroStartup_def)

lemma keys_set_missing: "gwf es \<Longrightarrow> set (gkeys (set_missing m es)) = set (gkeys m) \<union> set (gkeys es)"
  by (auto simp: set_missing_filter ghas_iff image_iff)

lemma config_built:
  assumes "gget (defClusters defs) c = Some cl" and "wf_config (dsDeployConfig spec)"
  shows "dcEnv (dDeployConfig (built defs m c spec)) = set_missing (dcEnv (dsDeployConfig spec)) (clEnv cl)"
    and "dcStartup (dDeployConfig (built defs m c spec))
         = Startup_MergeDefaults (clStartup cl) (dcStartup (dsDeployConfig spec))"
    and "gwf (clEnv cl) \<Longrightarrow> wf_config (dDeployConfig (built defs m c spec))"
  using assms
  by (simp_all add: built_def BuildDeployment_def flattenDeploySpecs_def Let_def flatten_single wf_config_def
      gwf_set_missing)

lemma built_storable:
  assumes "wf_gdm defs ms" and "gget ms mid = Some m" and "gget (mDeployments m) c = Some spec"
  shows "storable defs (built defs m c spec)"
proof -
  note wf = wf_gdmD [OF assms(1,2)]
  have "c \<in> set (gkeys (mDeployments m))" using assms(3) by (auto dest!: map_of_SomeD simp: rev_image_eqI)
  then obtain cl where cl: "gget (defClusters defs) c = Some cl"
    using wf(5) by (auto simp: clusters_defined_def list_all_iff ghas_def)
  then have env: "gwf (clEnv cl)"
    using assms(1) by (auto simp: wf_gdm_def dest!: map_of_SomeD)
  have w: "c \<noteq> []" "wf_config (dsDeployConfig spec)" using wf(7) [OF assms(3)] by simp_all
  show ?thesis
    using w env cl config_built [OF cl w(2), of m] keys_set_missing [OF env]
    by (simp add: storable_def wf_deployment_def dCluster_built owners_built Merge_idem)
qed

lemma upsert_Nil_single: "upsert_all ds [d] = Deployments_Set ds (Deployment_ID d) d"
  by simp

text \<open>A deployment that may join its manifest: same owners and kind as the stored ones.\<close>

definition joins :: "Manifests \<Rightarrow> Deployment \<Rightarrow> bool" where
  "joins ms d = (case gget ms (Deployment_ManifestID d) of None \<Rightarrow> True
     | Some m \<Rightarrow> set (mOwners m) = set (dOwners d) \<and> mKind m = dKind d)"

lemma consistent_upsert:
  assumes wf: "wf_gdm defs ms" and j: "joins ms d"
  shows "consistent (Deployments_Set (all_deployments defs ms) (Deployment_ID d) d)"
proof -
  have ex: "expandable defs ms" using wf by (simp add: wf_gdm_def)
  let ?ds = "Deployments_Set (all_deployments defs ms) (Deployment_ID d) d"
  define oo where "oo mid = (case gget ms mid of None \<Rightarrow> (set (dOwners d), dKind d)
    | Some m \<Rightarrow> (set (mOwners m), mKind m))" for mid
  have oo: "(set (dOwners e), dKind e) = oo (Deployment_ManifestID e)" if "(k, e) \<in> set ?ds" for k e
  proof (cases "e = d")
    case True
    then show ?thesis using j by (simp add: oo_def joins_def split: option.splits)
  next
    case False
    have "gget ?ds k = Some e"
      using that gwf_all_deployments [OF ex] by (simp add: gget_iff_mem Deployments_Set_def)
    with False have "gget (all_deployments defs ms) k = Some e"
      by (simp add: Deployments_Set_def CMap_Set_def gget_update split: if_splits)
    then obtain m spec where m: "gget ms (didManifestID k) = Some m" and e: "e = built defs m (didCluster k) spec"
      by (auto simp: gget_all_deployments [OF ex] split: option.splits)
    then have "gget ms (Deployment_ManifestID e) = Some m"
      using wf_gdmD(1) [OF wf m] by simp
    then show ?thesis by (simp add: oo_def e owners_built kind_built)
  qed
  show ?thesis
    unfolding consistent_def
  proof clarify
    fix k e l f
    assume "(k, e) \<in> set ?ds" "(l, f) \<in> set ?ds" "Deployment_ManifestID e = Deployment_ManifestID f"
    then show "set (dOwners e) = set (dOwners f) \<and> dKind e = dKind f"
      using oo by (metis prod.inject)
  qed
qed

lemma update_putget_keyed:
  assumes wf: "wf_gdm (sDefs s) (sManifests s)" and d: "storable (sDefs s) d" "joins (sManifests s) d"
  shows "\<exists>s' ds'. State_UpdateDeployments s [d] = (s', None) \<and> sDefs s' = sDefs s
     \<and> State_Deployments s' = (ds', None) \<and> keyed Deployment_ID ds'
     \<and> (\<forall>did. rel_option (\<lambda>d' e. Deployment_Diff d' e = Ok (False, []))
           (gget ds' did)
           (if did = Deployment_ID d then Some d else gget (fst (State_Deployments s)) did))"
proof -
  let ?defs = "sDefs s" and ?ms = "sManifests s"
  have ex: "expandable ?defs ?ms" using wf by (simp add: wf_gdm_def)
  let ?ds = "Deployments_Set (all_deployments ?defs ?ms) (Deployment_ID d) d"
  have get: "gget ?ds did = (if did = Deployment_ID d then Some d else gget (all_deployments ?defs ?ms) did)" for did
    by (simp add: Deployments_Set_def CMap_Set_def gget_update)
  have key: "keyed Deployment_ID ?ds"
    unfolding Deployments_Set_def by (rule deployments.keyed_Set [OF keyed_all_deployments [OF ex]])
  have "storable ?defs e" if "(k, e) \<in> set ?ds" for k e
  proof -
    have "gget ?ds k = Some e" using that keyed_gwf [OF key] by (simp add: gget_iff_mem)
    then show ?thesis
      using d(1) built_storable [OF wf]
      by (auto simp: get gget_all_deployments [OF ex] split: if_splits option.splits)
  qed
  then have st: "\<forall>(k, e) \<in> set ?ds. storable ?defs e" by blast
  obtain ms ds' where p: "PutbackManifests ?ds ?defs ?ms = (ms, None)" "Manifests_Deployments ms ?defs = (ds', None)"
    "keyed Deployment_ID ds'"
    "\<forall>did. rel_option (\<lambda>d' e. Deployment_Diff d' e = Ok (False, [])) (gget ds' did) (gget ?ds did)"
    using putback_putget [OF key consistent_upsert [OF wf d(2)] st] by blast
  have sd: "State_Deployments s = (all_deployments ?defs ?ms, None)"
    using Manifests_Deployments_ok [OF ex] by (simp add: State_Deployments_def)
  let ?s' = "s\<lparr>sManifests := ms\<rparr>"
  have "State_UpdateDeployments s [d] = (?s', None)" "State_Deployments ?s' = (ds', None)"
    using p(1,2) sd by (simp_all add: State_UpdateDeployments_def State_Deployments_def)
  moreover have "gget ?ds did = (if did = Deployment_ID d then Some d else gget (fst (State_Deployments s)) did)" for did
    by (simp add: get sd)
  ultimately show ?thesis
    using p(3,4) by (intro exI [of _ ?s'] exI [of _ ds']) simp
qed

lemma update_putget:
  assumes wf: "wf_gdm (sDefs s) (sManifests s)" and d: "storable (sDefs s) d" "joins (sManifests s) d"
  shows "\<exists>s' ds'. State_UpdateDeployments s [d] = (s', None) \<and> sDefs s' = sDefs s
     \<and> State_Deployments s' = (ds', None)
     \<and> (\<forall>did. rel_option (\<lambda>d' e. Deployment_Diff d' e = Ok (False, []))
           (gget ds' did)
           (if did = Deployment_ID d then Some d else gget (fst (State_Deployments s)) did))"
  using update_putget_keyed [OF assms] by blast

text \<open>No manifest without deployments comes out of \<open>PutbackManifests\<close>.\<close>

definition no_empty :: "Manifests \<Rightarrow> bool" where
  "no_empty ms = (gwf ms \<and> (\<forall>mid m. gget ms mid = Some m \<longrightarrow> mDeployments m \<noteq> []))"

lemma gset_not_Nil [simp]: "gset k v m \<noteq> []"
  by (cases m) auto

lemma no_empty_put_spec: "no_empty ms \<Longrightarrow> no_empty (put_spec ms d spec)"
  unfolding no_empty_def put_spec_def Let_def Manifests_Set_def CMap_Set_def
  by (auto simp: gget_update split: if_splits)

lemma no_empty_putback: "no_empty ms \<Longrightarrow> no_empty (fst (putback_loop defs olds ms ds))"
  by (induction ds arbitrary: ms) (auto simp: Let_def no_empty_put_spec split: sum.splits)

section \<open>Properties\<close>

text \<open>The deployments of a set of manifests: when every cluster that the manifests
  mention is defined there is exactly one deployment per manifest and cluster, keyed by its
  ID, and otherwise \<open>Deployments\<close> returns an error.\<close>

theorem deployments_of_manifests:
  assumes "keyed Manifest_ID ms" and "\<forall>(mid, m) \<in> set ms. gwf (mDeployments m)"
  shows "((\<forall>(mid, m) \<in> set ms. clusters_defined defs m) \<longrightarrow>
            (\<exists>ds. Manifests_Deployments ms defs = (ds, None) \<and> keyed Deployment_ID ds
              \<and> (\<forall>did. gget ds did =
                   (case gget ms (didManifestID did) of
                      None \<Rightarrow> None
                    | Some m \<Rightarrow> map_option (built defs m (didCluster did)) (gget (mDeployments m) (didCluster did))))))
     \<and> (\<not> (\<forall>(mid, m) \<in> set ms. clusters_defined defs m) \<longrightarrow>
            snd (Manifests_Deployments ms defs) \<noteq> None)"
proof (intro conjI impI)
  assume "\<forall>(mid, m) \<in> set ms. clusters_defined defs m"
  then have ex: "expandable defs ms" using assms by (auto simp: expandable_def)
  show "\<exists>ds. Manifests_Deployments ms defs = (ds, None) \<and> keyed Deployment_ID ds
              \<and> (\<forall>did. gget ds did =
                   (case gget ms (didManifestID did) of
                      None \<Rightarrow> None
                    | Some m \<Rightarrow> map_option (built defs m (didCluster did)) (gget (mDeployments m) (didCluster did))))"
    using Manifests_Deployments_ok [OF ex] keyed_all_deployments [OF ex] gget_all_deployments [OF ex] by blast
next
  assume "\<not> (\<forall>(mid, m) \<in> set ms. clusters_defined defs m)"
  then have "\<exists>(mid, m) \<in> set ms. \<not> clusters_defined defs m" by auto
  then show "snd (Manifests_Deployments ms defs) \<noteq> None"
    using deployments_loop_err keyed_gwf [OF assms(1)]
    by (simp add: Manifests_Deployments_def Manifests_Snapshot_def)
qed

definition example_cluster :: Cluster where
  "example_cluster = \<lparr>clName = ''left'', clKind = ''singularity'', clBaseURL = ''http://left'',
     clEnv = [(''REGION'', ''us'')], clStartup = zeroStartup\<lparr>Timeout := 30\<rparr>, clAllowedAdvisories = []\<rparr>"

definition example_defs :: Defs where
  "example_defs = zeroDefs\<lparr>defClusters := [(''left'', example_cluster)]\<rparr>"

definition example_manifest :: Manifest where
  "example_manifest = \<lparr>mSource = \<lparr>slRepo = ''github.com/opentable/sous'', slDir = []\<rparr>, mFlavor = [],
     mOwners = [''judson'', ''sam''], mKind = ''http-service'',
     mDeployments = [(''left'', zeroDeploySpec\<lparr>dsDeployConfig := zeroDeployConfig\<lparr>dcNumInstances := 2\<rparr>\<rparr>)]\<rparr>"

abbreviation example_manifests :: Manifests where
  "example_manifests \<equiv> [(Manifest_ID example_manifest, example_manifest)]"

lemma keyed_example_manifests: "keyed Manifest_ID example_manifests"
  by (simp add: keyed_def)

lemma example_left_defined: "clusters_defined example_defs example_manifest"
  by (simp add: clusters_defined_def ghas_def example_defs_def zeroDefs_def example_manifest_def)

lemma wf_example_gdm: "wf_gdm example_defs example_manifests"
  using keyed_example_manifests example_left_defined
  by (simp add: wf_gdm_def expandable_def example_manifest_def example_defs_def zeroDefs_def
      example_cluster_def wf_config_def zeroDeploySpec_def zeroDeployConfig_def less_char_def less_eq_char_def)

theorem deployments_of_manifests_witness:
  "snd (Manifests_Deployments example_manifests zeroDefs) \<noteq> None"
  using deployments_of_manifests [OF keyed_example_manifests, of zeroDefs]
  by (simp add: example_manifest_def clusters_defined_def ghas_def zeroDefs_def)

text \<open>C27: Reading, then writing back. For well-formed manifests, whatever the order in which
  the deployments come back, \<open>PutbackManifests\<close> restores every manifest: source, flavor,
  owners, kind, and per cluster the spec without the cluster's defaults, exactly as it was but
  for nil maps, which come back empty.\<close>

theorem manifests_getput:
  assumes "wf_gdm defs ms" and "Manifests_Deployments ms defs = (ds, None)" and "gwf ds'" and "gsame ds ds'"
  shows "\<exists>ms'. PutbackManifests ds' defs ms = (ms', None) \<and> gwf ms'
     \<and> (\<forall>mid. rel_option same_manifest (gget ms' mid) (gget ms mid))"
proof -
  have "expandable defs ms" using assms(1) by (simp add: wf_gdm_def)
  then have "ds = all_deployments defs ms" using assms(2) Manifests_Deployments_ok by simp
  then show ?thesis using putback_getput [OF assms(1,3)] assms(4) by simp
qed

theorem manifests_getput_witness:
  "\<exists>ms'. PutbackManifests (fst (Manifests_Deployments example_manifests example_defs)) example_defs example_manifests
           = (ms', None) \<and> rel_option same_manifest (gget ms' (Manifest_ID example_manifest)) (Some example_manifest)"
proof -
  have ex: "expandable example_defs example_manifests" using wf_example_gdm by (simp add: wf_gdm_def)
  show ?thesis
    using manifests_getput [OF wf_example_gdm Manifests_Deployments_ok [OF ex] gwf_all_deployments [OF ex] gsame_refl]
      Manifests_Deployments_ok [OF ex] by (auto dest!: spec [of _ "Manifest_ID example_manifest"])
qed

text \<open>C28: Writing, then reading back. A set of deployments in which the deployments of one
  manifest agree in owners and kind, and each has its cluster's variables and completed
  startup checks, is stored without loss: reading the written manifests gives the same IDs,
  and no deployment differs from the one that was written, whatever was stored before.\<close>

theorem manifests_putget:
  assumes "keyed Deployment_ID ds" and "consistent ds" and "\<forall>(k, d) \<in> set ds. storable defs d"
  shows "\<exists>ms ds'. PutbackManifests ds defs olds = (ms, None) \<and> Manifests_Deployments ms defs = (ds', None)
     \<and> keyed Deployment_ID ds'
     \<and> (\<forall>did. rel_option (\<lambda>d' d. Deployment_Diff d' d = Ok (False, [])) (gget ds' did) (gget ds did))"
  by (rule putback_putget [OF assms])

definition storable_deployment :: Deployment where
  "storable_deployment = example_deployment\<lparr>dDeployConfig := zeroDeployConfig
     \<lparr>dcEnv := [(''REGION'', ''eu'')], dcStartup := zeroStartup\<lparr>Timeout := 30\<rparr>\<rparr>\<rparr>"

lemma storable_example: "storable example_defs storable_deployment"
  by (simp add: storable_def storable_deployment_def example_deployment_def example_defs_def zeroDefs_def
      example_cluster_def wf_deployment_def wf_config_def zeroDeployConfig_def Startup_MergeDefaults_def
      merge_field_def zeroStartup_def)

theorem manifests_putget_witness:
  "\<exists>ms ds'. PutbackManifests [(Deployment_ID storable_deployment, storable_deployment)] example_defs [] = (ms, None)
     \<and> Manifests_Deployments ms example_defs = (ds', None)
     \<and> (\<exists>d'. gget ds' (Deployment_ID storable_deployment) = Some d'
          \<and> Deployment_Diff d' storable_deployment = Ok (False, []))"
proof -
  let ?ds = "[(Deployment_ID storable_deployment, storable_deployment)]"
  have "keyed Deployment_ID ?ds" "consistent ?ds" "\<forall>(k, d) \<in> set ?ds. storable example_defs d"
    using storable_example by (simp_all add: keyed_def consistent_def)
  from manifests_putget [OF this, of "[]"] show ?thesis
    by (auto dest!: spec [of _ "Deployment_ID storable_deployment"] simp: option_rel_Some2) 
qed

text \<open>\<open>UpdateDeployments\<close> is an upsert. On a well-formed state, with a deployment that
  can be stored and agrees with its manifest in owners and kind, it succeeds, keeps the
  definitions, and afterwards the state describes the new deployment under its ID and the
  old deployments under all other IDs, none of them different.\<close>

theorem UpdateDeployments_upserts:
  assumes "wf_gdm (sDefs s) (sManifests s)" and "storable (sDefs s) d" and "joins (sManifests s) d"
  shows "\<exists>s' ds'. State_UpdateDeployments s [d] = (s', None) \<and> sDefs s' = sDefs s
     \<and> State_Deployments s' = (ds', None)
     \<and> (\<forall>did. rel_option (\<lambda>d' e. Deployment_Diff d' e = Ok (False, []))
           (gget ds' did)
           (if did = Deployment_ID d then Some d else gget (fst (State_Deployments s)) did))"
  by (rule update_putget [OF assms])

theorem UpdateDeployments_upserts_witness:
  "\<exists>s'. State_UpdateDeployments \<lparr>sDefs = example_defs, sManifests = example_manifests, sEtag = None\<rparr>
          [storable_deployment\<lparr>dOwners := [''sam'', ''judson'']\<rparr>] = (s', None)"
proof -
  let ?s = "\<lparr>sDefs = example_defs, sManifests = example_manifests, sEtag = None\<rparr>"
  let ?d = "storable_deployment\<lparr>dOwners := [''sam'', ''judson'']\<rparr>"
  have "storable example_defs ?d"
    by (simp add: storable_def storable_deployment_def example_deployment_def example_defs_def zeroDefs_def
        example_cluster_def wf_deployment_def wf_config_def zeroDeployConfig_def Startup_MergeDefaults_def
        merge_field_def zeroStartup_def)
  moreover have "joins example_manifests ?d"
    by (auto simp: joins_def storable_deployment_def example_deployment_def example_manifest_def)
  ultimately show ?thesis
    using UpdateDeployments_upserts [of ?s ?d] wf_example_gdm by auto
qed

text \<open>After a successful \<open>UpdateDeployments\<close> no manifest of the state is empty, so a
  manifest that had no deployments, and is not one of the updated ones, has been dropped.\<close>

theorem UpdateDeployments_drops_empty_manifests:
  assumes "State_UpdateDeployments s ds = (s', None)"
  shows "\<forall>(mid, m) \<in> set (sManifests s'). mDeployments m \<noteq> []"
proof -
  obtain deps ms where p: "PutbackManifests deps (sDefs s) (sManifests s) = (ms, None)" and s': "sManifests s' = ms"
    using assms by (auto simp: State_UpdateDeployments_def split: prod.splits option.splits)
  then obtain ms0 where l: "putback_loop (sDefs s) (sManifests s) [] deps = (ms0, None)" and "ms = reset_all ms0"
    by (auto simp: PutbackManifests_def split: prod.splits option.splits)
  moreover have "no_empty ms0"
    using no_empty_putback [of "[]" "sDefs s" "sManifests s" deps] l by (simp add: no_empty_def)
  ultimately show ?thesis
    using s' reset_all_id by (auto simp: no_empty_def gget_iff_mem)
qed

theorem UpdateDeployments_drops_empty_manifests_witness:
  "sManifests (fst (State_UpdateDeployments
      \<lparr>sDefs = zeroDefs, sManifests = [(Manifest_ID emptyManifest, emptyManifest)], sEtag = None\<rparr> [])) = []"
proof -
  let ?s = "\<lparr>sDefs = zeroDefs, sManifests = [(Manifest_ID emptyManifest, emptyManifest)], sEtag = None\<rparr>"
  have u: "State_UpdateDeployments ?s [] = (?s\<lparr>sManifests := []\<rparr>, None)"
    by code_simp
  show ?thesis using UpdateDeployments_drops_empty_manifests [OF u] by (simp add: u)
qed

end
