(* ===== verification/Deployment_Diff.thy ===== *)
theory Deployment_Diff
  imports Resolve_Errors State_Mapping
begin

text \<open>
  Deploy states and the difference between two sets of deployments: \<open>lib/deploystatus.go\<close>,
  \<open>lib/deploystate.go\<close>, \<open>lib/deploystates_generated.go\<close>, \<open>lib/deployable.go\<close>,
  \<open>lib/deployable_pair.go\<close>, \<open>lib/deployable_chans.go\<close> (the parts about pairs and kinds) and
  \<open>lib/deployment_diff.go\<close>. A channel that is filled and closed is the list of what was sent.
  \<open>ExecutorData\<close> is what the Singularity deployer stores there, a request ID.

  The abstract specification of a diff is \<open>pair_of\<close>: what is running and what is intended
  under one ID. The diffs are shown to implement it, one pair per ID.
\<close>

datatype DeployStatus = DeployStatusAny | DeployStatusPending | DeployStatusActive | DeployStatusFailed

definition DeployStatus_Failed :: "DeployStatus \<Rightarrow> bool" where
  "DeployStatus_Failed ds = (case ds of DeployStatusFailed \<Rightarrow> True | _ \<Rightarrow> False)"

fun DeployStatus_String :: "DeployStatus \<Rightarrow> string" where
  "DeployStatus_String DeployStatusAny = ''DeployStatusAny''"
| "DeployStatus_String DeployStatusPending = ''DeployStatusPending''"
| "DeployStatus_String DeployStatusActive = ''DeployStatusActive''"
| "DeployStatus_String DeployStatusFailed = ''DeployStatusFailed''"

record DeployState =
  dstDeployment :: Deployment
  dstStatus :: DeployStatus
  dstExecutorMessage :: string
  dstExecutorData :: "string option"
  dstSchedulerURL :: string

type_synonym DeployStates = "(DeploymentID, DeployState) gomap"

record Deployable =
  dblStatus :: DeployStatus
  dblDeployment :: Deployment
  dblArtifact :: "BuildArtifact option"

record DeployablePair =
  dpPrior :: "Deployable option"
  dpPost :: "Deployable option"
  dpName :: DeploymentID
  dpExecutorData :: "string option"
  dpUUID :: string

datatype DeployablePairKind = SameKind | AddedKind | RemovedKind | ModifiedKind

record DiffResolution =
  drDeploymentID :: DeploymentID
  drDesc :: string
  drError :: "error_wrapper option"
  drDeployState :: "DeployState option"
  drSchedulerURL :: string

definition StableDiff :: string where "StableDiff = ''unchanged''"
definition ComingDiff :: string where "ComingDiff = ''coming''"
definition CreateDiff :: string where "CreateDiff = ''created''"
definition ModifyDiff :: string where "ModifyDiff = ''updated''"
definition DeleteDiff :: string where "DeleteDiff = ''deleted''"

definition zeroDeploymentID :: DeploymentID where
  "zeroDeploymentID = \<lparr>didManifestID = zeroManifestID, didCluster = []\<rparr>"

definition zeroResolution :: DiffResolution where
  "zeroResolution = \<lparr>drDeploymentID = zeroDeploymentID, drDesc = [], drError = None,
     drDeployState = None, drSchedulerURL = []\<rparr>"

section \<open>Deploy states\<close>

definition DeployState_ID :: "DeployState \<Rightarrow> DeploymentID" where
  "DeployState_ID ds = Deployment_ID (dstDeployment ds)"

definition DeployState_Clone :: "DeployState \<Rightarrow> DeployState" where
  "DeployState_Clone ds = ds\<lparr>dstDeployment := Deployment_Clone (dstDeployment ds)\<rparr>"

definition DeployState_Final :: "DeployState \<Rightarrow> bool" where
  "DeployState_Final ds = (case dstStatus ds of
      DeployStatusActive \<Rightarrow> True | DeployStatusFailed \<Rightarrow> True | _ \<Rightarrow> False)"

definition DeployState_Diff :: "DeployState \<Rightarrow> DeployState \<Rightarrow> (gdm_error, bool \<times> difference list) outcome" where
  "DeployState_Diff ds o' =
     (case Deployment_Diff (dstDeployment ds) (dstDeployment o') of
        Ok (_, depS) \<Rightarrow>
          (let depS' = depS @ diff_if (dstStatus ds \<noteq> dstStatus o')
                         (DStatus (DeployStatus_String (dstStatus ds)) (DeployStatus_String (dstStatus o')))
           in Ok (length depS' > 0, depS'))
      | Err e \<Rightarrow> Err e | Panic \<Rightarrow> Panic)"

text \<open>The generated map \<open>DeployStates\<close>.\<close>

definition NewDeployStates :: "DeployState list \<Rightarrow> (DeploymentID, DeployStates) outcome" where
  "NewDeployStates vs = NewCMap DeployState_ID vs"

definition NewDeployStatesFromMap :: "DeployStates list \<Rightarrow> DeployStates" where
  "NewDeployStatesFromMap froms = NewCMapFromMap froms"

definition DeployStates_Get :: "DeployStates \<Rightarrow> DeploymentID \<Rightarrow> DeployState option" where
  "DeployStates_Get m key = CMap_Get m key"

definition DeployStates_Set :: "DeployStates \<Rightarrow> DeploymentID \<Rightarrow> DeployState \<Rightarrow> DeployStates" where
  "DeployStates_Set m key value = CMap_Set m key value"

definition DeployStates_Filter :: "DeployStates \<Rightarrow> (DeployState \<Rightarrow> bool) option \<Rightarrow> DeployStates" where
  "DeployStates_Filter m predicate = CMap_Filter DeployState_ID DeployState_Clone m predicate"

definition DeployStates_Single :: "DeployStates \<Rightarrow> (DeployState \<Rightarrow> bool) \<Rightarrow> DeployState option" where
  "DeployStates_Single m predicate = CMap_Single m predicate"

definition DeployStates_Any :: "DeployStates \<Rightarrow> (DeployState \<Rightarrow> bool) option \<Rightarrow> DeployState option" where
  "DeployStates_Any m predicate = CMap_Any DeployState_ID DeployState_Clone m predicate"

definition DeployStates_Clone :: "DeployStates \<Rightarrow> DeployStates" where
  "DeployStates_Clone m = CMap_Clone DeployState_ID DeployState_Clone m"

definition DeployStates_Merge :: "DeployStates \<Rightarrow> DeployStates \<Rightarrow> DeployStates" where
  "DeployStates_Merge m other = CMap_Merge m other"

definition DeployStates_Add :: "DeployStates \<Rightarrow> DeployState \<Rightarrow> DeployStates \<times> bool" where
  "DeployStates_Add m v = CMap_Add DeployState_ID m v"

definition DeployStates_MustAdd :: "DeployStates \<Rightarrow> DeployState \<Rightarrow> (DeploymentID, DeployStates) outcome" where
  "DeployStates_MustAdd m v = CMap_MustAdd DeployState_ID m v"

definition DeployStates_AddAll :: "DeployStates \<Rightarrow> DeployStates \<Rightarrow> DeployStates \<times> DeploymentID option" where
  "DeployStates_AddAll m other = CMap_AddAll m other"

definition DeployStates_Remove :: "DeployStates \<Rightarrow> DeploymentID \<Rightarrow> DeployStates" where
  "DeployStates_Remove m key = CMap_Remove m key"

definition DeployStates_Keys :: "DeployStates \<Rightarrow> DeploymentID list" where
  "DeployStates_Keys m = CMap_Keys m"

definition DeployStates_Len :: "DeployStates \<Rightarrow> nat" where
  "DeployStates_Len m = CMap_Len m"

definition DeployStates_Snapshot :: "DeployStates \<Rightarrow> DeployStates" where
  "DeployStates_Snapshot m = CMap_Snapshot m"

definition DeployStates_FilteredSnapshot :: "DeployStates \<Rightarrow> (DeployState \<Rightarrow> bool) \<Rightarrow> DeployStates" where
  "DeployStates_FilteredSnapshot m predicate = CMap_FilteredSnapshot predicate m"

definition DeployStates_IgnoringStatus :: "DeployStates \<Rightarrow> Deployments" where
  "DeployStates_IgnoringStatus ds =
     gset_all [] (map (\<lambda>(key, value). (key, dstDeployment value)) (DeployStates_Snapshot ds))"

section \<open>Pairs\<close>

definition DeployablePair_Diffs :: "DeployablePair \<Rightarrow> (gdm_error, difference list) outcome" where
  "DeployablePair_Diffs dp =
     (case (dpPrior dp, dpPost dp) of
        (Some prior, Some post) \<Rightarrow>
          (case Deployment_Diff (dblDeployment prior) (dblDeployment post) of
             Ok (_, dd) \<Rightarrow>
               Ok (dd @ diff_if (dblStatus prior \<noteq> dblStatus post)
                          (DStatus (DeployStatus_String (dblStatus prior)) (DeployStatus_String (dblStatus post))))
           | Err e \<Rightarrow> Err e | Panic \<Rightarrow> Panic)
      | _ \<Rightarrow> Panic)"

definition DeployablePair_Kind :: "DeployablePair \<Rightarrow> (gdm_error, DeployablePairKind) outcome" where
  "DeployablePair_Kind dp =
     (if dpPrior dp = None then Ok AddedKind
      else if dpPost dp = None then Ok RemovedKind
      else case DeployablePair_Diffs dp of
          Ok dd \<Rightarrow> Ok (if length dd \<noteq> 0 then ModifiedKind else SameKind)
        | Err e \<Rightarrow> Err e | Panic \<Rightarrow> Panic)"

definition DeployablePair_SameResolution :: "DeployablePair \<Rightarrow> (gdm_error, DiffResolution) outcome" where
  "DeployablePair_SameResolution dp =
     (case dpPrior dp of
        None \<Rightarrow> Panic
      | Some dep \<Rightarrow>
          Ok (zeroResolution
            \<lparr>drDeploymentID := Deployment_ID (dblDeployment dep),
             drDesc := (if dblStatus dep = DeployStatusPending then ComingDiff else StableDiff),
             drError := (if dblStatus dep = DeployStatusFailed
                         then Some (WrapResolveError FailedStatusError) else None)\<rparr>))"

fun Kind_String :: "DeployablePairKind \<Rightarrow> string" where
  "Kind_String SameKind = ''same''"
| "Kind_String AddedKind = ''added''"
| "Kind_String RemovedKind = ''removed''"
| "Kind_String ModifiedKind = ''modified''"

fun ExpectedResolutionType :: "DeployablePairKind \<Rightarrow> string" where
  "ExpectedResolutionType SameKind = StableDiff"
| "ExpectedResolutionType AddedKind = CreateDiff"
| "ExpectedResolutionType RemovedKind = DeleteDiff"
| "ExpectedResolutionType ModifiedKind = ModifyDiff"

fun ResolveVerb :: "DeployablePairKind \<Rightarrow> string" where
  "ResolveVerb SameKind = ''take no action''"
| "ResolveVerb AddedKind = ''create new deployment''"
| "ResolveVerb RemovedKind = ''delete existing deployment''"
| "ResolveVerb ModifiedKind = ''update existing deployment''"

section \<open>The diff of running states and intended deployments\<close>

definition deployable_of :: "DeployState \<Rightarrow> Deployable" where
  "deployable_of ds = \<lparr>dblStatus = dstStatus ds, dblDeployment = dstDeployment ds, dblArtifact = None\<rparr>"

definition zeroUUID :: string where
  "zeroUUID = ''00000000-0000-0000-0000-000000000000''"

text \<open>\<open>makeDeployablePair\<close>; \<open>None\<close> for \<open>intendedDS\<close> is \<open>exists = false\<close>.\<close>

definition makeDeployablePair :: "DeploymentID \<Rightarrow> DeployState \<Rightarrow> DeployState option \<Rightarrow> DeployablePair" where
  "makeDeployablePair did existingDS intendedDS =
     \<lparr>dpPrior = map_option deployable_of intendedDS,
      dpPost = Some (deployable_of existingDS),
      dpName = did,
      dpExecutorData = (case intendedDS of None \<Rightarrow> None | Some ids \<Rightarrow> dstExecutorData ids),
      dpUUID = zeroUUID\<rparr>"

definition removed_pair :: "DeployState \<Rightarrow> DeployablePair" where
  "removed_pair deletedDS =
     \<lparr>dpPrior = Some (deployable_of deletedDS), dpPost = None, dpName = DeployState_ID deletedDS,
      dpExecutorData = dstExecutorData deletedDS, dpUUID = zeroUUID\<rparr>"

fun state_diff_loop :: "DeployStates \<Rightarrow> DeployStates \<Rightarrow> DeployablePair list" where
  "state_diff_loop fr [] = map (\<lambda>(k, ds). removed_pair ds) fr"
| "state_diff_loop fr ((did, existingDS) # es) =
     makeDeployablePair did existingDS (gget fr did) # state_diff_loop (gdel did fr) es"

fun promote_loop :: "DeployStatus \<Rightarrow> DeployStates \<Rightarrow> Deployments \<Rightarrow> DeployStates" where
  "promote_loop to rds [] = rds"
| "promote_loop to rds ((k, ad) # ds) =
     promote_loop to
       (fst (DeployStates_Add rds \<lparr>dstDeployment = ad, dstStatus = to, dstExecutorMessage = [],
                                   dstExecutorData = None, dstSchedulerURL = []\<rparr>)) ds"

definition promoteAll :: "Deployments \<Rightarrow> DeployStatus \<Rightarrow> DeployStates" where
  "promoteAll d to = promote_loop to [] (Deployments_Snapshot d)"

definition newStateDiffer :: "DeployStates \<Rightarrow> DeployStates" where
  "newStateDiffer intended =
     gset_all [] (map (\<lambda>(k, dep). (DeployState_ID dep, dep)) (DeployStates_Snapshot intended))"

text \<open>\<open>DeployStates.Diff\<close>: the pairs that are sent, in order.\<close>

definition DeployStates_Diff :: "DeployStates \<Rightarrow> Deployments \<Rightarrow> DeployablePair list" where
  "DeployStates_Diff d other =
     state_diff_loop (newStateDiffer d) (DeployStates_Snapshot (promoteAll other DeployStatusActive))"

section \<open>The diff of two sets of deployments\<close>

definition active :: "Deployment \<Rightarrow> Deployable" where
  "active d = \<lparr>dblStatus = DeployStatusActive, dblDeployment = d, dblArtifact = None\<rparr>"

definition plain_pair :: "DeploymentID \<Rightarrow> Deployable option \<Rightarrow> Deployable option \<Rightarrow> DeployablePair" where
  "plain_pair did prior post =
     \<lparr>dpPrior = prior, dpPost = post, dpName = did, dpExecutorData = None, dpUUID = zeroUUID\<rparr>"

fun diff_loop :: "Deployments \<Rightarrow> Deployments \<Rightarrow> (gdm_error, DeployablePair list) outcome" where
  "diff_loop fr [] = Ok (map (\<lambda>(k, d). plain_pair (Deployment_ID d) (Some (active d)) None) fr)"
| "diff_loop fr ((did, existing) # es) =
     (case gget fr did of
        None \<Rightarrow>
          (case diff_loop fr es of
             Ok ps \<Rightarrow> Ok (plain_pair did None (Some (active existing)) # ps) | Err e \<Rightarrow> Err e | Panic \<Rightarrow> Panic)
      | Some intended \<Rightarrow>
          (case Deployment_Diff existing intended of
             Ok (different, _) \<Rightarrow>
               (case diff_loop (gdel did fr) es of
                  Ok ps \<Rightarrow> Ok (plain_pair did (Some (active intended))
                                 (Some (active (if different then existing else intended))) # ps)
                | Err e \<Rightarrow> Err e | Panic \<Rightarrow> Panic)
           | Err e \<Rightarrow> Err e | Panic \<Rightarrow> Panic))"

definition newDiffer :: "Deployments \<Rightarrow> Deployments" where
  "newDiffer intended = gset_all [] (map (\<lambda>(k, d). (Deployment_ID d, d)) (Deployments_Snapshot intended))"

definition Deployments_Diff :: "Deployments \<Rightarrow> Deployments \<Rightarrow> (gdm_error, DeployablePair list) outcome" where
  "Deployments_Diff d other = diff_loop (newDiffer d) (Deployments_Snapshot other)"

section \<open>Facts\<close>

lemma DeployState_ID_Clone [simp]: "DeployState_ID (DeployState_Clone ds) = DeployState_ID ds"
  by (simp add: DeployState_ID_def DeployState_Clone_def)

interpretation deploystates: keyed_values DeployState_ID DeployState_Clone
  by unfold_locales simp

lemma rekey_id: "keyed ID m \<Longrightarrow> map (\<lambda>(k, v). (ID v, v)) m = m"
  by (induction m) (auto simp: keyed_def)

lemma newStateDiffer_id: "keyed DeployState_ID d \<Longrightarrow> newStateDiffer d = d"
  using keyed_gwf [of DeployState_ID d] by (simp add: newStateDiffer_def DeployStates_Snapshot_def rekey_id)

lemma newDiffer_id: "keyed Deployment_ID d \<Longrightarrow> newDiffer d = d"
  using keyed_gwf [of Deployment_ID d] by (simp add: newDiffer_def Deployments_Snapshot_def rekey_id)

definition promoted :: "DeployStatus \<Rightarrow> Deployment \<Rightarrow> DeployState" where
  "promoted to ad = \<lparr>dstDeployment = ad, dstStatus = to, dstExecutorMessage = [],
     dstExecutorData = None, dstSchedulerURL = []\<rparr>"

lemma promote_loop_append:
  assumes "keyed Deployment_ID ds" and "set (gkeys rds) \<inter> set (gkeys ds) = {}"
  shows "promote_loop to rds ds = rds @ map (\<lambda>(k, ad). (k, promoted to ad)) ds"
  using assms
proof (induction ds arbitrary: rds)
  case (Cons e ds)
  obtain k ad where e: "e = (k, ad)" by (cases e)
  have k: "k = Deployment_ID ad" "k \<notin> set (gkeys ds)" "keyed Deployment_ID ds" "k \<notin> set (gkeys rds)"
    using Cons.prems by (auto simp: e keyed_Cons_iff)
  have "fst (DeployStates_Add rds (promoted to ad)) = rds @ [(k, promoted to ad)]"
    using k by (simp add: DeployStates_Add_def CMap_Add_def Let_def DeployState_ID_def promoted_def
        ghas_iff gset_absent)
  moreover have "set (gkeys (rds @ [(k, promoted to ad)])) \<inter> set (gkeys ds) = {}"
    using Cons.prems(2) k(2) by (auto simp: e)
  ultimately show ?case
    using Cons.IH [OF k(3)] by (simp add: e promoted_def)
qed simp

lemma promoteAll_map:
  "keyed Deployment_ID ds \<Longrightarrow> promoteAll ds to = map (\<lambda>(k, ad). (k, promoted to ad)) ds"
  using promote_loop_append [of ds "[]" to] keyed_gwf [of Deployment_ID ds]
  by (simp add: promoteAll_def Deployments_Snapshot_def)

text \<open>The abstract specification: the pair that a diff owes for an ID.\<close>

definition pair_of :: "DeployStates \<Rightarrow> Deployments \<Rightarrow> DeploymentID \<Rightarrow> DeployablePair" where
  "pair_of actual intended did =
     \<lparr>dpPrior = map_option deployable_of (gget actual did),
      dpPost = map_option active (gget intended did),
      dpName = did,
      dpExecutorData = (case gget actual did of None \<Rightarrow> None | Some ds \<Rightarrow> dstExecutorData ds),
      dpUUID = zeroUUID\<rparr>"

lemma gdel_filter: "gdel k m = filter (\<lambda>(j, v). j \<noteq> k) m"
  by (induction m) auto

lemma gkeys_gdel: "set (gkeys (gdel k m)) = set (gkeys m) - {k}"
  by (auto simp: gdel_filter)

lemma keyed_gdel: "keyed ID m \<Longrightarrow> keyed ID (gdel k m)"
  by (auto simp: keyed_iff_get gget_delete split: if_splits)

lemma state_diff_loop_pairs:
  assumes "keyed DeployState_ID fr" and "gwf es"
  shows "state_diff_loop fr es =
     map (\<lambda>(k, ds). makeDeployablePair k ds (gget fr k)) es
     @ map (\<lambda>(k, ds). removed_pair ds) (filter (\<lambda>(k, ds). k \<notin> set (gkeys es)) fr)"
  using assms
proof (induction es arbitrary: fr)
  case (Cons e es)
  obtain k ds where e: "e = (k, ds)" by (cases e)
  have k: "k \<notin> set (gkeys es)" "gwf es" using Cons.prems by (simp_all add: e)
  have "map (\<lambda>(j, ds). makeDeployablePair j ds (gget (gdel k fr) j)) es
      = map (\<lambda>(j, ds). makeDeployablePair j ds (gget fr j)) es"
  proof (intro map_cong refl)
    fix x assume "x \<in> set es"
    then have "fst x \<noteq> k" using k(1) by auto
    then show "(case x of (j, ds) \<Rightarrow> makeDeployablePair j ds (gget (gdel k fr) j))
        = (case x of (j, ds) \<Rightarrow> makeDeployablePair j ds (gget fr j))"
      by (simp add: split_def gget_delete)
  qed
  moreover have "filter (\<lambda>(j, ds). j \<notin> set (gkeys es)) (gdel k fr)
      = filter (\<lambda>(j, ds). j \<notin> set (gkeys (e # es))) fr"
    by (auto simp: gdel_filter e intro!: filter_cong)
  ultimately show ?case
    using Cons.IH [OF keyed_gdel [OF Cons.prems(1)] k(2)] by (simp add: e)
qed simp

lemma makeDeployablePair_pair_of:
  "gget intended k = Some ad \<Longrightarrow>
   makeDeployablePair k (promoted DeployStatusActive ad) (gget actual k) = pair_of actual intended k"
  by (simp add: makeDeployablePair_def pair_of_def deployable_of_def promoted_def active_def)

lemma removed_pair_of:
  "gget actual k = Some ds \<Longrightarrow> k = DeployState_ID ds \<Longrightarrow> gget intended k = None \<Longrightarrow>
   removed_pair ds = pair_of actual intended k"
  by (simp add: removed_pair_def pair_of_def)

lemma DeployStates_Diff_pairs:
  assumes a: "keyed DeployState_ID actual" and i: "keyed Deployment_ID intended"
  shows "DeployStates_Diff actual intended =
     map (pair_of actual intended)
       (gkeys intended @ filter (\<lambda>k. k \<notin> set (gkeys intended)) (gkeys actual))"
proof -
  have gi: "gwf intended" and ga: "gwf actual" using a i by (simp_all add: keyed_def)
  let ?es = "map (\<lambda>(k, ad). (k, promoted DeployStatusActive ad)) intended"
  have es: "gwf ?es" "gkeys ?es = gkeys intended"
    using gi gwf_map_values [of "\<lambda>_. promoted DeployStatusActive" intended] by (auto simp: case_prod_beta)
  have "DeployStates_Diff actual intended = state_diff_loop actual ?es"
    using es(1) by (simp add: DeployStates_Diff_def newStateDiffer_id [OF a] promoteAll_map [OF i]
        DeployStates_Snapshot_def)
  also have "\<dots> = map (\<lambda>(k, ds). makeDeployablePair k ds (gget actual k)) ?es
     @ map (\<lambda>(k, ds). removed_pair ds) (filter (\<lambda>(k, ds). k \<notin> set (gkeys intended)) actual)"
    using state_diff_loop_pairs [OF a es(1)] es(2) by simp
  also have "map (\<lambda>(k, ds). makeDeployablePair k ds (gget actual k)) ?es = map (pair_of actual intended) (gkeys intended)"
    using gi by (auto simp: makeDeployablePair_pair_of gget_iff_mem)
  also have "map (\<lambda>(k, ds). removed_pair ds) (filter (\<lambda>(k, ds). k \<notin> set (gkeys intended)) actual)
      = map (pair_of actual intended) (gkeys (filter (\<lambda>(k, ds). k \<notin> set (gkeys intended)) actual))"
    using a ga by (auto simp: keyed_def gget_iff_mem map_of_eq_None_iff intro!: removed_pair_of)
  also have "gkeys (filter (\<lambda>(k, ds). k \<notin> set (gkeys intended)) actual)
      = filter (\<lambda>k. k \<notin> set (gkeys intended)) (gkeys actual)"
    by (simp add: filter_map comp_def split_def)
  finally show ?thesis by simp
qed

lemma DeployStates_Diff_set:
  assumes "keyed DeployState_ID actual" and "keyed Deployment_ID intended"
  shows "set (DeployStates_Diff actual intended)
       = pair_of actual intended ` (set (gkeys actual) \<union> set (gkeys intended))"
proof -
  have "set (gkeys intended @ filter (\<lambda>k. k \<notin> set (gkeys intended)) (gkeys actual))
      = set (gkeys actual) \<union> set (gkeys intended)" by auto
  then show ?thesis unfolding DeployStates_Diff_pairs [OF assms] by (simp only: set_map)
qed

lemma dpName_pair_of [simp]: "dpName (pair_of a i k) = k"
  by (simp add: pair_of_def)

lemma Kind_pair_of:
  assumes "keyed DeployState_ID actual" and "keyed Deployment_ID intended"
    and "did \<in> set (gkeys actual) \<union> set (gkeys intended)"
  shows "DeployablePair_Kind (pair_of actual intended did) =
     (case (gget actual did, gget intended did) of
        (None, _) \<Rightarrow> Ok AddedKind
      | (Some ds, None) \<Rightarrow> Ok RemovedKind
      | (Some ds, Some d) \<Rightarrow>
          if Deployment_Diff (dstDeployment ds) d = Ok (False, []) \<and> dstStatus ds = DeployStatusActive
          then Ok SameKind else Ok ModifiedKind)"
proof (cases "gget actual did")
  case None
  then show ?thesis by (simp add: DeployablePair_Kind_def pair_of_def)
next
  case (Some ds)
  show ?thesis
  proof (cases "gget intended did")
    case None
    with Some show ?thesis by (simp add: DeployablePair_Kind_def pair_of_def)
  next
    case (Some d)
    then have "Deployment_ID (dstDeployment ds) = Deployment_ID d"
      using assms(1,2) \<open>gget actual did = Some ds\<close> by (auto simp: keyed_iff_get DeployState_ID_def)
    then obtain b dd where bd: "Deployment_Diff (dstDeployment ds) d = Ok (b, dd)" "b \<longleftrightarrow> dd \<noteq> []"
      using Deployment_Diff_total Deployment_Diff_flag by metis
    then show ?thesis
      using Some \<open>gget actual did = Some ds\<close>
      by (auto simp: DeployablePair_Kind_def pair_of_def DeployablePair_Diffs_def deployable_of_def active_def)
  qed
qed

text \<open>The pairs of a diff of two sets of deployments; equal deployments are paired with
  themselves.\<close>

definition plain_pair_of :: "Deployments \<Rightarrow> Deployments \<Rightarrow> DeploymentID \<Rightarrow> DeployablePair" where
  "plain_pair_of fr to did =
     plain_pair did (map_option active (gget fr did))
       (case gget to did of
          None \<Rightarrow> None
        | Some e \<Rightarrow> (case gget fr did of
             None \<Rightarrow> Some (active e)
           | Some i \<Rightarrow> Some (active (if Deployment_Diff e i = Ok (False, []) then i else e))))"

lemma diff_loop_pairs:
  assumes "keyed Deployment_ID fr" and "keyed Deployment_ID es"
  shows "diff_loop fr es = Ok (map (\<lambda>(k, d). plain_pair_of fr es k) es
     @ map (\<lambda>(k, d). plain_pair k (Some (active d)) None) (filter (\<lambda>(k, d). k \<notin> set (gkeys es)) fr))"
  using assms
proof (induction es arbitrary: fr)
  case Nil
  then show ?case by (auto simp: keyed_def split_def)
next
  case (Cons e es)
  obtain k d where e: "e = (k, d)" by (cases e)
  have k: "k = Deployment_ID d" "k \<notin> set (gkeys es)" "keyed Deployment_ID es"
    using Cons.prems(2) unfolding e keyed_Cons_iff by blast+
  have other: "plain_pair_of fr es j = plain_pair_of fr (e # es) j"
    "plain_pair_of (gdel k fr) es j = plain_pair_of fr (e # es) j" if "j \<in> set (gkeys es)" for j
  proof -
    have "j \<noteq> k" using that k(2) by blast
    then have "gget (e # es) j = gget es j" "gget (gdel k fr) j = gget fr j" by (simp_all add: e gget_delete)
    then show "plain_pair_of fr es j = plain_pair_of fr (e # es) j"
      "plain_pair_of (gdel k fr) es j = plain_pair_of fr (e # es) j"
      by (simp_all only: plain_pair_of_def)
  qed
  show ?case
  proof (cases "gget fr k")
    case None
    then have "x \<in> set fr \<Longrightarrow> fst x \<noteq> k" for x by (auto simp: map_of_eq_None_iff)
    then have "filter (\<lambda>(j, d). j \<notin> set (gkeys es)) fr = filter (\<lambda>(j, d). j \<notin> set (gkeys (e # es))) fr"
      by (intro filter_cong refl) (simp add: e split_def)
    moreover have "map (\<lambda>(j, d). plain_pair_of fr es j) es = map (\<lambda>(j, d). plain_pair_of fr (e # es) j) es"
      using other(1) by (intro map_cong refl) (simp add: split_def)
    ultimately show ?thesis
      using None Cons.IH [OF Cons.prems(1) k(3)] by (simp add: e plain_pair_of_def)
  next
    case (Some i)
    then have "Deployment_ID d = Deployment_ID i"
      using Cons.prems(1) k(1) by (simp add: keyed_iff_get)
    then obtain b dd where b: "Deployment_Diff d i = Ok (b, dd)" "b \<longleftrightarrow> dd \<noteq> []"
      using Deployment_Diff_total Deployment_Diff_flag by metis
    have "filter (\<lambda>(j, d). j \<notin> set (gkeys es)) (gdel k fr) = filter (\<lambda>(j, d). j \<notin> set (gkeys (e # es))) fr"
      by (auto simp: gdel_filter e intro!: filter_cong)
    moreover have "map (\<lambda>(j, d). plain_pair_of (gdel k fr) es j) es = map (\<lambda>(j, d). plain_pair_of fr (e # es) j) es"
      using other(2) by (intro map_cong refl) (simp add: split_def)
    ultimately show ?thesis
      using Some b Cons.IH [OF keyed_gdel [OF Cons.prems(1)] k(3), of k] by (simp add: e plain_pair_of_def)
  qed
qed

lemma Deployments_Diff_pairs:
  assumes f: "keyed Deployment_ID fr" and t: "keyed Deployment_ID to"
  shows "Deployments_Diff fr to = Ok (map (plain_pair_of fr to)
     (gkeys to @ filter (\<lambda>k. k \<notin> set (gkeys to)) (gkeys fr)))"
proof -
  have "plain_pair_of fr to k = plain_pair k (Some (active d)) None"
    if "(k, d) \<in> set fr" "k \<notin> set (gkeys to)" for k d
  proof -
    have "gget fr k = Some d" using that(1) keyed_gwf [OF f] by (simp add: gget_iff_mem)
    moreover have "gget to k = None" using that(2) by (simp add: map_of_eq_None_iff)
    ultimately show ?thesis by (simp add: plain_pair_of_def)
  qed
  then have "map (\<lambda>(k, d). plain_pair k (Some (active d)) None) (filter (\<lambda>(k, d). k \<notin> set (gkeys to)) fr)
      = map (plain_pair_of fr to) (gkeys (filter (\<lambda>(k, d). k \<notin> set (gkeys to)) fr))"
    by auto
  also have "gkeys (filter (\<lambda>(k, d). k \<notin> set (gkeys to)) fr) = filter (\<lambda>k. k \<notin> set (gkeys to)) (gkeys fr)"
    by (simp add: filter_map comp_def split_def)
  finally show ?thesis
    using diff_loop_pairs [OF f t] keyed_gwf [OF t]
    by (simp add: Deployments_Diff_def newDiffer_id [OF f] Deployments_Snapshot_def split_def)
qed

section \<open>Properties\<close>

text \<open>C33: The diff of the running states against the intended deployments sends exactly one
  pair per ID that is running or intended. Its prior is the running state, its post the
  intended deployment as active, and it carries the executor data of the running state.\<close>

theorem state_diff_one_pair_per_id:
  assumes "keyed DeployState_ID actual" and "keyed Deployment_ID intended"
  shows "distinct (map dpName (DeployStates_Diff actual intended))
     \<and> set (DeployStates_Diff actual intended)
       = pair_of actual intended ` (set (gkeys actual) \<union> set (gkeys intended))"
proof -
  let ?ids = "gkeys intended @ filter (\<lambda>k. k \<notin> set (gkeys intended)) (gkeys actual)"
  note d = DeployStates_Diff_pairs [OF assms]
  have "map dpName (map (pair_of actual intended) ks) = ks" for ks
    by (simp add: comp_def)
  then have "map dpName (DeployStates_Diff actual intended) = ?ids"
    by (simp only: d)
  moreover have "distinct ?ids"
    using assms by (auto simp: keyed_def gwf_def)
  ultimately show ?thesis
    using DeployStates_Diff_set [OF assms] by simp
qed

theorem state_diff_one_pair_per_id_witness:
  "set (map dpName (DeployStates_Diff
      [(Deployment_ID example_deployment, promoted DeployStatusFailed example_deployment)] []))
     = {Deployment_ID example_deployment}"
proof -
  let ?a = "[(Deployment_ID example_deployment, promoted DeployStatusFailed example_deployment)]"
  have "keyed DeployState_ID ?a" "keyed Deployment_ID []"
    by (simp_all add: keyed_def DeployState_ID_def promoted_def)
  from state_diff_one_pair_per_id [OF this] show ?thesis by simp
qed

text \<open>C34: The kind of each pair of the diff: added when nothing is running under the ID,
  removed when nothing is intended, unchanged exactly when the running deployment has no
  differences from the intended one and is active, and modified otherwise; it never panics.\<close>

theorem state_diff_kinds:
  assumes "keyed DeployState_ID actual" and "keyed Deployment_ID intended"
    and "p \<in> set (DeployStates_Diff actual intended)"
  shows "DeployablePair_Kind p =
     (case (gget actual (dpName p), gget intended (dpName p)) of
        (None, _) \<Rightarrow> Ok AddedKind
      | (Some ds, None) \<Rightarrow> Ok RemovedKind
      | (Some ds, Some d) \<Rightarrow>
          if Deployment_Diff (dstDeployment ds) d = Ok (False, []) \<and> dstStatus ds = DeployStatusActive
          then Ok SameKind else Ok ModifiedKind)"
proof -
  obtain did where "did \<in> set (gkeys actual) \<union> set (gkeys intended)" "p = pair_of actual intended did"
    using assms(3) unfolding DeployStates_Diff_pairs [OF assms(1,2)] by auto
  then show ?thesis using Kind_pair_of [OF assms(1,2)] by simp
qed

theorem state_diff_kinds_witness:
  "DeployablePair_Kind (pair_of [] [(Deployment_ID example_deployment, example_deployment)]
     (Deployment_ID example_deployment)) = Ok AddedKind"
proof -
  let ?i = "[(Deployment_ID example_deployment, example_deployment)]"
  have k: "keyed DeployState_ID []" "keyed Deployment_ID ?i" by (simp_all add: keyed_def)
  have "pair_of [] ?i (Deployment_ID example_deployment) \<in> set (DeployStates_Diff [] ?i)"
    by (simp add: DeployStates_Diff_pairs [OF k])
  from state_diff_kinds [OF k this] show ?thesis by simp
qed

text \<open>The diff of two sets of deployments succeeds, with one pair per ID of either set, in
  which the prior is the deployment of the first set and the post that of the second, except
  that a deployment without differences is paired with itself.\<close>

theorem deployments_diff_one_pair_per_id:
  assumes "keyed Deployment_ID fr" and "keyed Deployment_ID to"
  shows "\<exists>ps. Deployments_Diff fr to = Ok ps \<and> distinct (map dpName ps)
     \<and> set ps = plain_pair_of fr to ` (set (gkeys fr) \<union> set (gkeys to))"
proof -
  let ?ids = "gkeys to @ filter (\<lambda>k. k \<notin> set (gkeys to)) (gkeys fr)"
  have "map dpName (map (plain_pair_of fr to) ks) = ks" for ks
    by (simp add: comp_def plain_pair_of_def plain_pair_def)
  moreover have "distinct ?ids"
    using assms by (auto simp: keyed_def gwf_def)
  moreover have "set ?ids = set (gkeys fr) \<union> set (gkeys to)"
    by auto
  ultimately show ?thesis
    unfolding Deployments_Diff_pairs [OF assms]
    by (intro exI [of _ "map (plain_pair_of fr to) ?ids"]) (simp only: set_map simp_thms)
qed

theorem deployments_diff_one_pair_per_id_witness:
  "\<exists>ps. Deployments_Diff [] [(Deployment_ID example_deployment, example_deployment)] = Ok ps
     \<and> set ps = {plain_pair (Deployment_ID example_deployment) None (Some (active example_deployment))}"
proof -
  let ?i = "[(Deployment_ID example_deployment, example_deployment)]"
  have k: "keyed Deployment_ID []" "keyed Deployment_ID ?i" by (simp_all add: keyed_def)
  have "plain_pair_of [] ?i (Deployment_ID example_deployment)
      = plain_pair (Deployment_ID example_deployment) None (Some (active example_deployment))"
    by (simp add: plain_pair_of_def)
  with deployments_diff_one_pair_per_id [OF k] show ?thesis by (simp, blast)
qed

end
