(* ===== verification/R11n_Queue.thy ===== *)
theory R11n_Queue
  imports Deployment_Diff
begin

text \<open>
  The queue of rectifications of one deployment (\<open>lib/r11n_queue.go\<close>).

  State. The queue, the two reference maps and the ring all hold pointers to the same objects,
  so the model has a store of objects by ID (\<open>rqObjs\<close>), and lists of IDs for the channel, for
  \<open>refs\<close> and for \<open>allRefs\<close>. Nothing is ever removed from the store and a new ID is always
  appended to it: it is also the history of all pushes. \<open>rqFifoRefs\<close> is the ring of
  \<open>container/ring\<close>, listed from the element after the current one to the current one. The
  goroutine that \<open>Start\<close> runs is at one of three points: waiting on the channel, between its
  receive and taking the lock, or handling. The IDs are random UUIDs: a push takes its new ID
  as an argument, and the step relation demands that it was not used before.

  Steps. Every method that holds the lock is one step; the consumer's receive, which happens
  outside the lock, and its two locked sections are steps of their own. A channel operation
  that would block is \<open>None\<close>. \<open>finish\<close> takes the handler as a function on rectifications: what
  it leaves in the rectification is what \<open>Wait\<close> returns.

  The locale \<open>fifo_steps\<close> is the interface of a first-in first-out queue over a step relation;
  it is interpreted on the steps of the rectification queue.
\<close>

type_synonym R11nID = string

definition MaxRefsPerR11nQueue :: nat where
  "MaxRefsPerR11nQueue = 100"

definition R11nQueueCapDefault :: nat where
  "R11nQueueCapDefault = 10"

record 'r QueuedR11n =
  qrID :: R11nID
  qrPos :: int
  qrRectification :: 'r
  qrDone :: bool

datatype consumer = Idle | Received R11nID | Handling R11nID

record 'r R11nQueue =
  rqCap :: nat
  rqQueue :: "R11nID list"
  rqObjs :: "(R11nID, 'r QueuedR11n) gomap"
  rqRefs :: "R11nID list"
  rqAllRefs :: "R11nID list"
  rqFifoRefs :: "R11nID option list"
  rqConsumer :: consumer

section \<open>Operations\<close>

definition NewR11nQueue :: "nat \<Rightarrow> 'r R11nQueue" where
  "NewR11nQueue cap =
     \<lparr>rqCap = cap, rqQueue = [], rqObjs = [], rqRefs = [], rqAllRefs = [],
      rqFifoRefs = replicate MaxRefsPerR11nQueue None, rqConsumer = Idle\<rparr>"

text \<open>
  \<open>internalPush\<close>: the ring moves to its next element, whose old ID, if any, leaves
  \<open>allRefs\<close>. \<open>None\<close>: the send on the full channel blocks, with the lock held.
\<close>

definition internalPush :: "R11nID \<Rightarrow> 'r \<Rightarrow> 'r R11nQueue \<Rightarrow> 'r R11nQueue option" where
  "internalPush new r rq =
     (let qr = \<lparr>qrID = new, qrPos = int (length (rqQueue rq)), qrRectification = r, qrDone = False\<rparr>;
          all1 = (if new \<in> set (rqAllRefs rq) then rqAllRefs rq else rqAllRefs rq @ [new]);
          all2 = (case hd (rqFifoRefs rq) of None \<Rightarrow> all1 | Some old \<Rightarrow> filter (\<lambda>x. x \<noteq> old) all1)
      in if length (rqQueue rq) \<ge> rqCap rq then None
         else Some (rq\<lparr>rqObjs := gset new qr (rqObjs rq),
                       rqRefs := (if new \<in> set (rqRefs rq) then rqRefs rq else rqRefs rq @ [new]),
                       rqAllRefs := all2,
                       rqFifoRefs := tl (rqFifoRefs rq) @ [Some new],
                       rqQueue := rqQueue rq @ [new]\<rparr>))"

text \<open>The result of a push: the queue afterwards and the ID of the wrapper, if it was added.\<close>

definition R11nQueue_Push :: "R11nID \<Rightarrow> 'r \<Rightarrow> 'r R11nQueue \<Rightarrow> ('r R11nQueue \<times> R11nID option) option" where
  "R11nQueue_Push new r rq =
     (if length (rqQueue rq) = rqCap rq then Some (rq, None)
      else map_option (\<lambda>rq'. (rq', Some new)) (internalPush new r rq))"

definition R11nQueue_PushIfEmpty ::
    "R11nID \<Rightarrow> 'r \<Rightarrow> 'r R11nQueue \<Rightarrow> ('r R11nQueue \<times> R11nID option) option" where
  "R11nQueue_PushIfEmpty new r rq =
     (if length (rqRefs rq) \<noteq> 0 then Some (rq, None)
      else map_option (\<lambda>rq'. (rq', Some new)) (internalPush new r rq))"

definition the_obj :: "'r R11nQueue \<Rightarrow> R11nID \<Rightarrow> 'r QueuedR11n" where
  "the_obj rq i = the (gget (rqObjs rq) i)"

definition R11nQueue_Snapshot :: "'r R11nQueue \<Rightarrow> 'r QueuedR11n list" where
  "R11nQueue_Snapshot rq = sort_key qrPos (map (the_obj rq) (rqRefs rq))"

definition R11nQueue_ByID :: "'r R11nQueue \<Rightarrow> R11nID \<Rightarrow> 'r QueuedR11n option" where
  "R11nQueue_ByID rq i = (if i \<in> set (rqAllRefs rq) then gget (rqObjs rq) i else None)"

definition R11nQueue_Len :: "'r R11nQueue \<Rightarrow> nat" where
  "R11nQueue_Len rq = length (rqQueue rq)"

datatype 'r wait_result = WaitMissing | WaitBlocked | WaitDone 'r

definition R11nQueue_Wait :: "'r R11nQueue \<Rightarrow> R11nID \<Rightarrow> 'r wait_result" where
  "R11nQueue_Wait rq i =
     (case R11nQueue_ByID rq i of
        None \<Rightarrow> WaitMissing
      | Some qr \<Rightarrow> if qrDone qr then WaitDone (qrRectification qr) else WaitBlocked)"

text \<open>The consumer: \<open>next\<close> up to the receive, its locked part, and the end of the loop body.\<close>

definition next_receive :: "'r R11nQueue \<Rightarrow> 'r R11nQueue option" where
  "next_receive rq =
     (case (rqConsumer rq, rqQueue rq) of
        (Idle, i # q) \<Rightarrow> Some (rq\<lparr>rqQueue := q, rqConsumer := Received i\<rparr>)
      | _ \<Rightarrow> None)"

definition handlePopped :: "'r R11nQueue \<Rightarrow> 'r R11nQueue" where
  "handlePopped rq =
     rq\<lparr>rqObjs := map (\<lambda>(i, qr). (i, if i \<in> set (rqAllRefs rq) then qr\<lparr>qrPos := qrPos qr - 1\<rparr> else qr)) (rqObjs rq)\<rparr>"

definition next_popped :: "'r R11nQueue \<Rightarrow> 'r R11nQueue option" where
  "next_popped rq =
     (case rqConsumer rq of
        Received i \<Rightarrow> Some ((handlePopped rq)\<lparr>rqConsumer := Handling i\<rparr>)
      | _ \<Rightarrow> None)"

definition finish :: "('r \<Rightarrow> 'r) \<Rightarrow> 'r R11nQueue \<Rightarrow> 'r R11nQueue option" where
  "finish handler rq =
     (case rqConsumer rq of
        Handling i \<Rightarrow>
          Some (rq\<lparr>rqObjs := map (\<lambda>(j, qr). (j, if j = i then qr\<lparr>qrDone := True, qrRectification := handler (qrRectification qr)\<rparr> else qr))
                                 (rqObjs rq),
                   rqRefs := filter (\<lambda>x. x \<noteq> i) (rqRefs rq), rqConsumer := Idle\<rparr>)
      | _ \<Rightarrow> None)"

section \<open>The step relation\<close>

datatype event = EPush R11nID | ERefused | EReceive R11nID | EPopped R11nID | EFinish R11nID

inductive qstep :: "'r R11nQueue \<Rightarrow> event \<Rightarrow> 'r R11nQueue \<Rightarrow> bool" where
  push: "new \<notin> set (gkeys (rqObjs rq)) \<Longrightarrow> R11nQueue_Push new r rq = Some (rq', Some new)
         \<Longrightarrow> qstep rq (EPush new) rq'"
| push_refused: "R11nQueue_Push new r rq = Some (rq', None) \<Longrightarrow> qstep rq ERefused rq'"
| push_if_empty: "new \<notin> set (gkeys (rqObjs rq)) \<Longrightarrow> R11nQueue_PushIfEmpty new r rq = Some (rq', Some new)
         \<Longrightarrow> qstep rq (EPush new) rq'"
| push_if_empty_refused: "R11nQueue_PushIfEmpty new r rq = Some (rq', None) \<Longrightarrow> qstep rq ERefused rq'"
| receive: "next_receive rq = Some rq' \<Longrightarrow> rqConsumer rq' = Received i \<Longrightarrow> qstep rq (EReceive i) rq'"
| popped: "next_popped rq = Some rq' \<Longrightarrow> rqConsumer rq' = Handling i \<Longrightarrow> qstep rq (EPopped i) rq'"
| finish: "rqConsumer rq = Handling i \<Longrightarrow> finish handler rq = Some rq' \<Longrightarrow> qstep rq (EFinish i) rq'"

inductive_cases qstep_EPush: "qstep rq (EPush i) rq'"

inductive runs :: "('s \<Rightarrow> 'e \<Rightarrow> 's \<Rightarrow> bool) \<Rightarrow> 's \<Rightarrow> 'e list \<Rightarrow> 's \<Rightarrow> bool" for st where
  runs_refl: "runs st s [] s"
| runs_snoc: "runs st s es s' \<Longrightarrow> st s' e s'' \<Longrightarrow> runs st s (es @ [e]) s''"

section \<open>First in, first out\<close>

text \<open>
  A queue over a step relation: its contents grow at the end by what a step pushes and shrink
  at the front by what a step completes. Then, along every run, the pushed items are those
  completed, in the same order, followed by what is still in the queue.
\<close>

locale fifo_steps =
  fixes st :: "'s \<Rightarrow> 'e \<Rightarrow> 's \<Rightarrow> bool"
    and contents :: "'s \<Rightarrow> 'i list"
    and pushed :: "'e \<Rightarrow> 'i list"
    and completed :: "'e \<Rightarrow> 'i list"
  assumes step_contents: "st s e s' \<Longrightarrow> contents s @ pushed e = completed e @ contents s'"
begin

lemma run_contents:
  "runs st s es s' \<Longrightarrow> contents s @ concat (map pushed es) = concat (map completed es) @ contents s'"
proof (induction rule: runs.induct)
  case (runs_snoc s es s' e s'')
  have "contents s @ concat (map pushed (es @ [e])) = (contents s @ concat (map pushed es)) @ pushed e"
    by simp
  also have "\<dots> = concat (map completed es) @ completed e @ contents s''"
    by (simp only: runs_snoc.IH append_assoc step_contents [OF runs_snoc.hyps(2)])
  finally show ?case by simp
qed simp

lemma run_from_empty:
  "runs st s es s' \<Longrightarrow> contents s = [] \<Longrightarrow>
   concat (map pushed es) = concat (map completed es) @ contents s'"
  using run_contents by fastforce

end

definition in_hand :: "consumer \<Rightarrow> R11nID list" where
  "in_hand c = (case c of Idle \<Rightarrow> [] | Received i \<Rightarrow> [i] | Handling i \<Rightarrow> [i])"

definition pending :: "'r R11nQueue \<Rightarrow> R11nID list" where
  "pending rq = in_hand (rqConsumer rq) @ rqQueue rq"

fun pushed_by :: "event \<Rightarrow> R11nID list" where
  "pushed_by (EPush i) = [i]"
| "pushed_by _ = []"

fun finished_by :: "event \<Rightarrow> R11nID list" where
  "finished_by (EFinish i) = [i]"
| "finished_by _ = []"

lemma internalPush_Some:
  "internalPush new r rq = Some rq' \<Longrightarrow>
     length (rqQueue rq) < rqCap rq \<and> rqQueue rq' = rqQueue rq @ [new] \<and> rqCap rq' = rqCap rq
     \<and> rqConsumer rq' = rqConsumer rq
     \<and> rqObjs rq' = gset new \<lparr>qrID = new, qrPos = int (length (rqQueue rq)), qrRectification = r, qrDone = False\<rparr> (rqObjs rq)
     \<and> rqRefs rq' = (if new \<in> set (rqRefs rq) then rqRefs rq else rqRefs rq @ [new])
     \<and> rqFifoRefs rq' = tl (rqFifoRefs rq) @ [Some new]"
  by (auto simp: internalPush_def Let_def split: if_splits)

lemma Push_added: "R11nQueue_Push new r rq = Some (rq', Some i) \<Longrightarrow> i = new \<and> internalPush new r rq = Some rq'"
  by (auto simp: R11nQueue_Push_def split: if_splits)

lemma PushIfEmpty_added:
  "R11nQueue_PushIfEmpty new r rq = Some (rq', Some i) \<Longrightarrow> i = new \<and> internalPush new r rq = Some rq'"
  by (auto simp: R11nQueue_PushIfEmpty_def split: if_splits)

lemma Push_refused_same: "R11nQueue_Push new r rq = Some (rq', None) \<Longrightarrow> rq' = rq"
  by (auto simp: R11nQueue_Push_def split: if_splits)

lemma PushIfEmpty_refused_same: "R11nQueue_PushIfEmpty new r rq = Some (rq', None) \<Longrightarrow> rq' = rq"
  by (auto simp: R11nQueue_PushIfEmpty_def split: if_splits)

lemmas push_facts = Push_added PushIfEmpty_added Push_refused_same PushIfEmpty_refused_same

lemma qstep_contents: "qstep rq e rq' \<Longrightarrow> pending rq @ pushed_by e = finished_by e @ pending rq'"
proof (induction rule: qstep.induct)
  case (push new rq r rq')
  then show ?case using internalPush_Some [of new r rq rq'] by (auto dest: push_facts simp: pending_def)
next
  case (push_if_empty new rq r rq')
  then show ?case using internalPush_Some [of new r rq rq'] by (auto dest: push_facts simp: pending_def)
qed (auto dest: push_facts simp: pending_def in_hand_def next_receive_def next_popped_def finish_def handlePopped_def
     split: consumer.splits list.splits)

interpretation r11n: fifo_steps qstep pending pushed_by finished_by
  by unfold_locales (rule qstep_contents)

section \<open>The invariant\<close>

abbreviation history :: "'r R11nQueue \<Rightarrow> R11nID list" where
  "history rq \<equiv> gkeys (rqObjs rq)"

text \<open>The ring holds the last pushes, and \<open>allRefs\<close> exactly the IDs in the ring.\<close>

definition ring_inv :: "'r R11nQueue \<Rightarrow> bool" where
  "ring_inv rq =
     (rqFifoRefs rq = drop (length (history rq)) (replicate MaxRefsPerR11nQueue None @ map Some (history rq))
      \<and> distinct (rqAllRefs rq) \<and> set (rqAllRefs rq) = {i. Some i \<in> set (rqFifoRefs rq)})"

text \<open>\<open>refs\<close> holds what is pending, and everything pushed is finished or pending, in order.\<close>

definition refs_inv :: "'r R11nQueue \<Rightarrow> bool" where
  "refs_inv rq =
     (distinct (rqRefs rq) \<and> set (rqRefs rq) = set (pending rq) \<and> length (rqQueue rq) \<le> rqCap rq)"

definition history_inv :: "'r R11nQueue \<Rightarrow> bool" where
  "history_inv rq =
     (distinct (history rq) \<and>
      (\<exists>fin. history rq = fin @ pending rq
         \<and> (\<forall>i \<in> set fin. qrDone (the_obj rq i)) \<and> (\<forall>i \<in> set (pending rq). \<not> qrDone (the_obj rq i))))"

definition rq_inv :: "'r R11nQueue \<Rightarrow> bool" where
  "rq_inv rq = (ring_inv rq \<and> refs_inv rq \<and> history_inv rq)"

lemma drop_snoc: "n < length xs \<Longrightarrow> drop (Suc n) (xs @ [x]) = tl (drop n xs) @ [x]"
  by (simp add: drop_Suc tl_drop)

lemma ring_once:
  assumes "distinct h" and "drop n (replicate k None @ map Some h) = Some old # t"
  shows "Some old \<notin> set t"
proof
  assume "Some old \<in> set t"
  then have "filter ((=) (Some old)) t \<noteq> []" by (auto simp: filter_empty_conv)
  then have "2 \<le> length (filter ((=) (Some old)) (drop n (replicate k None @ map Some h)))"
    unfolding assms(2) by (simp add: Suc_le_eq)
  also have "\<dots> \<le> length (filter ((=) (Some old)) (replicate k None @ map Some h))"
    using append_take_drop_id [of n "replicate k None @ map Some h"]
    by (metis filter_append le_add2 length_append)
  also have "filter ((=) (Some old)) (replicate k None @ map Some h) = map Some (filter ((=) old) h)"
    by (simp add: filter_map comp_def filter_empty_conv)
  also have "length (map Some (filter ((=) old) h)) \<le> 1"
    using distinct_length_filter [OF assms(1), of "(=) old"] by (simp add: Int_def card_le_Suc0_iff_eq)
  finally show False by simp
qed

lemma ring_length: "ring_inv rq \<Longrightarrow> length (rqFifoRefs rq) = MaxRefsPerR11nQueue"
  by (simp add: ring_inv_def)

lemma ring_internalPush:
  assumes r: "ring_inv rq" and d: "distinct (history rq)" and new: "new \<notin> set (history rq)"
    and p: "internalPush new r rq = Some rq'"
  shows "ring_inv rq'"
proof -
  let ?h = "history rq" and ?L = "replicate MaxRefsPerR11nQueue None @ map Some (history rq)"
  have pos: "0 < MaxRefsPerR11nQueue" by (simp add: MaxRefsPerR11nQueue_def)
  have h: "history rq' = ?h @ [new]" and f: "rqFifoRefs rq' = tl (rqFifoRefs rq) @ [Some new]"
    using internalPush_Some [OF p] new by (simp_all add: gset_absent)
  have "rqFifoRefs rq' = drop (length (history rq')) (replicate MaxRefsPerR11nQueue None @ map Some (history rq'))"
    using drop_snoc [of "length ?h" ?L "Some new"] r pos by (simp add: f h ring_inv_def)
  moreover obtain x t where xt: "rqFifoRefs rq = x # t"
    using ring_length [OF r] pos by (cases "rqFifoRefs rq") auto
  have sub: "i \<in> set ?h" if "Some i \<in> set (rqFifoRefs rq)" for i
    using that r in_set_dropD [of "Some i" "length ?h" ?L] by (auto simp: ring_inv_def)
  have all: "rqAllRefs rq' = (case x of None \<Rightarrow> rqAllRefs rq @ [new]
      | Some old \<Rightarrow> filter (\<lambda>y. y \<noteq> old) (rqAllRefs rq @ [new]))"
  proof -
    have "new \<notin> set (rqAllRefs rq)" using r sub new by (auto simp: ring_inv_def)
    then show ?thesis using p xt by (auto simp: internalPush_def Let_def split: if_splits option.splits)
  qed
  have da: "distinct (rqAllRefs rq)" and sa: "set (rqAllRefs rq) = {i. Some i \<in> set (x # t)}"
    using r unfolding ring_inv_def xt by blast+
  have nt: "Some new \<notin> set (x # t)" using sub [of new] xt new by auto
  have "distinct (rqAllRefs rq') \<and> set (rqAllRefs rq') = {i. Some i \<in> set (rqFifoRefs rq')}"
  proof (cases x)
    case None
    then show ?thesis using da sa nt by (auto simp: all f xt)
  next
    case (Some old)
    have "Some old \<notin> set t"
      using ring_once [OF d, of "length ?h" MaxRefsPerR11nQueue old t] r xt Some by (simp add: ring_inv_def)
    moreover have "old \<noteq> new" using sub [of old] xt Some new by auto
    ultimately show ?thesis using da sa nt Some by (auto simp: all f xt)
  qed
  ultimately show ?thesis by (simp add: ring_inv_def)
qed

lemma the_obj_push:
  assumes "internalPush new r rq = Some rq'"
  shows "the_obj rq' i = (if i = new then \<lparr>qrID = new, qrPos = int (length (rqQueue rq)), qrRectification = r, qrDone = False\<rparr>
     else the_obj rq i)"
  using internalPush_Some [OF assms] by (simp add: the_obj_def gget_update)

lemma inv_internalPush:
  assumes i: "rq_inv rq" and new: "new \<notin> set (history rq)" and p: "internalPush new r rq = Some rq'"
  shows "rq_inv rq'"
proof -
  note q = internalPush_Some [OF p]
  have h: "history rq' = history rq @ [new]" using q new by (simp add: gset_absent)
  have pend: "pending rq' = pending rq @ [new]" using q by (simp add: pending_def)
  obtain fin where fin: "history rq = fin @ pending rq" "\<forall>i \<in> set fin. qrDone (the_obj rq i)"
      "\<forall>i \<in> set (pending rq). \<not> qrDone (the_obj rq i)" and d: "distinct (history rq)"
    using i by (auto simp: rq_inv_def history_inv_def)
  have n: "new \<notin> set fin" "new \<notin> set (pending rq)" using new by (simp_all add: fin(1))
  have "ring_inv rq'" using ring_internalPush [OF _ d new p] i by (simp add: rq_inv_def)
  moreover have "refs_inv rq'"
    using i n q pend by (auto simp: rq_inv_def refs_inv_def)
  moreover have "history_inv rq'"
  proof -
    have "history rq' = fin @ pending rq'" using h fin(1) pend by simp
    moreover have "\<forall>i \<in> set fin. qrDone (the_obj rq' i)" "\<forall>i \<in> set (pending rq'). \<not> qrDone (the_obj rq' i)"
      using fin(2,3) n the_obj_push [OF p] pend by auto
    moreover have "distinct (history rq')" using d new h by simp
    ultimately show ?thesis unfolding history_inv_def by blast
  qed
  ultimately show ?thesis by (simp add: rq_inv_def)
qed

lemma the_obj_map:
  assumes "i \<in> set (history rq)"
  shows "the_obj (rq\<lparr>rqObjs := map (\<lambda>(j, qr). (j, f j qr)) (rqObjs rq)\<rparr>) i = f i (the_obj rq i)"
proof (cases "gget (rqObjs rq) i")
  case None
  then show ?thesis using assms by (simp add: map_of_eq_None_iff)
next
  case (Some a)
  then show ?thesis using gget_map_values [of f "rqObjs rq" i] by (simp add: the_obj_def)
qed

text \<open>The consumer's steps change the objects' positions and done flags, and move one ID.\<close>

lemma ring_inv_cong:
  "ring_inv rq \<Longrightarrow> history rq' = history rq \<Longrightarrow> rqFifoRefs rq' = rqFifoRefs rq \<Longrightarrow> rqAllRefs rq' = rqAllRefs rq
   \<Longrightarrow> ring_inv rq'"
  unfolding ring_inv_def by simp

lemma inv_receive:
  assumes "rq_inv rq" and "next_receive rq = Some rq'"
  shows "rq_inv rq'"
proof -
  obtain i q where c: "rqConsumer rq = Idle" "rqQueue rq = i # q" "rq' = rq\<lparr>rqQueue := q, rqConsumer := Received i\<rparr>"
    using assms(2) by (auto simp: next_receive_def split: consumer.splits list.splits)
  have p: "pending rq' = pending rq" by (simp add: c pending_def in_hand_def)
  have o: "the_obj rq' j = the_obj rq j" for j by (simp add: c the_obj_def)
  have "ring_inv rq'" using assms(1) c(3) by (auto simp: rq_inv_def intro: ring_inv_cong)
  moreover have "refs_inv rq'" using assms(1) c p by (auto simp: rq_inv_def refs_inv_def)
  moreover have "history_inv rq'" using assms(1) unfolding rq_inv_def history_inv_def p o by (simp add: c(3))
  ultimately show ?thesis by (simp add: rq_inv_def)
qed

lemma inv_popped:
  assumes "rq_inv rq" and "next_popped rq = Some rq'"
  shows "rq_inv rq'"
proof -
  let ?f = "\<lambda>i qr. if i \<in> set (rqAllRefs rq) then qr\<lparr>qrPos := qrPos qr - 1\<rparr> else qr"
  obtain i where c: "rqConsumer rq = Received i" "rq' = (handlePopped rq)\<lparr>rqConsumer := Handling i\<rparr>"
    using assms(2) by (auto simp: next_popped_def split: consumer.splits)
  have p: "pending rq' = pending rq" by (simp add: c pending_def in_hand_def handlePopped_def)
  have h: "history rq' = history rq" by (simp add: c handlePopped_def split_def)
  have o: "qrDone (the_obj rq' j) = qrDone (the_obj rq j)" if "j \<in> set (history rq)" for j
    using the_obj_map [OF that, of ?f] by (simp add: c handlePopped_def the_obj_def)
  have "ring_inv rq'" using assms(1) c(2) h by (auto simp: rq_inv_def handlePopped_def intro: ring_inv_cong)
  moreover have "refs_inv rq'" using assms(1) c p by (auto simp: rq_inv_def refs_inv_def handlePopped_def)
  moreover have "history_inv rq'"
    using assms(1) o unfolding rq_inv_def history_inv_def h p by (metis Un_iff set_append)
  ultimately show ?thesis by (simp add: rq_inv_def)
qed

lemma inv_finish:
  assumes "rq_inv rq" and "finish handler rq = Some rq'"
  shows "rq_inv rq'"
proof -
  obtain i where c: "rqConsumer rq = Handling i"
    using assms(2) by (auto simp: finish_def split: consumer.splits)
  let ?f = "\<lambda>j qr. if j = i then qr\<lparr>qrDone := True, qrRectification := handler (qrRectification qr)\<rparr> else qr"
  have rq': "rq' = rq\<lparr>rqObjs := map (\<lambda>(j, qr). (j, ?f j qr)) (rqObjs rq),
                   rqRefs := filter (\<lambda>x. x \<noteq> i) (rqRefs rq), rqConsumer := Idle\<rparr>"
    using assms(2) c by (simp add: finish_def)
  have p: "pending rq = i # pending rq'" by (simp add: c rq' pending_def in_hand_def)
  have h: "history rq' = history rq" by (simp add: rq' split_def)
  have o: "qrDone (the_obj rq' j) = (j = i \<or> qrDone (the_obj rq j))" if "j \<in> set (history rq)" for j
    using the_obj_map [OF that, of ?f] by (simp add: rq' the_obj_def)
  obtain fin where fin: "history rq = fin @ i # pending rq'" "\<forall>j \<in> set fin. qrDone (the_obj rq j)"
      "\<forall>j \<in> set (i # pending rq'). \<not> qrDone (the_obj rq j)" and d: "distinct (history rq)"
    using assms(1) unfolding rq_inv_def history_inv_def p by blast
  have "ring_inv rq'" using assms(1) h by (auto simp: rq_inv_def rq' intro: ring_inv_cong)
  moreover have "refs_inv rq'"
  proof -
    have "i \<notin> set (pending rq')" using d fin(1) by simp
    moreover have "set (rqRefs rq) = insert i (set (pending rq'))" "distinct (rqRefs rq)" "length (rqQueue rq) \<le> rqCap rq"
      using assms(1) p by (simp_all add: rq_inv_def refs_inv_def)
    ultimately have "set (filter (\<lambda>x. x \<noteq> i) (rqRefs rq)) = set (pending rq')" by auto
    then show ?thesis
      using \<open>distinct (rqRefs rq)\<close> \<open>length (rqQueue rq) \<le> rqCap rq\<close> by (simp add: refs_inv_def rq')
  qed
  moreover have "history_inv rq'"
  proof -
    have "history rq' = (fin @ [i]) @ pending rq'" using fin(1) h by simp
    moreover have "\<forall>j \<in> set (fin @ [i]). qrDone (the_obj rq' j)" "\<forall>j \<in> set (pending rq'). \<not> qrDone (the_obj rq' j)"
      using fin d o by auto
    ultimately show ?thesis using d h unfolding history_inv_def by metis
  qed
  ultimately show ?thesis by (simp add: rq_inv_def)
qed

lemma inv_step: "qstep rq e rq' \<Longrightarrow> rq_inv rq \<Longrightarrow> rq_inv rq'"
proof (induction rule: qstep.induct)
  case (push_refused new r rq rq')
  then show ?case using Push_refused_same [OF push_refused(1)] by simp
next
  case (push_if_empty_refused new r rq rq')
  then show ?case using PushIfEmpty_refused_same [OF push_if_empty_refused(1)] by simp
next
  case (push new rq r rq')
  show ?case by (rule inv_internalPush [OF push(3,1) conjunct2 [OF Push_added [OF push(2)]]])
next
  case (push_if_empty new rq r rq')
  show ?case
    by (rule inv_internalPush [OF push_if_empty(3,1) conjunct2 [OF PushIfEmpty_added [OF push_if_empty(2)]]])
qed (rule inv_receive inv_popped inv_finish; assumption)+

lemma inv_init: "rq_inv (NewR11nQueue cap)"
  by (simp add: rq_inv_def ring_inv_def refs_inv_def history_inv_def NewR11nQueue_def pending_def in_hand_def)

lemma inv_run: "runs qstep (NewR11nQueue cap) es rq \<Longrightarrow> rq_inv rq"
  by (induction "NewR11nQueue cap :: 'a R11nQueue" es rq rule: runs.induct) (auto intro: inv_init inv_step)

lemma cap_step: "qstep rq e rq' \<Longrightarrow> rqCap rq' = rqCap rq"
proof (induction rule: qstep.induct)
  case (push new rq r rq')
  then show ?case using internalPush_Some [OF conjunct2 [OF Push_added [OF push(2)]]] by simp
next
  case (push_if_empty new rq r rq')
  then show ?case using internalPush_Some [OF conjunct2 [OF PushIfEmpty_added [OF push_if_empty(2)]]] by simp
qed (auto dest: push_facts simp: next_receive_def next_popped_def finish_def handlePopped_def
     split: consumer.splits list.splits)

lemma cap_run: "runs qstep (NewR11nQueue cap) es rq \<Longrightarrow> rqCap rq = cap"
  by (induction "NewR11nQueue cap :: 'a R11nQueue" es rq rule: runs.induct)
    (simp_all add: NewR11nQueue_def cap_step)

lemma history_step: "qstep rq e rq' \<Longrightarrow> history rq' = history rq @ pushed_by e"
proof (induction rule: qstep.induct)
  case (push new rq r rq')
  then show ?case using internalPush_Some [OF conjunct2 [OF Push_added [OF push(2)]]] by (simp add: gset_absent)
next
  case (push_if_empty new rq r rq')
  then show ?case
    using internalPush_Some [OF conjunct2 [OF PushIfEmpty_added [OF push_if_empty(2)]]] by (simp add: gset_absent)
qed (auto dest: push_facts simp: next_receive_def next_popped_def finish_def handlePopped_def split_def
     split: consumer.splits list.splits)

lemma history_run: "runs qstep (NewR11nQueue cap) es rq \<Longrightarrow> history rq = concat (map pushed_by es)"
  by (induction "NewR11nQueue cap :: 'a R11nQueue" es rq rule: runs.induct)
    (simp_all add: NewR11nQueue_def history_step)

lemma pending_run: "runs qstep (NewR11nQueue cap) es rq \<Longrightarrow> history rq = concat (map finished_by es) @ pending rq"
  using r11n.run_from_empty [of "NewR11nQueue cap" es rq] history_run [of cap es rq]
  by (simp add: NewR11nQueue_def pending_def in_hand_def)

lemma pending_le: "rq_inv rq \<Longrightarrow> length (pending rq) \<le> Suc (rqCap rq)"
  by (auto simp: rq_inv_def refs_inv_def pending_def in_hand_def split: consumer.splits)

lemma refs_empty: "rq_inv rq \<Longrightarrow> rqRefs rq = [] \<longleftrightarrow> pending rq = []"
  unfolding rq_inv_def refs_inv_def by (metis set_empty)

text \<open>\<open>allRefs\<close> holds the last \<open>MaxRefsPerR11nQueue\<close> pushes.\<close>

lemma allRefs_recent:
  assumes "rq_inv rq"
  shows "set (rqAllRefs rq) = set (drop (length (history rq) - MaxRefsPerR11nQueue) (history rq))"
proof -
  have "set (rqAllRefs rq) = {i. Some i \<in> set (rqFifoRefs rq)}"
    using assms unfolding rq_inv_def ring_inv_def by blast
  moreover have "rqFifoRefs rq = drop (length (history rq)) (replicate MaxRefsPerR11nQueue None @ map Some (history rq))"
    using assms unfolding rq_inv_def ring_inv_def by blast
  ultimately show ?thesis by (auto simp: drop_map simp del: map_map)
qed

lemma suffix_in_drop: "length ys \<le> n \<Longrightarrow> set ys \<subseteq> set (drop (length (xs @ ys) - n) (xs @ ys))"
  by auto

section \<open>What the queue promises\<close>

lemma done_iff:
  assumes "rq_inv rq" and "i \<in> set (history rq)"
  shows "qrDone (the_obj rq i) \<longleftrightarrow> i \<notin> set (pending rq)"
proof -
  obtain fin where "history rq = fin @ pending rq" "\<forall>i \<in> set fin. qrDone (the_obj rq i)"
      "\<forall>i \<in> set (pending rq). \<not> qrDone (the_obj rq i)"
    using assms(1) unfolding rq_inv_def history_inv_def by blast
  then show ?thesis using assms(2) by (metis Un_iff set_append)
qed

lemma Wait_cases:
  assumes "rq_inv rq"
  shows "R11nQueue_Wait rq i =
    (if i \<notin> set (drop (length (history rq) - MaxRefsPerR11nQueue) (history rq)) then WaitMissing
     else if i \<in> set (pending rq) then WaitBlocked
     else WaitDone (qrRectification (the_obj rq i)))"
proof (cases "i \<in> set (rqAllRefs rq)")
  case True
  then have h: "i \<in> set (history rq)" by (metis allRefs_recent assms in_set_dropD)
  then obtain qr where qr: "gget (rqObjs rq) i = Some qr" by (metis map_of_eq_None_iff not_None_eq set_map)
  then have "the_obj rq i = qr" by (simp add: the_obj_def)
  then show ?thesis
    unfolding allRefs_recent [OF assms, symmetric]
    using True qr done_iff [OF assms h] by (simp add: R11nQueue_Wait_def R11nQueue_ByID_def)
next
  case False
  then show ?thesis
    unfolding allRefs_recent [OF assms, symmetric] by (simp add: R11nQueue_Wait_def R11nQueue_ByID_def)
qed

lemma pending_recent:
  assumes "rq_inv rq" and "rqCap rq < MaxRefsPerR11nQueue"
  shows "set (pending rq) \<subseteq> set (drop (length (history rq) - MaxRefsPerR11nQueue) (history rq))"
proof -
  obtain fin where "history rq = fin @ pending rq" using assms(1) unfolding rq_inv_def history_inv_def by blast
  moreover have "length (pending rq) \<le> MaxRefsPerR11nQueue" using pending_le [OF assms(1)] assms(2) by simp
  ultimately show ?thesis by (simp only: suffix_in_drop)
qed

lemma Wait_pending:
  "rq_inv rq \<Longrightarrow> rqCap rq < MaxRefsPerR11nQueue \<Longrightarrow> i \<in> set (pending rq) \<Longrightarrow> R11nQueue_Wait rq i = WaitBlocked"
  using Wait_cases pending_recent by fastforce

lemma PushIfEmpty_outcome:
  assumes "rq_inv rq" and "0 < rqCap rq"
  shows "\<exists>rq'. R11nQueue_PushIfEmpty new r rq = Some (rq', if pending rq = [] then Some new else None)
             \<and> (if pending rq = [] then pending rq' = [new] else rq' = rq)"
  using refs_empty [OF assms(1)] assms(2)
  by (auto simp: R11nQueue_PushIfEmpty_def internalPush_def Let_def pending_def)

text \<open>
  The consumer alone drains the queue: one of its steps is enabled as long as something is
  pending, and each brings the queue one step nearer to empty.
\<close>

definition consumer_rank :: "'r R11nQueue \<Rightarrow> nat" where
  "consumer_rank rq =
     3 * length (rqQueue rq) + (case rqConsumer rq of Idle \<Rightarrow> 0 | Received _ \<Rightarrow> 2 | Handling _ \<Rightarrow> 1)"

lemma rank_zero: "consumer_rank rq = 0 \<Longrightarrow> pending rq = []"
  by (auto simp: consumer_rank_def pending_def in_hand_def split: consumer.splits)

lemma consumer_progress:
  assumes "consumer_rank rq = Suc n"
  shows "\<exists>e rq'. qstep rq e rq' \<and> pushed_by e = [] \<and> consumer_rank rq' = n"
proof (cases "rqConsumer rq")
  case Idle
  then obtain i q where "rqQueue rq = i # q" using assms by (cases "rqQueue rq") (auto simp: consumer_rank_def)
  then have "qstep rq (EReceive i) (rq\<lparr>rqQueue := q, rqConsumer := Received i\<rparr>)"
    using Idle by (intro qstep.receive) (simp_all add: next_receive_def)
  with Idle \<open>rqQueue rq = i # q\<close> show ?thesis
    using assms by (intro exI conjI) (assumption, simp_all add: consumer_rank_def)
next
  case (Received i)
  then have "qstep rq (EPopped i) ((handlePopped rq)\<lparr>rqConsumer := Handling i\<rparr>)"
    by (intro qstep.popped) (simp_all add: next_popped_def)
  with Received show ?thesis
    using assms by (intro exI conjI) (assumption, simp_all add: consumer_rank_def handlePopped_def)
next
  case (Handling i)
  then obtain rq' where f: "finish id rq = Some rq'" by (simp add: finish_def)
  then have "qstep rq (EFinish i) rq'" using Handling by (intro qstep.finish)
  with Handling f show ?thesis
    using assms by (intro exI conjI) (assumption, auto simp: consumer_rank_def finish_def)
qed

lemma runs_trans: "runs st s' es' s'' \<Longrightarrow> runs st s es s' \<Longrightarrow> runs st s (es @ es') s''"
  by (induction rule: runs.induct) (auto simp: runs_snoc simp flip: append_assoc)

lemma consumer_drains:
  "consumer_rank rq = n \<Longrightarrow>
   \<exists>es rq'. runs qstep rq es rq' \<and> length es = n \<and> concat (map pushed_by es) = [] \<and> pending rq' = []"
proof (induction n arbitrary: rq)
  case 0
  then show ?case using rank_zero runs_refl by (metis concat.simps(1) list.size(3) list.simps(8))
next
  case (Suc n)
  obtain e rq1 where e: "qstep rq e rq1" "pushed_by e = []" "consumer_rank rq1 = n"
    using consumer_progress [OF Suc.prems] by blast
  then obtain es rq' where es: "runs qstep rq1 es rq'" "length es = n" "concat (map pushed_by es) = []" "pending rq' = []"
    using Suc.IH by blast
  have "runs qstep rq [e] rq1" using runs_snoc [of qstep rq "[]" rq e rq1] runs_refl e(1) by fastforce
  then have "runs qstep rq (e # es) rq'" using runs_trans [OF es(1)] by fastforce
  then show ?case using e es by (intro exI [of _ "e # es"] exI [of _ rq']) simp
qed

text \<open>A run used by the witnesses: the third push falls between the consumer's receive and its lock.\<close>

definition example_q1 :: "string R11nQueue" where
  "example_q1 = fst (the (R11nQueue_Push ''a'' ''r1'' (NewR11nQueue 2)))"

definition example_q2 :: "string R11nQueue" where
  "example_q2 = fst (the (R11nQueue_Push ''b'' ''r2'' example_q1))"

definition example_q3 :: "string R11nQueue" where
  "example_q3 = the (next_receive example_q2)"

definition example_q4 :: "string R11nQueue" where
  "example_q4 = fst (the (R11nQueue_Push ''c'' ''r3'' example_q3))"

definition example_q5 :: "string R11nQueue" where
  "example_q5 = the (next_popped example_q4)"

definition example_q6 :: "string R11nQueue" where
  "example_q6 = the (finish (\<lambda>r. r @ ''!'') example_q5)"

lemma example_steps:
  "qstep (NewR11nQueue 2) (EPush ''a'') example_q1"
  "qstep example_q1 (EPush ''b'') example_q2"
  "qstep example_q2 (EReceive ''a'') example_q3"
  "qstep example_q3 (EPush ''c'') example_q4"
  "qstep example_q4 (EPopped ''a'') example_q5"
  "qstep example_q5 (EFinish ''a'') example_q6"
proof -
  show "qstep (NewR11nQueue 2) (EPush ''a'') example_q1"
    by (rule qstep.push [where r = "''r1''"]) code_simp+
  show "qstep example_q1 (EPush ''b'') example_q2"
    by (rule qstep.push [where r = "''r2''"]) code_simp+
  show "qstep example_q2 (EReceive ''a'') example_q3"
    by (rule qstep.receive) code_simp+
  show "qstep example_q3 (EPush ''c'') example_q4"
    by (rule qstep.push [where r = "''r3''"]) code_simp+
  show "qstep example_q4 (EPopped ''a'') example_q5"
    by (rule qstep.popped) code_simp+
  show "qstep example_q5 (EFinish ''a'') example_q6"
    by (rule qstep.finish [where handler = "\<lambda>r. r @ ''!''"]) code_simp+
qed

lemma example_run:
  "runs qstep (NewR11nQueue 2)
     [EPush ''a'', EPush ''b'', EReceive ''a'', EPush ''c'', EPopped ''a'', EFinish ''a''] example_q6"
proof -
  note step = runs_snoc [where st = qstep and s = "NewR11nQueue 2 :: string R11nQueue"]
  have "runs qstep (NewR11nQueue 2) ((((([] @ [EPush ''a'']) @ [EPush ''b'']) @ [EReceive ''a'']) @ [EPush ''c''])
      @ [EPopped ''a'']) example_q5"
    by (intro step) (rule runs_refl example_steps)+
  then show ?thesis using step [OF _ example_steps(6)] by fastforce
qed

text \<open>C4: The queue is first in, first out, in every interleaving of pushes and of the consumer's
  steps: the rectifications pushed so far are those handled so far, in the order of the pushes,
  followed by the one in hand and those in the channel. No ID is lost or handled twice, the
  channel stays within its capacity, and \<open>refs\<close> holds exactly what is not yet handled.\<close>

theorem queue_fifo:
  assumes "runs qstep (NewR11nQueue cap) es rq"
  shows "concat (map pushed_by es) = concat (map finished_by es) @ pending rq
    \<and> distinct (concat (map pushed_by es))
    \<and> R11nQueue_Len rq \<le> cap
    \<and> distinct (rqRefs rq) \<and> set (rqRefs rq) = set (pending rq)"
  using inv_run [OF assms] history_run [OF assms] pending_run [OF assms] cap_run [OF assms]
  by (simp add: rq_inv_def refs_inv_def history_inv_def R11nQueue_Len_def)

theorem queue_fifo_witness:
  "[''a'', ''b'', ''c''] = [''a''] @ pending example_q6 \<and> R11nQueue_Len example_q6 \<le> 2"
  using queue_fifo [OF example_run] by simp

text \<open>Neither push ever blocks on the channel while it holds the lock. \<open>Push\<close> adds the
  rectification exactly when the channel has room, \<open>PushIfEmpty\<close> exactly when nothing is queued
  and nothing is being handled; a push that adds nothing leaves the queue as it was.\<close>

theorem push_outcomes:
  assumes "runs qstep (NewR11nQueue cap) es rq" and "0 < cap"
  shows "(\<exists>rq'. R11nQueue_Push new r rq = Some (rq', if R11nQueue_Len rq < cap then Some new else None)
             \<and> (if R11nQueue_Len rq < cap then pending rq' = pending rq @ [new] else rq' = rq))
       \<and> (\<exists>rq'. R11nQueue_PushIfEmpty new r rq = Some (rq', if pending rq = [] then Some new else None)
             \<and> (if pending rq = [] then pending rq' = [new] else rq' = rq))"
proof
  note inv = inv_run [OF assms(1)] and c = cap_run [OF assms(1)]
  show "\<exists>rq'. R11nQueue_Push new r rq = Some (rq', if R11nQueue_Len rq < cap then Some new else None)
             \<and> (if R11nQueue_Len rq < cap then pending rq' = pending rq @ [new] else rq' = rq)"
    using inv c
    by (auto simp: R11nQueue_Push_def internalPush_def Let_def R11nQueue_Len_def rq_inv_def refs_inv_def pending_def)
  show "\<exists>rq'. R11nQueue_PushIfEmpty new r rq = Some (rq', if pending rq = [] then Some new else None)
             \<and> (if pending rq = [] then pending rq' = [new] else rq' = rq)"
    using PushIfEmpty_outcome [OF inv] c assms(2) by simp
qed

theorem push_outcomes_witness:
  "R11nQueue_PushIfEmpty ''d'' ''r4'' example_q6 = Some (example_q6, None)"
proof -
  have "pending example_q6 \<noteq> []" by code_simp
  then show ?thesis using push_outcomes [OF example_run, of "''d''" "''r4''"] by simp
qed

text \<open>C36: What \<open>Wait\<close> finds: an ID older than the last \<open>MaxRefsPerR11nQueue\<close> pushes, or never pushed, is
  missing; a pending one is waited for; a handled one gives what the handler left. A pending ID
  is never missing, as long as the capacity is below \<open>MaxRefsPerR11nQueue\<close>: no waiter loses its
  rectification.\<close>

theorem wait_outcomes:
  assumes "runs qstep (NewR11nQueue cap) es rq" and "cap < MaxRefsPerR11nQueue"
  shows "R11nQueue_Wait rq i =
    (if i \<in> set (pending rq) then WaitBlocked
     else if i \<in> set (drop (length (concat (map pushed_by es)) - MaxRefsPerR11nQueue) (concat (map pushed_by es)))
     then WaitDone (qrRectification (the_obj rq i))
     else WaitMissing)
    \<and> length (rqAllRefs rq) \<le> MaxRefsPerR11nQueue"
proof -
  note inv = inv_run [OF assms(1)] and h = history_run [OF assms(1)]
  let ?recent = "drop (length (history rq) - MaxRefsPerR11nQueue) (history rq)"
  have "set (pending rq) \<subseteq> set ?recent"
    using pending_recent [OF inv] cap_run [OF assms(1)] assms(2) by simp
  then have "R11nQueue_Wait rq i =
    (if i \<in> set (pending rq) then WaitBlocked
     else if i \<in> set (drop (length (concat (map pushed_by es)) - MaxRefsPerR11nQueue) (concat (map pushed_by es)))
     then WaitDone (qrRectification (the_obj rq i))
     else WaitMissing)"
    unfolding Wait_cases [OF inv] h [symmetric] by auto
  moreover have "distinct (rqAllRefs rq)" using inv unfolding rq_inv_def ring_inv_def by blast
  then have "length (rqAllRefs rq) = card (set ?recent)"
    by (metis allRefs_recent [OF inv] distinct_card)
  then have "length (rqAllRefs rq) \<le> MaxRefsPerR11nQueue"
    using card_length [of ?recent] by simp
  ultimately show ?thesis by blast
qed

theorem wait_outcomes_witness:
  "R11nQueue_Wait example_q6 ''b'' = WaitBlocked \<and> length (rqAllRefs example_q6) \<le> MaxRefsPerR11nQueue"
proof -
  have "''b'' \<in> set (pending example_q6)" by code_simp
  moreover have "2 < MaxRefsPerR11nQueue" by (simp add: MaxRefsPerR11nQueue_def)
  ultimately show ?thesis
    using wait_outcomes [OF example_run, of "''b''"] by simp
qed

text \<open>C37: The consumer is never stuck: from every reachable state some number of its own steps,
  at most three for each queued item, handles everything pending, in order, and leaves the
  queue empty.\<close>

theorem queue_drains:
  assumes "runs qstep (NewR11nQueue cap) es rq"
  shows "\<exists>es' rq'. runs qstep rq es' rq' \<and> concat (map pushed_by es') = []
    \<and> concat (map finished_by es') = pending rq \<and> pending rq' = [] \<and> length es' \<le> 3 * length (pending rq)"
proof -
  obtain es' rq' where r: "runs qstep rq es' rq'" "length es' = consumer_rank rq"
      "concat (map pushed_by es') = []" "pending rq' = []"
    using consumer_drains [OF refl, of rq] by blast
  moreover have "concat (map finished_by es') = pending rq"
    using r11n.run_contents [OF r(1)] r(3,4) by simp
  moreover have "consumer_rank rq \<le> 3 * length (pending rq)"
    by (auto simp: consumer_rank_def pending_def in_hand_def split: consumer.splits)
  ultimately show ?thesis by (intro exI [of _ es'] exI [of _ rq']) simp
qed

theorem queue_drains_witness:
  "\<exists>es' rq'. runs qstep example_q6 es' rq' \<and> concat (map pushed_by es') = []
    \<and> concat (map finished_by es') = pending example_q6 \<and> pending rq' = []
    \<and> length es' \<le> 3 * length (pending example_q6)"
  by (rule queue_drains [OF example_run])

text \<open>The positions are not reliable: a push between the consumer's receive and its lock is
  given the position of the item queued before it, and the tie stays, so that the order of
  \<open>Snapshot\<close> is then left to the map iteration.\<close>

theorem positions_can_tie:
  "\<exists>es rq i j. runs qstep (NewR11nQueue 2 :: string R11nQueue) es rq \<and> i \<noteq> j
     \<and> {i, j} \<subseteq> set (rqQueue rq) \<and> qrPos (the_obj rq i) = qrPos (the_obj rq j)"
proof -
  have "''b'' \<noteq> ''c''" by simp
  moreover have "{''b'', ''c''} \<subseteq> set (rqQueue example_q6)" by code_simp
  moreover have "qrPos (the_obj example_q6 ''b'') = qrPos (the_obj example_q6 ''c'')" by code_simp
  ultimately show ?thesis by (intro exI conjI) (rule example_run)
qed

end
