(* ===== verification/R11n_Queue_Set.thy ===== *)
theory R11n_Queue_Set
  imports R11n_Queue
begin

text \<open>
  The set of rectification queues, one per deployment (\<open>lib/r11n_queue_set.go\<close>), and the
  \<open>Rectification\<close> they hold (\<open>lib/rectification.go\<close>; its context, log and mutex are not data of
  the model). Every method holds the lock of the set, so each is one step; the consumer
  goroutines of the queues step in between. The options of the set are its queues' capacity;
  the handler is an argument of the finishing step. The waiting in \<open>Wait\<close> is the value
  \<open>WaitBlocked\<close>.
\<close>

record Rectification =
  rPair :: DeployablePair
  rResolution :: DiffResolution

record R11nQueueSet =
  qsSet :: "(DeploymentID, Rectification R11nQueue) gomap"
  qsCap :: nat

definition NewR11nQueueSet :: "nat \<Rightarrow> R11nQueueSet" where
  "NewR11nQueueSet cap = \<lparr>qsSet = [], qsCap = cap\<rparr>"

definition NewRectification :: "DeployablePair \<Rightarrow> Rectification" where
  "NewRectification dp = \<lparr>rPair = dp, rResolution = zeroResolution\<rparr>"

text \<open>The queue of an ID, made if it is missing.\<close>

definition queue_for :: "R11nQueueSet \<Rightarrow> DeploymentID \<Rightarrow> Rectification R11nQueue" where
  "queue_for rqs did =
     (case gget (qsSet rqs) did of Some queue \<Rightarrow> queue | None \<Rightarrow> NewR11nQueue (qsCap rqs))"

definition put_queue :: "DeploymentID \<Rightarrow> Rectification R11nQueue \<Rightarrow> R11nQueueSet \<Rightarrow> R11nQueueSet" where
  "put_queue did rq rqs = rqs\<lparr>qsSet := gset did rq (qsSet rqs)\<rparr>"

definition QueueSet_PushIfEmpty ::
    "R11nID \<Rightarrow> Rectification \<Rightarrow> R11nQueueSet \<Rightarrow> (R11nQueueSet \<times> R11nID option) option" where
  "QueueSet_PushIfEmpty new r rqs =
     (let did = dpName (rPair r) in
      map_option (\<lambda>(rq, res). (put_queue did rq rqs, res)) (R11nQueue_PushIfEmpty new r (queue_for rqs did)))"

definition QueueSet_Push ::
    "R11nID \<Rightarrow> Rectification \<Rightarrow> R11nQueueSet \<Rightarrow> (R11nQueueSet \<times> R11nID option) option" where
  "QueueSet_Push new r rqs =
     (let did = dpName (rPair r) in
      map_option (\<lambda>(rq, res). (put_queue did rq rqs, res)) (R11nQueue_Push new r (queue_for rqs did)))"

definition QueueSet_Wait :: "R11nQueueSet \<Rightarrow> DeploymentID \<Rightarrow> R11nID \<Rightarrow> DiffResolution wait_result" where
  "QueueSet_Wait rqs did i =
     (case gget (qsSet rqs) did of
        None \<Rightarrow> WaitMissing
      | Some rq \<Rightarrow>
          (case R11nQueue_Wait rq i of
             WaitMissing \<Rightarrow> WaitMissing | WaitBlocked \<Rightarrow> WaitBlocked | WaitDone r \<Rightarrow> WaitDone (rResolution r)))"

definition QueueSet_Queues :: "R11nQueueSet \<Rightarrow> (DeploymentID, Rectification R11nQueue) gomap" where
  "QueueSet_Queues rqs = gset_all [] (qsSet rqs)"

section \<open>Steps of the set\<close>

text \<open>
  The flag of a step relation says whether \<open>Push\<close> is used: the resolver only uses
  \<open>PushIfEmpty\<close>, the handler of single deployments uses \<open>Push\<close>. A consumer step is a step of
  one queue that pushes nothing.
\<close>

inductive qset_step :: "bool \<Rightarrow> R11nQueueSet \<Rightarrow> R11nQueueSet \<Rightarrow> bool" for anyPush where
  set_push_if_empty: "new \<notin> set (history (queue_for rqs (dpName (rPair r)))) \<Longrightarrow>
     QueueSet_PushIfEmpty new r rqs = Some (rqs', res) \<Longrightarrow> qset_step anyPush rqs rqs'"
| set_push: "anyPush \<Longrightarrow> new \<notin> set (history (queue_for rqs (dpName (rPair r)))) \<Longrightarrow>
     QueueSet_Push new r rqs = Some (rqs', res) \<Longrightarrow> qset_step anyPush rqs rqs'"
| set_consume: "gget (qsSet rqs) did = Some rq \<Longrightarrow> qstep rq e rq' \<Longrightarrow> pushed_by e = [] \<Longrightarrow>
     qset_step anyPush rqs (put_queue did rq' rqs)"

inductive qset_reachable :: "bool \<Rightarrow> nat \<Rightarrow> R11nQueueSet \<Rightarrow> bool" for anyPush cap where
  reach_new: "qset_reachable anyPush cap (NewR11nQueueSet cap)"
| reach_step: "qset_reachable anyPush cap rqs \<Longrightarrow> qset_step anyPush rqs rqs' \<Longrightarrow> qset_reachable anyPush cap rqs'"

definition queue_reachable :: "nat \<Rightarrow> 'r R11nQueue \<Rightarrow> bool" where
  "queue_reachable cap rq = (\<exists>es. runs qstep (NewR11nQueue cap) es rq)"

section \<open>Facts\<close>

lemma queue_reachable_new: "queue_reachable cap (NewR11nQueue cap)"
  unfolding queue_reachable_def by (rule exI, rule runs_refl)

lemma queue_reachable_step: "queue_reachable cap rq \<Longrightarrow> qstep rq e rq' \<Longrightarrow> queue_reachable cap rq'"
  unfolding queue_reachable_def using runs_snoc by metis

lemma queue_reachable_inv: "queue_reachable cap rq \<Longrightarrow> rq_inv rq \<and> rqCap rq = cap"
  unfolding queue_reachable_def using inv_run cap_run by metis

lemma put_queue_get [simp]:
  "gget (qsSet (put_queue did rq rqs)) did' = (if did' = did then Some rq else gget (qsSet rqs) did')"
  by (simp add: put_queue_def gget_update)

lemma put_queue_cap [simp]: "qsCap (put_queue did rq rqs) = qsCap rqs"
  by (simp add: put_queue_def)

text \<open>Every step of the set is a step of one queue, or makes a queue.\<close>

lemma PushIfEmpty_qstep:
  "new \<notin> set (history rq) \<Longrightarrow> R11nQueue_PushIfEmpty new r rq = Some (rq', res) \<Longrightarrow>
   \<exists>e. qstep rq e rq' \<and> (res = None \<and> rq' = rq \<or> res = Some new)"
  using push_if_empty [of new rq r rq'] push_if_empty_refused [of new r rq rq'] PushIfEmpty_added [of new r rq rq']
    PushIfEmpty_refused_same [of new r rq rq']
  by (cases res) auto

lemma Push_qstep:
  "new \<notin> set (history rq) \<Longrightarrow> R11nQueue_Push new r rq = Some (rq', res) \<Longrightarrow> \<exists>e. qstep rq e rq'"
  using push [of new rq r rq'] push_refused [of new r rq rq'] Push_added [of new r rq rq'] by (cases res) auto

definition qset_inv :: "nat \<Rightarrow> R11nQueueSet \<Rightarrow> bool" where
  "qset_inv cap rqs = (qsCap rqs = cap \<and> (\<forall>did rq. gget (qsSet rqs) did = Some rq \<longrightarrow> queue_reachable cap rq))"

lemma queue_for_reachable: "qset_inv cap rqs \<Longrightarrow> queue_reachable cap (queue_for rqs did)"
  by (auto simp: qset_inv_def queue_for_def queue_reachable_new split: option.splits)

lemma qset_inv_put: "qset_inv cap rqs \<Longrightarrow> queue_reachable cap rq \<Longrightarrow> qset_inv cap (put_queue did rq rqs)"
  by (simp add: qset_inv_def)

lemma qset_step_queue:
  assumes "qset_step a rqs rqs'" and inv: "qset_inv cap rqs"
  shows "\<exists>did e rq'. rqs' = put_queue did rq' rqs \<and> qstep (queue_for rqs did) e rq'
     \<and> (\<not> a \<longrightarrow> length (pending rq') \<le> max 1 (length (pending (queue_for rqs did))))"
  using assms(1)
proof cases
  case (set_consume did rq e rq')
  then have "queue_for rqs did = rq" by (simp add: queue_for_def)
  moreover have "length (pending rq') \<le> length (pending rq)"
    using arg_cong [OF qstep_contents [OF set_consume(3)], of length] set_consume(4) by simp
  ultimately show ?thesis using set_consume by (intro exI [of _ did] exI [of _ e] exI [of _ rq']) auto
next
  case (set_push new r res)
  then obtain rq' where "R11nQueue_Push new r (queue_for rqs (dpName (rPair r))) = Some (rq', res)"
      "rqs' = put_queue (dpName (rPair r)) rq' rqs"
    by (auto simp: QueueSet_Push_def Let_def)
  then show ?thesis using Push_qstep [OF set_push(2)] set_push(1) by metis
next
  case (set_push_if_empty new r res)
  let ?q = "queue_for rqs (dpName (rPair r))"
  obtain rq' where q: "R11nQueue_PushIfEmpty new r ?q = Some (rq', res)" "rqs' = put_queue (dpName (rPair r)) rq' rqs"
    using set_push_if_empty(2) by (auto simp: QueueSet_PushIfEmpty_def Let_def)
  then obtain e where e: "qstep ?q e rq'" using PushIfEmpty_qstep [OF set_push_if_empty(1)] by blast
  have "rq' = ?q \<or> rqRefs ?q = [] \<and> pending rq' = pending ?q @ [new]"
    using q(1) by (auto simp: R11nQueue_PushIfEmpty_def pending_def dest: internalPush_Some split: if_splits)
  moreover have "rqRefs ?q = [] \<longleftrightarrow> pending ?q = []"
    using refs_empty queue_reachable_inv [OF queue_for_reachable [OF inv]] by blast
  ultimately have "length (pending rq') \<le> max 1 (length (pending ?q))" by auto
  then show ?thesis using q(2) e by blast
qed

lemma qset_inv_reachable: "qset_reachable a cap rqs \<Longrightarrow> qset_inv cap rqs"
proof (induction rule: qset_reachable.induct)
  case reach_new
  then show ?case by (simp add: qset_inv_def NewR11nQueueSet_def)
next
  case (reach_step rqs rqs')
  then show ?case
    using qset_step_queue [OF reach_step(2,3)] queue_reachable_step [OF queue_for_reachable] qset_inv_put by blast
qed

lemma single_flight_reachable:
  "qset_reachable a cap rqs \<Longrightarrow> \<not> a \<Longrightarrow> length (pending (queue_for rqs did)) \<le> 1"
proof (induction arbitrary: did rule: qset_reachable.induct)
  case reach_new
  then show ?case by (simp add: queue_for_def NewR11nQueueSet_def NewR11nQueue_def pending_def in_hand_def)
next
  case (reach_step rqs rqs')
  obtain d e rq' where "rqs' = put_queue d rq' rqs"
      "length (pending rq') \<le> max 1 (length (pending (queue_for rqs d)))"
    using qset_step_queue [OF reach_step(2) qset_inv_reachable [OF reach_step(1)]] reach_step(4) by blast
  moreover have "length (pending (queue_for rqs d)) \<le> 1" "length (pending (queue_for rqs did)) \<le> 1"
    using reach_step by blast+
  ultimately show ?case by (simp add: queue_for_def split: option.splits)
qed

section \<open>What the set promises\<close>

definition example_rectification :: Rectification where
  "example_rectification =
     NewRectification (plain_pair (Deployment_ID example_deployment) None (Some (active example_deployment)))"

definition example_set :: R11nQueueSet where
  "example_set = fst (the (QueueSet_PushIfEmpty ''a'' example_rectification (NewR11nQueueSet 10)))"

lemma example_set_pushed:
  "QueueSet_PushIfEmpty ''a'' example_rectification (NewR11nQueueSet 10) = Some (example_set, Some ''a'')"
  by (simp add: example_set_def QueueSet_PushIfEmpty_def R11nQueue_PushIfEmpty_def internalPush_def queue_for_def
      NewR11nQueueSet_def NewR11nQueue_def Let_def)

lemma example_set_reachable: "qset_reachable False 10 example_set"
proof (rule reach_step [OF reach_new], rule set_push_if_empty [OF _ example_set_pushed])
  show "''a'' \<notin> set (history (queue_for (NewR11nQueueSet 10) (dpName (rPair example_rectification))))"
    by (simp add: queue_for_def NewR11nQueueSet_def NewR11nQueue_def)
qed

lemma example_set_queue:
  "gget (qsSet example_set) (Deployment_ID example_deployment)
     = map_option fst (R11nQueue_PushIfEmpty ''a'' example_rectification (NewR11nQueue 10))"
  by (simp add: example_set_def QueueSet_PushIfEmpty_def R11nQueue_PushIfEmpty_def internalPush_def queue_for_def
      NewR11nQueueSet_def NewR11nQueue_def put_queue_def example_rectification_def NewRectification_def plain_pair_def Let_def)

text \<open>C5: When everything is queued with \<open>PushIfEmpty\<close>, as the resolver does, at most one
  rectification of a deployment is queued or being handled at any time, however the consumers
  of the queues interleave with the pushes.\<close>

theorem single_flight:
  assumes "qset_reachable False cap rqs" and "gget (qsSet rqs) did = Some rq"
  shows "length (pending rq) \<le> 1"
  using single_flight_reachable [OF assms(1), of did] assms(2) by (simp add: queue_for_def)

theorem single_flight_witness:
  "\<exists>rq. gget (qsSet example_set) (Deployment_ID example_deployment) = Some rq \<and> length (pending rq) \<le> 1"
proof -
  obtain rq where "gget (qsSet example_set) (Deployment_ID example_deployment) = Some rq"
    using example_set_queue
    by (auto simp: R11nQueue_PushIfEmpty_def internalPush_def NewR11nQueue_def Let_def)
  then show ?thesis using single_flight [OF example_set_reachable] by blast
qed

text \<open>A push on the set never blocks, touches only the queue of its own deployment, and
  makes it when there is none. What \<open>PushIfEmpty\<close> accepted can be waited for under that
  deployment's ID and the returned ID: it is found, and it is not done yet.\<close>

theorem queue_set_push:
  assumes "qset_reachable a cap rqs" and "0 < cap" and "cap < MaxRefsPerR11nQueue"
    and "new \<notin> set (history (queue_for rqs (dpName (rPair r))))"
  shows "\<exists>rqs'. QueueSet_PushIfEmpty new r rqs
             = Some (rqs', if pending (queue_for rqs (dpName (rPair r))) = [] then Some new else None)
       \<and> (\<forall>did. did \<noteq> dpName (rPair r) \<longrightarrow> gget (qsSet rqs') did = gget (qsSet rqs) did)
       \<and> gget (qsSet rqs') (dpName (rPair r)) \<noteq> None
       \<and> (pending (queue_for rqs (dpName (rPair r))) = [] \<longrightarrow>
            QueueSet_Wait rqs' (dpName (rPair r)) new = WaitBlocked)"
proof -
  let ?did = "dpName (rPair r)" and ?q = "queue_for rqs (dpName (rPair r))"
  note q = queue_for_reachable [OF qset_inv_reachable [OF assms(1)], of ?did]
  have inv: "rq_inv ?q" "rqCap ?q = cap" using queue_reachable_inv [OF q] by simp_all
  obtain rq' where p: "R11nQueue_PushIfEmpty new r ?q = Some (rq', if pending ?q = [] then Some new else None)"
      "if pending ?q = [] then pending rq' = [new] else rq' = ?q"
    using PushIfEmpty_outcome [OF inv(1), of new r] inv(2) assms(2) by auto
  have "queue_reachable cap rq'"
    using PushIfEmpty_qstep [OF assms(4) p(1)] queue_reachable_step [OF q] by blast
  then have "R11nQueue_Wait rq' new = WaitBlocked" if "pending ?q = []"
    using Wait_pending [of rq' new] queue_reachable_inv [of cap rq'] p(2) that assms(3) by simp
  then show ?thesis
    using p(1) by (intro exI [of _ "put_queue ?did rq' rqs"]) (simp add: QueueSet_PushIfEmpty_def Let_def QueueSet_Wait_def)
qed

theorem queue_set_push_witness:
  "\<exists>rqs'. QueueSet_PushIfEmpty ''b'' example_rectification (NewR11nQueueSet 10) = Some (rqs', Some ''b'')
     \<and> QueueSet_Wait rqs' (dpName (rPair example_rectification)) ''b'' = WaitBlocked"
proof -
  have "pending (queue_for (NewR11nQueueSet 10) did) = []" "history (queue_for (NewR11nQueueSet 10) did) = []" for did
    by (simp_all add: queue_for_def NewR11nQueueSet_def NewR11nQueue_def pending_def in_hand_def)
  then show ?thesis
    using queue_set_push [OF reach_new, of 10 "''b''" example_rectification] by (auto simp: MaxRefsPerR11nQueue_def)
qed

end
