(* ===== verification/Resolve_Filter.thy ===== *)
theory Resolve_Filter
  imports Deployment_Diff
begin

text \<open>
  The filter of a resolution (\<open>lib/resolvefilter.go\<close>), with the tag parser it uses
  (\<open>lib/source_context.go\<close>). A \<open>ResolveFieldMatcher\<close> is its optional string. An error of the
  form \<open>fmt.Errorf\<close> is the constructor \<open>FilterError\<close> with its text, one of the version parser
  is \<open>VersionError\<close>.
\<close>

type_synonym ResolveFieldMatcher = "string option"

record ResolveFilter =
  rfRepo :: ResolveFieldMatcher
  rfOffset :: ResolveFieldMatcher
  rfTag :: ResolveFieldMatcher
  rfRevision :: ResolveFieldMatcher
  rfFlavor :: ResolveFieldMatcher
  rfCluster :: ResolveFieldMatcher
  rfStatus :: DeployStatus

datatype filter_error = FilterError string | VersionError semv_error

definition NewResolveFieldMatcher :: "string \<Rightarrow> ResolveFieldMatcher" where
  "NewResolveFieldMatcher match = Some match"

definition Matcher_All :: "ResolveFieldMatcher \<Rightarrow> bool" where
  "Matcher_All matcher = (matcher = None)"

definition Matcher_match :: "ResolveFieldMatcher \<Rightarrow> string \<Rightarrow> bool" where
  "Matcher_match matcher against = (Matcher_All matcher \<or> against = the matcher)"

definition ValueOr :: "ResolveFieldMatcher \<Rightarrow> string \<Rightarrow> string" where
  "ValueOr matcher def = (if Matcher_All matcher then def else the matcher)"

definition Matcher_Value :: "ResolveFieldMatcher \<Rightarrow> (filter_error, string) outcome" where
  "Matcher_Value matcher =
     (if Matcher_All matcher then Err (FilterError ''field not specified'') else Ok (the matcher))"

definition matchDeployStatus :: "ResolveFilter \<Rightarrow> DeployStatus \<Rightarrow> bool" where
  "matchDeployStatus rf status = (rfStatus rf = DeployStatusAny \<or> status = rfStatus rf)"

text \<open>\<open>versionStrip\<close> removes the characters before the first digit.\<close>

definition parseSemverTagWithOptionalPrefix :: "string \<Rightarrow> Version \<times> semv_error option" where
  "parseSemverTagWithOptionalPrefix tagName = Semv_Parse (dropWhile (\<lambda>c. \<not> is_digit c) tagName)"

definition SetTag :: "string \<Rightarrow> ResolveFilter \<Rightarrow> ResolveFilter \<times> filter_error option" where
  "SetTag tag rf =
     (case parseSemverTagWithOptionalPrefix tag of
        (v, Some e) \<Rightarrow>
          (rf, Some (FilterError (''version '' @ tag @ '' not valid: expected something like [servicename-]1.2.3'')))
      | (v, None) \<Rightarrow> (rf\<lparr>rfTag := NewResolveFieldMatcher (Version_Format v Complete)\<rparr>, None))"

definition TagVersion :: "ResolveFilter \<Rightarrow> (filter_error, Version) outcome" where
  "TagVersion rf =
     (case Matcher_Value (rfTag rf) of
        Ok tag \<Rightarrow> (case Semv_Parse tag of (v, None) \<Rightarrow> Ok v | (v, Some e) \<Rightarrow> Err (VersionError e))
      | Err e \<Rightarrow> Err e
      | Panic \<Rightarrow> Panic)"

definition ResolveFilter_All :: "ResolveFilter \<Rightarrow> bool" where
  "ResolveFilter_All rf =
     (Matcher_All (rfRepo rf) \<and> Matcher_All (rfOffset rf) \<and> Matcher_All (rfTag rf)
      \<and> Matcher_All (rfRevision rf) \<and> Matcher_All (rfFlavor rf) \<and> Matcher_All (rfCluster rf))"

definition ResolveFilter_SourceLocation :: "ResolveFilter \<Rightarrow> SourceLocation option" where
  "ResolveFilter_SourceLocation rf =
     (if Matcher_All (rfRepo rf) \<or> Matcher_All (rfOffset rf) then None
      else Some \<lparr>slRepo = ValueOr (rfRepo rf) ''<unspecified!>'', slDir = ValueOr (rfOffset rf) ''<unspecified!>''\<rparr>)"

definition ResolveFilter_SourceID :: "ResolveFilter \<Rightarrow> ManifestID \<Rightarrow> (filter_error, SourceID) outcome" where
  "ResolveFilter_SourceID rf mid =
     (if Matcher_All (rfTag rf) then Err (FilterError ''you must provide the -tag flag'')
      else case Semv_Parse (ValueOr (rfTag rf) ''<untagged!>'') of
          (v, Some e) \<Rightarrow> Err (VersionError e)
        | (v, None) \<Rightarrow> Ok (SourceLocation_SourceID (midSource mid) v))"

definition ResolveFilter_DeploymentID :: "ResolveFilter \<Rightarrow> ManifestID \<Rightarrow> (filter_error, DeploymentID) outcome" where
  "ResolveFilter_DeploymentID rf mid =
     (if Matcher_All (rfCluster rf) then Err (FilterError ''you must select a cluster using the -cluster flag'')
      else Ok \<lparr>didManifestID = mid, didCluster = ValueOr (rfCluster rf) ''<no-cluster!>''\<rparr>)"

definition ResolveFilter_String :: "ResolveFilter \<Rightarrow> string" where
  "ResolveFilter_String rf =
     ''<cluster:'' @ ValueOr (rfCluster rf) ''*'' @ '' repo:'' @ ValueOr (rfRepo rf) ''*''
     @ '' offset:'' @ ValueOr (rfRevision rf) ''*'' @ '' flavor:'' @ ValueOr (rfFlavor rf) ''*''
     @ '' tag:'' @ ValueOr (rfOffset rf) ''*'' @ '' revision:'' @ ValueOr (rfTag rf) ''*'' @ ''>''"

definition FilterClusterName :: "ResolveFilter \<Rightarrow> string \<Rightarrow> bool" where
  "FilterClusterName rf name = Matcher_match (rfCluster rf) name"

fun filter_clusters_loop :: "ResolveFilter \<Rightarrow> Clusters \<Rightarrow> Clusters \<Rightarrow> Clusters" where
  "filter_clusters_loop rf newC [] = newC"
| "filter_clusters_loop rf newC ((n, c) # cs) =
     (if \<not> FilterClusterName rf n then filter_clusters_loop rf newC cs
      else filter_clusters_loop rf (gset n c newC) cs)"

definition FilteredClusters :: "ResolveFilter \<Rightarrow> Clusters \<Rightarrow> Clusters" where
  "FilteredClusters rf c = filter_clusters_loop rf [] c"

definition FilterDeployment :: "ResolveFilter \<Rightarrow> Deployment \<Rightarrow> bool" where
  "FilterDeployment rf d =
     (Matcher_match (rfRepo rf) (slRepo (sidLocation (dSourceID d)))
      \<and> Matcher_match (rfOffset rf) (slDir (sidLocation (dSourceID d)))
      \<and> Matcher_match (rfTag rf) (Version_String (sidVersion (dSourceID d)))
      \<and> Matcher_match (rfRevision rf) (SourceID_RevID (dSourceID d))
      \<and> Matcher_match (rfFlavor rf) (dFlavor d)
      \<and> Matcher_match (rfCluster rf) (dClusterName d))"

definition FilterDeployStates :: "ResolveFilter \<Rightarrow> DeployState \<Rightarrow> bool" where
  "FilterDeployStates rf d = (FilterDeployment rf (dstDeployment d) \<and> matchDeployStatus rf (dstStatus d))"

definition FilterManifestID :: "ResolveFilter \<Rightarrow> ManifestID \<Rightarrow> bool" where
  "FilterManifestID rf m =
     (Matcher_match (rfRepo rf) (slRepo (midSource m)) \<and> Matcher_match (rfOffset rf) (slDir (midSource m))
      \<and> Matcher_match (rfFlavor rf) (midFlavor m))"

definition FilterManifest :: "ResolveFilter \<Rightarrow> Manifest \<Rightarrow> bool" where
  "FilterManifest rf m = FilterManifestID rf (Manifest_ID m)"

section \<open>Facts\<close>

lemma Matcher_match_simps [simp]: "Matcher_match None s" "Matcher_match (Some m) s \<longleftrightarrow> s = m"
  by (simp_all add: Matcher_match_def Matcher_All_def)

text \<open>A filter on the parts of a deployment ID only.\<close>

definition by_id :: "ResolveFilter \<Rightarrow> bool" where
  "by_id rf = (rfTag rf = None \<and> rfRevision rf = None \<and> rfStatus rf = DeployStatusAny)"

definition FilterDeploymentID :: "ResolveFilter \<Rightarrow> DeploymentID \<Rightarrow> bool" where
  "FilterDeploymentID rf did = (FilterManifestID rf (didManifestID did) \<and> FilterClusterName rf (didCluster did))"

lemma FilterDeployment_by_id: "by_id rf \<Longrightarrow> FilterDeployment rf d = FilterDeploymentID rf (Deployment_ID d)"
  by (auto simp: by_id_def FilterDeployment_def FilterDeploymentID_def FilterManifestID_def FilterClusterName_def
      Deployment_ID_def Deployment_ManifestID_def)

lemma FilterDeployStates_by_id: "by_id rf \<Longrightarrow> FilterDeployStates rf d = FilterDeploymentID rf (DeployState_ID d)"
  by (simp add: FilterDeployStates_def FilterDeployment_by_id DeployState_ID_def matchDeployStatus_def by_id_def)

lemma keyed_filter: "keyed ID m \<Longrightarrow> keyed ID (filter P m)"
  by (auto simp: keyed_def)

lemma gget_filter_key: "gget (filter (\<lambda>(k, v). P k) m) k = (if P k then gget m k else None)"
  by (induction m) auto

lemma filter_by_key: "keyed ID m \<Longrightarrow> filter (\<lambda>(k, v). P (ID v)) m = filter (\<lambda>(k, v). P k) m"
  by (auto simp: keyed_def intro!: filter_cong)

lemma DeployStates_Filter_by_id:
  assumes "by_id rf" and "keyed DeployState_ID actual"
  shows "DeployStates_Filter actual (Some (FilterDeployStates rf)) = filter (\<lambda>(k, v). FilterDeploymentID rf k) actual"
  using filter_by_key [OF assms(2), of "FilterDeploymentID rf"] assms(1) keyed_gwf [OF assms(2)]
  by (simp add: DeployStates_Filter_def deploystates.Filter_Some FilterDeployStates_by_id)

lemma Deployments_Filter_by_id:
  assumes "by_id rf" and "keyed Deployment_ID intended"
  shows "Deployments_Filter intended (Some (FilterDeployment rf)) = filter (\<lambda>(k, v). FilterDeploymentID rf k) intended"
  using filter_by_key [OF assms(2), of "FilterDeploymentID rf"] assms(1) keyed_gwf [OF assms(2)]
  by (simp add: Deployments_Filter_def deployments.Filter_Some FilterDeployment_by_id)

lemma filter_clusters_loop_spec:
  "gwf (newC @ cs) \<Longrightarrow> filter_clusters_loop rf newC cs = newC @ filter (\<lambda>(n, c). FilterClusterName rf n) cs"
proof (induction rf newC cs rule: filter_clusters_loop.induct)
  case (2 rf newC n c cs)
  then have "n \<notin> set (gkeys newC)" "gwf (newC @ cs)" "gwf ((newC @ [(n, c)]) @ cs)" by (auto simp: gwf_def)
  then show ?case using 2 by (simp add: gset_absent)
qed simp

lemma FilteredClusters_spec:
  "gwf cs \<Longrightarrow> FilteredClusters rf cs = filter (\<lambda>(n, c). FilterClusterName rf n) cs"
  using filter_clusters_loop_spec [of "[]" cs rf] by (simp add: FilteredClusters_def)

section \<open>Properties\<close>

text \<open>C38: Filtering both sides before the diff is the same as filtering the pairs of the diff, for
  a filter that names no tag, revision or status: the resolution of a part of the deployments
  does to that part exactly what the whole resolution would do, and nothing outside it.\<close>

theorem filtered_diff:
  assumes "by_id rf" and "keyed DeployState_ID actual" and "keyed Deployment_ID intended"
  shows "set (DeployStates_Diff (DeployStates_Filter actual (Some (FilterDeployStates rf)))
                                (Deployments_Filter intended (Some (FilterDeployment rf))))
       = {p \<in> set (DeployStates_Diff actual intended). FilterDeploymentID rf (dpName p)}"
proof -
  note a = DeployStates_Filter_by_id [OF assms(1,2)] and i = Deployments_Filter_by_id [OF assms(1,3)]
  have same: "pair_of (filter (\<lambda>(k, v). FilterDeploymentID rf k) actual) (filter (\<lambda>(k, v). FilterDeploymentID rf k) intended) k
      = pair_of actual intended k" if "FilterDeploymentID rf k" for k
    using that by (simp add: pair_of_def gget_filter_key)
  have keys: "set (gkeys (filter (\<lambda>(k, v). FilterDeploymentID rf k) m)) = {k \<in> set (gkeys m). FilterDeploymentID rf k}" for m :: "(DeploymentID, 'v) gomap"
    by auto
  have "set (DeployStates_Diff (filter (\<lambda>(k, v). FilterDeploymentID rf k) actual) (filter (\<lambda>(k, v). FilterDeploymentID rf k) intended))
      = pair_of actual intended ` ({k \<in> set (gkeys actual). FilterDeploymentID rf k} \<union> {k \<in> set (gkeys intended). FilterDeploymentID rf k})"
    unfolding DeployStates_Diff_set [OF keyed_filter [OF assms(2)] keyed_filter [OF assms(3)]] keys
    by (intro image_cong refl same) auto
  also have "\<dots> = {p \<in> set (DeployStates_Diff actual intended). FilterDeploymentID rf (dpName p)}"
    unfolding DeployStates_Diff_set [OF assms(2,3)] by auto
  finally show ?thesis by (simp only: a i)
qed

definition cluster_filter :: ResolveFilter where
  "cluster_filter = \<lparr>rfRepo = None, rfOffset = None, rfTag = None, rfRevision = None, rfFlavor = None,
     rfCluster = Some ''left'', rfStatus = DeployStatusAny\<rparr>"

theorem filtered_diff_witness:
  "set (DeployStates_Diff (DeployStates_Filter [] (Some (FilterDeployStates cluster_filter)))
      (Deployments_Filter [(Deployment_ID example_deployment, example_deployment)] (Some (FilterDeployment cluster_filter))))
   = {p \<in> set (DeployStates_Diff [] [(Deployment_ID example_deployment, example_deployment)]).
        FilterDeploymentID cluster_filter (dpName p)}"
  by (rule filtered_diff) (simp_all add: keyed_def by_id_def cluster_filter_def)

text \<open>A filter on a tag is different, because it is applied to the running version too: a
  deployment that runs another version than the tag, and is intended at the tag, is taken for
  a new one, whatever is running under its ID.\<close>

theorem tag_filter_hides_running:
  assumes "keyed DeployState_ID actual" and "keyed Deployment_ID intended"
    and "gget actual did = Some ds" and "rfTag rf = Some tag"
    and "Version_String (sidVersion (dSourceID (dstDeployment ds))) \<noteq> tag"
    and "gget intended did = Some d" and "FilterDeployment rf d"
  shows "\<exists>p \<in> set (DeployStates_Diff (DeployStates_Filter actual (Some (FilterDeployStates rf)))
                                    (Deployments_Filter intended (Some (FilterDeployment rf)))).
           dpName p = did \<and> DeployablePair_Kind p = Ok AddedKind"
proof -
  let ?a = "filter (\<lambda>(k, v). FilterDeployStates rf v) actual" and ?i = "filter (\<lambda>(k, v). FilterDeployment rf v) intended"
  have "\<not> FilterDeployStates rf ds" using assms(4,5) by (simp add: FilterDeployStates_def FilterDeployment_def)
  then have "gget ?a did = None" "gget ?i did = Some d"
    using assms(3,6,7) gwf_filter_get [OF keyed_gwf [OF assms(1)]] gwf_filter_get [OF keyed_gwf [OF assms(2)]] by simp_all
  moreover from this(2) have "did \<in> set (gkeys ?i)" by (metis map_of_SomeD fst_conv image_eqI list.set_map)
  ultimately have "pair_of ?a ?i did \<in> set (DeployStates_Diff ?a ?i) \<and> DeployablePair_Kind (pair_of ?a ?i did) = Ok AddedKind"
    using DeployStates_Diff_set [OF keyed_filter [OF assms(1)] keyed_filter [OF assms(2)]]
      Kind_pair_of [OF keyed_filter [OF assms(1)] keyed_filter [OF assms(2)], of did] by auto
  then show ?thesis
    using keyed_gwf [OF assms(1)] keyed_gwf [OF assms(2)]
    by (intro bexI [of _ "pair_of ?a ?i did"])
      (simp_all add: DeployStates_Filter_def deploystates.Filter_Some Deployments_Filter_def deployments.Filter_Some)
qed

definition tag_filter :: ResolveFilter where
  "tag_filter = cluster_filter\<lparr>rfCluster := None, rfTag := Some (Version_String (sidVersion example_sid))\<rparr>"

definition older_deployment :: Deployment where
  "older_deployment = example_deployment\<lparr>dSourceID := example_sid\<lparr>sidVersion := zeroVersion\<rparr>\<rparr>"

theorem tag_filter_hides_running_witness:
  "\<exists>p \<in> set (DeployStates_Diff
      (DeployStates_Filter [(Deployment_ID older_deployment, promoted DeployStatusActive older_deployment)]
         (Some (FilterDeployStates tag_filter)))
      (Deployments_Filter [(Deployment_ID example_deployment, example_deployment)] (Some (FilterDeployment tag_filter)))).
     dpName p = Deployment_ID example_deployment \<and> DeployablePair_Kind p = Ok AddedKind"
proof (rule tag_filter_hides_running [where ds = "promoted DeployStatusActive older_deployment" and d = example_deployment
      and tag = "Version_String (sidVersion example_sid)"])
  show "Version_String (sidVersion (dSourceID (dstDeployment (promoted DeployStatusActive older_deployment))))
      \<noteq> Version_String (sidVersion example_sid)"
    by code_simp
qed (simp_all add: keyed_def DeployState_ID_def promoted_def older_deployment_def example_deployment_def Deployment_ID_def
    Deployment_ManifestID_def tag_filter_def cluster_filter_def FilterDeployment_def)

text \<open>A tag set on the filter, with or without a prefix of non-digits, is the version that
  the filter then gives for the source ID: \<open>SetTag\<close> followed by \<open>TagVersion\<close> or \<open>SourceID\<close>
  returns the canonical version that the tag spells.\<close>

theorem set_tag_roundtrip:
  assumes "wf_version v" and "vDefaultFormat v = canonical_format v" and "list_all (\<lambda>c. \<not> is_digit c) prefix"
  shows "\<exists>rf'. SetTag (prefix @ Version_String v) rf = (rf', None) \<and> TagVersion rf' = Ok v
     \<and> ResolveFilter_SourceID rf' mid = Ok (SourceLocation_SourceID (midSource mid) v)
     \<and> rf'\<lparr>rfTag := rfTag rf\<rparr> = rf"
proof -
  have spelt: "Version_String v = version_text v" "Version_Format v Complete = version_text v"
    using Version_Format_text [OF assms(1)] assms(2) by (simp_all add: Version_String_def full_format_def)
  note parse = Semv_Parse_String [OF assms(1,2)]
  have "is_digit (hd (version_text v))" "version_text v \<noteq> []"
    using itoa_digits [of "vMajor v"] assms(1) itoa_not_Nil [of "vMajor v"]
    by (cases "itoa (vMajor v)"; simp add: version_text_def wf_version_def)+
  then have "dropWhile (\<lambda>c. \<not> is_digit c) (version_text v) = version_text v" by (cases "version_text v") simp_all
  then have "dropWhile (\<lambda>c. \<not> is_digit c) (prefix @ Version_String v) = Version_String v"
    using assms(3) by (simp add: spelt dropWhile_append2 list_all_iff)
  then have "parseSemverTagWithOptionalPrefix (prefix @ Version_String v) = (v, None)"
    by (simp add: parseSemverTagWithOptionalPrefix_def parse)
  then show ?thesis
    using parse by (simp add: SetTag_def TagVersion_def Matcher_Value_def Matcher_All_def NewResolveFieldMatcher_def
        ResolveFilter_SourceID_def ValueOr_def spelt)
qed

definition example_version :: Version where
  "example_version = \<lparr>vMajor = 1, vMinor = 2, vPatch = 3, vPre = [], vMeta = [], vDefaultFormat = ''M.m.p''\<rparr>"

theorem set_tag_roundtrip_witness:
  "\<exists>rf'. SetTag ''svc-1.2.3'' cluster_filter = (rf', None) \<and> TagVersion rf' = Ok example_version"
proof -
  have "''svc-1.2.3'' = ''svc-'' @ Version_String example_version" by code_simp
  moreover have "wf_version example_version" "vDefaultFormat example_version = canonical_format example_version"
    "list_all (\<lambda>c. \<not> is_digit c) ''svc-''"
    by (simp_all add: wf_version_def example_version_def in_int64_def canonical_format_def is_digit_def)
  ultimately show ?thesis using set_tag_roundtrip [of example_version "''svc-''" cluster_filter] by metis
qed

end
