(* ===== verification/Resolver.thy ===== *)
theory Resolver
  imports R11n_Queue_Set Resolve_Filter
begin

text \<open>
  One resolution: names and images (\<open>lib/nameresolver.go\<close>), the pipeline of processors
  (\<open>lib/pipeline.go\<close>, \<open>lib/loggingprocessor.go\<close>), the recorder of the resolution's status
  (\<open>lib/resolvestatus.go\<close>), and the resolver, which puts filter, diff, name resolution and
  queues together (\<open>lib/resolver.go\<close>).

  Parameters. The registry and the deployer are interfaces: \<open>GetArtifact\<close> and
  \<open>RunningDeployments\<close> are arguments, an error being \<open>Inl\<close>. \<open>fresh\<close> gives the random ID of the
  n-th pair's rectification. Time is a number.

  Concurrency. A channel that a stage fills and closes is the list of what it sent. The errors
  of a pipeline stage are any interleaving of the upstream and the local ones (\<^const>\<open>shuffles\<close>).
  The recorder has a goroutine of its own that moves resolutions from a buffered channel into
  the status: \<open>rec_step\<close> has its steps, and \<open>fifo_steps\<close> is interpreted on them.
\<close>

section \<open>Names and images\<close>

type_synonym get_artifact = "SourceID \<Rightarrow> goerror + BuildArtifact option"

definition fmt_error :: "string \<Rightarrow> goerror" where
  "fmt_error msg = PlainError ''*errors.errorString'' msg"

fun check_advisories :: "Deployment \<Rightarrow> Quality list \<Rightarrow> goerror option" where
  "check_advisories d [] = None"
| "check_advisories d (q # qs) =
     (if qKind q \<noteq> ''advisory'' \<or> qName q = [] then check_advisories d qs
      else case dCluster d of
          None \<Rightarrow> Some (fmt_error ''nil cluster on deployment'')
        | Some c \<Rightarrow> if qName q \<in> set (clAllowedAdvisories c) then check_advisories d qs
                     else Some (UnacceptableAdvisory q (dSourceID d)))"

definition guardImage :: "get_artifact \<Rightarrow> Deployment \<Rightarrow> (goerror, BuildArtifact option) outcome" where
  "guardImage GetArtifact d =
     (if dcNumInstances (dDeployConfig d) = 0 then Ok None
      else case GetArtifact (dSourceID d) of
          Inl err \<Rightarrow> Err (MissingImageNameError err)
        | Inr None \<Rightarrow> Panic
        | Inr (Some art) \<Rightarrow>
            (case check_advisories d (baQualities art) of
               Some err \<Rightarrow> Err err
             | None \<Rightarrow> Ok (Some art)))"

text \<open>The results of the processors: the pair to pass on, and the resolution to report.\<close>

definition resolveName ::
    "get_artifact \<Rightarrow> Deployable option \<Rightarrow> (goerror, Deployable option \<times> DiffResolution option) outcome" where
  "resolveName GetArtifact d0 =
     (case d0 of
        None \<Rightarrow> Ok (None, Some (zeroResolution\<lparr>drError := Some (EW [] [] (Some (fmt_error ''nil deployable'')))\<rparr>))
      | Some d \<Rightarrow>
          (case guardImage GetArtifact (dblDeployment d) of
             Panic \<Rightarrow> Panic
           | Err err \<Rightarrow> Ok (Some d, Some (zeroResolution
               \<lparr>drDeploymentID := Deployment_ID (dblDeployment d), drError := Some (EW [] [] (Some err))\<rparr>))
           | Ok art \<Rightarrow> Ok (Some (d\<lparr>dblArtifact := art\<rparr>), None)))"

definition renamed_pair :: "DeployablePair \<Rightarrow> Deployable option \<Rightarrow> DeployablePair" where
  "renamed_pair dp newImageName =
     \<lparr>dpPrior = dpPrior dp, dpPost = newImageName, dpName = dpName dp,
      dpExecutorData = dpExecutorData dp, dpUUID = zeroUUID\<rparr>"

text \<open>
  \<open>HandlePairs\<close>. The log message of a failed resolution reads \<open>intended.ID()\<close>, which panics on
  a pair without a \<open>Post\<close>.
\<close>

definition HandlePairs ::
    "get_artifact \<Rightarrow> DeployablePair \<Rightarrow> (goerror, DeployablePair option \<times> DiffResolution option) outcome" where
  "HandlePairs GetArtifact dp =
     (case DeployablePair_Kind dp of
        Err _ \<Rightarrow> Panic
      | Panic \<Rightarrow> Panic
      | Ok kind \<Rightarrow>
          if kind = SameKind \<or> kind = RemovedKind then Ok (Some (renamed_pair dp (dpPost dp)), None)
          else case resolveName GetArtifact (dpPost dp) of
              Panic \<Rightarrow> Panic
            | Err e \<Rightarrow> Err e
            | Ok (newImageName, Some err) \<Rightarrow> if dpPost dp = None then Panic else Ok (None, Some err)
            | Ok (None, None) \<Rightarrow>
                Ok (None, Some (zeroResolution\<lparr>drDeploymentID := dpName dp, drDesc := ''not created'',
                      drError := Some (WrapResolveError (fmt_error ''Unable to create new deployment''))\<rparr>))
            | Ok (Some newImageName, None) \<Rightarrow> Ok (Some (renamed_pair dp (Some newImageName)), None))"

section \<open>The pipeline\<close>

text \<open>
  A stage: the pairs it sends, in order, and the resolutions it sends for the pairs it
  processes. Its error channel carries an interleaving of those with the upstream's.
\<close>

fun pipeline_loop :: "('a \<Rightarrow> (goerror, 'a option \<times> 'r option) outcome) \<Rightarrow> 'a list \<Rightarrow> (goerror, 'a list \<times> 'r list) outcome" where
  "pipeline_loop doProc [] = Ok ([], [])"
| "pipeline_loop doProc (dp # dps) =
     (case doProc dp of
        Ok (proked, rez) \<Rightarrow>
          (case pipeline_loop doProc dps of
             Ok (outs, rezs) \<Rightarrow>
               Ok ((case proked of None \<Rightarrow> outs | Some p \<Rightarrow> p # outs), (case rez of None \<Rightarrow> rezs | Some r \<Rightarrow> r # rezs))
           | Err e \<Rightarrow> Err e | Panic \<Rightarrow> Panic)
      | Err e \<Rightarrow> Err e | Panic \<Rightarrow> Panic)"

definition Pipeline ::
    "('a \<Rightarrow> (goerror, 'a option \<times> 'r option) outcome) \<Rightarrow> 'a list \<Rightarrow> 'r list \<Rightarrow> (goerror, 'a list \<times> 'r list set) outcome" where
  "Pipeline doProc pairs upstream =
     (case pipeline_loop doProc pairs of
        Ok (outs, rezs) \<Rightarrow> Ok (outs, shuffles upstream rezs) | Err e \<Rightarrow> Err e | Panic \<Rightarrow> Panic)"

definition logging_HandlePairs :: "DeployablePair \<Rightarrow> (goerror, DeployablePair option \<times> DiffResolution option) outcome" where
  "logging_HandlePairs dp = Ok (Some dp, None)"

definition ResolveNames :: "get_artifact \<Rightarrow> DeployablePair list \<Rightarrow> (goerror, DeployablePair list \<times> DiffResolution list set) outcome" where
  "ResolveNames r pairs = Pipeline (HandlePairs r) pairs []"

section \<open>The recorder\<close>

record ResolveStatus =
  rsStarted :: nat
  rsFinished :: "nat option"
  rsPhase :: string
  rsIntended :: "Deployment list"
  rsLog :: "DiffResolution list"
  rsErrs :: "error_wrapper list"

record ResolveRecorder =
  rrStatus :: ResolveStatus
  rrLog :: "DiffResolution list"
  rrLogClosed :: bool
  rrFinished :: bool
  rrErr :: "goerror option"

definition LogBuffer :: nat where
  "LogBuffer = 10"

definition NewResolveRecorder :: "nat \<Rightarrow> Deployments \<Rightarrow> ResolveRecorder" where
  "NewResolveRecorder now intended =
     \<lparr>rrStatus = \<lparr>rsStarted = now, rsFinished = None, rsPhase = [], rsIntended = map snd (Deployments_Snapshot intended),
                  rsLog = [], rsErrs = []\<rparr>,
      rrLog = [], rrLogClosed = False, rrFinished = False, rrErr = None\<rparr>"

definition earlyExit :: "ResolveRecorder \<Rightarrow> bool" where
  "earlyExit rr = (rrErr rr \<noteq> None)"

definition setPhase :: "string \<Rightarrow> ResolveRecorder \<Rightarrow> ResolveRecorder" where
  "setPhase phase rr = rr\<lparr>rrStatus := (rrStatus rr)\<lparr>rsPhase := phase\<rparr>\<rparr>"

definition doneWithError :: "goerror \<Rightarrow> ResolveRecorder \<Rightarrow> ResolveRecorder" where
  "doneWithError err rr = rr\<lparr>rrErr := Some err\<rparr>"

text \<open>\<open>performPhase\<close>; the phase's function is a computation of its error and of its result, which
  is missing when the phase is skipped or failed.\<close>

definition performPhase :: "string \<Rightarrow> (goerror + 'x) \<Rightarrow> ResolveRecorder \<Rightarrow> ResolveRecorder \<times> 'x option" where
  "performPhase name f rr =
     (if earlyExit rr then (rr, None)
      else case f of
          Inl err \<Rightarrow> (doneWithError err (setPhase name rr), None)
        | Inr x \<Rightarrow> (setPhase name rr, Some x))"

text \<open>One iteration of the goroutine that updates the status.\<close>

definition record_rez :: "DiffResolution \<Rightarrow> ResolveStatus \<Rightarrow> ResolveStatus" where
  "record_rez rez st =
     st\<lparr>rsLog := rsLog st @ [rez],
        rsErrs := (case drError rez of None \<Rightarrow> rsErrs st | Some e \<Rightarrow> rsErrs st @ [EW [] [] (Some (WrapperPtr e))])\<rparr>"

text \<open>What the main goroutine does after \<open>f\<close> returned.\<close>

definition finish_recorder :: "nat \<Rightarrow> ResolveRecorder \<Rightarrow> ResolveRecorder" where
  "finish_recorder now rr =
     rr\<lparr>rrStatus := (rrStatus rr)\<lparr>rsFinished := Some now,
                       rsPhase := (if rrErr rr = None then ''finished'' else rsPhase (rrStatus rr))\<rparr>,
        rrFinished := True\<rparr>"

definition ResolveStatus_Err :: "ResolveStatus \<Rightarrow> goerror option" where
  "ResolveStatus_Err rs = (if length (rsErrs rs) > 0 then Some (ResolveErrors (rsErrs rs)) else None)"

definition CurrentStatus :: "ResolveRecorder \<Rightarrow> ResolveStatus" where
  "CurrentStatus rr = rrStatus rr"

definition Recorder_Done :: "ResolveRecorder \<Rightarrow> bool" where
  "Recorder_Done rr = rrFinished rr"

text \<open>\<open>Wait\<close>: \<open>None\<close> while it blocks, otherwise the error it returns.\<close>

definition Recorder_Wait :: "ResolveRecorder \<Rightarrow> goerror option option" where
  "Recorder_Wait rr =
     (if \<not> rrFinished rr then None
      else Some (case rrErr rr of None \<Rightarrow> ResolveStatus_Err (rrStatus rr) | Some e \<Rightarrow> Some e))"

definition Recorder_Phase :: "ResolveRecorder \<Rightarrow> string" where
  "Recorder_Phase rr = rsPhase (rrStatus rr)"

text \<open>
  The steps of a recorder: the resolution's goroutines send, the recorder's goroutine records
  (the resolution in its hands counts as in the channel), phases are performed, and at the end
  the channel is closed and the recorder is marked as finished.
\<close>

datatype rec_event = RSend DiffResolution | RRecord DiffResolution | RPhase | RClose | RFinish

inductive rec_step :: "ResolveRecorder \<Rightarrow> rec_event \<Rightarrow> ResolveRecorder \<Rightarrow> bool" where
  rec_send: "\<not> rrLogClosed rr \<Longrightarrow> length (rrLog rr) \<le> LogBuffer \<Longrightarrow>
     rec_step rr (RSend rez) (rr\<lparr>rrLog := rrLog rr @ [rez]\<rparr>)"
| rec_record: "rrLog rr = rez # rest \<Longrightarrow>
     rec_step rr (RRecord rez) (rr\<lparr>rrLog := rest, rrStatus := record_rez rez (rrStatus rr)\<rparr>)"
| rec_phase: "\<not> rrLogClosed rr \<Longrightarrow> rec_step rr RPhase (fst (performPhase name (f :: goerror + unit) rr))"
| rec_close: "\<not> rrLogClosed rr \<Longrightarrow> rec_step rr RClose (rr\<lparr>rrLogClosed := True\<rparr>)"
| rec_finish: "rrLogClosed rr \<Longrightarrow> \<not> rrFinished rr \<Longrightarrow> rec_step rr RFinish (finish_recorder now rr)"

fun sent_by :: "rec_event \<Rightarrow> DiffResolution list" where
  "sent_by (RSend rez) = [rez]"
| "sent_by _ = []"

fun recorded_by :: "rec_event \<Rightarrow> DiffResolution list" where
  "recorded_by (RRecord rez) = [rez]"
| "recorded_by _ = []"

section \<open>The resolver\<close>

datatype queue_decision = NoPost | NoDiffs | Uninitialised | Enqueue

definition queue_decision :: "DeployablePair \<Rightarrow> (gdm_error, queue_decision) outcome" where
  "queue_decision p =
     (case dpPost p of
        None \<Rightarrow> Ok NoPost
      | Some post \<Rightarrow>
          (case DeployablePair_Kind p of
             Ok kind \<Rightarrow>
               if kind = SameKind then Ok NoDiffs
               else if kind = AddedKind \<and> (dcNumInstances (dDeployConfig (dblDeployment post)) = 0
                      \<or> Version_String (dsVersion (Deployment_DeploySpec (dblDeployment post))) = ''0.0.0'')
               then Ok Uninitialised
               else Ok Enqueue
           | Err e \<Rightarrow> Err e | Panic \<Rightarrow> Panic))"

text \<open>
  \<open>queueDiffs\<close>: the queue set afterwards and the rectifications that are waited for. The outer
  \<open>None\<close> is a push that blocks.
\<close>

fun queueDiffs :: "(nat \<Rightarrow> R11nID) \<Rightarrow> nat \<Rightarrow> R11nQueueSet \<Rightarrow> DeployablePair list
    \<Rightarrow> (gdm_error, R11nQueueSet \<times> (DeploymentID \<times> R11nID) list) outcome option" where
  "queueDiffs fresh n rqs [] = Some (Ok (rqs, []))"
| "queueDiffs fresh n rqs (p # ps) =
     (case queue_decision p of
        Ok Enqueue \<Rightarrow>
          (case QueueSet_PushIfEmpty (fresh n) (NewRectification p) rqs of
             None \<Rightarrow> None
           | Some (rqs', None) \<Rightarrow> queueDiffs fresh (Suc n) rqs' ps
           | Some (rqs', Some queuedID) \<Rightarrow>
               (case queueDiffs fresh (Suc n) rqs' ps of
                  Some (Ok (rqs'', waits)) \<Rightarrow> Some (Ok (rqs'', (dpName p, queuedID) # waits))
                | r \<Rightarrow> r))
      | Ok _ \<Rightarrow> queueDiffs fresh (Suc n) rqs ps
      | Err e \<Rightarrow> Some (Err e)
      | Panic \<Rightarrow> Some Panic)"

text \<open>
  \<open>Begin\<close>, up to the pairs that \<open>queueDiffs\<close> reads and the resolutions that are logged for the
  pairs that failed. The function that \<open>Begin\<close> runs ends with \<open>logger.Wait()\<close>: \<open>logger\<close> is nil,
  and the call panics, when the phase that sets it was skipped.
\<close>

datatype begin_result =
    BeginPanic ResolveRecorder
  | BeginQueue ResolveRecorder "DeployablePair list" "DiffResolution list"

definition or_nil :: "'x list option \<Rightarrow> 'x list" where
  "or_nil x = (case x of None \<Rightarrow> [] | Some l \<Rightarrow> l)"

definition Resolver_Begin ::
    "ResolveFilter \<Rightarrow> (Clusters \<Rightarrow> goerror + DeployStates) \<Rightarrow> get_artifact \<Rightarrow> nat \<Rightarrow> Deployments \<Rightarrow> Clusters \<Rightarrow> begin_result" where
  "Resolver_Begin rf RunningDeployments GetArtifact now intended0 clusters0 =
     (let intended = Deployments_Filter intended0 (Some (FilterDeployment rf));
          rr0 = NewResolveRecorder now intended;
          (rr1, clusters) = performPhase ''filtering clusters'' (Inr (FilteredClusters rf clusters0)) rr0;
          (rr2, actual) = performPhase ''getting running deployments'' (RunningDeployments (or_nil clusters)) rr1;
          (rr3, filtered) = performPhase ''filtering running deployments''
             (Inr (DeployStates_Filter (or_nil actual) (Some (FilterDeployStates rf)))) rr2;
          (rr4, pairs) = performPhase ''generating diff'' (Inr (DeployStates_Diff (or_nil filtered) intended)) rr3;
          (rr5, logger) = performPhase ''resolving deployment artifacts''
             (Inr (pipeline_loop (HandlePairs GetArtifact) (or_nil pairs))) rr4
      in case logger of
           Some (Ok (named, rezs)) \<Rightarrow>
             (case pipeline_loop logging_HandlePairs named of
                Ok (logged, lrezs) \<Rightarrow>
                  BeginQueue (fst (performPhase ''rectification'' (Inr ()) rr5)) logged (rezs @ lrezs)
              | _ \<Rightarrow> BeginPanic rr5)
         | _ \<Rightarrow> BeginPanic rr5)"

section \<open>Facts about the recorder\<close>

lemma performPhase_log [simp]: "rrLog (fst (performPhase name f rr)) = rrLog rr"
  by (cases f) (simp_all add: performPhase_def doneWithError_def setPhase_def)

lemma rec_step_contents: "rec_step rr e rr' \<Longrightarrow> rrLog rr @ sent_by e = recorded_by e @ rrLog rr'"
  by (induction rule: rec_step.induct) (simp_all add: finish_recorder_def)

interpretation recorder: fifo_steps rec_step rrLog sent_by recorded_by
  by unfold_locales (rule rec_step_contents)

definition causes_of :: "DiffResolution list \<Rightarrow> error_wrapper list" where
  "causes_of rezs = concat (map (\<lambda>rez. case drError rez of None \<Rightarrow> [] | Some e \<Rightarrow> [EW [] [] (Some (WrapperPtr e))]) rezs)"

lemma rec_step_status:
  "rec_step rr e rr' \<Longrightarrow> rsLog (rrStatus rr') = rsLog (rrStatus rr) @ recorded_by e
     \<and> rsErrs (rrStatus rr') = rsErrs (rrStatus rr) @ causes_of (recorded_by e)"
proof (induction rule: rec_step.induct)
  case (rec_phase rr name f)
  then show ?case by (cases f) (simp_all add: performPhase_def doneWithError_def setPhase_def causes_of_def)
qed (simp_all add: record_rez_def finish_recorder_def causes_of_def split: option.splits)

lemma rec_run_status:
  "runs rec_step (NewResolveRecorder now intended) es rr \<Longrightarrow>
   rsLog (rrStatus rr) = concat (map recorded_by es) \<and> rsErrs (rrStatus rr) = causes_of (rsLog (rrStatus rr))"
proof (induction "NewResolveRecorder now intended" es rr rule: runs.induct)
  case runs_refl
  then show ?case by (simp add: NewResolveRecorder_def causes_of_def)
next
  case (runs_snoc es rr e rr')
  then show ?case using rec_step_status [OF runs_snoc(3)] by (simp add: causes_of_def)
qed

section \<open>Facts about names and queues\<close>

text \<open>What the registry owes: an artifact whenever it gives no error.\<close>

definition registry_ok :: "get_artifact \<Rightarrow> bool" where
  "registry_ok GetArtifact = (\<forall>sid. GetArtifact sid \<noteq> Inr None)"

lemma guardImage_total: "registry_ok r \<Longrightarrow> guardImage r d \<noteq> Panic"
  by (auto simp: guardImage_def registry_ok_def split: sum.splits option.splits)

lemma check_advisories_None:
  "check_advisories d qs = None \<longleftrightarrow>
   (\<forall>q \<in> set qs. qKind q = ''advisory'' \<and> qName q \<noteq> [] \<longrightarrow>
      (\<exists>c. dCluster d = Some c \<and> qName q \<in> set (clAllowedAdvisories c)))"
  by (induction d qs rule: check_advisories.induct) (auto split: option.splits)

text \<open>The pair that name resolution passes on, if it does.\<close>

definition has_image :: "get_artifact \<Rightarrow> Deployment \<Rightarrow> bool" where
  "has_image r d = (\<exists>art. guardImage r d = Ok art)"

lemma Kind_artifact:
  "dpPost p = Some post \<Longrightarrow> DeployablePair_Kind (renamed_pair p (Some (post\<lparr>dblArtifact := a\<rparr>))) = DeployablePair_Kind p"
  by (cases "dpPrior p") (simp_all add: DeployablePair_Kind_def DeployablePair_Diffs_def renamed_pair_def
      split: outcome.splits prod.splits)

lemma decision_artifact:
  "dpPost p = Some post \<Longrightarrow> queue_decision (renamed_pair p (Some (post\<lparr>dblArtifact := a\<rparr>))) = queue_decision p"
  using Kind_artifact [of p post a] by (simp add: queue_decision_def) (simp add: renamed_pair_def split: outcome.splits)

lemma decision_same: "queue_decision (renamed_pair p (dpPost p)) = queue_decision p"
proof -
  have "DeployablePair_Kind (renamed_pair p (dpPost p)) = DeployablePair_Kind p"
    by (simp add: DeployablePair_Kind_def DeployablePair_Diffs_def renamed_pair_def)
  moreover have "dpPost (renamed_pair p (dpPost p)) = dpPost p" by (simp add: renamed_pair_def)
  ultimately show ?thesis by (simp only: queue_decision_def)
qed

lemma HandlePairs_cases:
  assumes "registry_ok r" and "DeployablePair_Kind p = Ok kind" and "dpPrior p \<noteq> None \<or> dpPost p \<noteq> None"
  shows "\<exists>out rez. HandlePairs r p = Ok (out, rez)
     \<and> (case out of
          Some p' \<Rightarrow> rez = None \<and> dpName p' = dpName p \<and> queue_decision p' = queue_decision p
             \<and> (kind \<in> {SameKind, RemovedKind} \<or> (\<exists>d art. dpPost p = Some d \<and> guardImage r (dblDeployment d) = Ok art
                   \<and> p' = renamed_pair p (Some (d\<lparr>dblArtifact := art\<rparr>))))
        | None \<Rightarrow> rez \<noteq> None \<and> kind \<in> {AddedKind, ModifiedKind}
             \<and> (\<exists>d. dpPost p = Some d \<and> \<not> has_image r (dblDeployment d)))"
proof (cases "kind = SameKind \<or> kind = RemovedKind")
  case True
  then show ?thesis using assms(2) decision_same [of p] by (auto simp: HandlePairs_def) (auto simp: renamed_pair_def)
next
  case False
  then obtain post where post: "dpPost p = Some post"
    using assms(2,3) by (auto simp: DeployablePair_Kind_def split: if_splits outcome.splits)
  from False have k: "kind \<in> {AddedKind, ModifiedKind}" by (cases kind) auto
  show ?thesis
  proof (cases "guardImage r (dblDeployment post)")
    case (Ok art)
    then have "HandlePairs r p = Ok (Some (renamed_pair p (Some (post\<lparr>dblArtifact := art\<rparr>))), None)"
      using False assms(2) post by (simp add: HandlePairs_def resolveName_def)
    then show ?thesis using decision_artifact [OF post, of art] post Ok by simp (simp add: renamed_pair_def)
  next
    case (Err e)
    then show ?thesis using False assms(2) post k by (simp add: HandlePairs_def resolveName_def has_image_def)
  next
    case Panic
    then show ?thesis using guardImage_total [OF assms(1)] by blast
  qed
qed

lemma pipeline_loop_spec:
  assumes "\<forall>p \<in> set ps. \<exists>out rez. f p = Ok (out, rez)"
  shows "\<exists>outs rezs. pipeline_loop f ps = Ok (outs, rezs)
     \<and> set outs = {p'. \<exists>p \<in> set ps. \<exists>rez. f p = Ok (Some p', rez)}"
  using assms
proof (induction ps)
  case (Cons p ps)
  then obtain outs rezs where t: "pipeline_loop f ps = Ok (outs, rezs)"
      "set outs = {p'. \<exists>p \<in> set ps. \<exists>rez. f p = Ok (Some p', rez)}" by auto
  obtain out rez where h: "f p = Ok (out, rez)" using Cons.prems by auto
  show ?case using t h by (cases out; cases rez) auto
qed simp

lemma pipeline_loop_names:
  assumes "pipeline_loop f ps = Ok (outs, rezs)" and "\<forall>p \<in> set ps. \<forall>p' rez. f p = Ok (Some p', rez) \<longrightarrow> name p' = name p"
    and "distinct (map name ps)"
  shows "distinct (map name outs) \<and> set (map name outs) \<subseteq> set (map name ps)"
  using assms
proof (induction ps arbitrary: outs rezs)
  case (Cons p ps)
  then obtain out rez os rs where h: "f p = Ok (out, rez)" and t: "pipeline_loop f ps = Ok (os, rs)"
      and o: "outs = (case out of None \<Rightarrow> os | Some p' \<Rightarrow> p' # os)"
    by (auto split: outcome.splits)
  have "distinct (map name os) \<and> set (map name os) \<subseteq> set (map name ps)" using Cons t by auto
  then show ?case using Cons.prems(2,3) h o by (cases out) auto
qed simp

lemma pipeline_logging [simp]: "pipeline_loop logging_HandlePairs ps = Ok (ps, [])"
  by (induction ps) (simp_all add: logging_HandlePairs_def)

lemma queue_for_put: "queue_for (put_queue d rq rqs) did = (if did = d then rq else queue_for rqs did)"
  by (simp add: queue_for_def split: option.splits)

text \<open>What a push into an empty queue leaves there.\<close>

definition holds_only :: "'r R11nQueue \<Rightarrow> R11nID \<Rightarrow> 'r \<Rightarrow> bool" where
  "holds_only rq i r = (pending rq = [i]
     \<and> gget (rqObjs rq) i = Some \<lparr>qrID = i, qrPos = 0, qrRectification = r, qrDone = False\<rparr>)"

lemma PushIfEmpty_holds:
  assumes "rq_inv rq" and "0 < rqCap rq"
  shows "\<exists>rq'. R11nQueue_PushIfEmpty new r rq = Some (rq', if pending rq = [] then Some new else None)
             \<and> (if pending rq = [] then holds_only rq' new r else rq' = rq)"
  using refs_empty [OF assms(1)] assms(2)
  by (auto simp: R11nQueue_PushIfEmpty_def internalPush_def Let_def pending_def holds_only_def gget_update)

text \<open>What queueing pairs owes: which deployments wait, what their queues hold, and that the others stay.\<close>

definition due :: "DeployablePair list \<Rightarrow> R11nQueueSet \<Rightarrow> DeploymentID set" where
  "due ps rqs = {dpName p | p. p \<in> set ps \<and> queue_decision p = Ok Enqueue \<and> pending (queue_for rqs (dpName p)) = []}"

definition queued_by :: "DeployablePair list \<Rightarrow> R11nQueueSet \<Rightarrow> (DeploymentID \<times> R11nID) list \<Rightarrow> bool" where
  "queued_by ps rqs' waits = list_all (\<lambda>(did, i). list_ex (\<lambda>p. dpName p = did \<and> queue_decision p = Ok Enqueue
     \<and> holds_only (queue_for rqs' did) i (NewRectification p)) ps) waits"

definition others_kept :: "R11nQueueSet \<Rightarrow> R11nQueueSet \<Rightarrow> (DeploymentID \<times> R11nID) list \<Rightarrow> bool" where
  "others_kept rqs rqs' waits = (\<forall>did. did \<notin> fst ` set waits \<longrightarrow> queue_for rqs' did = queue_for rqs did)"

lemma due_Cons: "due (p # ps) rqs = (if queue_decision p = Ok Enqueue \<and> pending (queue_for rqs (dpName p)) = [] then {dpName p} else {}) \<union> due ps rqs"
  by (auto simp: due_def)

lemma due_put: "dpName p \<notin> dpName ` set ps \<Longrightarrow> due ps (put_queue (dpName p) rq rqs) = due ps rqs"
proof -
  assume notin: "dpName p \<notin> dpName ` set ps"
  have "queue_for (put_queue (dpName p) rq rqs) (dpName p') = queue_for rqs (dpName p')" if "p' \<in> set ps" for p'
    using imageI [OF that, of dpName] notin by (auto simp: queue_for_put)
  then show ?thesis unfolding due_def by metis
qed

lemma due_names: "due ps rqs \<subseteq> dpName ` set ps"
  by (auto simp: due_def)

lemma queued_by_Cons: "queued_by ps rqs' waits \<Longrightarrow> queued_by (p # ps) rqs' waits"
  by (auto simp: queued_by_def list_all_iff)

lemma queueDiffs_spec:
  assumes "\<forall>did. rq_inv (queue_for rqs did) \<and> 0 < rqCap (queue_for rqs did)" 
    and "distinct (map dpName ps)" and "\<forall>p \<in> set ps. \<exists>q. queue_decision p = Ok q"
  shows "\<exists>rqs' waits. queueDiffs fresh n rqs ps = Some (Ok (rqs', waits)) \<and> distinct (map fst waits)
     \<and> fst ` set waits = due ps rqs \<and> queued_by ps rqs' waits \<and> others_kept rqs rqs' waits"
proof -
  let ?ready = "\<lambda>rqs. \<forall>did \<in> set (map dpName ps). rq_inv (queue_for rqs did) \<and> 0 < rqCap (queue_for rqs did)"
  have "?ready rqs" using assms(1) by blast
  then show ?thesis using assms(2,3)
  proof (induction ps arbitrary: n rqs)
    case (Cons p ps)
    have tail: "distinct (map dpName ps)" "\<forall>p \<in> set ps. \<exists>q. queue_decision p = Ok q" and notin: "dpName p \<notin> dpName ` set ps"
      using Cons.prems(2,3) by simp_all
    obtain q where q: "queue_decision p = Ok q" using Cons.prems by auto
    show ?case
    proof (cases "q = Enqueue")
      case False
      then have skip: "queueDiffs fresh n rqs (p # ps) = queueDiffs fresh (Suc n) rqs ps" "due (p # ps) rqs = due ps rqs"
        using q by (cases q; simp add: due_Cons)+
      have "\<forall>did \<in> set (map dpName ps). rq_inv (queue_for rqs did) \<and> 0 < rqCap (queue_for rqs did)"
        using Cons.prems(1) by simp
      from Cons.IH [OF this tail, of "Suc n"] show ?thesis
        unfolding skip by (elim exE conjE) (intro exI conjI, assumption+, rule queued_by_Cons)
    next
      case True
      let ?q = "queue_for rqs (dpName p)"
      obtain rq' where push: "R11nQueue_PushIfEmpty (fresh n) (NewRectification p) ?q
          = Some (rq', if pending ?q = [] then Some (fresh n) else None)"
          and rq': "if pending ?q = [] then holds_only rq' (fresh n) (NewRectification p) else rq' = ?q"
        using PushIfEmpty_holds [of ?q "fresh n" "NewRectification p"] Cons.prems(1) by auto
      let ?rqs' = "put_queue (dpName p) rq' rqs"
      have set_push: "QueueSet_PushIfEmpty (fresh n) (NewRectification p) rqs
          = Some (?rqs', if pending ?q = [] then Some (fresh n) else None)"
        using push by (simp add: QueueSet_PushIfEmpty_def NewRectification_def Let_def)
      have "\<forall>did \<in> set (map dpName ps). rq_inv (queue_for ?rqs' did) \<and> 0 < rqCap (queue_for ?rqs' did)"
      proof
        fix did
        assume "did \<in> set (map dpName ps)"
        then show "rq_inv (queue_for ?rqs' did) \<and> 0 < rqCap (queue_for ?rqs' did)"
          using Cons.prems(1) notin by (cases "did = dpName p") (auto simp: queue_for_put)
      qed
      from Cons.IH [OF this tail, of "Suc n"] obtain rqs'' waits
        where w: "queueDiffs fresh (Suc n) ?rqs' ps = Some (Ok (rqs'', waits))" "distinct (map fst waits)"
          "fst ` set waits = due ps rqs" "queued_by ps rqs'' waits" "others_kept ?rqs' rqs'' waits"
        unfolding due_put [OF notin] by blast
      have new: "dpName p \<notin> fst ` set waits" using w(3) due_names notin by blast
      then have own: "queue_for rqs'' (dpName p) = rq'" using w(5) by (simp add: others_kept_def queue_for_put)
      show ?thesis
      proof (cases "pending ?q = []")
        case added: True
        let ?w = "(dpName p, fresh n) # waits"
        have "queueDiffs fresh n rqs (p # ps) = Some (Ok (rqs'', ?w))" using q True set_push w(1) added by simp
        moreover have "distinct (map fst ?w)" using w(2) new by simp
        moreover have "fst ` set ?w = due (p # ps) rqs" using w(3) q True added by (simp add: due_Cons)
        moreover have "queued_by (p # ps) rqs'' ?w"
          using queued_by_Cons [OF w(4), of p] own rq' added q True by (simp add: queued_by_def)
        moreover have "others_kept rqs rqs'' ?w" using w(5) by (simp add: others_kept_def queue_for_put)
        ultimately show ?thesis by blast
      next
        case refused: False
        have "queueDiffs fresh n rqs (p # ps) = Some (Ok (rqs'', waits))" using q True set_push w(1) refused by simp
        moreover have "fst ` set waits = due (p # ps) rqs" using w(3) refused by (simp add: due_Cons)
        moreover have "others_kept rqs rqs'' waits" using w(5) rq' refused by (auto simp: others_kept_def queue_for_put)
        ultimately show ?thesis using w(2) queued_by_Cons [OF w(4)] by blast
      qed
    qed
  qed (simp add: due_def queued_by_def others_kept_def)
qed

text \<open>
  The abstract specification of a resolution: which deployments have to be rectified. The
  intended deployment has an acceptable image, and either something else than it is running
  (or it is not active), or nothing is running and it is more than a placeholder.
\<close>

definition needs_change :: "DeployStates \<Rightarrow> Deployments \<Rightarrow> get_artifact \<Rightarrow> DeploymentID \<Rightarrow> bool" where
  "needs_change actual intended r did =
     (case gget intended did of
        None \<Rightarrow> False
      | Some d \<Rightarrow> has_image r d \<and>
          (case gget actual did of
             None \<Rightarrow> dcNumInstances (dDeployConfig d) \<noteq> 0 \<and> Version_String (sidVersion (dSourceID d)) \<noteq> ''0.0.0''
           | Some ds \<Rightarrow> \<not> (Deployment_Diff (dstDeployment ds) d = Ok (False, []) \<and> dstStatus ds = DeployStatusActive)))"

text \<open>The pair that is to be rectified: from what runs to what is intended, with its artifact.\<close>

definition rectifies :: "DeployStates \<Rightarrow> Deployments \<Rightarrow> get_artifact \<Rightarrow> DeploymentID \<Rightarrow> DeployablePair \<Rightarrow> bool" where
  "rectifies actual intended r did p =
     (\<exists>d art. gget intended did = Some d \<and> guardImage r d = Ok art
        \<and> p = \<lparr>dpPrior = map_option deployable_of (gget actual did), dpPost = Some ((active d)\<lparr>dblArtifact := art\<rparr>), dpName = did,
              dpExecutorData = (case gget actual did of None \<Rightarrow> None | Some ds \<Rightarrow> dstExecutorData ds), dpUUID = zeroUUID\<rparr>)"

lemma decision_pair_of:
  assumes "keyed DeployState_ID a" and "keyed Deployment_ID i" and "did \<in> set (gkeys a) \<union> set (gkeys i)"
  shows "\<exists>q. queue_decision (pair_of a i did) = Ok q
     \<and> (q = Enqueue \<and> (\<exists>d. gget i did = Some d \<and> has_image r d) \<longleftrightarrow> needs_change a i r did)"
  using Kind_pair_of [OF assms]
  by (cases "gget a did"; cases "gget i did")
    (auto simp: queue_decision_def needs_change_def pair_of_def active_def Deployment_DeploySpec_def)

lemma Kind_pair_of_Ok:
  assumes "keyed DeployState_ID a" and "keyed Deployment_ID i" and "did \<in> set (gkeys a) \<union> set (gkeys i)"
  shows "\<exists>kind. DeployablePair_Kind (pair_of a i did) = Ok kind
     \<and> (kind \<in> {SameKind, RemovedKind} \<longrightarrow> queue_decision (pair_of a i did) \<noteq> Ok Enqueue)"
  using Kind_pair_of [OF assms]
  by (cases "gget a did"; cases "gget i did") (auto simp: queue_decision_def pair_of_def active_def)

lemma HandlePairs_pair_of:
  assumes r: "registry_ok r" and a: "keyed DeployState_ID a" and i: "keyed Deployment_ID i"
    and did: "did \<in> set (gkeys a) \<union> set (gkeys i)"
  shows "\<exists>out rez. HandlePairs r (pair_of a i did) = Ok (out, rez)
     \<and> (\<forall>p'. out = Some p' \<longrightarrow> dpName p' = did \<and> (\<exists>q. queue_decision p' = Ok q))
     \<and> ((\<exists>p'. out = Some p' \<and> queue_decision p' = Ok Enqueue) \<longleftrightarrow> needs_change a i r did)
     \<and> (\<forall>p'. out = Some p' \<and> queue_decision p' = Ok Enqueue \<longrightarrow> rectifies a i r did p')"
proof -
  obtain kind where k: "DeployablePair_Kind (pair_of a i did) = Ok kind"
      "kind \<in> {SameKind, RemovedKind} \<longrightarrow> queue_decision (pair_of a i did) \<noteq> Ok Enqueue"
    using Kind_pair_of_Ok [OF a i did] by blast
  have "dpPrior (pair_of a i did) \<noteq> None \<or> dpPost (pair_of a i did) \<noteq> None"
    using did by (auto simp: pair_of_def map_of_eq_None_iff)
  note h = HandlePairs_cases [OF r k(1) this]
  have post: "(\<exists>d. dpPost (pair_of a i did) = Some d \<and> has_image r (dblDeployment d))
      \<longleftrightarrow> (\<exists>d. gget i did = Some d \<and> has_image r d)"
    by (auto simp: pair_of_def active_def)
  obtain q where q: "queue_decision (pair_of a i did) = Ok q"
      "q = Enqueue \<and> (\<exists>d. gget i did = Some d \<and> has_image r d) \<longleftrightarrow> needs_change a i r did"
    using decision_pair_of [OF a i did] by blast
  from h obtain out rez where o: "HandlePairs r (pair_of a i did) = Ok (out, rez)" by blast
  show ?thesis
  proof (cases out)
    case None
    then have "\<not> (\<exists>d. gget i did = Some d \<and> has_image r d)" using h o post by auto
    then show ?thesis using None o q by auto
  next
    case (Some p')
    then have p': "dpName p' = did" "queue_decision p' = Ok q"
        "kind \<in> {SameKind, RemovedKind} \<or> (\<exists>d art. dpPost (pair_of a i did) = Some d \<and> guardImage r (dblDeployment d) = Ok art
            \<and> p' = renamed_pair (pair_of a i did) (Some (d\<lparr>dblArtifact := art\<rparr>)))"
      using h o q(1) by (auto simp: pair_of_def)
    have "rectifies a i r did p' \<and> (\<exists>d. gget i did = Some d \<and> has_image r d)" if "q = Enqueue"
    proof -
      have "kind \<notin> {SameKind, RemovedKind}" using k(2) q(1) that by auto
      then obtain d art where d: "dpPost (pair_of a i did) = Some d" "guardImage r (dblDeployment d) = Ok art"
          "p' = renamed_pair (pair_of a i did) (Some (d\<lparr>dblArtifact := art\<rparr>))" using p'(3) by auto
      then show ?thesis by (auto simp: rectifies_def pair_of_def renamed_pair_def active_def has_image_def)
    qed
    then show ?thesis using Some o q p' by auto
  qed
qed

lemma resolve_pairs:
  assumes r: "registry_ok r" and a: "keyed DeployState_ID a" and i: "keyed Deployment_ID i"
    and rqs: "\<forall>did. rq_inv (queue_for rqs did) \<and> 0 < rqCap (queue_for rqs did)"
  shows "\<exists>named rezs rqs' waits. pipeline_loop (HandlePairs r) (DeployStates_Diff a i) = Ok (named, rezs)
     \<and> queueDiffs fresh n rqs named = Some (Ok (rqs', waits)) \<and> distinct (map fst waits)
     \<and> fst ` set waits = {did. needs_change a i r did \<and> pending (queue_for rqs did) = []}
     \<and> (\<forall>did i'. (did, i') \<in> set waits \<longrightarrow> (\<exists>p. rectifies a i r did p \<and> holds_only (queue_for rqs' did) i' (NewRectification p)))
     \<and> others_kept rqs rqs' waits"
proof -
  let ?ids = "set (gkeys a) \<union> set (gkeys i)"
  note ps = DeployStates_Diff_set [OF a i]
  note hp = HandlePairs_pair_of [OF r a i]
  have "\<forall>p \<in> set (DeployStates_Diff a i). \<exists>out rez. HandlePairs r p = Ok (out, rez)"
    unfolding ps using hp by blast
  then obtain named rezs where named: "pipeline_loop (HandlePairs r) (DeployStates_Diff a i) = Ok (named, rezs)"
      "set named = {p'. \<exists>p \<in> set (DeployStates_Diff a i). \<exists>rez. HandlePairs r p = Ok (Some p', rez)}"
    using pipeline_loop_spec by blast
  have set_named: "set named = {p'. \<exists>did \<in> ?ids. \<exists>rez. HandlePairs r (pair_of a i did) = Ok (Some p', rez)}"
    unfolding named(2) ps by blast
  have "distinct (map dpName (DeployStates_Diff a i))"
    using a i by (auto simp: DeployStates_Diff_pairs [OF a i] comp_def keyed_def gwf_def)
  moreover have "dpName p' = dpName p" if "p \<in> set (DeployStates_Diff a i)" "HandlePairs r p = Ok (Some p', rez)" for p p' rez
    using that hp unfolding ps by fastforce
  ultimately have "distinct (map dpName named)" using pipeline_loop_names [OF named(1), of dpName] by blast
  moreover have "\<forall>p \<in> set named. \<exists>q. queue_decision p = Ok q" unfolding set_named using hp by fastforce
  ultimately obtain rqs' waits where w: "queueDiffs fresh n rqs named = Some (Ok (rqs', waits))"
      "fst ` set waits = {dpName p | p. p \<in> set named \<and> queue_decision p = Ok Enqueue \<and> pending (queue_for rqs (dpName p)) = []}"
      "distinct (map fst waits)" "others_kept rqs rqs' waits" and queued: "queued_by named rqs' waits"
    using queueDiffs_spec [OF rqs, of named fresh n] unfolding due_def by blast
  have "rectifies a i r (dpName p) p" if "p \<in> set named" "queue_decision p = Ok Enqueue" for p
    using that hp unfolding set_named by fastforce
  with queued have pairs: "\<forall>did i'. (did, i') \<in> set waits \<longrightarrow>
      (\<exists>p. rectifies a i r did p \<and> holds_only (queue_for rqs' did) i' (NewRectification p))"
    by (fastforce simp: queued_by_def list_all_iff list_ex_iff)
  have nc: "(\<exists>p \<in> set named. dpName p = did \<and> queue_decision p = Ok Enqueue) \<longleftrightarrow> needs_change a i r did" for did
  proof
    assume "needs_change a i r did"
    then have "did \<in> ?ids" by (auto simp: needs_change_def split: option.splits dest: map_of_SomeD intro: rev_image_eqI)
    then show "\<exists>p \<in> set named. dpName p = did \<and> queue_decision p = Ok Enqueue"
      using hp [of did] \<open>needs_change a i r did\<close> unfolding set_named by blast
  next
    assume "\<exists>p \<in> set named. dpName p = did \<and> queue_decision p = Ok Enqueue"
    then show "needs_change a i r did" unfolding set_named using hp by fastforce
  qed
  then have "fst ` set waits = {did. needs_change a i r did \<and> pending (queue_for rqs did) = []}"
    unfolding w(2) by (auto simp flip: nc)
  then show ?thesis using named(1) w(1,3,4) pairs by blast
qed

text \<open>The phases of a resolution whose running deployments are known.\<close>

lemma performPhase_ok: "\<not> earlyExit rr \<Longrightarrow> performPhase name (Inr x) rr = (setPhase name rr, Some x)"
  by (simp add: performPhase_def)

lemma performPhase_skipped: "earlyExit rr \<Longrightarrow> performPhase name f rr = (rr, None)"
  by (simp add: performPhase_def)

lemma performPhase_error: "\<not> earlyExit rr \<Longrightarrow> performPhase name (Inl e) rr = (doneWithError e (setPhase name rr), None)"
  by (simp add: performPhase_def)

lemma earlyExit_simps [simp]:
  "\<not> earlyExit (NewResolveRecorder now d)" "earlyExit (setPhase name rr) = earlyExit rr" "earlyExit (doneWithError e rr)"
  by (simp_all add: earlyExit_def NewResolveRecorder_def setPhase_def doneWithError_def)

lemma Begin_running:
  assumes "RunningDeployments (FilteredClusters rf clusters) = Inr actual"
    and "pipeline_loop (HandlePairs r) (DeployStates_Diff (DeployStates_Filter actual (Some (FilterDeployStates rf)))
           (Deployments_Filter intended (Some (FilterDeployment rf)))) = Ok (named, rezs)"
  shows "\<exists>rr. Resolver_Begin rf RunningDeployments r now intended clusters = BeginQueue rr named rezs
     \<and> Recorder_Phase rr = ''rectification'' \<and> rrErr rr = None"
  using assms
  by (simp add: Resolver_Begin_def Let_def performPhase_ok or_nil_def)
    (simp add: Recorder_Phase_def setPhase_def NewResolveRecorder_def)

lemma needs_change_filter:
  "needs_change (filter (\<lambda>(k, v). P k) actual) (filter (\<lambda>(k, v). P k) intended) r did
   \<longleftrightarrow> P did \<and> needs_change actual intended r did"
  unfolding needs_change_def gget_filter_key by (cases "P did") simp_all

section \<open>Properties\<close>

lemma rectifies_filter:
  "P did \<Longrightarrow> rectifies (filter (\<lambda>(k, v). P k) actual) (filter (\<lambda>(k, v). P k) intended) r did p = rectifies actual intended r did p"
  by (simp add: rectifies_def gget_filter_key)

text \<open>C1: What a resolution does, from the intended deployments to the queues. For a filter on
  the parts of deployment IDs, running deployments that the deployer can list, and a registry
  that answers, the resolver reaches the phase \<open>rectification\<close> and never panics or blocks, and
  it queues one rectification for exactly those deployments that pass the filter, need a
  change, have an acceptable image, and have no rectification queued or in progress. Afterwards
  the queue of such a deployment holds this rectification and no other, not yet handled: from what
  runs to what is intended, with the artifact of the registry; every other queue is as it was.\<close>

theorem resolution_queues_changes:
  assumes "by_id rf" and "registry_ok r"
    and "RunningDeployments (FilteredClusters rf clusters) = Inr actual"
    and "keyed DeployState_ID actual" and "keyed Deployment_ID intended"
    and "qset_reachable anyPush cap rqs" and "0 < cap"
  shows "\<exists>rr named rezs rqs' waits.
     Resolver_Begin rf RunningDeployments r now intended clusters = BeginQueue rr named rezs
     \<and> Recorder_Phase rr = ''rectification''
     \<and> queueDiffs fresh n rqs named = Some (Ok (rqs', waits)) \<and> distinct (map fst waits)
     \<and> fst ` set waits = {did. FilterDeploymentID rf did \<and> needs_change actual intended r did
                             \<and> pending (queue_for rqs did) = []}
     \<and> (\<forall>did i. (did, i) \<in> set waits \<longrightarrow>
          (\<exists>p. rectifies actual intended r did p \<and> holds_only (queue_for rqs' did) i (NewRectification p)))
     \<and> (\<forall>did. did \<notin> fst ` set waits \<longrightarrow> queue_for rqs' did = queue_for rqs did)"
proof -
  let ?a = "filter (\<lambda>(k, v). FilterDeploymentID rf k) actual" and ?i = "filter (\<lambda>(k, v). FilterDeploymentID rf k) intended"
  have a: "DeployStates_Filter actual (Some (FilterDeployStates rf)) = ?a"
    by (rule DeployStates_Filter_by_id [OF assms(1,4)])
  have i: "Deployments_Filter intended (Some (FilterDeployment rf)) = ?i"
    by (rule Deployments_Filter_by_id [OF assms(1,5)])
  have "\<forall>did. rq_inv (queue_for rqs did) \<and> 0 < rqCap (queue_for rqs did)"
    using queue_reachable_inv [OF queue_for_reachable [OF qset_inv_reachable [OF assms(6)]]] assms(7) by simp
  from resolve_pairs [OF assms(2) keyed_filter [OF assms(4)] keyed_filter [OF assms(5)] this]
  obtain named rezs rqs' waits where w: "pipeline_loop (HandlePairs r) (DeployStates_Diff ?a ?i) = Ok (named, rezs)"
      "queueDiffs fresh n rqs named = Some (Ok (rqs', waits))" "distinct (map fst waits)"
      "fst ` set waits = {did. needs_change ?a ?i r did \<and> pending (queue_for rqs did) = []}"
      "\<forall>did j. (did, j) \<in> set waits \<longrightarrow> (\<exists>p. rectifies ?a ?i r did p \<and> holds_only (queue_for rqs' did) j (NewRectification p))"
      "others_kept rqs rqs' waits"
    by blast
  have waits: "fst ` set waits = {did. FilterDeploymentID rf did \<and> needs_change actual intended r did \<and> pending (queue_for rqs did) = []}"
    unfolding w(4) needs_change_filter by blast
  have "\<exists>p. rectifies actual intended r did p \<and> holds_only (queue_for rqs' did) j (NewRectification p)" if "(did, j) \<in> set waits" for did j
  proof -
    have "FilterDeploymentID rf did" using that imageI [OF that, of fst] unfolding waits by simp
    then show ?thesis using w(5) that rectifies_filter [of "FilterDeploymentID rf"] by blast
  qed
  moreover obtain rr where "Resolver_Begin rf RunningDeployments r now intended clusters = BeginQueue rr named rezs"
      "Recorder_Phase rr = ''rectification''"
    using Begin_running [of RunningDeployments rf clusters actual r intended named rezs now] assms(3) w(1) unfolding a i by blast
  ultimately show ?thesis using w(2,3,6) waits unfolding others_kept_def by blast
qed

definition example_registry :: get_artifact where
  "example_registry sid = Inr (Some \<lparr>baName = SourceID_String sid, baType = ''docker'', baQualities = []\<rparr>)"

definition example_intended :: Deployments where
  "example_intended = [(Deployment_ID example_deployment, example_deployment)]"

lemma example_due:
  "{did. FilterDeploymentID cluster_filter did \<and> needs_change [] example_intended example_registry did
       \<and> pending (queue_for (NewR11nQueueSet 10) did) = []} = {Deployment_ID example_deployment}"
proof -
  have "FilterDeploymentID cluster_filter (Deployment_ID example_deployment)" by code_simp
  moreover have "has_image example_registry example_deployment" 
    by (simp add: has_image_def guardImage_def example_registry_def)
  moreover have "Version_String (sidVersion (dSourceID example_deployment)) \<noteq> ''0.0.0''" by code_simp
  ultimately show ?thesis
    by (auto simp: needs_change_def example_intended_def queue_for_def NewR11nQueueSet_def NewR11nQueue_def pending_def in_hand_def
        example_deployment_def zeroDeployConfig_def)
qed

theorem resolution_queues_changes_witness:
  "\<exists>rr named rezs rqs' i p.
     Resolver_Begin cluster_filter (\<lambda>_. Inr []) example_registry 0 example_intended [] = BeginQueue rr named rezs
     \<and> queueDiffs (\<lambda>n. ''id'') 0 (NewR11nQueueSet 10) named = Some (Ok (rqs', [(Deployment_ID example_deployment, i)]))
     \<and> rectifies [] example_intended example_registry (Deployment_ID example_deployment) p
     \<and> holds_only (queue_for rqs' (Deployment_ID example_deployment)) i (NewRectification p)"
proof -
  have "by_id cluster_filter" "registry_ok example_registry" "keyed DeployState_ID []" "keyed Deployment_ID example_intended"
    by (simp_all add: by_id_def cluster_filter_def registry_ok_def example_registry_def keyed_def example_intended_def)
  from resolution_queues_changes [OF this(1,2) _ this(3,4) reach_new, of "\<lambda>_. Inr []" "[]" 10 0 "\<lambda>n. ''id''" 0]
  obtain rr named rezs rqs' waits where w:
     "Resolver_Begin cluster_filter (\<lambda>_. Inr []) example_registry 0 example_intended [] = BeginQueue rr named rezs"
     "queueDiffs (\<lambda>n. ''id'') 0 (NewR11nQueueSet 10) named = Some (Ok (rqs', waits))" "distinct (map fst waits)"
     "fst ` set waits = {did. FilterDeploymentID cluster_filter did \<and> needs_change [] example_intended example_registry did
                             \<and> pending (queue_for (NewR11nQueueSet 10) did) = []}"
     "\<forall>did i. (did, i) \<in> set waits \<longrightarrow>
          (\<exists>p. rectifies [] example_intended example_registry did p \<and> holds_only (queue_for rqs' did) i (NewRectification p))"
    by fastforce
  have "fst ` set waits = {Deployment_ID example_deployment}"
    unfolding w(4) example_due ..
  then have "length waits = 1" using w(3) distinct_card [OF w(3)] by simp
  then obtain i where "waits = [(Deployment_ID example_deployment, i)]"
    using \<open>fst ` set waits = {Deployment_ID example_deployment}\<close> by (cases waits) auto
  then show ?thesis using w(1,2,5) by auto
qed

text \<open>When the deployer cannot list the running deployments, the remaining phases are skipped
  as intended and the recorder holds the error; but the resolution then panics, because its
  last statement waits on the channels of a phase that never ran.\<close>

theorem begin_panics_without_running_deployments:
  assumes "RunningDeployments (FilteredClusters rf clusters) = Inl err"
  shows "\<exists>rr. Resolver_Begin rf RunningDeployments r now intended clusters = BeginPanic rr
     \<and> rrErr rr = Some err \<and> Recorder_Phase rr = ''getting running deployments''"
  using assms
  by (simp add: Resolver_Begin_def Let_def performPhase_ok performPhase_error performPhase_skipped or_nil_def)
    (simp add: Recorder_Phase_def setPhase_def doneWithError_def NewResolveRecorder_def)

theorem begin_panics_without_running_deployments_witness:
  "\<exists>rr. Resolver_Begin cluster_filter (\<lambda>_. Inl (fmt_error ''refused'')) example_registry 0 [] [] = BeginPanic rr
     \<and> rrErr rr = Some (fmt_error ''refused'') \<and> Recorder_Phase rr = ''getting running deployments''"
  by (rule begin_panics_without_running_deployments) simp

text \<open>The guard on images: a deployment of no instances needs none; otherwise the registry's
  artifact is used exactly when every named advisory on it is allowed by the deployment's
  cluster, and the error tells a missing image from an advisory that is not allowed.\<close>

theorem image_guard:
  assumes "registry_ok r"
  shows "guardImage r d =
     (if dcNumInstances (dDeployConfig d) = 0 then Ok None
      else case r (dSourceID d) of
          Inl e \<Rightarrow> Err (MissingImageNameError e)
        | Inr art \<Rightarrow>
            if \<forall>q \<in> set (baQualities (the art)). qKind q = ''advisory'' \<and> qName q \<noteq> [] \<longrightarrow>
                 (\<exists>c. dCluster d = Some c \<and> qName q \<in> set (clAllowedAdvisories c))
            then Ok art
            else Err (the (check_advisories d (baQualities (the art)))))"
proof (cases "r (dSourceID d)")
  case (Inr art)
  then obtain a where a: "art = Some a" using assms by (metis registry_ok_def not_None_eq)
  show ?thesis
    using Inr a check_advisories_None [of d "baQualities a"]
    by (cases "check_advisories d (baQualities a)") (simp_all add: guardImage_def, auto)
qed (simp add: guardImage_def)

theorem image_guard_witness:
  "guardImage example_registry (example_deployment\<lparr>dDeployConfig := zeroDeployConfig\<lparr>dcNumInstances := 2\<rparr>\<rparr>)
   = Ok (Some \<lparr>baName = SourceID_String (dSourceID example_deployment), baType = ''docker'', baQualities = []\<rparr>)"
proof -
  have "registry_ok example_registry" by (simp add: registry_ok_def example_registry_def)
  from image_guard [OF this] show ?thesis by (simp add: example_registry_def)
qed

text \<open>C39: The recorder loses nothing and keeps the order: what was sent to it is what its status
  holds, followed by what is still in the channel, and the status has one cause per recorded
  resolution with an error. Once it is finished and the channel is drained, \<open>Wait\<close> reports no
  error exactly when no phase failed and no resolution that was sent had an error.\<close>

theorem recorder_complete:
  assumes "runs rec_step (NewResolveRecorder now intended) es rr"
  shows "concat (map sent_by es) = rsLog (CurrentStatus rr) @ rrLog rr
     \<and> rsErrs (CurrentStatus rr) = causes_of (rsLog (CurrentStatus rr))
     \<and> (Recorder_Done rr \<and> rrLog rr = [] \<longrightarrow>
          (Recorder_Wait rr = Some None \<longleftrightarrow>
             rrErr rr = None \<and> (\<forall>rez \<in> set (concat (map sent_by es)). drError rez = None)))"
proof -
  have "concat (map sent_by es) = concat (map recorded_by es) @ rrLog rr"
    using recorder.run_from_empty [OF assms] by (simp add: NewResolveRecorder_def)
  moreover note rec_run_status [OF assms]
  moreover have "causes_of rezs = [] \<longleftrightarrow> (\<forall>rez \<in> set rezs. drError rez = None)" for rezs
    by (auto simp: causes_of_def split: option.splits)
  ultimately show ?thesis
    by (auto simp: CurrentStatus_def Recorder_Done_def Recorder_Wait_def ResolveStatus_Err_def split: option.splits)
qed

text \<open>A run in which the recorder finishes before the last resolution is recorded.\<close>

definition failed_rez :: DiffResolution where
  "failed_rez = zeroResolution\<lparr>drError := Some (EW [] [] (Some FailedStatusError))\<rparr>"

definition rr_sent :: ResolveRecorder where
  "rr_sent = (NewResolveRecorder 0 [])\<lparr>rrLog := [failed_rez]\<rparr>"

definition rr_finished :: ResolveRecorder where
  "rr_finished = finish_recorder 1 (rr_sent\<lparr>rrLogClosed := True\<rparr>)"

lemma rec_example_run: "runs rec_step (NewResolveRecorder 0 []) [RSend failed_rez, RClose, RFinish] rr_finished"
proof -
  have "rec_step (NewResolveRecorder 0 []) (RSend failed_rez) rr_sent"
    using rec_send [of "NewResolveRecorder 0 []" failed_rez] by (simp add: rr_sent_def NewResolveRecorder_def)
  moreover have "rec_step rr_sent RClose (rr_sent\<lparr>rrLogClosed := True\<rparr>)"
    by (rule rec_close) (simp add: rr_sent_def NewResolveRecorder_def)
  moreover have "rec_step (rr_sent\<lparr>rrLogClosed := True\<rparr>) RFinish rr_finished"
    unfolding rr_finished_def by (rule rec_finish) (simp_all add: rr_sent_def NewResolveRecorder_def)
  ultimately have "runs rec_step (NewResolveRecorder 0 []) ((([] @ [RSend failed_rez]) @ [RClose]) @ [RFinish]) rr_finished"
    by (intro runs_snoc) (rule runs_refl, assumption+)
  then show ?thesis by simp
qed

theorem recorder_complete_witness:
  "[failed_rez] = rsLog (CurrentStatus rr_finished) @ rrLog rr_finished"
  using recorder_complete [OF rec_example_run] by simp

text \<open>But the recorder does not wait for the channel to drain before it declares itself finished:
  a resolution can end with \<open>Wait\<close> reporting success although a failed rectification was sent.\<close>

theorem wait_can_miss_errors:
  "\<exists>es rr. runs rec_step (NewResolveRecorder 0 []) es rr \<and> Recorder_Wait rr = Some None
     \<and> (\<exists>rez \<in> set (concat (map sent_by es)). drError rez \<noteq> None)"
proof (intro exI conjI)
  show "runs rec_step (NewResolveRecorder 0 []) [RSend failed_rez, RClose, RFinish] rr_finished"
    by (rule rec_example_run)
  show "Recorder_Wait rr_finished = Some None"
    by (simp add: rr_finished_def finish_recorder_def rr_sent_def NewResolveRecorder_def Recorder_Wait_def ResolveStatus_Err_def)
  show "\<exists>rez \<in> set (concat (map sent_by [RSend failed_rez, RClose, RFinish])). drError rez \<noteq> None"
    by (simp add: failed_rez_def)
qed

end
