(* ===== verification/Status_Poller.thy ===== *)
theory Status_Poller
  imports Resolver
begin

text \<open>
  The client's poller of deployment progress: \<open>lib/resolvestate.go\<close>, \<open>lib/subpoller.go\<close> and
  \<open>lib/status_poller.go\<close>. The responses of the servers are arguments (an error is \<open>Inl\<close>); the
  order in which the sub-pollers' results arrive at the poller is an explicit list, so that a
  theorem about every list is a theorem about every interleaving. Log messages, the HTTP
  client, the ticker and the cancellation by the context are left out.

  \<open>ResolveState\<close> is an enumeration that the code compares as integers: it is made an instance
  of \<open>linorder\<close> by its position.
\<close>

section \<open>Resolve states\<close>

datatype ResolveState =
    ResolveNotPolled | ResolveNotStarted | ResolveNotVersion | ResolvePendingRequest | ResolveInProgress
  | ResolveTasksStarting | ResolveErredHTTP | ResolveErredRez | ResolveNotIntended | ResolveComplete
  | ResolveFailed | ResolveHTTPFailed | ResolveMAX

fun rs_index :: "ResolveState \<Rightarrow> nat" where
  "rs_index ResolveNotPolled = 0"
| "rs_index ResolveNotStarted = 1"
| "rs_index ResolveNotVersion = 2"
| "rs_index ResolvePendingRequest = 3"
| "rs_index ResolveInProgress = 4"
| "rs_index ResolveTasksStarting = 5"
| "rs_index ResolveErredHTTP = 6"
| "rs_index ResolveErredRez = 7"
| "rs_index ResolveNotIntended = 8"
| "rs_index ResolveComplete = 9"
| "rs_index ResolveFailed = 10"
| "rs_index ResolveHTTPFailed = 11"
| "rs_index ResolveMAX = 12"

lemma rs_index_inj [simp]: "rs_index a = rs_index b \<longleftrightarrow> a = b"
  by (cases a; cases b) simp_all

instantiation ResolveState :: linorder
begin

definition less_eq_ResolveState :: "ResolveState \<Rightarrow> ResolveState \<Rightarrow> bool" where
  "less_eq_ResolveState a b = (rs_index a \<le> rs_index b)"

definition less_ResolveState :: "ResolveState \<Rightarrow> ResolveState \<Rightarrow> bool" where
  "less_ResolveState a b = (rs_index a < rs_index b)"

instance
  by standard (auto simp: less_eq_ResolveState_def less_ResolveState_def)

end

lemmas rs_order = less_eq_ResolveState_def less_ResolveState_def

definition ResolveTERMINALS :: ResolveState where
  "ResolveTERMINALS = ResolveNotIntended"

definition minStatus :: "ResolveState \<Rightarrow> ResolveState \<Rightarrow> ResolveState" where
  "minStatus a b = (if a < b then a else b)"

definition maxStatus :: "ResolveState \<Rightarrow> ResolveState \<Rightarrow> ResolveState" where
  "maxStatus a b = (if a > b then a else b)"

fun ResolveState_String :: "ResolveState \<Rightarrow> string" where
  "ResolveState_String ResolveNotPolled = ''ResolveNotPolled''"
| "ResolveState_String ResolveNotStarted = ''ResolveNotStarted''"
| "ResolveState_String ResolvePendingRequest = ''ResolvePendingRequest''"
| "ResolveState_String ResolveNotVersion = ''ResolveNotVersion''"
| "ResolveState_String ResolveInProgress = ''ResolveInProgress''"
| "ResolveState_String ResolveErredHTTP = ''ResolveErredHTTP''"
| "ResolveState_String ResolveErredRez = ''ResolveErredRez''"
| "ResolveState_String ResolveTasksStarting = ''ResolveTasksStarting''"
| "ResolveState_String ResolveNotIntended = ''ResolveNotIntended''"
| "ResolveState_String ResolveFailed = ''ResolveFailed''"
| "ResolveState_String ResolveHTTPFailed = ''ResolveHTTPFailed''"
| "ResolveState_String ResolveComplete = ''ResolveComplete''"
| "ResolveState_String ResolveMAX = ''resolve maximum marker - not a real state, received in error?''"

fun Prose :: "ResolveState \<Rightarrow> string" where
  "Prose ResolveNotPolled = ''waiting for data from Sous server''"
| "Prose ResolveNotStarted = ''waiting for Sous server to begin deployment''"
| "Prose ResolvePendingRequest = ''queueing instructions to Singularity''"
| "Prose ResolveNotVersion = ''waiting for Sous server to acknowledge intended version''"
| "Prose ResolveInProgress = ''waiting for Singularity to complete deployments''"
| "Prose ResolveErredHTTP = ''receiving an unexpected HTTP response from Sous server''"
| "Prose ResolveErredRez = ''re-trying after experiencing a transient error''"
| "Prose ResolveTasksStarting = ''waiting for instances to start on Singularity''"
| "Prose ResolveNotIntended = ''not intending to perform this deployment (another request to deploy this may have been received)''"
| "Prose ResolveFailed = ''giving up because the deployment failed''"
| "Prose ResolveHTTPFailed = ''giving up because the HTTP connection to Sous server has failed''"
| "Prose ResolveComplete = ''finished deploying''"
| "Prose ResolveMAX = ''returning an impossible status (ResolveMAX), please report this issue''"

section \<open>The sub-poller of one cluster\<close>

record statusData =
  sdDeployments :: "Deployment list"
  sdCompleted :: "ResolveStatus option"
  sdInProgress :: "ResolveStatus option"

record pollResult =
  prURL :: string
  prStat :: ResolveState
  prErr :: "goerror option"
  prResolveID :: string

record subPoller =
  spClusterName :: string
  spURL :: string
  spLocationFilter :: ResolveFilter
  spIdFilter :: ResolveFilter
  spHttpErrorCount :: nat

definition newSubPoller :: "string \<Rightarrow> string \<Rightarrow> ResolveFilter \<Rightarrow> subPoller" where
  "newSubPoller clusterName serverURL baseFilter =
     \<lparr>spClusterName = clusterName, spURL = serverURL,
      spLocationFilter = baseFilter\<lparr>rfCluster := None, rfTag := None, rfRevision := None\<rparr>,
      spIdFilter = baseFilter\<lparr>rfCluster := None\<rparr>,
      spHttpErrorCount = 0\<rparr>"

text \<open>\<open>timeString\<close> renders the start time of a resolution.\<close>

definition sub_result ::
    "(nat \<Rightarrow> string) \<Rightarrow> subPoller \<Rightarrow> ResolveState \<Rightarrow> statusData \<Rightarrow> goerror option \<Rightarrow> pollResult" where
  "sub_result timeString sub rs data err =
     \<lparr>prURL = spURL sub, prStat = rs, prErr = err,
      prResolveID = (case sdInProgress data of None \<Rightarrow> ''<none in progress>'' | Some st \<Rightarrow> timeString (rsStarted st))\<rparr>"

fun first_matching_rez :: "ResolveFilter \<Rightarrow> DiffResolution list \<Rightarrow> DiffResolution option" where
  "first_matching_rez rf [] = None"
| "first_matching_rez rf (rez # rezs) =
     (if FilterManifestID rf (didManifestID (drDeploymentID rez)) then Some rez else first_matching_rez rf rezs)"

definition diffResolutionFor :: "ResolveStatus option \<Rightarrow> ResolveFilter \<Rightarrow> DiffResolution option" where
  "diffResolutionFor rstat rf = (case rstat of None \<Rightarrow> None | Some st \<Rightarrow> first_matching_rez rf (rsLog st))"

fun intent_loop :: "ResolveFilter \<Rightarrow> Deployment option \<Rightarrow> Deployment list \<Rightarrow> Deployment option" where
  "intent_loop rf dep [] = dep"
| "intent_loop rf dep (d # ds) =
     (if FilterDeployment rf d then (if dep \<noteq> None then None else intent_loop rf (Some d) ds)
      else intent_loop rf dep ds)"

definition serverIntent :: "ResolveStatus option \<Rightarrow> ResolveFilter \<Rightarrow> Deployment option" where
  "serverIntent rstat rf = (case rstat of None \<Rightarrow> None | Some st \<Rightarrow> intent_loop rf None (rsIntended st))"

definition stateFeatures :: "subPoller \<Rightarrow> ResolveStatus option \<Rightarrow> Deployment option \<times> DiffResolution option" where
  "stateFeatures sub rezState =
     (serverIntent rezState (spLocationFilter sub), diffResolutionFor rezState (spLocationFilter sub))"

definition computeState ::
    "subPoller \<Rightarrow> Deployment option \<times> DiffResolution option \<Rightarrow> ResolveState \<times> goerror option" where
  "computeState sub = (\<lambda>(srvIntent, current).
     (case srvIntent of
        None \<Rightarrow> (ResolveNotStarted, None)
      | Some d \<Rightarrow>
          if \<not> FilterDeployment (spIdFilter sub) d then (ResolveNotVersion, None)
          else case current of
              None \<Rightarrow> (ResolvePendingRequest, None)
            | Some rez \<Rightarrow>
                (case drError rez of
                   Some e \<Rightarrow>
                     if IsTransientResolveError (WrapperPtr e) then (ResolveErredRez, Some (WrapperPtr e))
                     else (ResolveFailed, Some (WrapperPtr e))
                 | None \<Rightarrow>
                     if drDesc rez = StableDiff then (ResolveComplete, None)
                     else if drDesc rez = ComingDiff then (ResolveTasksStarting, None)
                     else (ResolveInProgress, None))))"

definition fill_intended :: "Deployment list \<Rightarrow> ResolveStatus option \<Rightarrow> ResolveStatus option" where
  "fill_intended deps st =
     map_option (\<lambda>s. if length (rsIntended s) = 0 then s\<lparr>rsIntended := deps\<rparr> else s) st"

definition emptyStatusData :: statusData where
  "emptyStatusData = \<lparr>sdDeployments = [], sdCompleted = None, sdInProgress = None\<rparr>"

text \<open>
  \<open>pollOnce\<close>: the response to \<open>GET /status\<close> is an argument; the poller counts its errors. What a
  failed decoding may have left in the data shows only in the ID of the result, and is left out.
\<close>

definition pollOnce :: "(nat \<Rightarrow> string) \<Rightarrow> goerror + statusData \<Rightarrow> subPoller \<Rightarrow> subPoller \<times> pollResult" where
  "pollOnce timeString response sub =
     (case response of
        Inl err \<Rightarrow>
          (let sub' = sub\<lparr>spHttpErrorCount := spHttpErrorCount sub + 1\<rparr>
           in if spHttpErrorCount sub' > 10
              then (sub', sub_result timeString sub' ResolveHTTPFailed emptyStatusData
                      (Some (fmt_error ''more than 10 HTTP errors, giving up'')))
              else (sub', sub_result timeString sub' ResolveErredHTTP emptyStatusData (Some err)))
      | Inr data0 \<Rightarrow>
          (let sub' = sub\<lparr>spHttpErrorCount := 0\<rparr>;
               data = data0\<lparr>sdCompleted := fill_intended (sdDeployments data0) (sdCompleted data0),
                            sdInProgress := fill_intended (sdDeployments data0) (sdInProgress data0)\<rparr>;
               (currentState, err) = computeState sub' (stateFeatures sub' (sdInProgress data))
           in if currentState = ResolveNotStarted \<or> currentState = ResolveNotVersion \<or> currentState = ResolvePendingRequest
              then (let (state, err') = computeState sub' (stateFeatures sub' (sdCompleted data))
                    in (sub', sub_result timeString sub' state data err'))
              else (sub', sub_result timeString sub' currentState data err)))"

fun poll_many :: "(nat \<Rightarrow> string) \<Rightarrow> (goerror + statusData) list \<Rightarrow> subPoller \<Rightarrow> subPoller \<times> pollResult list" where
  "poll_many timeString [] sub = (sub, [])"
| "poll_many timeString (r # rs) sub =
     (let (sub', res) = pollOnce timeString r sub; (sub'', ress) = poll_many timeString rs sub' in (sub'', res # ress))"

text \<open>\<open>start\<close>: what a sub-poller sends for the responses it gets.\<close>

definition sub_start :: "(nat \<Rightarrow> string) \<Rightarrow> (goerror + statusData) list \<Rightarrow> subPoller \<Rightarrow> pollResult list" where
  "sub_start timeString responses sub =
     \<lparr>prURL = spURL sub, prStat = ResolveNotPolled, prErr = None, prResolveID = []\<rparr>
     # snd (poll_many timeString responses sub)"

section \<open>The poller\<close>

record pollerState =
  psLastResult :: pollResult
  psLastCycle :: bool

type_synonym pollerStates = "(string, pollerState) gomap"

definition nextSubStatus :: "pollResult \<Rightarrow> pollerStates \<Rightarrow> pollerStates" where
  "nextSubStatus update sts =
     (let lastState = (case gget sts (prURL update) of
            Some s \<Rightarrow>
              if prResolveID (psLastResult s) \<noteq> [] \<and> prResolveID (psLastResult s) \<noteq> prResolveID update
              then s\<lparr>psLastCycle := True\<rparr> else s
          | None \<Rightarrow> \<lparr>psLastResult = update, psLastCycle = False\<rparr>)
      in gset (prURL update) (lastState\<lparr>psLastResult := update\<rparr>) sts)"

text \<open>The loop of \<open>computeStatus\<close>: the four accumulators, or \<open>None\<close> for the early return.\<close>

record cycle_bounds =
  firstMax :: ResolveState
  firstMin :: ResolveState
  lastMax :: ResolveState
  lastMin :: ResolveState

fun cycle_loop :: "cycle_bounds \<Rightarrow> pollerStates \<Rightarrow> cycle_bounds option" where
  "cycle_loop b [] = Some b"
| "cycle_loop b ((url, s) # sts) =
     (let stat = prStat (psLastResult s) in
      if psLastCycle s
      then (if stat = ResolveNotVersion \<or> stat = ResolveNotStarted then None
            else cycle_loop (b\<lparr>lastMax := maxStatus (lastMax b) stat, lastMin := minStatus (lastMin b) stat\<rparr>) sts)
      else cycle_loop (b\<lparr>firstMax := maxStatus (firstMax b) stat, firstMin := minStatus (firstMin b) stat\<rparr>) sts)"

definition start_bounds :: cycle_bounds where
  "start_bounds = \<lparr>firstMax = ResolveNotPolled, firstMin = ResolveMAX, lastMax = ResolveNotPolled, lastMin = ResolveMAX\<rparr>"

definition computeStatus :: "pollerStates \<Rightarrow> ResolveState" where
  "computeStatus sts =
     (case cycle_loop start_bounds sts of
        None \<Rightarrow> ResolveFailed
      | Some b \<Rightarrow>
          if firstMax b = ResolveComplete \<and> firstMin b = ResolveComplete then ResolveComplete
          else if firstMax b = ResolveHTTPFailed \<or> lastMax b = ResolveHTTPFailed then ResolveHTTPFailed
          else if lastMax b = ResolveFailed then ResolveFailed
          else if lastMax b = ResolveNotPolled \<and> lastMin b = ResolveMAX then minStatus (firstMax b) ResolveInProgress
          else if firstMax b \<noteq> ResolveNotPolled \<and> firstMin b \<noteq> ResolveMAX then ResolveInProgress
          else if lastMax b = ResolveComplete \<and> lastMin b = ResolveComplete then ResolveComplete
          else maxStatus ResolveInProgress (lastMin b))"

text \<open>\<open>poll\<close>: the results that arrive, in their order; \<open>None\<close> while it has not finished.\<close>

fun poll_loop :: "pollerStates \<Rightarrow> pollResult list \<Rightarrow> ResolveState option" where
  "poll_loop sts [] = None"
| "poll_loop sts (update # updates) =
     (let sts' = nextSubStatus update sts; status = computeStatus sts'
      in if status \<ge> ResolveTERMINALS then Some status else poll_loop sts' updates)"

definition poll :: "subPoller list \<Rightarrow> pollResult list \<Rightarrow> ResolveState option" where
  "poll subs updates = (if length subs = 0 then Some ResolveNotIntended else poll_loop [] updates)"

record server =
  svClusterName :: string
  svURL :: string

fun subPollers :: "ResolveFilter \<Rightarrow> (string \<Rightarrow> goerror option) \<Rightarrow> Deployments \<Rightarrow> server list \<Rightarrow> goerror + subPoller list" where
  "subPollers rf clientError deps [] = Inr []"
| "subPollers rf clientError deps (s # ss) =
     (if \<not> FilterClusterName rf (svClusterName s) then subPollers rf clientError deps ss
      else if Deployments_Single deps (\<lambda>d. dClusterName d = svClusterName s) = None then subPollers rf clientError deps ss
      else case clientError (svURL s) of
          Some err \<Rightarrow> Inl err
        | None \<Rightarrow>
            (case subPollers rf clientError deps ss of
               Inl err \<Rightarrow> Inl err
             | Inr subs \<Rightarrow> Inr (newSubPoller (svClusterName s) (svURL s) rf # subs)))"

text \<open>
  \<open>waitForever\<close>. Its arguments are the responses to \<open>GET /servers\<close> and \<open>GET /gdm\<close>, and the
  results that arrive from the sub-pollers.
\<close>

definition waitForever ::
    "ResolveFilter \<Rightarrow> (string \<Rightarrow> goerror option) \<Rightarrow> goerror + server list \<Rightarrow> goerror + Deployment list \<Rightarrow> pollResult list
     \<Rightarrow> (DeploymentID, (ResolveState \<times> goerror option) option) outcome" where
  "waitForever rf clientError servers gdm updates =
     (case servers of
        Inl err \<Rightarrow> Ok (Some (ResolveFailed, Some err))
      | Inr ss \<Rightarrow>
          (case gdm of
             Inl err \<Rightarrow> Ok (Some (ResolveFailed, Some err))
           | Inr ds \<Rightarrow>
               (case NewDeployments ds of
                  Ok deps0 \<Rightarrow>
                    (let deps = Deployments_Filter deps0 (Some (FilterDeployment rf))
                     in if Deployments_Len deps = 0 then Ok (Some (ResolveNotIntended, None))
                        else case subPollers rf clientError deps ss of
                            Inl err \<Rightarrow> Ok (Some (ResolveNotPolled, Some err))
                          | Inr subs \<Rightarrow> Ok (map_option (\<lambda>st. (st, None)) (poll subs updates)))
                | Err e \<Rightarrow> Err e
                | Panic \<Rightarrow> Panic)))"

section \<open>Facts about the poller\<close>

lemma minStatus_min: "minStatus a b = min a b"
  by (auto simp: minStatus_def min_def)

lemma maxStatus_max: "maxStatus a b = max a b"
  by (auto simp: maxStatus_def max_def)

definition stats_in :: "bool \<Rightarrow> pollerStates \<Rightarrow> ResolveState list" where
  "stats_in cycle sts = map (\<lambda>(u, s). prStat (psLastResult s)) (filter (\<lambda>(u, s). psLastCycle s = cycle) sts)"

lemma stats_in_simps [simp]:
  "stats_in c [] = []"
  "stats_in c ((u, s) # sts) = (if psLastCycle s = c then prStat (psLastResult s) # stats_in c sts else stats_in c sts)"
  by (simp_all add: stats_in_def)

text \<open>Some cluster is in its last cycle and has still not taken up the deployment.\<close>

definition not_taken_up :: "pollerStates \<Rightarrow> bool" where
  "not_taken_up sts = (ResolveNotVersion \<in> set (stats_in True sts) \<or> ResolveNotStarted \<in> set (stats_in True sts))"

lemma Max_insert_swap: "finite A \<Longrightarrow> Max (insert (max a x) A) = Max (insert a (insert x A))" for a :: "'a::linorder"
  by (cases "A = {}") (simp_all add: ac_simps)

lemma Min_insert_swap: "finite A \<Longrightarrow> Min (insert (min a x) A) = Min (insert a (insert x A))" for a :: "'a::linorder"
  by (cases "A = {}") (simp_all add: ac_simps)

lemma cycle_loop_spec:
  "cycle_loop b sts =
     (if not_taken_up sts then None
      else Some \<lparr>firstMax = Max (insert (firstMax b) (set (stats_in False sts))),
                 firstMin = Min (insert (firstMin b) (set (stats_in False sts))),
                 lastMax = Max (insert (lastMax b) (set (stats_in True sts))),
                 lastMin = Min (insert (lastMin b) (set (stats_in True sts)))\<rparr>)"
proof (induction b sts rule: cycle_loop.induct)
  case (1 b)
  then show ?case by (simp add: not_taken_up_def)
next
  case (2 b url s sts)
  let ?stat = "prStat (psLastResult s)"
  show ?case
  proof (cases "psLastCycle s")
    case True
    then show ?thesis
      using 2(1) [OF refl True]
      by (cases "?stat = ResolveNotVersion \<or> ?stat = ResolveNotStarted")
        (auto simp: not_taken_up_def maxStatus_max minStatus_min Max_insert_swap Min_insert_swap Let_def)
  next
    case False
    then show ?thesis
      using 2(2) [OF refl False]
      by (simp add: not_taken_up_def maxStatus_max minStatus_min Max_insert_swap Min_insert_swap Let_def)
  qed
qed

lemma rs_bounds [simp]: "ResolveNotPolled \<le> x" "x \<le> ResolveMAX"
  by (cases x; simp add: rs_order)+

lemma Max_from_bottom: "finite A \<Longrightarrow> A \<noteq> {} \<Longrightarrow> Max (insert ResolveNotPolled A) = Max A"
  by (simp add: max_absorb2)

lemma Min_from_top: "finite A \<Longrightarrow> A \<noteq> {} \<Longrightarrow> Min (insert ResolveMAX A) = Min A"
  by (simp add: min_absorb2)

lemma all_complete:
  assumes "finite A"
  shows "Max (insert ResolveNotPolled A) = c \<and> Min (insert ResolveMAX A) = c \<longleftrightarrow> A = {c}"
    (is "?L \<longleftrightarrow> ?R")
proof (cases "A = {}")
  case False
  show ?thesis
  proof
    assume ?L
    then have "Max A = c" "Min A = c" using assms False by (simp_all add: Max_from_bottom Min_from_top)
    then have "x = c" if "x \<in> A" for x using Max_ge [OF assms that] Min_le [OF assms that] by simp
    then show ?R using False by auto
  next
    assume ?R
    then show ?L by (simp add: Max_from_bottom Min_from_top)
  qed
qed auto

text \<open>\<open>computeStatus\<close> by the sets of states in each cycle; \<open>ResolveMAX\<close> is not a state.\<close>

definition real_states :: "pollerStates \<Rightarrow> bool" where
  "real_states sts = (ResolveMAX \<notin> set (stats_in False sts) \<and> ResolveMAX \<notin> set (stats_in True sts))"

lemma Max_eq_top:
  assumes "finite A" and "ResolveMAX \<notin> A"
  shows "Max (insert ResolveNotPolled A) = ResolveHTTPFailed \<longleftrightarrow> ResolveHTTPFailed \<in> A"
proof -
  have "x \<le> ResolveHTTPFailed" if "x \<in> A" for x using that assms(2) by (cases x) (auto simp: rs_order)
  then show ?thesis using assms(1) Max_eq_iff [of "insert ResolveNotPolled A" ResolveHTTPFailed] by (auto simp: rs_order)
qed

lemma Max_eq_failed:
  assumes "finite A" and "ResolveMAX \<notin> A" and "ResolveHTTPFailed \<notin> A"
  shows "Max (insert ResolveNotPolled A) = ResolveFailed \<longleftrightarrow> ResolveFailed \<in> A"
proof -
  have "x \<le> ResolveFailed" if "x \<in> A" for x using that assms(2,3) by (cases x) (auto simp: rs_order)
  then show ?thesis using assms(1) Max_eq_iff [of "insert ResolveNotPolled A" ResolveFailed] by (auto simp: rs_order)
qed

lemma Min_real:
  assumes "finite A" and "ResolveMAX \<notin> A" and "A \<noteq> {}"
  shows "Min (insert ResolveMAX A) \<noteq> ResolveMAX"
  using assms Min_in [OF assms(1,3)] Min_from_top [OF assms(1,3)] by metis

lemma no_states:
  assumes "finite A" and "ResolveMAX \<notin> A"
  shows "Max (insert ResolveNotPolled A) = ResolveNotPolled \<and> Min (insert ResolveMAX A) = ResolveMAX \<longleftrightarrow> A = {}"
  using Min_real [OF assms] by (cases "A = {}") simp_all

lemma some_states:
  assumes "finite A" and "ResolveMAX \<notin> A"
  shows "Max (insert ResolveNotPolled A) \<noteq> ResolveNotPolled \<and> Min (insert ResolveMAX A) \<noteq> ResolveMAX
    \<longleftrightarrow> \<not> A \<subseteq> {ResolveNotPolled}"
proof (cases "A = {}")
  case False
  have "Min (insert ResolveMAX A) \<noteq> ResolveMAX" by (rule Min_real [OF assms False])
  moreover have "Max (insert ResolveNotPolled A) = ResolveNotPolled \<longleftrightarrow> A \<subseteq> {ResolveNotPolled}"
    using assms(1) Max_eq_iff [of "insert ResolveNotPolled A" ResolveNotPolled] rs_bounds(1) by (auto intro: antisym)
  ultimately show ?thesis by simp
qed simp

lemma computeStatus_sets:
  assumes "real_states sts"
  defines "F \<equiv> set (stats_in False sts)" and "L \<equiv> set (stats_in True sts)"
  shows "computeStatus sts =
     (if not_taken_up sts then ResolveFailed
      else if F = {ResolveComplete} then ResolveComplete
      else if ResolveHTTPFailed \<in> F \<union> L then ResolveHTTPFailed
      else if ResolveFailed \<in> L then ResolveFailed
      else if L = {} then min (Max (insert ResolveNotPolled F)) ResolveInProgress
      else if \<not> F \<subseteq> {ResolveNotPolled} then ResolveInProgress
      else if L = {ResolveComplete} then ResolveComplete
      else max ResolveInProgress (Min L))"
proof (cases "not_taken_up sts")
  case False
  have f: "finite F" "finite L" "ResolveMAX \<notin> F" "ResolveMAX \<notin> L"
    using assms by (simp_all add: real_states_def)
  define fM fm lM lm where b: "fM = Max (insert ResolveNotPolled F)" "fm = Min (insert ResolveMAX F)"
    "lM = Max (insert ResolveNotPolled L)" "lm = Min (insert ResolveMAX L)"
  note facts = all_complete [OF f(1), of ResolveComplete] Max_eq_top [OF f(1,3)] Max_eq_top [OF f(2,4)]
    Max_eq_failed [OF f(2,4)] no_states [OF f(2,4)] some_states [OF f(1,3)]
    all_complete [OF f(2), of ResolveComplete] Min_from_top [OF f(2)]
  have "cycle_loop start_bounds sts = Some \<lparr>firstMax = fM, firstMin = fm, lastMax = lM, lastMin = lm\<rparr>"
    using False by (simp add: cycle_loop_spec start_bounds_def b F_def L_def del: Max_insert Min_insert)
  then show ?thesis
    using False facts [folded b] unfolding b(1) [symmetric] computeStatus_def minStatus_min maxStatus_max by auto
qed (simp add: computeStatus_def cycle_loop_spec)

lemma stats_in_same: "gsame sts sts' \<Longrightarrow> set (stats_in c sts) = set (stats_in c sts')"
  by (simp add: gsame_def stats_in_def)

section \<open>Facts about the sub-poller\<close>

lemma intent_loop_some: "intent_loop rf (Some e) ds = Some d \<longleftrightarrow> d = e \<and> filter (FilterDeployment rf) ds = []"
  by (induction ds) auto

lemma intent_loop_none: "intent_loop rf None ds = Some d \<longleftrightarrow> filter (FilterDeployment rf) ds = [d]"
  by (induction ds) (auto simp: intent_loop_some)

lemma computeState_not_HTTP: "fst (computeState sub f) \<noteq> ResolveHTTPFailed"
  by (cases f) (auto simp: computeState_def split: option.splits)

text \<open>What a status has to show for a cluster to count as done.\<close>

definition shows_complete :: "subPoller \<Rightarrow> ResolveStatus option \<Rightarrow> bool" where
  "shows_complete sub rstat =
     (\<exists>st d rez. rstat = Some st \<and> filter (FilterDeployment (spLocationFilter sub)) (rsIntended st) = [d]
        \<and> FilterDeployment (spIdFilter sub) d \<and> first_matching_rez (spLocationFilter sub) (rsLog st) = Some rez
        \<and> drError rez = None \<and> drDesc rez = StableDiff)"

lemma computeState_complete:
  "fst (computeState sub (stateFeatures sub rstat)) = ResolveComplete \<longleftrightarrow> shows_complete sub rstat"
  by (cases rstat)
    (auto simp: computeState_def stateFeatures_def serverIntent_def diffResolutionFor_def shows_complete_def
      split: option.splits if_splits simp flip: intent_loop_none)

lemma pollOnce_count:
  "spHttpErrorCount (fst (pollOnce ts r sub)) = (if isl r then spHttpErrorCount sub + 1 else 0)"
  by (cases r) (auto simp: pollOnce_def Let_def split: prod.splits)

lemma pollOnce_stat:
  "prStat (snd (pollOnce ts (Inl e) sub)) = (if spHttpErrorCount sub \<ge> 10 then ResolveHTTPFailed else ResolveErredHTTP)"
  by (auto simp: pollOnce_def sub_result_def Let_def)

lemma pollOnce_Inr:
  assumes "d' = d\<lparr>sdCompleted := fill_intended (sdDeployments d) (sdCompleted d),
                  sdInProgress := fill_intended (sdDeployments d) (sdInProgress d)\<rparr>"
    and "sub' = sub\<lparr>spHttpErrorCount := 0\<rparr>"
  shows "prStat (snd (pollOnce ts (Inr d) sub)) =
     (if fst (computeState sub' (stateFeatures sub' (sdInProgress d')))
           \<in> {ResolveNotStarted, ResolveNotVersion, ResolvePendingRequest}
      then fst (computeState sub' (stateFeatures sub' (sdCompleted d')))
      else fst (computeState sub' (stateFeatures sub' (sdInProgress d'))))"
  using assms by (auto simp: pollOnce_def Let_def sub_result_def split: prod.splits)

lemma poll_many_append:
  "poll_many ts (rs @ [r]) sub =
     (let (sub', ress) = poll_many ts rs sub; (sub'', res) = pollOnce ts r sub' in (sub'', ress @ [res]))"
  by (induction rs arbitrary: sub) (auto simp: Let_def split: prod.splits)

lemma poll_many_count:
  "spHttpErrorCount sub = 0 \<Longrightarrow> spHttpErrorCount (fst (poll_many ts rs sub)) = length (takeWhile isl (rev rs))"
proof (induction rs rule: rev_induct)
  case (snoc r rs)
  then show ?case
    using pollOnce_count [of ts r "fst (poll_many ts rs sub)"]
    by (simp add: poll_many_append split_def Let_def)
qed simp

lemma late_min:
  assumes "finite L" and "L \<noteq> {}" and "L \<noteq> {ResolveComplete}"
    and "ResolveHTTPFailed \<notin> L" and "ResolveFailed \<notin> L" and "ResolveMAX \<notin> L"
  shows "max ResolveInProgress (Min L) \<notin> {ResolveComplete, ResolveFailed, ResolveHTTPFailed, ResolveMAX}"
proof -
  have "Min L \<noteq> ResolveComplete"
  proof
    assume c: "Min L = ResolveComplete"
    have "x = ResolveComplete" if "x \<in> L" for x
      using Min_le [OF assms(1) that] that c assms(4-6) by (cases x) (auto simp: rs_order)
    then show False using assms(2,3) by auto
  qed
  moreover have "Min L \<in> L" using assms(1,2) by simp
  ultimately show ?thesis using assms(4-6) by (cases "Min L") (auto simp: max_def rs_order)
qed

lemma early_min: "min x ResolveInProgress < ResolveTERMINALS"
  by (simp add: min_def ResolveTERMINALS_def) (simp add: rs_order)

lemma terminal_states:
  "ResolveTERMINALS \<le> y \<longleftrightarrow> y \<in> {ResolveNotIntended, ResolveComplete, ResolveFailed, ResolveHTTPFailed, ResolveMAX}"
  by (cases y) (simp_all add: rs_order ResolveTERMINALS_def)

section \<open>Properties\<close>

text \<open>C35: The overall state of the poller, by the states of the clusters, \<open>F\<close> in their first cycle and
  \<open>L\<close> in their last: it is the same for every order in which the map is iterated, it is a
  terminal state only for the four outcomes, and each outcome is reported exactly under the
  stated condition. The conditions for success do not mention all clusters: clusters in their
  first cycle that are all complete hide the state of the others, and clusters that were never
  polled are passed over.\<close>

theorem poller_outcomes:
  assumes "real_states sts" and "F = set (stats_in False sts)" and "L = set (stats_in True sts)"
  shows "(computeStatus sts = ResolveComplete \<longleftrightarrow>
            \<not> not_taken_up sts \<and> (F = {ResolveComplete} \<or> L = {ResolveComplete} \<and> F \<subseteq> {ResolveNotPolled}))
     \<and> (computeStatus sts = ResolveHTTPFailed \<longleftrightarrow>
            \<not> not_taken_up sts \<and> F \<noteq> {ResolveComplete} \<and> ResolveHTTPFailed \<in> F \<union> L)
     \<and> (computeStatus sts = ResolveFailed \<longleftrightarrow>
            not_taken_up sts \<or> F \<noteq> {ResolveComplete} \<and> ResolveHTTPFailed \<notin> F \<union> L \<and> ResolveFailed \<in> L)
     \<and> (ResolveTERMINALS \<le> computeStatus sts \<longrightarrow>
            computeStatus sts \<in> {ResolveNotIntended, ResolveComplete, ResolveFailed, ResolveHTTPFailed})
     \<and> (\<forall>sts'. gsame sts sts' \<longrightarrow> computeStatus sts' = computeStatus sts)"
proof -
  note spec = computeStatus_sets [OF assms(1), folded assms(2,3)]
  have fin: "finite L" "ResolveMAX \<notin> L" using assms(1) by (simp_all add: assms(3) real_states_def)
  define x y where "x = min (Max (insert ResolveNotPolled F)) ResolveInProgress" and "y = max ResolveInProgress (Min L)"
  have "x \<notin> {ResolveNotIntended, ResolveComplete, ResolveFailed, ResolveHTTPFailed, ResolveMAX}"
    using early_min terminal_states [of x] unfolding x_def by (metis not_le)
  moreover have "L \<noteq> {} \<Longrightarrow> L \<noteq> {ResolveComplete} \<Longrightarrow> ResolveHTTPFailed \<notin> L \<Longrightarrow> ResolveFailed \<notin> L
      \<Longrightarrow> y \<notin> {ResolveComplete, ResolveFailed, ResolveHTTPFailed, ResolveMAX}"
    using late_min [OF fin(1) _ _ _ _ fin(2)] unfolding y_def by blast
  moreover have "computeStatus sts' = computeStatus sts" if "gsame sts sts'" for sts'
  proof -
    have "real_states sts'" "not_taken_up sts' = not_taken_up sts"
      using assms(1) stats_in_same [OF that] by (simp_all add: real_states_def not_taken_up_def)
    then show ?thesis
      using computeStatus_sets [of sts'] stats_in_same [OF that] spec assms(2,3) by simp
  qed
  ultimately show ?thesis
    using spec [folded x_def y_def] by (simp add: terminal_states) blast
qed

definition poll_state :: "string \<Rightarrow> ResolveState \<Rightarrow> bool \<Rightarrow> string \<times> pollerState" where
  "poll_state url stat lastCycle =
     (url, \<lparr>psLastResult = \<lparr>prURL = url, prStat = stat, prErr = None, prResolveID = ''t''\<rparr>, psLastCycle = lastCycle\<rparr>)"

theorem poller_outcomes_witness:
  "computeStatus [poll_state ''left'' ResolveComplete False, poll_state ''right'' ResolveFailed True] = ResolveComplete"
proof -
  let ?sts = "[poll_state ''left'' ResolveComplete False, poll_state ''right'' ResolveFailed True]"
  have "real_states ?sts" "\<not> not_taken_up ?sts" "set (stats_in False ?sts) = {ResolveComplete}"
    by (simp_all add: real_states_def not_taken_up_def poll_state_def)
  from poller_outcomes [OF this(1) refl refl] this(2,3) show ?thesis by simp
qed

text \<open>A cluster is given up for HTTP errors exactly after more than ten consecutive failed
  requests: one success starts the count again.\<close>

theorem http_failure_bound:
  assumes "rs \<noteq> []"
  shows "prStat (last (sub_start ts rs (newSubPoller c url rf))) = ResolveHTTPFailed
     \<longleftrightarrow> 10 < length (takeWhile isl (rev rs))"
proof -
  obtain rs' r where rs: "rs = rs' @ [r]" using assms by (meson rev_exhaust)
  let ?sub = "fst (poll_many ts rs' (newSubPoller c url rf))"
  have "last (sub_start ts rs (newSubPoller c url rf)) = snd (pollOnce ts r ?sub)"
    by (simp add: sub_start_def rs poll_many_append split_def Let_def)
  moreover have "spHttpErrorCount ?sub = length (takeWhile isl (rev rs'))"
    by (rule poll_many_count) (simp add: newSubPoller_def)
  moreover have "prStat (snd (pollOnce ts (Inr d) ?sub)) \<noteq> ResolveHTTPFailed" for d
    unfolding pollOnce_Inr [OF refl refl] using computeState_not_HTTP by simp
  ultimately show ?thesis by (cases r) (auto simp: rs pollOnce_stat)
qed

theorem http_failure_bound_witness:
  "prStat (last (sub_start (\<lambda>n. ''t'') (replicate 11 (Inl FailedStatusError)) (newSubPoller ''left'' ''http'' cluster_filter)))
     = ResolveHTTPFailed"
proof -
  have "replicate 11 (Inl FailedStatusError) \<noteq> ([] :: (goerror + statusData) list)" by simp
  from http_failure_bound [OF this] show ?thesis by simp
qed

text \<open>C6: A sub-poller reports success only on evidence: the resolution in progress, or else the last
  completed one, intends exactly one deployment at the watched location, that deployment has
  the watched version, and its resolution is recorded without error as unchanged.\<close>

theorem poll_complete_sound:
  assumes "prStat (snd (pollOnce ts (Inr d) sub)) = ResolveComplete"
  shows "shows_complete sub (fill_intended (sdDeployments d) (sdInProgress d))
     \<or> shows_complete sub (fill_intended (sdDeployments d) (sdCompleted d))"
proof -
  have "shows_complete (sub\<lparr>spHttpErrorCount := 0\<rparr>) rstat = shows_complete sub rstat" for rstat
    by (simp add: shows_complete_def)
  then show ?thesis
    using assms computeState_complete [of "sub\<lparr>spHttpErrorCount := 0\<rparr>"]
    unfolding pollOnce_Inr [OF refl refl] by (auto split: if_splits)
qed

definition stable_rez :: DiffResolution where
  "stable_rez = zeroResolution\<lparr>drDeploymentID := Deployment_ID example_deployment, drDesc := StableDiff\<rparr>"

definition done_status :: ResolveStatus where
  "done_status = \<lparr>rsStarted = 0, rsFinished = Some 1, rsPhase = ''finished'', rsIntended = [],
     rsLog = [stable_rez], rsErrs = []\<rparr>"

definition done_data :: statusData where
  "done_data = \<lparr>sdDeployments = [example_deployment], sdCompleted = Some done_status, sdInProgress = None\<rparr>"

theorem poll_complete_sound_witness:
  "shows_complete (newSubPoller ''left'' ''http'' cluster_filter) (fill_intended [example_deployment] (Some done_status))"
proof -
  have "prStat (snd (pollOnce (\<lambda>n. ''t'') (Inr done_data) (newSubPoller ''left'' ''http'' cluster_filter))) = ResolveComplete"
    by code_simp
  from poll_complete_sound [OF this] show ?thesis
    by (simp add: done_data_def) (simp add: shows_complete_def fill_intended_def)
qed

text \<open>The poller can finish before it has heard of every cluster: a cluster that completes before
  the others have sent anything ends the polling with success.\<close>

theorem poll_can_finish_early:
  "poll [newSubPoller ''left'' ''http://left'' cluster_filter, newSubPoller ''right'' ''http://right'' cluster_filter]
     [\<lparr>prURL = ''http://left'', prStat = ResolveNotPolled, prErr = None, prResolveID = []\<rparr>,
      \<lparr>prURL = ''http://left'', prStat = ResolveComplete, prErr = None, prResolveID = ''t''\<rparr>] = Some ResolveComplete"
  by code_simp

end
