(* ===== verification/Singularity_IDs.thy ===== *)
theory Singularity_IDs
  imports Deployment_Diff
begin

text \<open>
  The names Sous gives to its requests and deploys in Singularity (the ID functions of
  \<open>ext/singularity/deployer.go\<close> and \<open>ext/singularity/recti-agent.go\<close>). The regular expression
  replaces runes: on UTF-8 text every rune outside its class becomes one underscore, which is
  why continuation bytes are dropped. MD5 is an argument, and a UUID is the text that its
  \<open>String\<close> method prints. Shown: the IDs respect Singularity's limits of length and alphabet,
  and how far two of them can coincide.
\<close>

section \<open>Operations\<close>

definition maxDeployIDLen :: nat where "maxDeployIDLen = 49"
definition maxRequestIDLen :: nat where "maxRequestIDLen = 99"
definition maxVersionLen :: nat where "maxVersionLen = 31"

definition legalDeployIDChar :: "char \<Rightarrow> bool" where
  "legalDeployIDChar c =
     (let n = (of_char c :: nat)
      in 97 \<le> n \<and> n \<le> 122 \<or> 65 \<le> n \<and> n \<le> 90 \<or> 48 \<le> n \<and> n \<le> 57 \<or> n = 95)"

definition continuation_byte :: "char \<Rightarrow> bool" where
  "continuation_byte c = (let n = (of_char c :: nat) in 128 \<le> n \<and> n < 192)"

definition sanitizeDeployID :: "string \<Rightarrow> string" where
  "sanitizeDeployID s =
     map (\<lambda>c. if legalDeployIDChar c then c else CHR ''_'') (filter (\<lambda>c. \<not> continuation_byte c) s)"

definition stripDeployID :: "string \<Rightarrow> string" where
  "stripDeployID s = filter legalDeployIDChar s"

definition stripMetadata :: "string \<Rightarrow> string" where
  "stripMetadata s = split_on CHR ''+'' s ! 0"

text \<open>The verb \<open>%x\<close> on a byte slice.\<close>

definition hex_digit :: "nat \<Rightarrow> char" where
  "hex_digit n = char_of (if n < 10 then 48 + n else 87 + n)"

definition hex_byte :: "char \<Rightarrow> string" where
  "hex_byte c = (let n = (of_char c :: nat) in [hex_digit (n div 16), hex_digit (n mod 16)])"

definition hex_string :: "string \<Rightarrow> string" where
  "hex_string bs = concat (map hex_byte bs)"

definition MakeRequestID :: "(string \<Rightarrow> string) \<Rightarrow> DeploymentID \<Rightarrow> (id_error, string) outcome" where
  "MakeRequestID md5sum depID =
     (case ShortName (midSource (didManifestID depID)) of
        Panic \<Rightarrow> Panic
      | Err e \<Rightarrow> Err e
      | Ok sn0 \<Rightarrow>
          (let sn = sanitizeDeployID sn0;
               dd = sanitizeDeployID (slDir (midSource (didManifestID depID)));
               fl = sanitizeDeployID (midFlavor (didManifestID depID));
               cl = sanitizeDeployID (didCluster depID);
               digest = DeploymentID_Digest md5sum depID;
               reqBase = sn @ ''-'' @ dd @ ''-'' @ fl @ ''-'' @ cl @ ''-'' @ hex_string digest
           in if length reqBase > maxRequestIDLen then Ok (take maxRequestIDLen reqBase) else Ok reqBase))"

definition computeRequestID :: "(string \<Rightarrow> string) \<Rightarrow> Deployable \<Rightarrow> (id_error, string) outcome" where
  "computeRequestID md5sum d = MakeRequestID md5sum (Deployment_ID (dblDeployment d))"

text \<open>The part of a deploy ID that comes from the version.\<close>

definition versionTrunc :: "Deployable \<Rightarrow> string" where
  "versionTrunc d =
     (let versionSansMeta = stripMetadata (Version_String (sidVersion (dSourceID (dblDeployment d))));
          versionEntire = sanitizeDeployID versionSansMeta
      in if length versionEntire > maxVersionLen then take maxVersionLen versionEntire else versionEntire)"

definition computeDeployIDFromUUID :: "Deployable \<Rightarrow> string \<Rightarrow> string" where
  "computeDeployIDFromUUID d uid =
     (let uuidEntire = stripDeployID uid;
          depBase = join_with ''_'' [versionTrunc d, uuidEntire]
      in if length depBase > maxDeployIDLen then take maxDeployIDLen depBase else depBase)"

section \<open>Facts\<close>

lemma take_limit: "(if length xs > n then take n xs else xs) = take n xs"
  by simp

lemma sanitize_legal: "c \<in> set (sanitizeDeployID s) \<Longrightarrow> legalDeployIDChar c"
  by (auto simp: sanitizeDeployID_def legalDeployIDChar_def)

lemma strip_legal: "c \<in> set (stripDeployID s) \<Longrightarrow> legalDeployIDChar c"
  by (simp add: stripDeployID_def)

lemma sanitize_id: "\<forall>c \<in> set s. legalDeployIDChar c \<Longrightarrow> sanitizeDeployID s = s"
proof -
  assume legal: "\<forall>c \<in> set s. legalDeployIDChar c"
  then have "filter (\<lambda>c. \<not> continuation_byte c) s = s"
    by (fastforce simp: filter_id_conv legalDeployIDChar_def continuation_byte_def Let_def)
  with legal show ?thesis by (simp add: sanitizeDeployID_def map_idI)
qed

lemma sanitize_idem [simp]: "sanitizeDeployID (sanitizeDeployID s) = sanitizeDeployID s"
  using sanitize_id sanitize_legal by blast

lemma hex_digit_legal: "n < 16 \<Longrightarrow> legalDeployIDChar (hex_digit n)"
  by (auto simp: hex_digit_def legalDeployIDChar_def)

lemma hex_legal: "c \<in> set (hex_string bs) \<Longrightarrow> legalDeployIDChar c"
proof -
  assume "c \<in> set (hex_string bs)"
  then obtain b where "c \<in> set (hex_byte b)" by (auto simp: hex_string_def)
  moreover have "(of_char b :: nat) div 16 < 16"
    using nat_of_char_less_256 [of b] by (simp add: less_mult_imp_div_less)
  ultimately show ?thesis by (auto simp: hex_byte_def Let_def intro: hex_digit_legal)
qed

lemma length_hex_string: "length (hex_string bs) = 2 * length bs"
  by (induction bs) (simp_all add: hex_string_def hex_byte_def Let_def)

lemma inj_hex_digit: "m < 16 \<Longrightarrow> n < 16 \<Longrightarrow> hex_digit m = hex_digit n \<Longrightarrow> m = n"
  by (auto simp: hex_digit_def split: if_splits)

lemma hex_byte_inject: "hex_byte b = hex_byte c \<Longrightarrow> b = c"
proof -
  assume eq: "hex_byte b = hex_byte c"
  define m where "m = (of_char b :: nat)"
  define n where "n = (of_char c :: nat)"
  have small: "m div 16 < 16" "n div 16 < 16"
    by (simp_all add: m_def n_def less_mult_imp_div_less)
  have "hex_digit (m div 16) = hex_digit (n div 16)" "hex_digit (m mod 16) = hex_digit (n mod 16)"
    using eq by (simp_all add: hex_byte_def m_def n_def Let_def)
  then have "m div 16 = n div 16" "m mod 16 = n mod 16"
    using small by (auto intro: inj_hex_digit)
  then have "m = n" by (metis div_mult_mod_eq)
  then show ?thesis by (simp add: m_def n_def)
qed

lemma hex_string_inject: "hex_string bs = hex_string cs \<Longrightarrow> bs = cs"
proof (induction bs arbitrary: cs)
  case (Cons b bs)
  then show ?case
    by (cases cs) (auto simp: hex_string_def hex_byte_def Let_def intro: hex_byte_inject)
next
  case Nil
  then show ?case by (cases cs) (simp_all add: hex_string_def hex_byte_def Let_def)
qed

text \<open>A request ID before it is cut, and the text in front of the digest.\<close>

definition request_prefix :: "DeploymentID \<Rightarrow> string" where
  "request_prefix depID =
     (case ShortName (midSource (didManifestID depID)) of
        Ok sn \<Rightarrow> sanitizeDeployID sn @ ''-'' @ sanitizeDeployID (slDir (midSource (didManifestID depID)))
                 @ ''-'' @ sanitizeDeployID (midFlavor (didManifestID depID)) @ ''-''
                 @ sanitizeDeployID (didCluster depID) @ ''-''
      | _ \<Rightarrow> [])"

lemma MakeRequestID_take:
  "MakeRequestID md5sum depID = Ok r \<Longrightarrow>
     r = take maxRequestIDLen (request_prefix depID @ hex_string (DeploymentID_Digest md5sum depID))"
proof -
  assume r: "MakeRequestID md5sum depID = Ok r"
  define base where "base = request_prefix depID @ hex_string (DeploymentID_Digest md5sum depID)"
  obtain sn where "ShortName (midSource (didManifestID depID)) = Ok sn"
    using r by (auto simp: MakeRequestID_def split: outcome.splits)
  then have "MakeRequestID md5sum depID
      = (if length base > maxRequestIDLen then Ok (take maxRequestIDLen base) else Ok base)"
    by (simp add: MakeRequestID_def base_def request_prefix_def Let_def del: take_append)
  then show ?thesis using r by (simp add: base_def del: take_append split: if_splits)
qed

lemma request_prefix_legal: "c \<in> set (request_prefix depID) \<Longrightarrow> legalDeployIDChar c \<or> c = CHR ''-''"
  by (auto simp: request_prefix_def split: outcome.splits dest: sanitize_legal)

lemma MakeRequestID_legal:
  assumes "MakeRequestID md5sum depID = Ok r" and "c \<in> set r"
  shows "legalDeployIDChar c \<or> c = CHR ''-''"
  using assms(2) hex_legal request_prefix_legal
  unfolding MakeRequestID_take [OF assms(1)] by (auto dest!: in_set_takeD)

lemma MakeRequestID_Ok_iff:
  "(\<exists>r. MakeRequestID md5sum depID = Ok r) \<longleftrightarrow> 3 \<le> length (split_on CHR ''/'' (slRepo (midSource (didManifestID depID))))"
  by (auto simp: MakeRequestID_def ShortName_def Let_def)

text \<open>Uncut, two request IDs that coincide come from the same digest.\<close>

lemma MakeRequestID_digest:
  assumes md5: "\<forall>x. length (md5sum x) = 16"
    and fit: "length (request_prefix a) \<le> 67" "length (request_prefix b) \<le> 67"
    and same: "MakeRequestID md5sum a = Ok r" "MakeRequestID md5sum b = Ok r"
  shows "DeploymentID_Digest md5sum a = DeploymentID_Digest md5sum b"
proof -
  have len: "length (hex_string (DeploymentID_Digest md5sum d)) = 32" for d
    using md5 by (simp add: length_hex_string DeploymentID_Digest_def)
  have "request_prefix a @ hex_string (DeploymentID_Digest md5sum a)
      = request_prefix b @ hex_string (DeploymentID_Digest md5sum b)"
    using MakeRequestID_take [OF same(1)] MakeRequestID_take [OF same(2)] fit len
    by (simp add: maxRequestIDLen_def)
  then have "hex_string (DeploymentID_Digest md5sum a) = hex_string (DeploymentID_Digest md5sum b)"
    using len by (metis append_eq_append_conv)
  then show ?thesis by (rule hex_string_inject)
qed

lemma versionTrunc_facts:
  "length (versionTrunc d) \<le> maxVersionLen" "c \<in> set (versionTrunc d) \<Longrightarrow> legalDeployIDChar c"
  by (auto simp: versionTrunc_def Let_def dest: sanitize_legal dest!: in_set_takeD split: if_splits)

lemma computeDeployIDFromUUID_take:
  "computeDeployIDFromUUID d uid = take maxDeployIDLen (versionTrunc d @ CHR ''_'' # stripDeployID uid)"
  by (simp add: computeDeployIDFromUUID_def Let_def)

lemma last_separator:
  assumes "a @ x # b = c @ x # d" and "x \<notin> set b" and "x \<notin> set d"
  shows "a = c \<and> b = d"
proof -
  have "rev b @ x # rev a = rev d @ x # rev c" using assms(1) by (metis rev_append rev.simps(2) append_Cons append_assoc append_Nil)
  then have "takeWhile (\<lambda>y. y \<noteq> x) (rev b @ x # rev a) = takeWhile (\<lambda>y. y \<noteq> x) (rev d @ x # rev c)" by simp
  moreover have "takeWhile (\<lambda>y. y \<noteq> x) (rev b) = rev b" "takeWhile (\<lambda>y. y \<noteq> x) (rev d) = rev d"
    using assms(2,3) by (auto simp: takeWhile_eq_all_conv)
  ultimately have "rev b = rev d" by (simp add: takeWhile_tail)
  then show ?thesis using assms(1) by simp
qed

lemma deploy_id_split:
  assumes "computeDeployIDFromUUID d uid = computeDeployIDFromUUID e vid"
    and "CHR ''_'' \<notin> set uid" and "CHR ''_'' \<notin> set vid"
  shows "versionTrunc d = versionTrunc e \<and> take 17 (stripDeployID uid) = take 17 (stripDeployID vid)"
proof -
  define m where "m = 48 - length (versionTrunc d)"
  define n where "n = 48 - length (versionTrunc e)"
  have short: "length (versionTrunc d) \<le> 31" "length (versionTrunc e) \<le> 31"
    using versionTrunc_facts(1) [of d] versionTrunc_facts(1) [of e] by (simp_all add: maxVersionLen_def)
  have cut: "take 49 (versionTrunc x @ CHR ''_'' # u) = versionTrunc x @ CHR ''_'' # take (48 - length (versionTrunc x)) u"
    if "length (versionTrunc x) \<le> 31" for x u
    using that by (simp add: take_Cons' Suc_diff_le)
  have "versionTrunc d @ CHR ''_'' # take m (stripDeployID uid) = versionTrunc e @ CHR ''_'' # take n (stripDeployID vid)"
    using assms(1) cut short by (simp add: computeDeployIDFromUUID_take maxDeployIDLen_def m_def n_def)
  then have eq: "versionTrunc d = versionTrunc e \<and> take m (stripDeployID uid) = take n (stripDeployID vid)"
    by (rule last_separator) (use assms(2,3) in \<open>auto simp: stripDeployID_def dest!: in_set_takeD\<close>)
  have "m = n" "17 \<le> m" using eq short by (simp_all add: m_def n_def)
  have "take 17 (stripDeployID uid) = take 17 (take m (stripDeployID uid))"
    using \<open>17 \<le> m\<close> by (simp add: min_absorb1)
  also have "\<dots> = take 17 (stripDeployID vid)"
    using eq \<open>m = n\<close> \<open>17 \<le> m\<close> by (simp add: min_absorb1)
  finally show ?thesis using eq by simp
qed

section \<open>Properties\<close>

text \<open>C30: A request ID exists exactly for a repository of at least three path elements. It is at
  most 99 bytes long, of letters, digits, underscores and dashes. Where the parts in front of
  the digest leave room for it (67 bytes), two deployments share a request ID only if they
  share their MD5 digest.\<close>

theorem request_id_safe:
  assumes "\<forall>x. length (md5sum x) = 16"
  shows "((\<exists>r. MakeRequestID md5sum a = Ok r) \<longleftrightarrow> 3 \<le> length (split_on CHR ''/'' (slRepo (midSource (didManifestID a)))))
     \<and> (\<forall>r. MakeRequestID md5sum a = Ok r \<longrightarrow>
           length r \<le> 99 \<and> (\<forall>c \<in> set r. legalDeployIDChar c \<or> c = CHR ''-'')
           \<and> (length (request_prefix a) \<le> 67 \<longrightarrow>
                (\<forall>b. length (request_prefix b) \<le> 67 \<and> MakeRequestID md5sum b = Ok r
                   \<longrightarrow> DeploymentID_Digest md5sum a = DeploymentID_Digest md5sum b)))"
proof (intro conjI allI impI ballI)
  fix r
  assume r: "MakeRequestID md5sum a = Ok r"
  show "length r \<le> 99" unfolding MakeRequestID_take [OF r] by (simp add: maxRequestIDLen_def)
  show "legalDeployIDChar c \<or> c = CHR ''-''" if "c \<in> set r" for c
    by (rule MakeRequestID_legal [OF r that])
  show "DeploymentID_Digest md5sum a = DeploymentID_Digest md5sum b"
    if "length (request_prefix a) \<le> 67" "length (request_prefix b) \<le> 67 \<and> MakeRequestID md5sum b = Ok r" for b
    using MakeRequestID_digest [OF assms that(1) _ r] that(2) by simp
qed (rule MakeRequestID_Ok_iff)

definition example_did :: DeploymentID where
  "example_did = \<lparr>didManifestID = \<lparr>midSource = \<lparr>slRepo = ''github.com/opentable/sous'', slDir = ''nested/there''\<rparr>,
     midFlavor = ''tasty''\<rparr>, didCluster = ''main-cluster''\<rparr>"

theorem request_id_safe_witness:
  "\<exists>r. MakeRequestID (\<lambda>x. replicate 16 CHR ''z'') example_did = Ok r \<and> length r \<le> 99"
proof -
  have "3 \<le> length (split_on CHR ''/'' (slRepo (midSource (didManifestID example_did))))"
    by (simp add: example_did_def)
  then show ?thesis using request_id_safe [of "\<lambda>x. replicate 16 CHR ''z''" example_did] by fastforce
qed

text \<open>Where the digest is cut off entirely, deployments of different clusters share a request.\<close>

theorem request_ids_can_collide:
  "\<exists>a b. a \<noteq> b \<and> MakeRequestID md5sum a = MakeRequestID md5sum b \<and> (\<exists>r. MakeRequestID md5sum a = Ok r)"
proof -
  define d :: "string \<Rightarrow> DeploymentID" where
    "d cl = \<lparr>didManifestID = \<lparr>midSource = \<lparr>slRepo = ''github.com/opentable/sous'', slDir = replicate 99 CHR ''a''\<rparr>,
       midFlavor = []\<rparr>, didCluster = cl\<rparr>" for cl
  have sn: "ShortName (midSource (didManifestID (d cl))) = Ok ''sous''" for cl
    by (simp add: d_def ShortName_def)
  have dir: "sanitizeDeployID (replicate 99 CHR ''a'') = replicate 99 CHR ''a''"
    by (rule sanitize_id) (simp add: legalDeployIDChar_def)
  have "sanitizeDeployID ''sous'' = ''sous''" by (simp add: sanitizeDeployID_def legalDeployIDChar_def continuation_byte_def)
  then have "MakeRequestID md5sum (d cl) = Ok (take 99 (''sous-'' @ replicate 99 CHR ''a''))" for cl
    using sn [of cl] dir by (simp add: MakeRequestID_def d_def Let_def maxRequestIDLen_def)
  moreover have "d ''left'' \<noteq> d ''right''" by (simp add: d_def)
  ultimately show ?thesis by metis
qed

text \<open>C31: A deploy ID is at most 49 bytes of letters, digits and underscores. Two deploy IDs made
  from UUIDs coincide only if the versions do, without metadata and cut to 31 bytes, and at
  least the first 17 digits of the two UUIDs.\<close>

theorem deploy_id_safe:
  assumes "CHR ''_'' \<notin> set uid" and "CHR ''_'' \<notin> set vid"
  shows "length (computeDeployIDFromUUID d uid) \<le> 49
     \<and> (\<forall>c \<in> set (computeDeployIDFromUUID d uid). legalDeployIDChar c)
     \<and> (computeDeployIDFromUUID d uid = computeDeployIDFromUUID e vid \<longrightarrow>
          versionTrunc d = versionTrunc e \<and> take 17 (stripDeployID uid) = take 17 (stripDeployID vid))"
proof (intro conjI ballI impI)
  show "length (computeDeployIDFromUUID d uid) \<le> 49"
    by (simp add: computeDeployIDFromUUID_take maxDeployIDLen_def)
  show "legalDeployIDChar c" if "c \<in> set (computeDeployIDFromUUID d uid)" for c
    using that by (auto simp: computeDeployIDFromUUID_take legalDeployIDChar_def [of "CHR ''_''"]
        dest!: in_set_takeD dest: versionTrunc_facts(2) strip_legal)
next
  assume "computeDeployIDFromUUID d uid = computeDeployIDFromUUID e vid"
  then show "versionTrunc d = versionTrunc e" "take 17 (stripDeployID uid) = take 17 (stripDeployID vid)"
    using deploy_id_split assms by blast+
qed

theorem deploy_id_safe_witness:
  "computeDeployIDFromUUID (active example_deployment) zeroUUID
     \<noteq> computeDeployIDFromUUID (active example_deployment) ''10000000-0000-0000-0000-000000000000''"
  using deploy_id_safe [of zeroUUID "''10000000-0000-0000-0000-000000000000''" "active example_deployment" "active example_deployment"]
  by (auto simp: zeroUUID_def stripDeployID_def legalDeployIDChar_def)

end
