(* ===== verification/Docker_Labels.thy ===== *)
theory Docker_Labels
  imports Deployment
begin

text \<open>
  How a source ID is written into an image and read back from it: the labels
  (\<open>ext/docker/docker_labels.go\<close>, \<open>ext/docker/names.go\<close>) and the names and tags of the images.
  \<open>filepath.Join\<close> and the leading regular expression are written out; the time of a revision
  tag is the text of its rendering. Shown: the labels of a source ID give it back.
\<close>

section \<open>Labels\<close>

definition DockerRepoLabel :: string where "DockerRepoLabel = ''com.opentable.sous.repo_url''"
definition DockerPathLabel :: string where "DockerPathLabel = ''com.opentable.sous.repo_offset''"
definition DockerVersionLabel :: string where "DockerVersionLabel = ''com.opentable.sous.version''"
definition DockerRevisionLabel :: string where "DockerRevisionLabel = ''com.opentable.sous.revision''"

datatype label_error = MissingLabels "string list" | BadLabel id_error

definition zeroSourceID :: SourceID where
  "zeroSourceID = \<lparr>sidLocation = \<lparr>slRepo = [], slDir = []\<rparr>, sidVersion = zeroVersion\<rparr>"

definition with_revision :: "string \<Rightarrow> SourceID \<Rightarrow> SourceID" where
  "with_revision revision sid = sid\<lparr>sidVersion := (sidVersion sid)\<lparr>vMeta := revision\<rparr>\<rparr>"

definition label_or_empty :: "(string, string) gomap \<Rightarrow> string \<Rightarrow> string" where
  "label_or_empty labels k = (case gget labels k of None \<Rightarrow> [] | Some v \<Rightarrow> v)"

text \<open>
  The result is a pair, as in Go: an ID comes back beside the error, too. (\<open>NewSourceID\<close>
  has no branch that panics.)
\<close>

definition SourceIDFromLabels :: "(string, string) gomap \<Rightarrow> SourceID \<times> label_error option" where
  "SourceIDFromLabels labels =
     (let missingLabels = filter (\<lambda>k. \<not> ghas labels k)
            [DockerRepoLabel, DockerVersionLabel, DockerRevisionLabel, DockerPathLabel];
          repo = label_or_empty labels DockerRepoLabel;
          versionStr = label_or_empty labels DockerVersionLabel;
          revision = label_or_empty labels DockerRevisionLabel;
          path = label_or_empty labels DockerPathLabel
      in if length missingLabels > 0 then (zeroSourceID, Some (MissingLabels missingLabels))
         else case NewSourceID repo path versionStr of
             Ok sid \<Rightarrow> (with_revision revision sid, None)
           | Err e \<Rightarrow> (with_revision revision zeroSourceID, Some (BadLabel e))
           | Panic \<Rightarrow> (zeroSourceID, None))"

definition Labels :: "SourceID \<Rightarrow> (string, string) gomap" where
  "Labels sid =
     (let l0 = [];
          l1 = gset DockerVersionLabel (Version_Format (sidVersion sid) ''M.m.p-?'') l0;
          l2 = gset DockerRevisionLabel (SourceID_RevID sid) l1;
          l3 = gset DockerPathLabel (slDir (sidLocation sid)) l2
      in gset DockerRepoLabel (slRepo (sidLocation sid)) l3)"

section \<open>Names of images\<close>

definition is_alpha :: "char \<Rightarrow> bool" where
  "is_alpha c = (let n = (of_char c :: nat) in 65 \<le> n \<and> n \<le> 90 \<or> 97 \<le> n \<and> n \<le> 122)"

definition drop_prefix :: "string \<Rightarrow> string \<Rightarrow> string option" where
  "drop_prefix p s = (if take (length p) s = p then Some (drop (length p) s) else None)"

text \<open>
  \<open>stripRE\<close>, \<open>^([[:alpha:]]+://)?(github.com(/opentable(/)?)?)?\<close>: each optional group is taken
  when it matches. The unescaped dot matches any character but a newline.
\<close>

definition strip_scheme :: "string \<Rightarrow> string" where
  "strip_scheme s =
     (let letters = takeWhile is_alpha s; rest = dropWhile is_alpha s
      in if letters = [] then s
         else case drop_prefix ''://'' rest of None \<Rightarrow> s | Some t \<Rightarrow> t)"

definition drop_optional :: "string \<Rightarrow> string \<Rightarrow> string" where
  "drop_optional p s = (case drop_prefix p s of None \<Rightarrow> s | Some t \<Rightarrow> t)"

definition strip_github :: "string \<Rightarrow> string" where
  "strip_github s =
     (case drop_prefix ''github'' s of
        None \<Rightarrow> s
      | Some [] \<Rightarrow> s
      | Some (c # t) \<Rightarrow>
          if c = CHR 0x0A then s
          else case drop_prefix ''com'' t of
              None \<Rightarrow> s
            | Some u \<Rightarrow>
                (case drop_prefix ''/opentable'' u of
                   None \<Rightarrow> u
                 | Some v \<Rightarrow> drop_optional ''/'' v))"

definition stripRE :: "string \<Rightarrow> string" where
  "stripRE s = strip_github (strip_scheme s)"

definition imageRepoName :: "SourceLocation \<Rightarrow> string \<Rightarrow> string" where
  "imageRepoName sl kind =
     (let name0 = stripRE (slRepo sl);
          name = (if slDir sl \<noteq> [] then join_with ''/'' [name0, slDir sl] else name0)
      in if kind = [] then name else join_with ''-'' [name, kind])"

definition tagName :: "Version \<Rightarrow> string" where
  "tagName v = Version_Format v ''M.m.p-?''"

definition versionName :: "SourceID \<Rightarrow> string \<Rightarrow> string" where
  "versionName sid kind = join_with '':'' [imageRepoName (sidLocation sid) kind, tagName (sidVersion sid)]"

definition revisionName :: "SourceID \<Rightarrow> string \<Rightarrow> string \<Rightarrow> string" where
  "revisionName sid kind time =
     join_with '':'' [imageRepoName (sidLocation sid) kind, ''z'' @ SourceID_RevID sid @ ''-'' @ time]"

text \<open>\<open>path.Clean\<close>: the elements kept so far are in reverse order.\<close>

fun clean_elements :: "bool \<Rightarrow> string list \<Rightarrow> string list \<Rightarrow> string list" where
  "clean_elements rooted out [] = rev out"
| "clean_elements rooted out (e # es) =
     (if e = [] \<or> e = ''.'' then clean_elements rooted out es
      else if e = ''..'' then
        (case out of
           [] \<Rightarrow> clean_elements rooted (if rooted then [] else [''..'']) es
         | t # out' \<Rightarrow> if t = ''..'' then clean_elements rooted (''..'' # out) es
                       else clean_elements rooted out' es)
      else clean_elements rooted (e # out) es)"

definition filepath_Clean :: "string \<Rightarrow> string" where
  "filepath_Clean p =
     (if p = [] then ''.''
      else let rooted = (hd p = CHR ''/'');
               body = join_with ''/'' (clean_elements rooted [] (split_on CHR ''/'' p))
           in if rooted then CHR ''/'' # body else if body = [] then ''.'' else body)"

fun filepath_Join :: "string list \<Rightarrow> string" where
  "filepath_Join [] = []"
| "filepath_Join (e # es) = (if e \<noteq> [] then filepath_Clean (join_with ''/'' (e # es)) else filepath_Join es)"

definition fullRepoName :: "string \<Rightarrow> SourceLocation \<Rightarrow> string \<Rightarrow> string" where
  "fullRepoName registryHost sl kind = filepath_Join [registryHost, imageRepoName sl kind]"

definition versionTag :: "string \<Rightarrow> SourceID \<Rightarrow> string \<Rightarrow> string" where
  "versionTag registryHost v kind = filepath_Join [registryHost, versionName v kind]"

definition revisionTag :: "string \<Rightarrow> SourceID \<Rightarrow> string \<Rightarrow> string \<Rightarrow> string" where
  "revisionTag registryHost v kind time = filepath_Join [registryHost, revisionName v kind time]"

section \<open>Facts\<close>

text \<open>The version a label carries: the precedence of the original, without its metadata.\<close>

definition label_version :: "Version \<Rightarrow> Version" where
  "label_version v = v\<lparr>vMeta := [], vDefaultFormat := canonical_format (v\<lparr>vMeta := []\<rparr>)\<rparr>"

lemma label_version_text:
  assumes wf: "wf_version v"
  shows "Version_Format v ''M.m.p-?'' = Version_String (label_version v)"
proof -
  define n where "n = itoa (vMajor v) @ ''.'' @ itoa (vMinor v) @ ''.'' @ itoa (vPatch v)"
  have n: "CHR ''-'' \<notin> set n" "CHR ''+'' \<notin> set n" "CHR ''!'' \<notin> set n"
    using number_chars [OF wf, of "CHR ''-''"] number_chars [OF wf, of "CHR ''+''"]
      number_chars [OF wf, of "CHR ''!''"] by (simp_all add: n_def is_digit_def)
  have nums: "replace_all (replace_all (replace_all ''M.m.p-?'' ''M'' (itoa (vMajor v)))
      ''m'' (itoa (vMinor v))) ''p'' (itoa (vPatch v)) = n @ ''-?''"
    using Format_numbers [OF wf, of "''-?''"] by (simp add: n_def)
  have "replace_all (n @ ''-?'') ''-?'' (pre_suffix v) = n @ pre_suffix v"
    using n(1) by (simp add: replace_all_literal)
  then have "Version_Format v ''M.m.p-?'' = n @ pre_suffix v"
    using n suffix_chars [OF wf] unfolding Version_Format_def Let_def
    by (simp add: nums pre_suffix_def [symmetric] replace_all_absent [where c = "CHR ''+''"]
        replace_all_absent [where c = "CHR ''!''"])
  moreover have "Version_String (label_version v) = version_text (label_version v)"
    using wf unfolding Version_String_def
    by (intro Version_Format_text) (auto simp: label_version_def wf_version_def full_format_def canonical_format_def)
  ultimately show ?thesis
    by (simp add: version_text_def label_version_def n_def pre_suffix_def meta_suffix_def)
qed

lemma label_version_parse: "wf_version v \<Longrightarrow> Semv_Parse (Version_Format v ''M.m.p-?'') = (label_version v, None)"
  using label_version_text Semv_Parse_String [of "label_version v"]
  by (simp add: label_version_def wf_version_def canonical_format_def)

lemma Version_Equals_label: "Version_Equals (with_meta\<lparr>vMeta := m\<rparr>) v" if "with_meta = label_version v"
  using that by (simp add: label_version_def Version_Equals_def Version_Less_def)

lemmas docker_label_defs = DockerRepoLabel_def DockerPathLabel_def DockerVersionLabel_def DockerRevisionLabel_def

lemma docker_labels_distinct:
  "distinct [DockerRepoLabel, DockerPathLabel, DockerVersionLabel, DockerRevisionLabel]"
  "distinct [DockerRevisionLabel, DockerVersionLabel, DockerPathLabel, DockerRepoLabel]"
  by (simp_all add: docker_label_defs)

lemma Labels_get:
  "gget (Labels sid) DockerRepoLabel = Some (slRepo (sidLocation sid))"
  "gget (Labels sid) DockerPathLabel = Some (slDir (sidLocation sid))"
  "gget (Labels sid) DockerVersionLabel = Some (Version_Format (sidVersion sid) ''M.m.p-?'')"
  "gget (Labels sid) DockerRevisionLabel = Some (SourceID_RevID sid)"
  by (simp_all add: Labels_def docker_label_defs Let_def gget_update)

lemma SourceIDFromLabels_Labels:
  assumes "wf_version (sidVersion sid)"
  shows "SourceIDFromLabels (Labels sid)
     = (with_revision (SourceID_RevID sid) \<lparr>sidLocation = sidLocation sid, sidVersion = label_version (sidVersion sid)\<rparr>, None)"
  by (cases "sidLocation sid") (simp add: SourceIDFromLabels_def ghas_def Labels_get label_or_empty_def
      NewSourceID_def label_version_parse [OF assms] Let_def)

section \<open>Properties\<close>

text \<open>The source ID read from the labels of a well-formed source ID is the same one: the same
  location and revision, and a version of equal precedence that prints as the label does.
  Without one of the four labels, the missing ones are reported.\<close>

theorem labels_roundtrip:
  assumes "wf_version (sidVersion sid)"
  shows "(\<exists>sid'. SourceIDFromLabels (Labels sid) = (sid', None) \<and> sidLocation sid' = sidLocation sid
           \<and> SourceID_Equal sid' sid \<and> SourceID_RevID sid' = SourceID_RevID sid
           \<and> tagName (sidVersion sid') = tagName (sidVersion sid))
     \<and> (k \<in> {DockerRepoLabel, DockerPathLabel, DockerVersionLabel, DockerRevisionLabel} \<longrightarrow>
          snd (SourceIDFromLabels (gdel k (Labels sid))) = Some (MissingLabels [k]))"
proof (intro conjI impI)
  define sid' where "sid' = with_revision (SourceID_RevID sid) \<lparr>sidLocation = sidLocation sid, sidVersion = label_version (sidVersion sid)\<rparr>"
  have "SourceIDFromLabels (Labels sid) = (sid', None)"
    unfolding sid'_def by (rule SourceIDFromLabels_Labels [OF assms])
  moreover have "SourceID_Equal sid' sid"
    by (simp add: SourceID_Equal_iff sid'_def with_revision_def Version_Equals_label)
  moreover have "wf_version (sidVersion sid')"
    using assms by (simp add: sid'_def with_revision_def label_version_def wf_version_def SourceID_RevID_def)
  then have "tagName (sidVersion sid') = tagName (sidVersion sid)"
    using assms by (simp add: tagName_def label_version_text sid'_def with_revision_def label_version_def
        canonical_format_def)
  ultimately show "\<exists>sid'. SourceIDFromLabels (Labels sid) = (sid', None) \<and> sidLocation sid' = sidLocation sid
           \<and> SourceID_Equal sid' sid \<and> SourceID_RevID sid' = SourceID_RevID sid
           \<and> tagName (sidVersion sid') = tagName (sidVersion sid)"
    by (simp add: sid'_def with_revision_def SourceID_RevID_def)
next
  assume "k \<in> {DockerRepoLabel, DockerPathLabel, DockerVersionLabel, DockerRevisionLabel}"
  then show "snd (SourceIDFromLabels (gdel k (Labels sid))) = Some (MissingLabels [k])"
    using docker_labels_distinct
    by (elim insertE emptyE) (simp_all add: SourceIDFromLabels_def ghas_def gget_delete Labels_get Let_def)
qed

theorem labels_roundtrip_witness:
  "\<exists>sid'. SourceIDFromLabels (Labels example_sid) = (sid', None) \<and> SourceID_Equal sid' example_sid"
proof -
  have "wf_version (sidVersion example_sid)"
    by (simp add: example_sid_def wf_version_def in_int64_def validPreAndMetaChar_def is_digit_def)
  from labels_roundtrip [OF this] show ?thesis by blast
qed

text \<open>The image name of a repository of the organisation, below a registry.\<close>

lemma versionTag_opentable:
  assumes "CHR ''/'' \<notin> set repo" and "CHR ''/'' \<notin> set host" and "host \<notin> {[], ''.'', ''..''}"
    and "CHR ''/'' \<notin> set (tagName v)"
  shows "versionTag host \<lparr>sidLocation = \<lparr>slRepo = ''github.com/opentable/'' @ repo, slDir = []\<rparr>, sidVersion = v\<rparr> []
     = host @ ''/'' @ repo @ '':'' @ tagName v"
proof -
  have name: "versionName \<lparr>sidLocation = \<lparr>slRepo = ''github.com/opentable/'' @ repo, slDir = []\<rparr>, sidVersion = v\<rparr> []
      = repo @ '':'' @ tagName v"
    by (simp add: versionName_def imageRepoName_def stripRE_def strip_scheme_def strip_github_def drop_prefix_def
        drop_optional_def is_alpha_def Let_def)
  have "CHR '':'' \<in> set (repo @ '':'' @ tagName v)" by simp
  moreover have "CHR '':'' \<notin> set []" "CHR '':'' \<notin> set ''.''" "CHR '':'' \<notin> set ''..''" by simp_all
  ultimately have elem: "repo @ '':'' @ tagName v \<noteq> []" "repo @ '':'' @ tagName v \<noteq> ''.''" "repo @ '':'' @ tagName v \<noteq> ''..''"
    by metis+
  have "split_on CHR ''/'' (host @ CHR ''/'' # (repo @ '':'' @ tagName v)) = [host, repo @ '':'' @ tagName v]"
    using assms by (simp add: split_on_append)
  moreover have "hd (host @ t) \<noteq> CHR ''/''" for t using assms(2,3) by (cases host) auto
  ultimately show ?thesis
    using assms elem name by (simp add: versionTag_def filepath_Clean_def Let_def)
qed

end
