(* ===== verification/Singularity_Agent.thy ===== *)
theory Singularity_Agent
  imports Singularity_IDs Docker_Labels Resolver "HOL-Library.Word"
begin

text \<open>
  What Sous sends to Singularity (\<open>ext/singularity/recti-agent.go\<close>): the transfer objects of a
  request and of a deploy, as far as Sous writes or reads their fields, and their construction
  from a deployable. A pointer is an option. \<open>swaggering.LoadMap\<close> fails only on a field of
  another name or type; every field here has the name and the type of its object, so the
  constructions below have no such branch. The labels of an image are read through the
  argument \<open>ImageLabels\<close>, where \<open>None\<close> is a nil map. Go's conversion to \<open>int32\<close> keeps the low
  32 bits.
\<close>

section \<open>Transfer objects\<close>

record SingResources =
  srzCpus :: gofloat
  srzMemoryMb :: gofloat
  srzNumPorts :: int

record HealthcheckOptions =
  hcStartupDelaySeconds :: int
  hcStartupTimeoutSeconds :: int
  hcStartupIntervalSeconds :: int
  hcFailureStatusCodes :: "int list"
  hcProtocol :: string
  hcUri :: string
  hcPortIndex :: int
  hcResponseTimeoutSeconds :: int
  hcIntervalSeconds :: int
  hcMaxRetries :: int

record SingularityDockerInfo =
  sdiImage :: string
  sdiNetwork :: string

record SingularityVolume =
  svHostPath :: string
  svContainerPath :: string
  svMode :: string

record SingularityContainerInfo =
  ciType :: string
  ciDocker :: "SingularityDockerInfo option"
  ciVolumes :: "SingularityVolume list"

record SingularityDeploy =
  sdpId :: string
  sdpRequestId :: string
  sdpResources :: "SingResources option"
  sdpContainerInfo :: "SingularityContainerInfo option"
  sdpEnv :: "(string, string) gomap option"
  sdpMetadata :: "(string, string) gomap"
  sdpHealthcheck :: "HealthcheckOptions option"

record SingularityRequest =
  sgrId :: string
  sgrRequestType :: string
  sgrInstances :: int
  sgrOwners :: "string list"
  sgrSchedule :: string
  sgrScheduleType :: string

section \<open>Construction\<close>

definition to_int32 :: "int \<Rightarrow> int" where
  "to_int32 n = sint (word_of_int n :: 32 word)"

definition ClusterNameLabel :: string where "ClusterNameLabel = ''com.opentable.sous.clustername''"
definition FlavorLabel :: string where "FlavorLabel = ''com.opentable.sous.flavor''"

definition mapResources :: "Resources \<Rightarrow> SingResources" where
  "mapResources r = \<lparr>srzCpus = Resources_Cpus r, srzMemoryMb = Resources_Memory r, srzNumPorts = to_int32 (Resources_Ports r)\<rparr>"

definition MapStartupIntoHealthcheckOptions :: "Startup \<Rightarrow> HealthcheckOptions option" where
  "MapStartupIntoHealthcheckOptions startup =
     (if SkipCheck startup then None
      else Some
        \<lparr>hcStartupDelaySeconds = to_int32 (ConnectDelay startup),
         hcStartupTimeoutSeconds = to_int32 (Timeout startup),
         hcStartupIntervalSeconds = to_int32 (ConnectInterval startup),
         hcFailureStatusCodes = map to_int32 (CheckReadyFailureStatuses startup),
         hcProtocol = CheckReadyProtocol startup,
         hcUri = CheckReadyURIPath startup,
         hcPortIndex = to_int32 (CheckReadyPortIndex startup),
         hcResponseTimeoutSeconds = to_int32 (CheckReadyURITimeout startup),
         hcIntervalSeconds = to_int32 (CheckReadyInterval startup),
         hcMaxRetries = to_int32 (CheckReadyRetries startup)\<rparr>)"

definition sing_volume :: "Volume \<Rightarrow> SingularityVolume" where
  "sing_volume v = \<lparr>svHostPath = volHost v, svContainerPath = volContainer v, svMode = volMode v\<rparr>"

text \<open>
  \<open>buildDeployRequest\<close> dereferences the artifact and writes into the map it is given; the
  request that wraps the deploy has no other field.
\<close>

definition buildDeployRequest ::
    "Deployable \<Rightarrow> string \<Rightarrow> string \<Rightarrow> (string, string) gomap option \<Rightarrow> (goerror, SingularityDeploy) outcome" where
  "buildDeployRequest d reqID depID metadata =
     (case dblArtifact d of
        None \<Rightarrow> Panic
      | Some art \<Rightarrow>
          (let dc = dDeployConfig (dblDeployment d)
           in case metadata of
               None \<Rightarrow> Panic
             | Some md \<Rightarrow>
                 (let md1 = gset ClusterNameLabel (dClusterName (dblDeployment d)) md;
                      md2 = gset FlavorLabel (dFlavor (dblDeployment d)) md1;
                      dockerInfo = \<lparr>sdiImage = baName art, sdiNetwork = ''BRIDGE''\<rparr>;
                      res = mapResources (nilmap (dcResources dc));
                      vs = map sing_volume (dcVolumes dc);
                      ci = \<lparr>ciType = ''DOCKER'', ciDocker = Some dockerInfo, ciVolumes = vs\<rparr>
                  in Ok \<lparr>sdpId = depID, sdpRequestId = reqID, sdpResources = Some res, sdpContainerInfo = Some ci,
                         sdpEnv = Some (dcEnv dc), sdpMetadata = md2,
                         sdpHealthcheck = MapStartupIntoHealthcheckOptions (dcStartup dc)\<rparr>)))"

definition determineRequestType :: "string \<Rightarrow> goerror + string" where
  "determineRequestType kind =
     (if kind = ManifestKindService then Inr ''SERVICE''
      else if kind = ManifestKindWorker then Inr ''WORKER''
      else if kind = ManifestKindOnDemand then Inr ''ON_DEMAND''
      else if kind = ManifestKindScheduled then Inr ''SCHEDULED''
      else if kind = ManifestKindOnce then Inr ''RUN_ONCE''
      else Inl (fmt_error (''Unrecognized Sous manifest kind: '' @ kind)))"

definition singRequestFromDeployment :: "Deployment \<Rightarrow> string \<Rightarrow> (goerror, string \<times> SingularityRequest) outcome" where
  "singRequestFromDeployment dep reqID =
     (case dCluster dep of
        None \<Rightarrow> Panic
      | Some cluster \<Rightarrow>
          (case determineRequestType (dKind dep) of
             Inl err \<Rightarrow> Err err
           | Inr reqType \<Rightarrow>
               (let req = \<lparr>sgrId = reqID, sgrRequestType = reqType,
                      sgrInstances = to_int32 (dcNumInstances (dDeployConfig dep)),
                      sgrOwners = OwnerSet_Slice (dOwners dep), sgrSchedule = [], sgrScheduleType = []\<rparr>
                in Ok (clBaseURL cluster,
                     if reqType = ''SCHEDULED''
                     then req\<lparr>sgrSchedule := dcSchedule (dDeployConfig dep), sgrScheduleType := ''CRON''\<rparr>
                     else req))))"

section \<open>The agent\<close>

text \<open>
  The Singularity server of a base URL: its answers to the two posts, as arguments. The agent's
  cache of one client per URL has no effect on what is sent.
\<close>

record sing_posts =
  answerRequest :: "string \<Rightarrow> SingularityRequest \<Rightarrow> goerror option"
  answerDeploy :: "string \<Rightarrow> SingularityDeploy \<Rightarrow> goerror option"

definition of_error :: "goerror option \<Rightarrow> (goerror, unit) outcome" where
  "of_error e = (case e of None \<Rightarrow> Ok () | Some err \<Rightarrow> Err err)"

definition RectiAgent_PostRequest :: "sing_posts \<Rightarrow> Deployable \<Rightarrow> string \<Rightarrow> (goerror, unit) outcome" where
  "RectiAgent_PostRequest sing d reqID =
     (case singRequestFromDeployment (dblDeployment d) reqID of
        Panic \<Rightarrow> Panic
      | Err err \<Rightarrow> Err err
      | Ok (cluster, req) \<Rightarrow> of_error (answerRequest sing cluster req))"

definition RectiAgent_Deploy ::
    "sing_posts \<Rightarrow> (string \<Rightarrow> goerror + (string, string) gomap option) \<Rightarrow> Deployable \<Rightarrow> string \<Rightarrow> string
     \<Rightarrow> (goerror, unit) outcome" where
  "RectiAgent_Deploy sing ImageLabels d reqID depID =
     (case dblArtifact d of
        None \<Rightarrow> Err (MissingImageNameError (fmt_error ''Missing BuildArtifact on Deployable''))
      | Some art \<Rightarrow>
          (case dCluster (dblDeployment d) of
             None \<Rightarrow> Panic
           | Some cluster \<Rightarrow>
               (case ImageLabels (baName art) of
                  Inl err \<Rightarrow> Err err
                | Inr labels \<Rightarrow>
                    (case buildDeployRequest d reqID depID labels of
                       Panic \<Rightarrow> Panic
                     | Err err \<Rightarrow> Err err
                     | Ok depReq \<Rightarrow> of_error (answerDeploy sing (clBaseURL cluster) depReq)))))"

section \<open>Facts\<close>

lemma to_int32_id [simp]: "in_int32 n \<Longrightarrow> to_int32 n = n"
  by (simp add: to_int32_def in_int32_def sint_sbintrunc' signed_take_bit_int_eq_self)

lemma to_int32_range: "in_int32 (to_int32 n)"
  using sint_ge [of "word_of_int n :: 32 word"] sint_lt [of "word_of_int n :: 32 word"]
  by (simp add: to_int32_def in_int32_def)

lemma Resources_Ports_int32 [simp]: "to_int32 (Resources_Ports r) = Resources_Ports r"
  by (rule to_int32_id) (auto simp: Resources_Ports_def in_int32_def split: option.splits)

lemmas manifest_kind_defs = ManifestKindService_def ManifestKindWorker_def ManifestKindOnDemand_def
  ManifestKindScheduled_def ManifestKindOnce_def

text \<open>A kind that can be deployed.\<close>

definition deployable_kind :: "string \<Rightarrow> bool" where
  "deployable_kind k = (k \<in> {ManifestKindService, ManifestKindWorker, ManifestKindOnDemand,
     ManifestKindScheduled, ManifestKindOnce})"

lemma determineRequestType_iff: "(\<exists>t. determineRequestType k = Inr t) \<longleftrightarrow> deployable_kind k"
  by (simp add: determineRequestType_def deployable_kind_def)

text \<open>Every valid kind but \<open>scheduled-job\<close> has a request type.\<close>

lemma kinds_without_request_type:
  "ManifestKind_Validate k = [] \<Longrightarrow> (\<exists>e. determineRequestType k = Inl e) \<longleftrightarrow> k = ''scheduled-job''"
  by (auto simp: ManifestKind_Validate_def valid_kinds_def determineRequestType_def manifest_kind_defs
      split: if_splits)

end
