(* ===== verification/Rectify.thy ===== *)
theory Rectify
  imports Resolver
begin

text \<open>
  The life of one rectification (\<open>lib/rectification.go\<close>): resolving the image, calling the
  deployer, and polling until the deployment is done. The deployer's \<open>Rectify\<close> is an argument;
  it returns the pair it was handed a pointer to, and its resolution.
  Its answers to the polls are an explicit list: the polls that fit before the deadline of
  twenty minutes, so that the end of the list is the deadline. \<open>message\<close> renders an error.
  \<open>Panic\<close> is the dereference of a missing \<open>Post\<close> or of a nil state.
\<close>

section \<open>Operations\<close>

definition with_error :: "error_wrapper \<Rightarrow> Rectification \<Rightarrow> Rectification" where
  "with_error e r = r\<lparr>rResolution := (rResolution r)\<lparr>drError := Some e\<rparr>\<rparr>"

text \<open>\<open>HandlePairsByRegistry\<close> is \<open>HandlePairs\<close> of a resolver over the registry.\<close>

definition HandlePairsByRegistry ::
    "get_artifact \<Rightarrow> DeployablePair \<Rightarrow> (goerror, DeployablePair option \<times> DiffResolution option) outcome" where
  "HandlePairsByRegistry r dp = HandlePairs r dp"

type_synonym deployer_rectify = "DeployablePair \<Rightarrow> (goerror, DeployablePair \<times> DiffResolution) outcome"

definition run_deployer :: "deployer_rectify \<Rightarrow> Rectification \<Rightarrow> (goerror, Rectification) outcome" where
  "run_deployer deployer r =
     (case deployer (rPair r) of
        Ok (pair, rez) \<Rightarrow> Ok (r\<lparr>rPair := pair, rResolution := rez\<rparr>) | Err e \<Rightarrow> Err e | Panic \<Rightarrow> Panic)"

definition rectify ::
    "deployer_rectify \<Rightarrow> get_artifact \<Rightarrow> Rectification \<Rightarrow> (goerror, Rectification) outcome" where
  "rectify deployer reg r =
     (case dpPost (rPair r) of
        None \<Rightarrow> Panic
      | Some post \<Rightarrow>
          if dblArtifact post \<noteq> None then run_deployer deployer r
          else case HandlePairsByRegistry reg (rPair r) of
              Panic \<Rightarrow> Panic
            | Err e \<Rightarrow> Err e
            | Ok (pair, diff) \<Rightarrow>
                (case (case diff of None \<Rightarrow> None | Some rez \<Rightarrow> drError rez) of
                   Some e \<Rightarrow> Ok (with_error (WrapResolveError (WrapperPtr e)) r)
                 | None \<Rightarrow>
                     (case pair of
                        Some p \<Rightarrow> run_deployer deployer (r\<lparr>rPair := p\<rparr>)
                      | None \<Rightarrow> Ok (with_error (WrapResolveError
                          (fmt_error ''Unknown Error Occurred, no resolve error and no pair present'')) r))))"

text \<open>What is recorded when a poll finds the deployment done.\<close>

definition ErrorWrapper_Error :: "(goerror \<Rightarrow> string) \<Rightarrow> error_wrapper \<Rightarrow> string" where
  "ErrorWrapper_Error message ew = (case ewError ew of Some e \<Rightarrow> message e | None \<Rightarrow> ewString ew)"

definition record_final :: "(goerror \<Rightarrow> string) \<Rightarrow> DeployState \<Rightarrow> DiffResolution \<Rightarrow> DiffResolution" where
  "record_final message s rez =
     (let rez1 = rez\<lparr>drDeployState := Some s\<rparr>
      in if dstStatus s \<noteq> DeployStatusActive \<and> dstExecutorMessage s \<noteq> []
         then (case drError rez1 of
                 None \<Rightarrow> rez1\<lparr>drError := Some (EW [] [] (Some (fmt_error (dstExecutorMessage s))))\<rparr>
               | Some e \<Rightarrow> rez1\<lparr>drError := Some (EW [] [] (Some (fmt_error
                     (ErrorWrapper_Error message e @ '':'' @ dstExecutorMessage s))))\<rparr>)
         else rez1)"

definition zeroDeployment :: Deployment where
  "zeroDeployment = \<lparr>dDeployConfig = zeroDeployConfig, dClusterName = [], dCluster = None,
     dSourceID = \<lparr>sidLocation = zeroLocation, sidVersion = zeroVersion\<rparr>, dFlavor = [], dOwners = [], dKind = []\<rparr>"

definition zeroDeployState :: DeployState where
  "zeroDeployState = \<lparr>dstDeployment = zeroDeployment, dstStatus = DeployStatusAny, dstExecutorMessage = [],
     dstExecutorData = None, dstSchedulerURL = []\<rparr>"

fun poll_until_done :: "(goerror \<Rightarrow> string) \<Rightarrow> SourceID \<Rightarrow> DiffResolution \<Rightarrow> (goerror + DeployState option) list
    \<Rightarrow> (goerror, DiffResolution) outcome" where
  "poll_until_done message sid rez [] =
     Ok (if drDeployState rez = None then rez\<lparr>drDeployState := Some zeroDeployState\<rparr> else rez)"
| "poll_until_done message sid rez (p # polls) =
     (case p of
        Inl err \<Rightarrow> Ok (rez\<lparr>drError := Some (EW [] [] (Some err))\<rparr>)
      | Inr None \<Rightarrow> Panic
      | Inr (Some s) \<Rightarrow>
          if DeployState_Final s \<and> SourceID_Equal (dSourceID (dstDeployment s)) sid
          then Ok (record_final message s rez)
          else poll_until_done message sid rez polls)"

text \<open>\<open>awaitDone\<close>; \<open>state\<close> is the result of \<open>ReadState\<close>, of which only the error matters here.\<close>

definition awaitDone :: "(goerror \<Rightarrow> string) \<Rightarrow> goerror option \<Rightarrow> (goerror + DeployState option) list \<Rightarrow> Rectification
    \<Rightarrow> (goerror, Rectification) outcome" where
  "awaitDone message stateErr polls r =
     (case stateErr of
        Some err \<Rightarrow> Ok (with_error (WrapResolveError err) r)
      | None \<Rightarrow>
          (case dpPost (rPair r) of
             None \<Rightarrow> Panic
           | Some post \<Rightarrow>
               (case poll_until_done message (dSourceID (dblDeployment post)) (rResolution r) polls of
                  Ok rez \<Rightarrow> Ok (r\<lparr>rResolution := rez\<rparr>) | Err e \<Rightarrow> Err e | Panic \<Rightarrow> Panic)))"

definition Rectification_Begin :: "deployer_rectify \<Rightarrow> get_artifact \<Rightarrow> (goerror \<Rightarrow> string) \<Rightarrow> goerror option
    \<Rightarrow> (goerror + DeployState option) list \<Rightarrow> Rectification \<Rightarrow> (goerror, Rectification) outcome" where
  "Rectification_Begin deployer reg message stateErr polls r =
     (case rectify deployer reg r of
        Ok r' \<Rightarrow> awaitDone message stateErr polls r' | Err e \<Rightarrow> Err e | Panic \<Rightarrow> Panic)"

section \<open>Facts\<close>

text \<open>The answers that end the polling.\<close>

definition decisive :: "SourceID \<Rightarrow> goerror + DeployState option \<Rightarrow> bool" where
  "decisive sid p =
     (case p of Inl _ \<Rightarrow> True | Inr None \<Rightarrow> True
      | Inr (Some s) \<Rightarrow> DeployState_Final s \<and> SourceID_Equal (dSourceID (dstDeployment s)) sid)"

lemma poll_until_done_find:
  "poll_until_done message sid rez polls =
     (case find (decisive sid) polls of
        None \<Rightarrow> Ok (if drDeployState rez = None then rez\<lparr>drDeployState := Some zeroDeployState\<rparr> else rez)
      | Some (Inl err) \<Rightarrow> Ok (rez\<lparr>drError := Some (EW [] [] (Some err))\<rparr>)
      | Some (Inr None) \<Rightarrow> Panic
      | Some (Inr (Some s)) \<Rightarrow> Ok (record_final message s rez))"
proof (induction polls)
  case (Cons p polls)
  then show ?case by (cases p) (auto simp: decisive_def split: option.splits)
qed simp

lemma HandlePairs_shape:
  assumes "HandlePairs reg p = Ok (Some p', rez)"
  shows "dpName p' = dpName p \<and> dpPrior p' = dpPrior p \<and> dpExecutorData p' = dpExecutorData p
     \<and> map_option dblDeployment (dpPost p') = map_option dblDeployment (dpPost p)"
proof (cases "dpPost p")
  case None
  then show ?thesis
    using assms by (auto simp: HandlePairs_def resolveName_def renamed_pair_def split: outcome.splits if_splits option.splits)
next
  case (Some d)
  then show ?thesis
    using assms by (cases "guardImage reg (dblDeployment d)")
      (auto simp: HandlePairs_def resolveName_def renamed_pair_def split: outcome.splits if_splits)
qed

lemma record_final_facts:
  "drDeployState (record_final message s rez) = Some s"
  "drError (record_final message s rez) = None \<longleftrightarrow> drError rez = None \<and> (dstStatus s = DeployStatusActive \<or> dstExecutorMessage s = [])"
  by (auto simp: record_final_def Let_def split: option.splits)

text \<open>A rectification that goes on without an error has called the deployer on its own pair.\<close>

lemma rectify_without_error:
  assumes "rectify deployer reg r = Ok r'" and "drError (rResolution r') = None"
  shows "\<exists>p. deployer p = Ok (rPair r', rResolution r') \<and> dpName p = dpName (rPair r) \<and> dpPrior p = dpPrior (rPair r)
     \<and> map_option dblDeployment (dpPost p) = map_option dblDeployment (dpPost (rPair r))"
proof -
  obtain post where post: "dpPost (rPair r) = Some post" using assms(1) by (auto simp: rectify_def split: option.splits)
  have run: "\<exists>q rez. deployer (rPair x) = Ok (q, rez) \<and> r' = x\<lparr>rPair := q, rResolution := rez\<rparr>"
    if "run_deployer deployer x = Ok r'" for x
    using that by (auto simp: run_deployer_def split: outcome.splits)
  show ?thesis
  proof (cases "dblArtifact post")
    case (Some art)
    then have "run_deployer deployer r = Ok r'" using assms post by (simp add: rectify_def)
    then show ?thesis using run [of r] by auto
  next
    case None
    then obtain pair diff where h: "HandlePairs reg (rPair r) = Ok (pair, diff)"
      using assms(1) post by (auto simp: rectify_def HandlePairsByRegistry_def split: outcome.splits)
    have "pair \<noteq> None \<and> (case diff of None \<Rightarrow> None | Some rez \<Rightarrow> drError rez) = None"
      using assms None post h
      by (auto simp: rectify_def HandlePairsByRegistry_def with_error_def split: option.splits)
    then obtain p where p: "pair = Some p" "run_deployer deployer (r\<lparr>rPair := p\<rparr>) = Ok r'"
      using assms(1) None post h by (auto simp: rectify_def HandlePairsByRegistry_def)
    then show ?thesis using run [OF p(2)] HandlePairs_shape h by auto
  qed
qed

lemma poll_no_error:
  "poll_until_done message sid rez polls = Ok rez' \<Longrightarrow> drError rez' = None \<Longrightarrow> drError rez = None"
  by (auto simp: poll_until_done_find record_final_facts split: option.splits sum.splits if_splits)

lemma poll_active:
  "poll_until_done message sid rez polls = Ok rez' \<Longrightarrow> drError rez' = None \<Longrightarrow> drDeployState rez = None
   \<Longrightarrow> drDeployState rez' = Some s \<Longrightarrow> dstStatus s = DeployStatusActive \<Longrightarrow> find (decisive sid) polls = Some (Inr (Some s))"
  by (auto simp: poll_until_done_find record_final_facts zeroDeployState_def split: option.splits sum.splits if_splits)

section \<open>What a rectification needs of a deployer\<close>

text \<open>
  The contract: a deployer leaves the deploy state to the polls, and of the pair it is handed it
  changes neither the deployables nor the name.
\<close>

locale deployer_contract =
  fixes Rectify :: deployer_rectify
  assumes leaves_state: "Rectify p = Ok (p', rez) \<Longrightarrow> drDeployState rez = None"
    and keeps_pair: "Rectify p = Ok (p', rez) \<Longrightarrow> dpPrior p' = dpPrior p \<and> dpPost p' = dpPost p \<and> dpName p' = dpName p"
begin

lemma success_sound:
  assumes begin_ok: "Rectification_Begin Rectify reg message None polls r = Ok r'"
    and final: "drError (rResolution r') = None" "drDeployState (rResolution r') = Some s" "dstStatus s = DeployStatusActive"
  shows "Inr (Some s) \<in> set polls
     \<and> (\<exists>post. dpPost (rPair r) = Some post
          \<and> SourceID_Equal (dSourceID (dstDeployment s)) (dSourceID (dblDeployment post)))
     \<and> (\<exists>p p' rez. Rectify p = Ok (p', rez) \<and> drError rez = None \<and> dpName p = dpName (rPair r) \<and> dpPrior p = dpPrior (rPair r)
          \<and> map_option dblDeployment (dpPost p) = map_option dblDeployment (dpPost (rPair r)))"
proof -
  obtain r1 where r1: "rectify Rectify reg r = Ok r1" "awaitDone message None polls r1 = Ok r'"
    using begin_ok by (auto simp: Rectification_Begin_def split: outcome.splits)
  then obtain post rez where post: "dpPost (rPair r1) = Some post"
      and rez: "poll_until_done message (dSourceID (dblDeployment post)) (rResolution r1) polls = Ok rez"
      and r': "rResolution r' = rez"
    by (auto simp: awaitDone_def split: option.splits outcome.splits)
  have no_err: "drError (rResolution r1) = None" using poll_no_error [OF rez] final(1) r' by simp
  then obtain p where p: "Rectify p = Ok (rPair r1, rResolution r1)" "dpName p = dpName (rPair r)" "dpPrior p = dpPrior (rPair r)"
      "map_option dblDeployment (dpPost p) = map_option dblDeployment (dpPost (rPair r))"
    using rectify_without_error [OF r1(1)] by blast
  have found: "find (decisive (dSourceID (dblDeployment post))) polls = Some (Inr (Some s))"
    using poll_active [OF rez] final r' leaves_state [OF p(1)] by simp
  have "Inr (Some s) \<in> set polls" "decisive (dSourceID (dblDeployment post)) (Inr (Some s))"
    using found by (auto simp: find_Some_iff)
  moreover have "dpPost p = Some post" using keeps_pair [OF p(1)] post by simp
  then have "map_option dblDeployment (dpPost (rPair r)) = Some (dblDeployment post)" using p(4) by simp
  then obtain post0 where "dpPost (rPair r) = Some post0" "dblDeployment post0 = dblDeployment post" by blast
  ultimately show ?thesis using p no_err by (auto simp: decisive_def)
qed

end

section \<open>A failed image\<close>

text \<open>A deployment without an acceptable image is never handed to the deployer, but its rectification
  keeps polling all the same: it ends only at the deadline, or when a deployment of the
  intended source is found in a final state.\<close>

theorem missing_image_still_polls:
  assumes "registry_ok reg" and "dpPost (rPair r) = Some post" and "dblArtifact post = None"
    and "DeployablePair_Kind (rPair r) = Ok kind" and "kind \<in> {AddedKind, ModifiedKind}"
    and "\<not> has_image reg (dblDeployment post)" and "drDeployState (rResolution r) = None"
    and "find (decisive (dSourceID (dblDeployment post))) polls = None"
  shows "\<exists>r'. Rectification_Begin deployer reg message None polls r = Ok r'
     \<and> drError (rResolution r') \<noteq> None \<and> drDeployState (rResolution r') = Some zeroDeployState"
proof -
  obtain e where "HandlePairs reg (rPair r) = Ok (None, Some (zeroResolution\<lparr>drDeploymentID := Deployment_ID (dblDeployment post),
      drError := Some e\<rparr>))"
    using assms guardImage_total [OF assms(1), of "dblDeployment post"]
    by (cases "guardImage reg (dblDeployment post)") (auto simp: HandlePairs_def resolveName_def has_image_def)
  then have "rectify deployer reg r = Ok (with_error e r)"
    using assms(2,3) by (simp add: rectify_def HandlePairsByRegistry_def WrapResolveError_def)
  then show ?thesis
    using assms(2,7,8) by (simp add: Rectification_Begin_def awaitDone_def with_error_def poll_until_done_find)
qed

end

