(* ===== verification/Deployment_Builder.thy ===== *)
theory Deployment_Builder
  imports Singularity_Agent Rectify
begin

text \<open>
  How Sous reads a deployment back from Singularity (\<open>ext/singularity/deployment_builder.go\<close>).
  The builder is a record of its mutable fields; each step of \<open>completeConstruction\<close> takes it
  and returns it changed, with the step's error, or \<open>None\<close> when the step panics on a nil
  pointer. The client of Singularity's interface is a record of the three calls the steps make;
  a successful call answers with an object, as the generated client does, and lists of objects
  hold no nil. The registry's \<open>ImageLabels\<close> is an argument.

  The value of \<open>BuildDeployment\<close> is read after the construction: Go leaves the order of
  \<open>db.Target\<close> and the call in its return statement open, and the compiler runs the call first.
\<close>

section \<open>Data\<close>

record SingularityDeployMarker =
  dmRequestId :: string
  dmDeployId :: string

record SingularityRequestDeployState =
  rdsPendingDeploy :: "SingularityDeployMarker option"

record SingularityRequestParent =
  rpRequest :: "SingularityRequest option"
  rpState :: string
  rpRequestDeployState :: "SingularityRequestDeployState option"
  rpActiveDeploy :: "SingularityDeploy option"
  rpPendingDeploy :: "SingularityDeploy option"

record SingularityDeployResult =
  drsDeployState :: string
  drsMessage :: string
  drsDeployFailures :: "string list"

record SingularityDeployHistory =
  dhDeploy :: "SingularityDeploy option"
  dhDeployResult :: "SingularityDeployResult option"
  dhDeployMarker :: "SingularityDeployMarker option"

record singClient =
  GetRequest :: "string \<Rightarrow> goerror + SingularityRequestParent"
  GetDeploys :: "string \<Rightarrow> goerror + SingularityDeployHistory list"
  GetDeploy :: "string \<Rightarrow> string \<Rightarrow> goerror + SingularityDeployHistory"

record SingReq =
  srqSourceURL :: string
  srqSing :: singClient
  srqReqParent :: "SingularityRequestParent option"

record deploymentBuilder =
  dbTarget :: DeployState
  dbImageName :: string
  dbDepMarker :: "SingularityDeployMarker option"
  dbHistory :: "SingularityDeployHistory option"
  dbDeploy :: "SingularityDeploy option"
  dbRequest :: "SingularityRequest option"
  dbReq :: SingReq
  dbReqID :: string

datatype build_error = BuildErr goerror | CanRetryRequest goerror SingReq

type_synonym build_step = "deploymentBuilder \<Rightarrow> (deploymentBuilder \<times> goerror option) option"

section \<open>Errors\<close>

definition ignorableDeploy :: "goerror \<Rightarrow> bool" where
  "ignorableDeploy err =
     (case errors_Cause err of NonSousError \<Rightarrow> True | NotThisClusterError _ _ \<Rightarrow> True | _ \<Rightarrow> False)"

definition isMalformed :: "goerror \<Rightarrow> bool" where
  "isMalformed err =
     (let e = errors_Cause err
      in type_name e = ''singularity.malformedResponse'' \<or> type_name e = ''*json.UnmarshalTypeError''
         \<or> type_name e = ''*json.UnsupportedTypeError'' \<or> type_name e = ''*json.UnsupportedValueError'')"

definition isRetryable :: "deploymentBuilder \<Rightarrow> goerror \<Rightarrow> bool" where
  "isRetryable db err =
     (\<not> isMalformed err \<and> \<not> ignorableDeploy err \<and> srqSourceURL (dbReq db) \<noteq> []
      \<and> (case srqReqParent (dbReq db) of
           None \<Rightarrow> False
         | Some rp \<Rightarrow> (case rpRequest rp of None \<Rightarrow> False | Some req \<Rightarrow> sgrId req \<noteq> [])))"

definition canRetry :: "deploymentBuilder \<Rightarrow> goerror option \<Rightarrow> build_error option" where
  "canRetry db err =
     (case err of
        None \<Rightarrow> None
      | Some e \<Rightarrow> if \<not> isRetryable db e then Some (BuildErr e) else Some (CanRetryRequest e (dbReq db)))"

section \<open>Steps\<close>

definition step_ok :: "deploymentBuilder \<Rightarrow> (deploymentBuilder \<times> goerror option) option" where
  "step_ok db = Some (db, None)"

definition step_err :: "deploymentBuilder \<Rightarrow> goerror \<Rightarrow> (deploymentBuilder \<times> goerror option) option" where
  "step_err db e = Some (db, Some e)"

definition reqID :: "SingularityRequestParent option \<Rightarrow> string" where
  "reqID rp =
     (case rp of
        None \<Rightarrow> ''<null RequestParent>''
      | Some p \<Rightarrow> (case rpRequest p of None \<Rightarrow> ''<null Request>'' | Some r \<Rightarrow> sgrId r))"

definition on_deployment :: "(Deployment \<Rightarrow> Deployment) \<Rightarrow> deploymentBuilder \<Rightarrow> deploymentBuilder" where
  "on_deployment f db = db\<lparr>dbTarget := (dbTarget db)\<lparr>dstDeployment := f (dstDeployment (dbTarget db))\<rparr>\<rparr>"

definition on_config :: "(DeployConfig \<Rightarrow> DeployConfig) \<Rightarrow> deploymentBuilder \<Rightarrow> deploymentBuilder" where
  "on_config f = on_deployment (\<lambda>d. d\<lparr>dDeployConfig := f (dDeployConfig d)\<rparr>)"

definition set_status :: "DeployStatus \<Rightarrow> deploymentBuilder \<Rightarrow> deploymentBuilder" where
  "set_status st db = db\<lparr>dbTarget := (dbTarget db)\<lparr>dstStatus := st\<rparr>\<rparr>"

definition cluster_of_url :: "string \<Rightarrow> Cluster" where
  "cluster_of_url url = \<lparr>clName = [], clKind = [], clBaseURL = url, clEnv = [], clStartup = zeroStartup,
     clAllowedAdvisories = []\<rparr>"

definition basics :: build_step where
  "basics db =
     (case srqReqParent (dbReq db) of
        None \<Rightarrow> None
      | Some rp \<Rightarrow>
          (let rid = reqID (Some rp);
               db1 = on_deployment (\<lambda>d. d\<lparr>dCluster := Some (cluster_of_url (srqSourceURL (dbReq db)))\<rparr>) db;
               db2 = db1\<lparr>dbTarget := (dbTarget db1)\<lparr>dstExecutorData := Some rid\<rparr>\<rparr>
           in step_ok (db2\<lparr>dbRequest := rpRequest rp, dbReqID := rid\<rparr>)))"

definition getFullRequestParent :: build_step where
  "getFullRequestParent db =
     (case srqReqParent (dbReq db) of
        None \<Rightarrow> None
      | Some rp \<Rightarrow>
          if rpActiveDeploy rp \<noteq> None \<or> rpPendingDeploy rp \<noteq> None then step_ok db
          else case GetRequest (srqSing (dbReq db)) (dbReqID db) of
              Inl err \<Rightarrow> step_err db err
            | Inr rp' \<Rightarrow> step_ok (db\<lparr>dbReq := (dbReq db)\<lparr>srqReqParent := Some rp'\<rparr>\<rparr>))"

definition determineDeployStatus :: build_step where
  "determineDeployStatus db =
     (case srqReqParent (dbReq db) of
        None \<Rightarrow> step_err db (MalformedResponse ''Singularity response didn't include a request parent.'')
      | Some rp \<Rightarrow>
          (case rpRequestDeployState rp of
             None \<Rightarrow> step_err db (MalformedResponse
                       (''Singularity response didn't include a deploy state. ReqId: '' @ reqID (Some rp)))
           | Some rds \<Rightarrow>
               if rpState rp \<noteq> ''ACTIVE'' \<and> rpState rp \<noteq> ''DEPLOYING_TO_UNPAUSE''
               then step_ok (set_status DeployStatusAny db)
               else (case rdsPendingDeploy rds of
                       Some m \<Rightarrow> step_ok ((set_status DeployStatusPending db)\<lparr>dbDepMarker := Some m, dbDeploy := rpPendingDeploy rp\<rparr>)
                     | None \<Rightarrow> step_ok (set_status DeployStatusAny db))))"

definition retrieveLiveDeploy :: build_step where
  "retrieveLiveDeploy db =
     (if dbDeploy db \<noteq> None then step_ok db
      else case dbDepMarker db of
          None \<Rightarrow> None
        | Some m \<Rightarrow>
            (case GetDeploy (srqSing (dbReq db)) (dmRequestId m) (dmDeployId m) of
               Inl err \<Rightarrow> step_err db (WithCause (dbReqID db) err)
             | Inr dh \<Rightarrow> step_ok (db\<lparr>dbHistory := Some dh\<rparr>)))"

definition retrieveHistoricDeploy :: build_step where
  "retrieveHistoricDeploy db =
     (case dbRequest db of
        None \<Rightarrow> step_err db (MalformedResponse ''Singularity request parent had no request.'')
      | Some request \<Rightarrow>
          (case GetDeploys (srqSing (dbReq db)) (sgrId request) of
             Inl err \<Rightarrow> step_err db (WithCause ''GetDeploys'' err)
           | Inr [] \<Rightarrow> step_err db (MalformedResponse ''Singularity deploy history list was empty.'')
           | Inr (partialHistory # _) \<Rightarrow>
               (case dhDeployMarker partialHistory of
                  None \<Rightarrow> step_err db (MalformedResponse ''Singularity deploy history had no deploy marker.'')
                | Some m \<Rightarrow> retrieveLiveDeploy (db\<lparr>dbDepMarker := Some m\<rparr>))))"

definition retrieveDeployHistory :: build_step where
  "retrieveDeployHistory db = (if dbDepMarker db = None then retrieveHistoricDeploy db else retrieveLiveDeploy db)"

definition extractDeployFromDeployHistory :: build_step where
  "extractDeployFromDeployHistory db =
     (if dbDeploy db \<noteq> None then step_ok db
      else case dbHistory db of
          None \<Rightarrow> None
        | Some h \<Rightarrow>
            (if dhDeploy h = None then step_err db (MalformedResponse ''Singularity deploy history included no deploy'')
             else step_ok (db\<lparr>dbDeploy := dhDeploy h\<rparr>)))"

definition sousDeployCheck :: "Clusters \<Rightarrow> build_step" where
  "sousDeployCheck clusters db =
     (case dbDeploy db of
        None \<Rightarrow> None
      | Some dep \<Rightarrow>
          (case gget (sdpMetadata dep) ClusterNameLabel of
             Some cnl \<Rightarrow>
               if list_ex (\<lambda>cn. cnl = cn) (Clusters_Names clusters) then step_ok db
               else step_err db (NotThisClusterError cnl (Clusters_Names clusters))
           | None \<Rightarrow> step_err db NonSousError))"

text \<open>The verb \<open>%q\<close>; bytes above 127 are taken to be printable runes.\<close>

definition quote_char :: "char \<Rightarrow> string" where
  "quote_char c =
     (let n = (of_char c :: nat)
      in if n = 34 \<or> n = 92 then [char_of (92 :: nat), c]
         else if n = 7 then [char_of (92 :: nat), CHR ''a''] else if n = 8 then [char_of (92 :: nat), CHR ''b'']
         else if n = 9 then [char_of (92 :: nat), CHR ''t''] else if n = 10 then [char_of (92 :: nat), CHR ''n'']
         else if n = 11 then [char_of (92 :: nat), CHR ''v''] else if n = 12 then [char_of (92 :: nat), CHR ''f'']
         else if n = 13 then [char_of (92 :: nat), CHR ''r'']
         else if n < 32 \<or> n = 127 then [char_of (92 :: nat), CHR ''x''] @ hex_byte c
         else [c])"

definition fmt_quote :: "string \<Rightarrow> string" where
  "fmt_quote s = [char_of (34 :: nat)] @ concat (map quote_char s) @ [char_of (34 :: nat)]"

definition determineStatus :: build_step where
  "determineStatus db =
     (if dstStatus (dbTarget db) \<noteq> DeployStatusAny then step_ok db
      else case dbHistory db of
          None \<Rightarrow> None
        | Some h \<Rightarrow>
            (case dhDeployResult h of
               None \<Rightarrow> step_ok (set_status DeployStatusPending db)
             | Some result \<Rightarrow>
                 if drsDeployState result = ''SUCCEEDED'' then step_ok (set_status DeployStatusActive db)
                 else (let msg = (if length (drsDeployFailures result) > 0 then join_with '', '' (drsDeployFailures result)
                                  else drsMessage result)
                       in case dhDeploy h of
                           None \<Rightarrow> None
                         | Some dep \<Rightarrow>
                             (let text = ''Deploy failure: '' @ fmt_quote msg @ '' '' @ srqSourceURL (dbReq db)
                                    @ ''/request/'' @ sdpRequestId dep @ ''/deploy/'' @ sdpId dep
                              in step_ok (set_status DeployStatusFailed
                                   (db\<lparr>dbTarget := (dbTarget db)\<lparr>dstExecutorMessage := text\<rparr>\<rparr>))))))"

definition extractArtifactName :: build_step where
  "extractArtifactName db =
     (case dbDeploy db of
        None \<Rightarrow> None
      | Some dep \<Rightarrow>
          (case sdpContainerInfo dep of
             None \<Rightarrow> step_err db (MalformedResponse ''Blank container info'')
           | Some ci \<Rightarrow>
               if ciType ci \<noteq> ''DOCKER'' then step_err db (MalformedResponse ''Singularity container isn't a docker container'')
               else case ciDocker ci of
                   None \<Rightarrow> step_err db (MalformedResponse ''Singularity deploy didn't include a docker info'')
                 | Some dkr \<Rightarrow> step_ok (db\<lparr>dbImageName := sdiImage dkr\<rparr>)))"

text \<open>\<open>message\<close> and \<open>labelMessage\<close> render the errors whose texts are copied here.\<close>

definition retrieveImageLabels ::
    "(string \<Rightarrow> goerror + (string, string) gomap option) \<Rightarrow> (goerror \<Rightarrow> string) \<Rightarrow> (label_error \<Rightarrow> string) \<Rightarrow> build_step" where
  "retrieveImageLabels ImageLabels message labelMessage db =
     (case ImageLabels (dbImageName db) of
        Inl err \<Rightarrow> step_err db (MalformedResponse (message err))
      | Inr labels \<Rightarrow>
          (case SourceIDFromLabels (nilmap labels) of
             (sid, err) \<Rightarrow>
               (let db1 = on_deployment (\<lambda>d. d\<lparr>dSourceID := sid\<rparr>) db
                in case err of
                    None \<Rightarrow> step_ok db1
                  | Some e \<Rightarrow> step_err db1 (WithCause (''For reqID: '' @ reqID (srqReqParent (dbReq db)))
                                (MalformedResponse (labelMessage e))))))"

definition getMetadataField :: "string \<Rightarrow> (string, string) gomap \<Rightarrow> string \<times> goerror option" where
  "getMetadataField field md =
     (case gget md field of
        None \<Rightarrow> ([], Some (MalformedResponse (''Deploy Metadata did not include a '' @ field)))
      | Some v \<Rightarrow> (v, None))"

definition restoreFromMetadata :: build_step where
  "restoreFromMetadata db =
     (case dbDeploy db of
        None \<Rightarrow> None
      | Some dep \<Rightarrow>
          (case getMetadataField ClusterNameLabel (sdpMetadata dep) of
             (name, err) \<Rightarrow>
               (let db1 = on_deployment (\<lambda>d. d\<lparr>dClusterName := name\<rparr>) db
                in case err of
                    Some e \<Rightarrow> step_err db1 e
                  | None \<Rightarrow> step_ok (on_deployment (\<lambda>d. d\<lparr>dFlavor := fst (getMetadataField FlavorLabel (sdpMetadata dep))\<rparr>) db1))))"

text \<open>
  The verb \<open>%f\<close>: six decimal places, rounded to the nearest and to even on a tie. (A value is
  the exact rational, as everywhere for Go's floating-point numbers.)
\<close>

definition round_even :: "rat \<Rightarrow> int" where
  "round_even x =
     (let f = \<lfloor>x\<rfloor>; r = x - of_int f
      in if r < 1 / 2 then f else if r > 1 / 2 then f + 1 else if even f then f else f + 1)"

definition pad_zeros :: "nat \<Rightarrow> string \<Rightarrow> string" where
  "pad_zeros n ds = replicate (n - length ds) (CHR ''0'') @ ds"

definition fmt_micros :: "nat \<Rightarrow> string" where
  "fmt_micros n = show_nat (n div 1000000) @ ''.'' @ pad_zeros 6 (show_nat (n mod 1000000))"

fun fmt_float :: "gofloat \<Rightarrow> string" where
  "fmt_float (Fin q) = (if q < 0 then ''-'' else []) @ fmt_micros (nat (round_even (\<bar>q\<bar> * 1000000)))"
| "fmt_float PInf = ''+Inf''"
| "fmt_float NInf = ''-Inf''"
| "fmt_float NaN = ''NaN''"

definition volume_of_sing :: "SingularityVolume \<Rightarrow> Volume" where
  "volume_of_sing v = \<lparr>volHost = svHostPath v, volContainer = svContainerPath v, volMode = svMode v\<rparr>"

definition unpack_resources :: "SingResources \<Rightarrow> Resources" where
  "unpack_resources rz =
     gset ''ports'' (itoa (srzNumPorts rz))
       (gset ''memory'' (fmt_float (srzMemoryMb rz)) (gset ''cpus'' (fmt_float (srzCpus rz)) []))"

definition unpack_startup :: "HealthcheckOptions option \<Rightarrow> Startup \<Rightarrow> Startup" where
  "unpack_startup healthcheck s =
     (case healthcheck of
        Some hc \<Rightarrow>
          s\<lparr>ConnectDelay := hcStartupDelaySeconds hc, Timeout := hcStartupTimeoutSeconds hc,
            ConnectInterval := hcStartupIntervalSeconds hc, CheckReadyProtocol := hcProtocol hc,
            CheckReadyURIPath := hcUri hc, CheckReadyPortIndex := hcPortIndex hc,
            CheckReadyURITimeout := hcResponseTimeoutSeconds hc, CheckReadyInterval := hcIntervalSeconds hc,
            CheckReadyRetries := hcMaxRetries hc, CheckReadyFailureStatuses := hcFailureStatusCodes hc\<rparr>
      | None \<Rightarrow> s\<lparr>SkipCheck := True\<rparr>)"

definition unpackDeployConfig :: build_step where
  "unpackDeployConfig db =
     (case dbDeploy db of
        None \<Rightarrow> None
      | Some dep \<Rightarrow>
          (let db1 = on_config (\<lambda>c. c\<lparr>dcEnv := nilmap (sdpEnv dep)\<rparr>) db
           in case sdpResources dep of
               None \<Rightarrow> step_err db1 (MalformedResponse ''Deploy object lacks resources field'')
             | Some singRez \<Rightarrow>
                 (case dbRequest db of
                    None \<Rightarrow> None
                  | Some request \<Rightarrow>
                      (let db2 = on_config (\<lambda>c. c\<lparr>dcResources := Some (unpack_resources singRez),
                                                  dcNumInstances := sgrInstances request\<rparr>) db1;
                           db3 = on_deployment (\<lambda>d. d\<lparr>dOwners := foldl OwnerSet_Add [] (sgrOwners request)\<rparr>) db2
                       in case sdpContainerInfo dep of
                           None \<Rightarrow> None
                         | Some ci \<Rightarrow>
                             step_ok (on_config (\<lambda>c. c\<lparr>dcVolumes := dcVolumes c @ map volume_of_sing (ciVolumes ci),
                                 dcStartup := unpack_startup (sdpHealthcheck dep) (dcStartup c)\<rparr>) db3)))))"

definition determineManifestKind :: build_step where
  "determineManifestKind db =
     (case dbRequest db of
        None \<Rightarrow> None
      | Some request \<Rightarrow>
          (let set_kind = (\<lambda>k. step_ok (on_deployment (\<lambda>d. d\<lparr>dKind := k\<rparr>) db)); t = sgrRequestType request
           in if t = ''SERVICE'' then set_kind ManifestKindService
              else if t = ''WORKER'' then set_kind ManifestKindWorker
              else if t = ''ON_DEMAND'' then set_kind ManifestKindOnDemand
              else if t = ''SCHEDULED'' then set_kind ManifestKindScheduled
              else if t = ''RUN_ONCE'' then set_kind ManifestKindOnce
              else step_err db (fmt_error (''Unrecognized request type returned by Singularity: '' @ t))))"

definition extractSchedule :: build_step where
  "extractSchedule db =
     (if dKind (dstDeployment (dbTarget db)) = ManifestKindScheduled
      then (case dbRequest db of
              None \<Rightarrow> step_err db (fmt_error ''request is nil'')
            | Some request \<Rightarrow> step_ok (on_config (\<lambda>c. c\<lparr>dcSchedule := sgrSchedule request\<rparr>) db))
      else step_ok db)"

section \<open>The construction\<close>

definition wrapError :: "build_step \<Rightarrow> string \<Rightarrow> build_step" where
  "wrapError fn msg db =
     (case fn db of None \<Rightarrow> None | Some (db', err) \<Rightarrow> Some (db', map_option (WithCause msg) err))"

text \<open>\<open>firsterr.Returned\<close> (\<open>util/firsterr/firsterr.go\<close>): run until the first error.\<close>

fun firsterr_Returned :: "build_step list \<Rightarrow> build_step" where
  "firsterr_Returned [] db = Some (db, None)"
| "firsterr_Returned (f # fs) db =
     (case f db of
        None \<Rightarrow> None
      | Some (db', Some err) \<Rightarrow> Some (db', Some err)
      | Some (db', None) \<Rightarrow> firsterr_Returned fs db')"

definition completeConstruction ::
    "(string \<Rightarrow> goerror + (string, string) gomap option) \<Rightarrow> (goerror \<Rightarrow> string) \<Rightarrow> (label_error \<Rightarrow> string)
     \<Rightarrow> Clusters \<Rightarrow> build_step" where
  "completeConstruction ImageLabels message labelMessage clusters =
     firsterr_Returned
       [wrapError basics ''Failed to extract basic information from original request.'',
        wrapError getFullRequestParent ''Failed to retrieve full RequestParent DTO.'',
        wrapError determineDeployStatus ''Failed to determine deploy status.'',
        wrapError retrieveDeployHistory ''Failed to retrieve SingularityDeployHistory from SingularityRequestParent.'',
        wrapError extractDeployFromDeployHistory ''Failed to extract SingularityDeploy from SingularityDeployHistory.'',
        wrapError (sousDeployCheck clusters) ''Could not determine if the SingularityDeploy is controlled by Sous'',
        wrapError determineStatus ''Could not determine current status of SingularityDeploy'',
        wrapError extractArtifactName ''Could not extract ArtifactName (Docker image name) from SingularityDeploy.'',
        wrapError (retrieveImageLabels ImageLabels message labelMessage)
          ''Could not retrieve ImageLabels (Docker image labels) from sous.Registry.'',
        wrapError restoreFromMetadata ''Could not determine cluster name based on SingularityDeploy Metadata.'',
        wrapError unpackDeployConfig ''Could not convert data from a SingularityDeploy to a sous.Deployment.'',
        wrapError determineManifestKind ''Could not determine SingularityRequestType.'',
        wrapError extractSchedule ''Could not determine Singularity schedule.'']"

definition new_builder :: "SingReq \<Rightarrow> deploymentBuilder" where
  "new_builder req = \<lparr>dbTarget = zeroDeployState, dbImageName = [], dbDepMarker = None, dbHistory = None,
     dbDeploy = None, dbRequest = None, dbReq = req, dbReqID = []\<rparr>"

definition Singularity_BuildDeployment ::
    "(string \<Rightarrow> goerror + (string, string) gomap option) \<Rightarrow> (goerror \<Rightarrow> string) \<Rightarrow> (label_error \<Rightarrow> string)
     \<Rightarrow> Clusters \<Rightarrow> SingReq \<Rightarrow> (DeployState \<times> build_error option) option" where
  "Singularity_BuildDeployment ImageLabels message labelMessage clusters req =
     (case completeConstruction ImageLabels message labelMessage clusters (new_builder req) of
        None \<Rightarrow> None
      | Some (db, err) \<Rightarrow> Some (dbTarget db, canRetry db err))"

end
