(* ===== verification/Read_Back.thy ===== *)
theory Read_Back
  imports Deployment_Builder
begin

text \<open>
  What the agent sends to Singularity is what the builder reads back: lemmas for the printed
  resources, the startup checks and the rest of the configuration, and the round trip.
\<close>

section \<open>Printed numbers\<close>

lemma digits_val_append: "digits_val (a @ b) = 10 ^ length b * digits_val a + digits_val b"
proof (induction b rule: rev_induct)
  case (snoc c b)
  have "digits_val (a @ b @ [c]) = 10 * digits_val (a @ b) + int (of_char c - 48)"
    using digits_val_snoc [of "a @ b" c] by simp
  also have "\<dots> = 10 ^ length (b @ [c]) * digits_val a + (10 * digits_val b + int (of_char c - 48))"
    by (simp add: snoc algebra_simps)
  finally show ?case by (simp add: digits_val_snoc)
qed (simp add: digits_val_def)

lemma digits_val_Cons: "digits_val (c # ds) = 10 ^ length ds * int (of_char c - 48) + digits_val ds"
  using digits_val_append [of "[c]" ds] by (simp add: digits_val_def)

lemma read_mantissa_digits:
  "list_all is_digit ds \<Longrightarrow>
   read_mantissa sawdot sawdigits m k (ds @ rest)
     = read_mantissa sawdot (sawdigits \<or> ds \<noteq> []) (10 ^ length ds * m + digits_val ds)
         (if sawdot then k + length ds else k) rest"
proof (induction ds arbitrary: sawdigits m k)
  case (Cons c ds)
  have "c \<noteq> CHR ''.''" using Cons.prems by (auto simp: is_digit_def)
  then show ?case using Cons by (simp add: digits_val_Cons algebra_simps)
qed (simp add: digits_val_def)

lemma length_show_nat: "n < 10 ^ Suc k \<Longrightarrow> length (show_nat n) \<le> Suc k"
proof (induction k arbitrary: n)
  case 0
  then show ?case by (subst show_nat.simps) simp
next
  case (Suc k)
  have "n div 10 < 10 ^ Suc k" using Suc.prems by (simp add: less_mult_imp_div_less)
  then have "length (show_nat (n div 10)) \<le> Suc k" by (rule Suc.IH)
  then show ?case by (subst show_nat.simps) simp
qed

lemma pad_zeros_facts:
  "list_all is_digit ds \<Longrightarrow> list_all is_digit (pad_zeros n ds)"
  "digits_val (pad_zeros n ds) = digits_val ds"
  "length ds \<le> n \<Longrightarrow> length (pad_zeros n ds) = n"
proof -
  have "digits_val (replicate m (CHR ''0'')) = 0" for m
    by (induction m) (simp_all add: digits_val_Cons, simp add: digits_val_def)
  then show "digits_val (pad_zeros n ds) = digits_val ds" by (simp add: pad_zeros_def digits_val_append)
qed (auto simp: pad_zeros_def list_all_iff is_digit_def)

lemma read_fmt_micros: "read_mantissa False False 0 0 (fmt_micros n) = (int n, 6, True, [])"
proof -
  define a where "a = show_nat (n div 1000000)"
  define b where "b = pad_zeros 6 (show_nat (n mod 1000000))"
  have "length (show_nat (n mod 1000000)) \<le> Suc 5" by (rule length_show_nat) simp
  then have b: "list_all is_digit b" "length b = 6" "digits_val b = int (n mod 1000000)"
    by (simp_all add: b_def pad_zeros_facts show_nat_digits digits_val_show_nat)
  have a: "list_all is_digit a" "a \<noteq> []" "digits_val a = int (n div 1000000)"
    by (simp_all add: a_def show_nat_digits digits_val_show_nat)
  have "read_mantissa False False 0 0 (a @ CHR ''.'' # b) = read_mantissa True True (digits_val a) 0 b"
    using read_mantissa_digits [OF a(1), of False False 0 0 "CHR ''.'' # b"] a(2) by simp
  also have "\<dots> = (1000000 * digits_val a + digits_val b, 6, True, [])"
    using read_mantissa_digits [OF b(1), of True True "digits_val a" 0 "[]"] b(2) by simp
  also have "1000000 * digits_val a + digits_val b = int (1000000 * (n div 1000000) + n mod 1000000)"
    by (simp only: a(3) b(3) of_nat_add of_nat_mult of_nat_numeral)
  also have "\<dots> = int n" by (simp only: mult_div_mod_eq)
  finally show ?thesis by (simp add: fmt_micros_def a_def b_def)
qed

lemma fmt_micros_starts: "\<exists>c t. fmt_micros n = c # t \<and> is_digit c"
proof -
  have "list_all is_digit (show_nat (n div 1000000))" by (simp add: show_nat_digits)
  then show ?thesis by (cases "show_nat (n div 1000000)") (auto simp: fmt_micros_def)
qed

lemma is_digit_lower: "is_digit c \<Longrightarrow> lower c = c"
  by (simp add: is_digit_def lower_def)

lemma special_float_digit:
  assumes "is_digit c"
  shows "special_float (c # t) = None" "special_float (CHR ''-'' # c # t) = None"
  using assms is_digit_lower [OF assms]
  by (auto simp: special_float_def Let_def is_digit_def lower_def [of "CHR ''-''"])

lemma parse_fmt_micros:
  assumes "(of_int (int n) :: rat) / 1000000 < float_limit"
  shows "parseFloat (fmt_micros n) = Some (Fin (of_nat n / 1000000))"
    and "parseFloat (CHR ''-'' # fmt_micros n) = Some (Fin (- (of_nat n / 1000000)))"
proof -
  obtain c t where ct: "fmt_micros n = c # t" "is_digit c" using fmt_micros_starts by blast
  have f: "finite_float neg (int n) 6 False 0 = Some (Fin (if neg then - (of_nat n / 1000000) else of_nat n / 1000000))" for neg
    using assms by (simp add: finite_float_def Let_def)
  have hd: "c \<noteq> CHR ''+''" "c \<noteq> CHR ''-''" using ct(2) by (auto simp: is_digit_def)
  have r: "read_mantissa False False 0 0 (c # t) = (int n, 6, True, [])" using read_fmt_micros [of n] ct by simp
  show "parseFloat (fmt_micros n) = Some (Fin (of_nat n / 1000000))"
    unfolding parseFloat_def ct(1) special_float_digit(1) [OF ct(2)] using hd r f [of False] by (simp del: read_mantissa.simps)
  show "parseFloat (CHR ''-'' # fmt_micros n) = Some (Fin (- (of_nat n / 1000000)))"
    unfolding parseFloat_def ct(1) special_float_digit(2) [OF ct(2)] using hd r f [of True] by (simp del: read_mantissa.simps)
qed

lemma round_even_near: "\<bar>of_int (round_even x) - x\<bar> \<le> 1 / 2"
proof -
  define a where "a = (of_int \<lfloor>x\<rfloor> :: rat)"
  have "a \<le> x" "x < a + 1" using floor_correct [of x] by (simp_all add: a_def)
  then show ?thesis by (auto simp: round_even_def Let_def abs_if simp flip: a_def)
qed

lemma round_even_nonneg: "0 \<le> x \<Longrightarrow> 0 \<le> round_even x"
  by (simp add: round_even_def Let_def)

text \<open>A number whose magnitude the printed form is sure to carry.\<close>

fun moderate :: "gofloat \<Rightarrow> bool" where
  "moderate (Fin q) = (\<bar>q\<bar> \<le> 10 ^ 15)"
| "moderate _ = True"

lemma special_float_names:
  "special_float ''+Inf'' = Some PInf" "special_float ''-Inf'' = Some NInf" "special_float ''NaN'' = Some NaN"
  by code_simp+

lemma parse_fmt_float:
  assumes "moderate f"
  shows "\<exists>f'. parseFloat (fmt_float f) = Some f' \<and> \<not> differ_by_milli f f'"
proof (cases f)
  case (Fin q)
  define n where "n = nat (round_even (\<bar>q\<bar> * 1000000))"
  have n: "(of_nat n :: rat) = of_int (round_even (\<bar>q\<bar> * 1000000))" by (simp add: n_def round_even_nonneg)
  have near: "\<bar>of_nat n / 1000000 - \<bar>q\<bar>\<bar> \<le> (1 / 2000000 :: rat)"
    using round_even_near [of "\<bar>q\<bar> * 1000000"] by (simp add: n abs_le_iff field_simps)
  moreover have "(10 :: rat) ^ 15 + 1 < float_limit" by (simp add: float_limit_def)
  moreover have "\<bar>q\<bar> \<le> 10 ^ 15" using assms Fin by simp
  ultimately have lim: "(of_int (int n) :: rat) / 1000000 < float_limit" by (simp only: of_int_of_nat_eq)
  show ?thesis
  proof (cases "q < 0")
    case True
    have "\<bar>q - - (of_nat n / 1000000)\<bar> \<le> (1 / 2000000 :: rat)" using near True by (simp add: add.commute)
    then show ?thesis using parse_fmt_micros(2) [OF lim] True Fin by (simp add: n_def)
  next
    case False
    have "\<bar>q - of_nat n / 1000000\<bar> \<le> (1 / 2000000 :: rat)" using near False by (simp add: abs_minus_commute)
    then show ?thesis using parse_fmt_micros(1) [OF lim] False Fin by (simp add: n_def)
  qed
qed (simp_all add: parseFloat_def special_float_names)

section \<open>The configuration\<close>

lemma unpack_resources_lookup:
  "rez_lookup (unpack_resources rz) ''cpus'' = fmt_float (srzCpus rz)"
  "rez_lookup (unpack_resources rz) ''memory'' = fmt_float (srzMemoryMb rz)"
  "rez_lookup (unpack_resources rz) ''ports'' = itoa (srzNumPorts rz)"
  "length (unpack_resources rz) = 3"
  by (simp_all add: rez_lookup_def unpack_resources_def)

lemma atoi_itoa_int32: "in_int32 n \<Longrightarrow> atoi (itoa n) = Some n"
  by (rule atoi_itoa) (simp add: in_int32_def in_int64_def)

lemma Resources_Ports_in_int32: "in_int32 (Resources_Ports r)"
  by (auto simp: Resources_Ports_def in_int32_def split: option.splits)

lemma resources_read_back:
  assumes "length r = 3" and "moderate (Resources_Cpus r)" and "moderate (Resources_Memory r)"
  shows "Resources_Equal r (unpack_resources (mapResources r))"
proof -
  obtain c where c: "parseFloat (fmt_float (Resources_Cpus r)) = Some c" "\<not> differ_by_milli (Resources_Cpus r) c"
    using parse_fmt_float [OF assms(2)] by blast
  obtain m where m: "parseFloat (fmt_float (Resources_Memory r)) = Some m" "\<not> differ_by_milli (Resources_Memory r) m"
    using parse_fmt_float [OF assms(3)] by blast
  let ?u = "unpack_resources (mapResources r)"
  have "Resources_Cpus ?u = c" "Resources_Memory ?u = m"
    using c m by (simp_all add: Resources_Cpus_def Resources_Memory_def unpack_resources_lookup mapResources_def)
  moreover have "rez_lookup ?u ''ports'' = itoa (Resources_Ports r)"
    by (simp add: unpack_resources_lookup mapResources_def)
  then have "Resources_Ports ?u = Resources_Ports r"
    unfolding Resources_Ports_def [of ?u] using Resources_Ports_in_int32 [of r]
    by (simp add: atoi_itoa_int32)
  ultimately show ?thesis
    using assms(1) c(2) m(2) by (simp add: Resources_Equal_def unpack_resources_lookup)
qed

definition startup_in_range :: "Startup \<Rightarrow> bool" where
  "startup_in_range s =
     list_all in_int32 ([ConnectDelay s, Timeout s, ConnectInterval s, CheckReadyPortIndex s, CheckReadyURITimeout s,
       CheckReadyInterval s, CheckReadyRetries s] @ CheckReadyFailureStatuses s)"

lemma startup_read_back:
  assumes "SkipCheck s \<or> startup_in_range s"
  shows "Startup_diff s (unpack_startup (MapStartupIntoHealthcheckOptions s) zeroStartup) = []"
proof (cases "SkipCheck s")
  case True
  then show ?thesis
    by (simp add: MapStartupIntoHealthcheckOptions_def unpack_startup_def Startup_diff_def Let_def diff_if_def
        statuses_diff_def)
next
  case False
  then have "map to_int32 (CheckReadyFailureStatuses s) = CheckReadyFailureStatuses s"
    using assms by (auto simp: startup_in_range_def list_all_iff intro: map_idI)
  then have "unpack_startup (MapStartupIntoHealthcheckOptions s) zeroStartup = s"
    using False assms by (cases s)
      (simp add: MapStartupIntoHealthcheckOptions_def unpack_startup_def zeroStartup_def startup_in_range_def)
  then show ?thesis by (simp add: Startup_diff_def Let_def diff_if_def statuses_diff_def)
qed

lemma volumes_read_back [simp]: "map (volume_of_sing \<circ> sing_volume) vs = vs"
  by (simp add: map_idI volume_of_sing_def sing_volume_def)

lemma owners_read_back:
  "set (foldl OwnerSet_Add [] (OwnerSet_Slice os)) = set os" "distinct (foldl OwnerSet_Add [] (OwnerSet_Slice os))"
  by (simp_all add: OwnerSet_fold OwnerSet_Slice_def)

section \<open>A run of the builder\<close>

text \<open>
  What Singularity's interface shows of a request whose latest deploy is \<open>dep\<close>: an active
  request without a pending deploy, whose history leads to \<open>dep\<close> and its result.
\<close>

definition shows_latest ::
    "SingReq \<Rightarrow> SingularityRequest \<Rightarrow> SingularityDeploy \<Rightarrow> SingularityDeployResult option \<Rightarrow> bool" where
  "shows_latest sreq request dep result =
     (\<exists>rp m h hs mk.
        srqReqParent sreq = Some rp \<and> rpRequest rp = Some request \<and> rpState rp = ''ACTIVE''
        \<and> rpActiveDeploy rp \<noteq> None \<and> rpRequestDeployState rp = Some \<lparr>rdsPendingDeploy = None\<rparr>
        \<and> GetDeploys (srqSing sreq) (sgrId request) = Inr (h # hs) \<and> dhDeployMarker h = Some m
        \<and> GetDeploy (srqSing sreq) (dmRequestId m) (dmDeployId m)
             = Inr \<lparr>dhDeploy = Some dep, dhDeployResult = result, dhDeployMarker = mk\<rparr>)"

fun kind_of_type :: "string \<Rightarrow> string option" where
  "kind_of_type t =
     (if t = ''SERVICE'' then Some ManifestKindService else if t = ''WORKER'' then Some ManifestKindWorker
      else if t = ''ON_DEMAND'' then Some ManifestKindOnDemand else if t = ''SCHEDULED'' then Some ManifestKindScheduled
      else if t = ''RUN_ONCE'' then Some ManifestKindOnce else None)"

declare kind_of_type.simps [simp del]

definition read_deployment :: "string \<Rightarrow> SingularityRequest \<Rightarrow> SingularityDeploy \<Rightarrow> SingularityContainerInfo
    \<Rightarrow> SingResources \<Rightarrow> string \<Rightarrow> SourceID \<Rightarrow> string \<Rightarrow> Deployment" where
  "read_deployment url request dep ci rz cn sid kind =
     \<lparr>dDeployConfig =
        \<lparr>dcResources = Some (unpack_resources rz), dcMetadata = None, dcEnv = nilmap (sdpEnv dep),
         dcNumInstances = sgrInstances request, dcVolumes = map volume_of_sing (ciVolumes ci),
         dcStartup = unpack_startup (sdpHealthcheck dep) zeroStartup,
         dcSchedule = (if kind = ManifestKindScheduled then sgrSchedule request else [])\<rparr>,
      dClusterName = cn, dCluster = Some (cluster_of_url url), dSourceID = sid,
      dFlavor = fst (getMetadataField FlavorLabel (sdpMetadata dep)),
      dOwners = foldl OwnerSet_Add [] (sgrOwners request), dKind = kind\<rparr>"

lemmas builder_defs = wrapError_def basics_def getFullRequestParent_def determineDeployStatus_def
  retrieveDeployHistory_def retrieveHistoricDeploy_def retrieveLiveDeploy_def extractDeployFromDeployHistory_def
  sousDeployCheck_def step_ok_def step_err_def on_deployment_def on_config_def set_status_def

text \<open>The steps up to the deploy, and the steps that fill the target from it.\<close>

lemma completeConstruction_success:
  assumes "shows_latest sreq request dep (Some \<lparr>drsDeployState = ''SUCCEEDED'', drsMessage = msg, drsDeployFailures = fs\<rparr>)"
    and "gget (sdpMetadata dep) ClusterNameLabel = Some cn" and "cn \<in> set (gkeys clusters)"
    and "sdpContainerInfo dep = Some ci" and "ciType ci = ''DOCKER''" and "ciDocker ci = Some dk"
    and "ImageLabels (sdiImage dk) = Inr labels" and "SourceIDFromLabels (nilmap labels) = (sid, None)"
    and "sdpResources dep = Some rz" and "kind_of_type (sgrRequestType request) = Some kind"
  shows "Singularity_BuildDeployment ImageLabels message labelMessage clusters sreq
     = Some (\<lparr>dstDeployment = read_deployment (srqSourceURL sreq) request dep ci rz cn sid kind,
              dstStatus = DeployStatusActive, dstExecutorMessage = [], dstExecutorData = Some (sgrId request),
              dstSchedulerURL = []\<rparr>, None)"
proof -
  obtain rp m h hs mk where s: "srqReqParent sreq = Some rp" "rpRequest rp = Some request" "rpState rp = ''ACTIVE''"
      "rpActiveDeploy rp \<noteq> None" "rpRequestDeployState rp = Some \<lparr>rdsPendingDeploy = None\<rparr>"
      "GetDeploys (srqSing sreq) (sgrId request) = Inr (h # hs)" "dhDeployMarker h = Some m"
      "GetDeploy (srqSing sreq) (dmRequestId m) (dmDeployId m) = Inr \<lparr>dhDeploy = Some dep,
         dhDeployResult = Some \<lparr>drsDeployState = ''SUCCEEDED'', drsMessage = msg, drsDeployFailures = fs\<rparr>, dhDeployMarker = mk\<rparr>"
    using assms(1) by (auto simp: shows_latest_def)
  have names: "list_ex (\<lambda>x. cn = x) (Clusters_Names clusters)"
    using assms(3) by (auto simp: Clusters_Names_def list_ex_iff)
  have kind: "determineManifestKind db = step_ok (on_deployment (\<lambda>d. d\<lparr>dKind := kind\<rparr>) db)" if "dbRequest db = Some request" for db
    using assms(10) that by (auto simp: determineManifestKind_def kind_of_type.simps Let_def split: if_splits)
  show ?thesis
    unfolding Singularity_BuildDeployment_def completeConstruction_def new_builder_def
    by (simp add: builder_defs s names assms(2-9) reqID_def determineStatus_def extractArtifactName_def
        retrieveImageLabels_def restoreFromMetadata_def getMetadataField_def unpackDeployConfig_def kind extractSchedule_def
        zeroDeployState_def zeroDeployment_def zeroDeployConfig_def read_deployment_def canRetry_def Let_def)
qed

section \<open>The round trip\<close>

text \<open>
  A deployment that Singularity can carry: well formed, numbers within 32 bits, the three
  resources, and no metadata (the builder never restores it).
\<close>

definition carried :: "Deployment \<Rightarrow> bool" where
  "carried d =
     (let dc = dDeployConfig d; r = nilmap (dcResources dc)
      in wf_deployment d \<and> wf_version (sidVersion (dSourceID d)) \<and> nilmap (dcMetadata dc) = []
         \<and> length r = 3 \<and> moderate (Resources_Cpus r) \<and> moderate (Resources_Memory r)
         \<and> in_int32 (dcNumInstances dc) \<and> (SkipCheck (dcStartup dc) \<or> startup_in_range (dcStartup dc)))"

text \<open>The image has the labels that Sous gives to the images it builds.\<close>

definition labelled_as :: "(string, string) gomap \<Rightarrow> SourceID \<Rightarrow> bool" where
  "labelled_as labels sid =
     list_all (\<lambda>k. gget labels k = gget (Labels sid) k)
       [DockerRepoLabel, DockerPathLabel, DockerVersionLabel, DockerRevisionLabel]"

lemma SourceIDFromLabels_cong: "labelled_as labels sid \<Longrightarrow> SourceIDFromLabels labels = SourceIDFromLabels (Labels sid)"
  by (simp add: labelled_as_def SourceIDFromLabels_def label_or_empty_def ghas_def)

lemma labelled_read:
  assumes "labelled_as labels sid" and "wf_version (sidVersion sid)"
  obtains sid' where "SourceIDFromLabels labels = (sid', None)" "sidLocation sid' = sidLocation sid"
    "Version_Equals (sidVersion sid) (sidVersion sid')"
proof -
  define sid' where "sid' = with_revision (SourceID_RevID sid) \<lparr>sidLocation = sidLocation sid, sidVersion = label_version (sidVersion sid)\<rparr>"
  have "SourceIDFromLabels labels = (sid', None)"
    unfolding SourceIDFromLabels_cong [OF assms(1)] sid'_def by (rule SourceIDFromLabels_Labels [OF assms(2)])
  then show ?thesis
    by (rule that) (simp_all add: sid'_def with_revision_def Version_Equals_label Version_Equals_sym)
qed

lemma kind_of_type_names:
  "kind_of_type ''SERVICE'' = Some ManifestKindService" "kind_of_type ''WORKER'' = Some ManifestKindWorker"
  "kind_of_type ''ON_DEMAND'' = Some ManifestKindOnDemand" "kind_of_type ''SCHEDULED'' = Some ManifestKindScheduled"
  "kind_of_type ''RUN_ONCE'' = Some ManifestKindOnce"
  by (simp_all add: kind_of_type.simps)

lemma kind_of_request_type: "determineRequestType k = Inr t \<Longrightarrow> kind_of_type t = Some k"
  unfolding determineRequestType_def by (auto simp only: kind_of_type_names sum.inject sum.distinct split: if_split_asm)

lemma request_fields:
  assumes "singRequestFromDeployment d rid = Ok (url, request)"
  shows "sgrId request = rid" "sgrInstances request = to_int32 (dcNumInstances (dDeployConfig d))"
    "sgrOwners request = OwnerSet_Slice (dOwners d)" "determineRequestType (dKind d) = Inr (sgrRequestType request)"
    "dKind d = ManifestKindScheduled \<Longrightarrow> sgrSchedule request = dcSchedule (dDeployConfig d)"
proof -
  obtain c t where ct: "dCluster d = Some c" "determineRequestType (dKind d) = Inr t"
    using assms unfolding singRequestFromDeployment_def by (fastforce split: option.splits sum.splits)
  define req where "req = \<lparr>sgrId = rid, sgrRequestType = t, sgrInstances = to_int32 (dcNumInstances (dDeployConfig d)),
      sgrOwners = OwnerSet_Slice (dOwners d), sgrSchedule = [], sgrScheduleType = []\<rparr>"
  have r: "request = (if t = ''SCHEDULED''
      then req\<lparr>sgrSchedule := dcSchedule (dDeployConfig d), sgrScheduleType := ''CRON''\<rparr> else req)"
    using assms by (cases "t = ''SCHEDULED''") (simp_all add: singRequestFromDeployment_def ct Let_def req_def)
  show "sgrId request = rid" "sgrInstances request = to_int32 (dcNumInstances (dDeployConfig d))"
    "sgrOwners request = OwnerSet_Slice (dOwners d)" "determineRequestType (dKind d) = Inr (sgrRequestType request)"
    unfolding r req_def ct(2) by simp_all
  assume "dKind d = ManifestKindScheduled"
  then have "t = ''SCHEDULED''" using ct(2) by (simp add: determineRequestType_def manifest_kind_defs)
  then show "sgrSchedule request = dcSchedule (dDeployConfig d)" by (simp add: r)
qed

lemma deploy_fields:
  assumes "buildDeployRequest d rid depID (Some labels) = Ok dep" and "dblArtifact d = Some art"
  defines "dc \<equiv> dDeployConfig (dblDeployment d)"
  shows "sdpContainerInfo dep = Some \<lparr>ciType = ''DOCKER'', ciDocker = Some \<lparr>sdiImage = baName art, sdiNetwork = ''BRIDGE''\<rparr>,
           ciVolumes = map sing_volume (dcVolumes dc)\<rparr>"
    "sdpResources dep = Some (mapResources (nilmap (dcResources dc)))" "sdpEnv dep = Some (dcEnv dc)"
    "sdpHealthcheck dep = MapStartupIntoHealthcheckOptions (dcStartup dc)"
    "gget (sdpMetadata dep) ClusterNameLabel = Some (dClusterName (dblDeployment d))"
    "gget (sdpMetadata dep) FlavorLabel = Some (dFlavor (dblDeployment d))"
  using assms by (auto simp: buildDeployRequest_def Let_def gget_update ClusterNameLabel_def FlavorLabel_def)

lemma config_read_back:
  assumes "carried d"
    and "dcResources dc' = Some (unpack_resources (mapResources (nilmap (dcResources (dDeployConfig d)))))"
    and "dcMetadata dc' = None" and "dcEnv dc' = dcEnv (dDeployConfig d)"
    and "dcNumInstances dc' = dcNumInstances (dDeployConfig d)" and "dcVolumes dc' = dcVolumes (dDeployConfig d)"
    and "dcStartup dc' = unpack_startup (MapStartupIntoHealthcheckOptions (dcStartup (dDeployConfig d))) zeroStartup"
  shows "snd (DeployConfig_Diff (dDeployConfig d) dc') = []"
proof -
  have "Env_Equal (dcEnv (dDeployConfig d)) (dcEnv (dDeployConfig d))"
    using assms(1) by (simp add: Env_Equal_iff carried_def wf_deployment_def wf_config_def Let_def)
  moreover have "Volumes_Equal vs vs" for vs by (simp add: Volumes_Equal_iff)
  ultimately show ?thesis
    using assms resources_read_back startup_read_back
    by (simp add: DeployConfig_Diff_def diff_if_def carried_def Let_def)
qed

lemma read_back:
  assumes "carried (dblDeployment d)" and "dblArtifact d = Some art"
    and "ImageLabels (baName art) = Inr (Some labels)" and "labelled_as labels (dSourceID (dblDeployment d))"
    and "singRequestFromDeployment (dblDeployment d) rid = Ok (url, request)"
    and "buildDeployRequest d rid depID (Some labels) = Ok dep"
    and "shows_latest sreq request dep (Some \<lparr>drsDeployState = ''SUCCEEDED'', drsMessage = msg, drsDeployFailures = fs\<rparr>)"
    and "dClusterName (dblDeployment d) \<in> set (gkeys clusters)"
  shows "\<exists>tgt. Singularity_BuildDeployment ImageLabels message labelMessage clusters sreq = Some (tgt, None)
     \<and> dstStatus tgt = DeployStatusActive \<and> dstExecutorData tgt = Some rid \<and> wf_deployment (dstDeployment tgt)
     \<and> Deployment_Diff (dblDeployment d) (dstDeployment tgt) = Ok (False, [])"
proof -
  let ?d = "dblDeployment d"
  have wf: "wf_version (sidVersion (dSourceID ?d))" "wf_deployment ?d" "in_int32 (dcNumInstances (dDeployConfig ?d))"
    using assms(1) by (simp_all add: carried_def Let_def)
  obtain sid where sid: "SourceIDFromLabels (nilmap (Some labels)) = (sid, None)" "sidLocation sid = sidLocation (dSourceID ?d)"
      "Version_Equals (sidVersion (dSourceID ?d)) (sidVersion sid)"
    using labelled_read [OF assms(4) wf(1)] by auto
  note req = request_fields [OF assms(5)] and dep = deploy_fields [OF assms(6,2)]
  define tgt where "tgt = read_deployment (srqSourceURL sreq) request dep
      \<lparr>ciType = ''DOCKER'', ciDocker = Some \<lparr>sdiImage = baName art, sdiNetwork = ''BRIDGE''\<rparr>,
       ciVolumes = map sing_volume (dcVolumes (dDeployConfig ?d))\<rparr>
      (mapResources (nilmap (dcResources (dDeployConfig ?d)))) (dClusterName ?d) sid (dKind ?d)"
  note t = tgt_def read_deployment_def
  have run: "Singularity_BuildDeployment ImageLabels message labelMessage clusters sreq
      = Some (\<lparr>dstDeployment = tgt, dstStatus = DeployStatusActive, dstExecutorMessage = [],
               dstExecutorData = Some (sgrId request), dstSchedulerURL = []\<rparr>, None)"
    unfolding tgt_def using assms(3) sid(1)
    by (intro completeConstruction_success
        [where dk = "\<lparr>sdiImage = baName art, sdiNetwork = ''BRIDGE''\<rparr>" and labels = "Some labels", OF assms(7) dep(5) assms(8) dep(1) _ _ _ sid(1) dep(2)])
      (simp_all add: kind_of_request_type [OF req(4)])
  have "snd (DeployConfig_Diff (dDeployConfig ?d) (dDeployConfig tgt)) = []"
    by (rule config_read_back [OF assms(1)]) (simp_all add: t req dep wf)
  moreover have wf': "wf_deployment tgt"
    using wf(2) by (simp add: t wf_deployment_def wf_config_def req dep owners_read_back unpack_resources_def)
  moreover have "Deployment_ID ?d = Deployment_ID tgt"
    by (simp add: t Deployment_ID_iff sid(2) getMetadataField_def dep)
  moreover have "dKind ?d = dKind tgt" "set (dOwners ?d) = set (dOwners tgt)" "Version_Equals (sidVersion (dSourceID ?d)) (sidVersion (dSourceID tgt))"
    by (simp_all add: t req owners_read_back sid(3))
  moreover have "dKind ?d = ManifestKindScheduled \<longrightarrow> dcSchedule (dDeployConfig ?d) = dcSchedule (dDeployConfig tgt)"
    using req(5) by (simp add: t)
  ultimately have "Deployment_Diff ?d tgt = Ok (False, [])"
    using Deployment_Diff_none_iff [OF wf(2)] by blast
  then show ?thesis using run req(1) wf' by auto
qed

lemma Deployment_Diff_none_sym:
  assumes "wf_deployment d" and "wf_deployment e" and "Deployment_Diff d e = Ok (False, [])"
  shows "Deployment_Diff e d = Ok (False, [])"
proof -
  have id: "Deployment_ID d = Deployment_ID e" using assms(3) by (auto simp: Deployment_Diff_def split: if_splits)
  have wf: "wf_config (dDeployConfig d)" "wf_config (dDeployConfig e)" using assms by (simp_all add: wf_deployment_def)
  have "snd (DeployConfig_Diff (dDeployConfig e) (dDeployConfig d)) = []
      \<longleftrightarrow> snd (DeployConfig_Diff (dDeployConfig d) (dDeployConfig e)) = []"
    unfolding DeployConfig_Diff_Nil_iff [OF wf] DeployConfig_Diff_Nil_iff [OF wf(2,1)]
    by (auto simp: gsame_def Resources_Equal_sym Startup_Equal_iff)
  moreover note Deployment_Diff_none_iff [OF assms(1,2) id] Deployment_Diff_none_iff [OF assms(2,1) id [symmetric]]
  ultimately show ?thesis using assms(3) Version_Equals_sym by metis
qed

section \<open>Properties\<close>

text \<open>C3: What Sous deploys, it reads back unchanged. Let a deployable that Singularity can carry be
  posted as a request and deployed, with an image that has the labels of its source ID. When
  Singularity shows that deploy as the latest and successful one, the deployment read from it
  is active, belongs to the same request, and does not differ from the one deployed.\<close>

theorem deploy_reads_back:
  assumes "carried (dblDeployment d)" and "dblArtifact d = Some art"
    and "ImageLabels (baName art) = Inr (Some labels)" and "labelled_as labels (dSourceID (dblDeployment d))"
    and "singRequestFromDeployment (dblDeployment d) rid = Ok (url, request)"
    and "buildDeployRequest d rid depID (Some labels) = Ok dep"
    and "shows_latest sreq request dep (Some \<lparr>drsDeployState = ''SUCCEEDED'', drsMessage = msg, drsDeployFailures = fs\<rparr>)"
    and "dClusterName (dblDeployment d) \<in> set (gkeys clusters)"
  shows "\<exists>tgt. Singularity_BuildDeployment ImageLabels message labelMessage clusters sreq = Some (tgt, None)
     \<and> dstStatus tgt = DeployStatusActive \<and> dstExecutorData tgt = Some rid
     \<and> Deployment_Diff (dblDeployment d) (dstDeployment tgt) = Ok (False, [])"
  using read_back [where ImageLabels = ImageLabels and message = message and labelMessage = labelMessage, OF assms] by blast

definition demo_deployable :: Deployable where
  "demo_deployable = \<lparr>dblStatus = DeployStatusPending,
     dblDeployment = example_deployment\<lparr>dCluster := Some (cluster_of_url ''http://singularity''),
        dDeployConfig := (dDeployConfig example_deployment)
          \<lparr>dcResources := Some [(''cpus'', ''0.25''), (''memory'', ''512''), (''ports'', ''2'')]\<rparr>\<rparr>,
     dblArtifact = Some \<lparr>baName = ''registry/sous:1'', baType = ''docker'', baQualities = []\<rparr>\<rparr>"

definition demo_client :: "SingularityDeploy \<Rightarrow> singClient" where
  "demo_client dep = \<lparr>GetRequest = (\<lambda>_. Inl FailedStatusError),
     GetDeploys = (\<lambda>r. Inr [\<lparr>dhDeploy = None, dhDeployResult = None,
       dhDeployMarker = Some \<lparr>dmRequestId = r, dmDeployId = ''dep''\<rparr>\<rparr>]),
     GetDeploy = (\<lambda>r d. Inr \<lparr>dhDeploy = Some dep,
       dhDeployResult = Some \<lparr>drsDeployState = ''SUCCEEDED'', drsMessage = [], drsDeployFailures = []\<rparr>,
       dhDeployMarker = None\<rparr>)\<rparr>"

definition demo_sreq :: "SingularityRequest \<Rightarrow> SingularityDeploy \<Rightarrow> SingReq" where
  "demo_sreq request dep = \<lparr>srqSourceURL = ''http://singularity'', srqSing = demo_client dep,
     srqReqParent = Some \<lparr>rpRequest = Some request, rpState = ''ACTIVE'',
       rpRequestDeployState = Some \<lparr>rdsPendingDeploy = None\<rparr>, rpActiveDeploy = Some dep, rpPendingDeploy = None\<rparr>\<rparr>"

lemma demo_shows_latest:
  "shows_latest (demo_sreq request dep) request dep (Some \<lparr>drsDeployState = ''SUCCEEDED'', drsMessage = [], drsDeployFailures = []\<rparr>)"
  by (simp add: shows_latest_def demo_sreq_def demo_client_def)

lemma demo_carried: "carried (dblDeployment demo_deployable)"
proof -
  have "special_float ''0.25'' = None" "special_float ''512'' = None" by code_simp+
  then have "parseFloat ''0.25'' = Some (Fin (25 / 100))" "parseFloat ''512'' = Some (Fin 512)"
    by (simp_all add: parseFloat_def is_digit_def finite_float_def float_limit_def Let_def)
  then have "moderate (Resources_Cpus [(''cpus'', ''0.25''), (''memory'', ''512''), (''ports'', ''2'')])"
    "moderate (Resources_Memory [(''cpus'', ''0.25''), (''memory'', ''512''), (''ports'', ''2'')])"
    by (simp_all add: Resources_Cpus_def Resources_Memory_def rez_lookup_def)
  then show ?thesis
    by (simp add: carried_def demo_deployable_def example_deployment_def zeroDeployConfig_def wf_deployment_def wf_config_def
        wf_version_def example_sid_def in_int64_def in_int32_def zeroStartup_def startup_in_range_def
        validPreAndMetaChar_def is_digit_def)
qed

theorem deploy_reads_back_witness:
  "\<exists>request dep tgt. Singularity_BuildDeployment (\<lambda>_. Inr (Some (Labels example_sid))) (\<lambda>_. []) (\<lambda>_. [])
       [(''left'', cluster_of_url ''http://singularity'')] (demo_sreq request dep) = Some (tgt, None)
     \<and> Deployment_Diff (dblDeployment demo_deployable) (dstDeployment tgt) = Ok (False, [])"
proof -
  obtain url request where r: "singRequestFromDeployment (dblDeployment demo_deployable) ''req'' = Ok (url, request)"
    by (simp add: singRequestFromDeployment_def demo_deployable_def example_deployment_def determineRequestType_def
        manifest_kind_defs)
  obtain dep where dep: "buildDeployRequest demo_deployable ''req'' ''dep'' (Some (Labels example_sid)) = Ok dep"
    by (simp add: buildDeployRequest_def demo_deployable_def Let_def)
  have "labelled_as (Labels example_sid) (dSourceID (dblDeployment demo_deployable))"
    by (simp add: labelled_as_def demo_deployable_def example_deployment_def)
  from deploy_reads_back [where ImageLabels = "\<lambda>_. Inr (Some (Labels example_sid))" and message = "\<lambda>_. []" and labelMessage = "\<lambda>_. []"
      and clusters = "[(''left'', cluster_of_url ''http://singularity'')]", OF demo_carried _ _ this r dep demo_shows_latest]
  show ?thesis by (auto simp: demo_deployable_def example_deployment_def)
qed

end
