(* ===== verification/Singularity_Deployer.thy ===== *)
theory Singularity_Deployer
  imports Read_Back
begin

text \<open>
  The Singularity deployer (\<open>ext/singularity/deployer.go\<close>, \<open>ext/singularity/requeststate.go\<close>):
  what it does with a pair of deployables. The client is a record of its two calls; a call is
  \<open>Ok\<close>, returns an error, or panics. Each operation returns the calls it made, in order. Log
  messages are left out. \<open>newUUID\<close> is the UUID that \<open>uuid.NewV4\<close> would give.
\<close>

section \<open>Operations\<close>

record rectificationClient =
  rcPostRequest :: "Deployable \<Rightarrow> string \<Rightarrow> (goerror, unit) outcome"
  rcDeploy :: "Deployable \<Rightarrow> string \<Rightarrow> string \<Rightarrow> (goerror, unit) outcome"

datatype client_call = CallPostRequest Deployable string | CallDeploy Deployable string string

text \<open>\<open>rectifyRecover\<close> turns a panic into an error.\<close>

definition panicked :: goerror where
  "panicked = PlainError ''*errors.fundamental'' ''Panicked''"

definition rectifyRecover :: "(goerror, unit) outcome \<Rightarrow> goerror option" where
  "rectifyRecover r = (case r of Ok _ \<Rightarrow> None | Err e \<Rightarrow> Some e | Panic \<Rightarrow> Some panicked)"

definition request_id_error :: "id_error \<Rightarrow> goerror" where
  "request_id_error e =
     (case e of NotARepo r \<Rightarrow> fmt_error (''string '' @ fmt_quote r @ '' does not represent a repo'') | _ \<Rightarrow> fmt_error [])"

definition RectifySingleCreate ::
    "rectificationClient \<Rightarrow> (string \<Rightarrow> string) \<Rightarrow> string \<Rightarrow> Deployable \<Rightarrow> client_call list \<times> goerror option" where
  "RectifySingleCreate client md5sum uid post =
     (case computeRequestID md5sum post of
        Panic \<Rightarrow> ([], Some panicked)
      | Err e \<Rightarrow> ([], Some (request_id_error e))
      | Ok rid \<Rightarrow>
          (case rectifyRecover (rcPostRequest client post rid) of
             Some err \<Rightarrow> ([CallPostRequest post rid], Some err)
           | None \<Rightarrow>
               (let depID = computeDeployIDFromUUID post uid
                in ([CallPostRequest post rid, CallDeploy post rid depID], rectifyRecover (rcDeploy client post rid depID)))))"

definition no_task_data :: goerror where
  "no_task_data = PlainError ''*errors.fundamental'' ''record doesn't contain Singularity compatible data''"

definition RectifySingleDelete :: "DeployablePair \<Rightarrow> goerror option" where
  "RectifySingleDelete d = (case dpExecutorData d of None \<Rightarrow> Some no_task_data | Some data \<Rightarrow> None)"

definition changesReq :: "Deployable \<Rightarrow> Deployable \<Rightarrow> bool" where
  "changesReq prior post =
     (let p = dblDeployment prior; q = dblDeployment post
      in dKind p = ManifestKindScheduled \<and> dcSchedule (dDeployConfig p) \<noteq> dcSchedule (dDeployConfig q)
         \<or> dKind p \<noteq> dKind q
         \<or> dcNumInstances (dDeployConfig p) \<noteq> dcNumInstances (dDeployConfig q)
         \<or> \<not> OwnerSet_Equal (dOwners p) (dOwners q))"

definition changesDep :: "Deployable \<Rightarrow> Deployable \<Rightarrow> bool" where
  "changesDep prior post =
     (let p = dblDeployment prior; q = dblDeployment post
      in dblStatus post = DeployStatusFailed \<or> dblStatus prior = DeployStatusFailed
         \<or> \<not> (SourceID_Equal (dSourceID p) (dSourceID q)
              \<and> Resources_Equal (nilmap (dcResources (dDeployConfig p))) (nilmap (dcResources (dDeployConfig q)))
              \<and> Env_Equal (dcEnv (dDeployConfig p)) (dcEnv (dDeployConfig q))
              \<and> Volumes_Equal (dcVolumes (dDeployConfig p)) (dcVolumes (dDeployConfig q))
              \<and> Startup_Equal (dcStartup (dDeployConfig p)) (dcStartup (dDeployConfig q))))"

text \<open>
  \<open>RectifySingleModification\<close>: the comparison at its start, which is only logged, is made before
  the recovery is installed.
\<close>

definition RectifySingleModification ::
    "rectificationClient \<Rightarrow> string \<Rightarrow> DeployablePair \<Rightarrow> Deployable \<Rightarrow> Deployable
     \<Rightarrow> (goerror, client_call list \<times> goerror option) outcome" where
  "RectifySingleModification client uid pair prior post =
     (case Deployment_Diff (dblDeployment post) (dblDeployment prior) of
        Panic \<Rightarrow> Panic
      | _ \<Rightarrow>
          (case dpExecutorData pair of
             None \<Rightarrow> Ok ([], Some no_task_data)
           | Some rid \<Rightarrow>
               (let depID = computeDeployIDFromUUID post uid;
                    (calls, err) = (if changesReq prior post
                       then ([CallPostRequest post rid], rectifyRecover (rcPostRequest client post rid)) else ([], None))
                in if err \<noteq> None then Ok (calls, err)
                   else if changesDep prior post
                   then Ok (calls @ [CallDeploy post rid depID], rectifyRecover (rcDeploy client post rid depID))
                   else Ok (calls, None))))"

definition resolution_of :: "DeployablePair \<Rightarrow> string \<Rightarrow> error_wrapper option \<Rightarrow> DiffResolution" where
  "resolution_of pair desc err = zeroResolution\<lparr>drDeploymentID := dpName pair, drDesc := desc, drError := err\<rparr>"

definition create_error :: "Deployable \<Rightarrow> goerror \<Rightarrow> error_wrapper" where
  "create_error post err =
     (let wrapped = WrapResolveError (CreateError (Deployment_Clone (dblDeployment post)) err)
      in case err of ReqError status msg \<Rightarrow> (if status = 400 then WrapResolveError err else wrapped) | _ \<Rightarrow> wrapped)"

text \<open>\<open>Rectify\<close>: the pair with its UUID, the calls made, and the resolution.\<close>

definition Deployer_Rectify ::
    "rectificationClient \<Rightarrow> (string \<Rightarrow> string) \<Rightarrow> string \<Rightarrow> DeployablePair
     \<Rightarrow> (goerror, DeployablePair \<times> client_call list \<times> DiffResolution) outcome" where
  "Deployer_Rectify client md5sum newUUID pair0 =
     (let pair = (if dpUUID pair0 = zeroUUID then pair0\<lparr>dpUUID := newUUID\<rparr> else pair0)
      in case DeployablePair_Kind pair of
          Panic \<Rightarrow> Panic
        | Err e \<Rightarrow> Panic
        | Ok SameKind \<Rightarrow>
            (case (DeployablePair_SameResolution pair, dpPost pair) of
               (Ok resolution, Some post) \<Rightarrow>
                 Ok (pair, [], if dblStatus post = DeployStatusFailed
                               then resolution\<lparr>drError := Some (WrapResolveError FailedStatusError)\<rparr> else resolution)
             | _ \<Rightarrow> Panic)
        | Ok AddedKind \<Rightarrow>
            (case dpPost pair of
               None \<Rightarrow> Panic
             | Some post \<Rightarrow>
                 (case RectifySingleCreate client md5sum (dpUUID pair) post of
                    (calls, Some err) \<Rightarrow> Ok (pair, calls, resolution_of pair ''not created'' (Some (create_error post err)))
                  | (calls, None) \<Rightarrow> Ok (pair, calls, resolution_of pair CreateDiff None)))
        | Ok RemovedKind \<Rightarrow>
            (case dpPrior pair of
               None \<Rightarrow> Panic
             | Some prior \<Rightarrow>
                 (case RectifySingleDelete pair of
                    Some err \<Rightarrow> Ok (pair, [], resolution_of pair ''not deleted''
                      (Some (WrapResolveError (DeleteError (Deployment_Clone (dblDeployment prior)) err))))
                  | None \<Rightarrow> Ok (pair, [], resolution_of pair DeleteDiff None)))
        | Ok ModifiedKind \<Rightarrow>
            (case (dpPrior pair, dpPost pair) of
               (Some prior, Some post) \<Rightarrow>
                 (case RectifySingleModification client (dpUUID pair) pair prior post of
                    Panic \<Rightarrow> Panic
                  | Err e \<Rightarrow> Panic
                  | Ok (calls, Some err) \<Rightarrow> Ok (pair, calls, resolution_of pair ''not updated''
                      (Some (WrapResolveError (ChangeError (Some (Deployment_Clone (dblDeployment prior)))
                         (Some (Deployment_Clone (dblDeployment post))) err))))
                  | Ok (calls, None) \<Rightarrow>
                      Ok (pair, calls, resolution_of pair ModifyDiff
                        (if dblStatus prior = DeployStatusFailed \<or> dblStatus post = DeployStatusFailed
                         then Some (WrapResolveError FailedStatusError) else None)))
             | _ \<Rightarrow> Panic))"

text \<open>
  \<open>Status\<close>: the state that the polls of a rectification see. \<open>client\<close> is the Singularity client
  of a base URL.
\<close>

definition Deployer_Status ::
    "(string \<Rightarrow> string) \<Rightarrow> (string \<Rightarrow> singClient)
     \<Rightarrow> (string \<Rightarrow> goerror + (string, string) gomap option) \<Rightarrow> (goerror \<Rightarrow> string) \<Rightarrow> (label_error \<Rightarrow> string)
     \<Rightarrow> Clusters \<Rightarrow> DeployablePair \<Rightarrow> (goerror, DeployState \<times> build_error option) outcome" where
  "Deployer_Status md5sum client ImageLabels message labelMessage clusters pair =
     (case dpPost pair of
        None \<Rightarrow> Panic
      | Some post \<Rightarrow>
          (case computeRequestID md5sum post of
             Panic \<Rightarrow> Panic
           | Err e \<Rightarrow> Err (request_id_error e)
           | Ok rid \<Rightarrow>
               (case gget clusters (dClusterName (dblDeployment post)) of
                  None \<Rightarrow> Err (PlainError ''*errors.fundamental'' ''No cluster found'')
                | Some cluster \<Rightarrow>
                    (let url = clBaseURL cluster; sing = client url
                     in case GetRequest sing rid of
                         Inl err \<Rightarrow> Err (WithCause ''getting request'' err)
                       | Inr reqParent \<Rightarrow>
                           (case Singularity_BuildDeployment ImageLabels message labelMessage clusters
                                   \<lparr>srqSourceURL = url, srqSing = sing, srqReqParent = Some reqParent\<rparr> of
                              None \<Rightarrow> Panic
                            | Some (tgt, err) \<Rightarrow>
                                Ok (tgt\<lparr>dstSchedulerURL := ''http://'' @ url @ ''/request/'' @ rid\<rparr>, err))))))"

section \<open>Facts\<close>

fun is_metadata :: "difference \<Rightarrow> bool" where
  "is_metadata (DMetadata a b) = True"
| "is_metadata _ = False"

definition has_real :: "difference list \<Rightarrow> bool" where
  "has_real ds = list_ex (\<lambda>x. \<not> is_metadata x) ds"

lemma has_real_simps [simp]:
  "has_real [] = False" "has_real (xs @ ys) \<longleftrightarrow> has_real xs \<or> has_real ys"
  "has_real (diff_if b x) \<longleftrightarrow> b \<and> \<not> is_metadata x"
  "has_real (map DOwner os) \<longleftrightarrow> os \<noteq> []"
  by (simp_all add: has_real_def diff_if_def) (cases os; simp)

lemma has_real_Startup_diff: "has_real (Startup_diff a b) \<longleftrightarrow> \<not> Startup_Equal a b"
proof -
  have one: "list_all P (diff_if c x) \<longleftrightarrow> (c \<longrightarrow> P x)" for P c and x :: difference by (simp add: diff_if_def)
  have "list_all (\<lambda>x. \<not> is_metadata x) (statuses_diff l r)" for l r by (simp add: statuses_diff_def one)
  then have "list_all (\<lambda>x. \<not> is_metadata x) (Startup_diff a b)"
    unfolding Startup_diff_def Let_def list_all_append one by simp
  then have "has_real (Startup_diff a b) \<longleftrightarrow> Startup_diff a b \<noteq> []"
    by (cases "Startup_diff a b") (auto simp: has_real_def)
  then show ?thesis by (simp add: Startup_Equal_Nil)
qed

lemma has_real_DeployConfig_Diff:
  "has_real (snd (DeployConfig_Diff a b)) \<longleftrightarrow>
     dcNumInstances a \<noteq> dcNumInstances b \<or> \<not> Env_Equal (dcEnv a) (dcEnv b)
     \<or> \<not> Resources_Equal (nilmap (dcResources a)) (nilmap (dcResources b))
     \<or> \<not> Volumes_Equal (dcVolumes a) (dcVolumes b) \<or> \<not> Startup_Equal (dcStartup a) (dcStartup b)"
proof -
  have "Env_Equal [] []" "Volumes_Equal [] []" by (simp_all add: Env_Equal_def Volumes_Equal_def)
  moreover have "Resources_Equal [] []" by (rule Resources_Equal_same) simp_all
  ultimately show ?thesis
    by (auto simp: DeployConfig_Diff_def Let_def has_real_Startup_diff)
qed

lemma OwnerSet_Equal_lists:
  "OwnerSet_Equal os ps \<longleftrightarrow> length os = length ps \<and> filter (\<lambda>x. x \<notin> set ps) os = []"
  by (simp add: OwnerSet_Equal_def OwnerSet_Diff_def diff_if_def)

lemma has_real_Deployment_Diff:
  assumes "Deployment_Diff p q = Ok (b, ds)"
  shows "has_real ds \<longleftrightarrow>
     \<not> SourceID_Equal (dSourceID p) (dSourceID q) \<or> dKind p \<noteq> dKind q
     \<or> dKind p = ManifestKindScheduled \<and> dcSchedule (dDeployConfig p) \<noteq> dcSchedule (dDeployConfig q)
     \<or> \<not> OwnerSet_Equal (dOwners p) (dOwners q) \<or> has_real (snd (DeployConfig_Diff (dDeployConfig p) (dDeployConfig q)))"
proof -
  have id: "Deployment_ID p = Deployment_ID q" using assms by (auto simp: Deployment_Diff_def split: if_splits)
  then have "dClusterName p = dClusterName q" "dFlavor p = dFlavor q" by (simp_all add: Deployment_ID_iff)
  then show ?thesis
    using assms id by (auto simp: Deployment_Diff_def OwnerSet_Equal_lists Let_def)
qed

lemma changes_iff:
  assumes "Deployment_Diff (dblDeployment prior) (dblDeployment post) = Ok (b, ds)"
  shows "changesReq prior post \<or> changesDep prior post \<longleftrightarrow>
     dblStatus prior = DeployStatusFailed \<or> dblStatus post = DeployStatusFailed \<or> has_real ds"
  unfolding has_real_Deployment_Diff [OF assms] has_real_DeployConfig_Diff changesReq_def changesDep_def Let_def
  by blast

text \<open>The calls of a modification, and its error.\<close>

lemma RectifySingleModification_cases:
  fixes client :: rectificationClient and uid rid :: string
  assumes "Deployment_ID (dblDeployment prior) = Deployment_ID (dblDeployment post)" and "dpExecutorData pair = Some rid"
    and req_err: "req_err = (if changesReq prior post then rectifyRecover (rcPostRequest client post rid) else None)"
    and dep: "dep = computeDeployIDFromUUID post uid"
  shows "RectifySingleModification client uid pair prior post = Ok
     ((if changesReq prior post then [CallPostRequest post rid] else [])
        @ (if changesDep prior post \<and> req_err = None then [CallDeploy post rid dep] else []),
      if req_err \<noteq> None then req_err
      else if changesDep prior post then rectifyRecover (rcDeploy client post rid dep) else None)"
proof -
  obtain b ds where "Deployment_Diff (dblDeployment post) (dblDeployment prior) = Ok (b, ds)"
    using Deployment_Diff_total [of "dblDeployment post" "dblDeployment prior"] assms(1) by auto
  then show ?thesis
    by (auto simp: RectifySingleModification_def assms(2) req_err dep Let_def)
qed

text \<open>The deployer as a rectification sees it, and that it keeps the contract.\<close>

definition Deployer_resolve :: "rectificationClient \<Rightarrow> (string \<Rightarrow> string) \<Rightarrow> string \<Rightarrow> deployer_rectify" where
  "Deployer_resolve client md5sum newUUID pair =
     (case Deployer_Rectify client md5sum newUUID pair of
        Ok (pair', calls, rez) \<Rightarrow> Ok (pair', rez) | Err e \<Rightarrow> Err e | Panic \<Rightarrow> Panic)"

definition with_uuid :: "string \<Rightarrow> DeployablePair \<Rightarrow> DeployablePair" where
  "with_uuid newUUID pair = (if dpUUID pair = zeroUUID then pair\<lparr>dpUUID := newUUID\<rparr> else pair)"

lemma with_uuid_sel [simp]:
  "dpPrior (with_uuid u p) = dpPrior p" "dpPost (with_uuid u p) = dpPost p" "dpName (with_uuid u p) = dpName p"
  "dpExecutorData (with_uuid u p) = dpExecutorData p"
  by (simp_all add: with_uuid_def)

lemma Kind_with_uuid [simp]: "DeployablePair_Kind (with_uuid u p) = DeployablePair_Kind p"
  by (simp add: DeployablePair_Kind_def DeployablePair_Diffs_def)

lemma Deployer_Rectify_shape:
  assumes "Deployer_Rectify client md5sum newUUID pair = Ok (pair', calls, rez)"
  shows "pair' = with_uuid newUUID pair \<and> drDeployState rez = None"
proof -
  obtain k where k: "DeployablePair_Kind (with_uuid newUUID pair) = Ok k"
    using assms by (auto simp: Deployer_Rectify_def with_uuid_def [symmetric] Let_def split: outcome.splits)
  show ?thesis
    using assms k unfolding Deployer_Rectify_def with_uuid_def [symmetric] Let_def
    by (cases k) (auto simp: resolution_of_def zeroResolution_def DeployablePair_SameResolution_def
        split: outcome.splits option.splits prod.splits if_splits)
qed

interpretation sing: deployer_contract "Deployer_resolve client md5sum newUUID" for client md5sum newUUID
proof
  show "drDeployState rez = None" if "Deployer_resolve client md5sum newUUID p = Ok (p', rez)" for p p' rez
    using that Deployer_Rectify_shape by (auto simp: Deployer_resolve_def split: outcome.splits)
  show "dpPrior p' = dpPrior p \<and> dpPost p' = dpPost p \<and> dpName p' = dpName p"
    if "Deployer_resolve client md5sum newUUID p = Ok (p', rez)" for p p' rez
    using that Deployer_Rectify_shape by (fastforce simp: Deployer_resolve_def split: outcome.splits)
qed

lemma rectifyRecover_None [simp]: "rectifyRecover r = None \<longleftrightarrow> r = Ok ()"
  by (simp add: rectifyRecover_def split: outcome.splits)

lemma Modified_same_id:
  "DeployablePair_Kind pair = Ok ModifiedKind \<Longrightarrow> dpPrior pair = Some prior \<Longrightarrow> dpPost pair = Some post
   \<Longrightarrow> Deployment_ID (dblDeployment prior) = Deployment_ID (dblDeployment post)"
  by (rule ccontr) (simp add: DeployablePair_Kind_def DeployablePair_Diffs_def Deployment_Diff_def)

lemma Deployer_Rectify_modified:
  assumes "DeployablePair_Kind pair = Ok ModifiedKind" and "dpPrior pair = Some prior" and "dpPost pair = Some post"
    and "RectifySingleModification client (dpUUID (with_uuid u pair)) (with_uuid u pair) prior post = Ok (calls, err)"
  shows "\<exists>rez. Deployer_Rectify client md5sum u pair = Ok (with_uuid u pair, calls, rez)
     \<and> (drError rez = None \<longleftrightarrow> err = None \<and> dblStatus prior \<noteq> DeployStatusFailed \<and> dblStatus post \<noteq> DeployStatusFailed)"
  using assms unfolding Deployer_Rectify_def with_uuid_def [symmetric] Let_def
  by (cases err) (simp_all add: resolution_of_def)

section \<open>Properties\<close>

text \<open>C7: What Sous does about a modified deployment that runs in Singularity. It calls Singularity
  exactly when a deployment failed or the two deployments differ in something other than their
  metadata; every call is for the request the deployment runs under; and the modification is
  reported without an error exactly when nothing had failed and each needed call, the
  request first, was accepted.\<close>

theorem modification_calls:
  assumes kind: "DeployablePair_Kind pair = Ok ModifiedKind" and prior: "dpPrior pair = Some prior"
    and post: "dpPost pair = Some post" and rid: "dpExecutorData pair = Some rid"
    and diff: "Deployment_Diff (dblDeployment prior) (dblDeployment post) = Ok (b, ds)"
    and dep: "depID = computeDeployIDFromUUID post (dpUUID (with_uuid newUUID pair))"
  shows "\<exists>calls rez. Deployer_Rectify client md5sum newUUID pair = Ok (with_uuid newUUID pair, calls, rez)
     \<and> (calls = [] \<longleftrightarrow> dblStatus prior \<noteq> DeployStatusFailed \<and> dblStatus post \<noteq> DeployStatusFailed
                        \<and> (\<forall>x \<in> set ds. is_metadata x))
     \<and> set calls \<subseteq> {CallPostRequest post rid, CallDeploy post rid depID}
     \<and> (drError rez = None \<longleftrightarrow>
          dblStatus prior \<noteq> DeployStatusFailed \<and> dblStatus post \<noteq> DeployStatusFailed
          \<and> (changesReq prior post \<longrightarrow> rcPostRequest client post rid = Ok ())
          \<and> (changesDep prior post \<longrightarrow> rcDeploy client post rid depID = Ok ()))"
proof -
  define req_err where "req_err = (if changesReq prior post then rectifyRecover (rcPostRequest client post rid) else None)"
  define calls where "calls = (if changesReq prior post then [CallPostRequest post rid] else [])
      @ (if changesDep prior post \<and> req_err = None then [CallDeploy post rid depID] else [])"
  define err where "err = (if req_err \<noteq> None then req_err
      else if changesDep prior post then rectifyRecover (rcDeploy client post rid depID) else None)"
  have run: "RectifySingleModification client (dpUUID (with_uuid newUUID pair)) (with_uuid newUUID pair) prior post = Ok (calls, err)"
    unfolding calls_def err_def
    by (rule RectifySingleModification_cases [OF Modified_same_id [OF kind prior post] _ req_err_def dep]) (simp add: rid)
  obtain rez where rez: "Deployer_Rectify client md5sum newUUID pair = Ok (with_uuid newUUID pair, calls, rez)"
      "drError rez = None \<longleftrightarrow> err = None \<and> dblStatus prior \<noteq> DeployStatusFailed \<and> dblStatus post \<noteq> DeployStatusFailed"
    using Deployer_Rectify_modified [where md5sum = md5sum, OF kind prior post run] by (elim exE conjE) (rule that)
  have "calls = [] \<longleftrightarrow> \<not> (changesReq prior post \<or> changesDep prior post)"
    by (simp add: calls_def req_err_def)
  then have "calls = [] \<longleftrightarrow> dblStatus prior \<noteq> DeployStatusFailed \<and> dblStatus post \<noteq> DeployStatusFailed \<and> (\<forall>x \<in> set ds. is_metadata x)"
    unfolding changes_iff [OF diff] by (auto simp: has_real_def list_ex_iff)
  moreover have "set calls \<subseteq> {CallPostRequest post rid, CallDeploy post rid depID}" by (auto simp: calls_def)
  moreover have err: "err = None \<longleftrightarrow> (changesReq prior post \<longrightarrow> rcPostRequest client post rid = Ok ())
      \<and> (changesDep prior post \<longrightarrow> rcDeploy client post rid depID = Ok ())"
    by (auto simp: err_def req_err_def simp flip: rectifyRecover_None)
  moreover have "drError rez = None \<longleftrightarrow> dblStatus prior \<noteq> DeployStatusFailed \<and> dblStatus post \<noteq> DeployStatusFailed
      \<and> (changesReq prior post \<longrightarrow> rcPostRequest client post rid = Ok ())
      \<and> (changesDep prior post \<longrightarrow> rcDeploy client post rid depID = Ok ())"
    unfolding rez(2) err by blast
  ultimately show ?thesis using rez(1) by (intro exI [of _ calls] exI [of _ rez] conjI)
qed

definition accepting :: rectificationClient where
  "accepting = \<lparr>rcPostRequest = (\<lambda>d r. Ok ()), rcDeploy = (\<lambda>d r i. Ok ())\<rparr>"

definition scaled_pair :: DeployablePair where
  "scaled_pair = \<lparr>dpPrior = Some (active example_deployment),
     dpPost = Some (active (example_deployment\<lparr>dDeployConfig := zeroDeployConfig\<lparr>dcNumInstances := 3\<rparr>\<rparr>)),
     dpName = Deployment_ID example_deployment, dpExecutorData = Some ''req'', dpUUID = zeroUUID\<rparr>"

theorem modification_calls_witness:
  "\<exists>calls rez. Deployer_Rectify accepting (\<lambda>s. s) zeroUUID scaled_pair = Ok (with_uuid zeroUUID scaled_pair, calls, rez)
     \<and> calls \<noteq> [] \<and> drError rez = None"
proof -
  define post where "post = active (example_deployment\<lparr>dDeployConfig := zeroDeployConfig\<lparr>dcNumInstances := 3\<rparr>\<rparr>)"
  have d: "Deployment_Diff (dblDeployment (active example_deployment)) (dblDeployment post) = Ok (True, [DNumInstances 2 3])"
    by (simp add: post_def active_def example_deployment_def zeroDeployConfig_def Deployment_Diff_def Deployment_ID_def
        Deployment_ManifestID_def SourceID_Equal_iff DeployConfig_Diff_def diff_if_def Startup_diff_def statuses_diff_def)
  then have "DeployablePair_Kind scaled_pair = Ok ModifiedKind"
    by (simp add: DeployablePair_Kind_def DeployablePair_Diffs_def scaled_pair_def post_def)
  from modification_calls [OF this, of "active example_deployment" post "''req''" _ _ _ zeroUUID accepting "\<lambda>s. s", OF _ _ _ d refl]
  show ?thesis by (auto simp: scaled_pair_def post_def active_def accepting_def)
qed

text \<open>C8: When a rectification by the Singularity deployer ends without an error and with an active
  deployment, the deployer was called on the deployment of the rectification and reported no
  error, and one of its answers to the polls showed exactly that state, for the intended
  source.\<close>

theorem singularity_success_sound:
  assumes "Rectification_Begin (Deployer_resolve client md5sum newUUID) reg message None polls r = Ok r'"
    and "drError (rResolution r') = None"
    and "drDeployState (rResolution r') = Some s" and "dstStatus s = DeployStatusActive"
  shows "Inr (Some s) \<in> set polls
     \<and> (\<exists>post. dpPost (rPair r) = Some post
          \<and> SourceID_Equal (dSourceID (dstDeployment s)) (dSourceID (dblDeployment post)))
     \<and> (\<exists>p p' calls rez. Deployer_Rectify client md5sum newUUID p = Ok (p', calls, rez) \<and> drError rez = None
          \<and> dpName p = dpName (rPair r) \<and> dpPrior p = dpPrior (rPair r)
          \<and> map_option dblDeployment (dpPost p) = map_option dblDeployment (dpPost (rPair r)))"
proof -
  have "Deployer_resolve client md5sum newUUID p = Ok (p', rez)
      \<longleftrightarrow> (\<exists>calls. Deployer_Rectify client md5sum newUUID p = Ok (p', calls, rez))" for p p' rez
    by (auto simp: Deployer_resolve_def split: outcome.splits)
  with sing.success_sound [OF assms] show ?thesis by simp metis
qed

definition example_state :: DeployState where
  "example_state = promoted DeployStatusActive example_deployment"

definition created_pair :: DeployablePair where
  "created_pair = plain_pair (Deployment_ID example_deployment) None
     (Some ((active example_deployment)\<lparr>dblArtifact := Some \<lparr>baName = ''img'', baType = ''docker'', baQualities = []\<rparr>\<rparr>))"

theorem singularity_success_sound_witness:
  "\<exists>post. dpPost created_pair = Some post
     \<and> SourceID_Equal (dSourceID (dstDeployment example_state)) (dSourceID (dblDeployment post))"
proof -
  have "\<exists>r'. Rectification_Begin (Deployer_resolve accepting (\<lambda>s. s) zeroUUID) example_registry (\<lambda>_. []) None
      [Inr (Some example_state)] (NewRectification created_pair) = Ok r' \<and> drError (rResolution r') = None
      \<and> drDeployState (rResolution r') = Some example_state"
    by (simp add: Rectification_Begin_def rectify_def run_deployer_def NewRectification_def created_pair_def plain_pair_def
        active_def Deployer_resolve_def Deployer_Rectify_def DeployablePair_Kind_def RectifySingleCreate_def
        computeRequestID_def MakeRequestID_def ShortName_def Deployment_ID_def Deployment_ManifestID_def
        example_deployment_def example_sid_def accepting_def rectifyRecover_def resolution_of_def zeroResolution_def
        awaitDone_def example_state_def promoted_def DeployState_Final_def SourceID_Equal_iff record_final_def
        zeroUUID_def Let_def)
  then obtain r' where r': "Rectification_Begin (Deployer_resolve accepting (\<lambda>s. s) zeroUUID) example_registry (\<lambda>_. []) None
      [Inr (Some example_state)] (NewRectification created_pair) = Ok r'" "drError (rResolution r') = None"
      "drDeployState (rResolution r') = Some example_state"
    by blast
  have "dstStatus example_state = DeployStatusActive" by (simp add: example_state_def promoted_def)
  from singularity_success_sound [OF r' this] show ?thesis by (simp add: NewRectification_def)
qed

section \<open>What is never settled\<close>

text \<open>A removed deployment is reported as deleted, but no call is made for it.\<close>

theorem removal_deletes_nothing:
  assumes "DeployablePair_Kind pair = Ok RemovedKind" and "dpPrior pair = Some prior" and "dpExecutorData pair = Some rid"
  shows "\<exists>rez. Deployer_Rectify client md5sum newUUID pair = Ok (with_uuid newUUID pair, [], rez)
     \<and> drDesc rez = DeleteDiff \<and> drError rez = None"
  using assms unfolding Deployer_Rectify_def with_uuid_def [symmetric] Let_def
  by (simp add: RectifySingleDelete_def resolution_of_def)

text \<open>The metadata that the target of a builder has.\<close>

definition target_metadata :: "deploymentBuilder \<Rightarrow> Metadata option" where
  "target_metadata db = dcMetadata (dDeployConfig (dstDeployment (dbTarget db)))"

definition keeps_metadata :: "build_step \<Rightarrow> bool" where
  "keeps_metadata step = (\<forall>db db' e. step db = Some (db', e) \<longrightarrow> target_metadata db' = target_metadata db)"

lemmas keeps_defs = keeps_metadata_def target_metadata_def set_status_def on_deployment_def on_config_def
  step_ok_def step_err_def Let_def

lemma keeps_metadata_returned:
  "\<forall>f \<in> set fs. keeps_metadata f \<Longrightarrow> keeps_metadata (firsterr_Returned fs)"
proof (induction fs)
  case (Cons f fs)
  then have "keeps_metadata f" "keeps_metadata (firsterr_Returned fs)" by simp_all
  then show ?case
    unfolding keeps_metadata_def by (fastforce split: option.splits prod.splits)
qed (simp add: keeps_metadata_def)

lemma keeps_metadata_wrap: "keeps_metadata f \<Longrightarrow> keeps_metadata (wrapError f msg)"
  by (auto simp: keeps_metadata_def wrapError_def split: option.splits)

lemma keeps_metadata_steps:
  "keeps_metadata basics" "keeps_metadata getFullRequestParent" "keeps_metadata determineDeployStatus"
  "keeps_metadata retrieveLiveDeploy" "keeps_metadata extractDeployFromDeployHistory"
  "keeps_metadata (sousDeployCheck cs)" "keeps_metadata extractArtifactName"
  "keeps_metadata (retrieveImageLabels il m lm)" "keeps_metadata restoreFromMetadata" "keeps_metadata extractSchedule"
  by (auto simp: keeps_defs basics_def getFullRequestParent_def determineDeployStatus_def retrieveLiveDeploy_def
      extractDeployFromDeployHistory_def sousDeployCheck_def extractArtifactName_def retrieveImageLabels_def
      restoreFromMetadata_def extractSchedule_def split: option.splits if_splits sum.splits prod.splits)

lemma keeps_metadata_history: "keeps_metadata retrieveDeployHistory"
proof -
  have marker: "target_metadata (db\<lparr>dbDepMarker := m\<rparr>) = target_metadata db" for db m by (simp add: target_metadata_def)
  have live: "target_metadata db' = target_metadata db" if "retrieveLiveDeploy db = Some (db', e)" for db db' e
    using keeps_metadata_steps(4) that by (simp add: keeps_metadata_def)
  show ?thesis
    unfolding keeps_metadata_def retrieveDeployHistory_def retrieveHistoricDeploy_def step_err_def
    by (auto simp: marker dest: live split: option.splits if_splits sum.splits list.splits)
qed

lemma keeps_metadata_config:
  "keeps_metadata determineStatus" "keeps_metadata unpackDeployConfig" "keeps_metadata determineManifestKind"
  by (auto simp: keeps_defs determineStatus_def split: option.splits if_splits)
    (auto simp: keeps_defs unpackDeployConfig_def determineManifestKind_def split: option.splits if_splits)

lemma BuildDeployment_metadata:
  assumes "Singularity_BuildDeployment ImageLabels message labelMessage clusters sreq = Some (tgt, err)"
  shows "dcMetadata (dDeployConfig (dstDeployment tgt)) = None"
proof -
  obtain db e where db: "completeConstruction ImageLabels message labelMessage clusters (new_builder sreq) = Some (db, e)"
      "tgt = dbTarget db"
    using assms by (auto simp: Singularity_BuildDeployment_def split: option.splits)
  have "keeps_metadata (completeConstruction ImageLabels message labelMessage clusters)"
    unfolding completeConstruction_def
    by (rule keeps_metadata_returned) (auto intro!: keeps_metadata_wrap keeps_metadata_steps keeps_metadata_history keeps_metadata_config)
  then have "target_metadata db = target_metadata (new_builder sreq)" using db(1) by (simp add: keeps_metadata_def)
  then show ?thesis
    by (simp add: target_metadata_def db(2) new_builder_def zeroDeployState_def zeroDeployment_def zeroDeployConfig_def)
qed

text \<open>
  So a deployment with metadata never settles: whatever is read back from Singularity differs
  from it, on every resolution.
\<close>

theorem metadata_never_settles:
  assumes "Singularity_BuildDeployment ImageLabels message labelMessage clusters sreq = Some (tgt, None)"
    and "dcMetadata (dDeployConfig d) = Some md" and "md \<noteq> []"
    and "Deployment_ID (dstDeployment tgt) = Deployment_ID d"
  shows "\<exists>ds. Deployment_Diff (dstDeployment tgt) d = Ok (True, ds) \<and> DMetadata [] md \<in> set ds"
proof -
  have "\<not> Metadata_Equal [] md" using assms(3) by (simp add: Metadata_Equal_def)
  then have "DMetadata [] md \<in> set (snd (DeployConfig_Diff (dDeployConfig (dstDeployment tgt)) (dDeployConfig d)))"
    using BuildDeployment_metadata [OF assms(1)] assms(2,3) by (simp add: DeployConfig_Diff_def diff_if_def Let_def)
  then show ?thesis using assms(4) by (auto simp: Deployment_Diff_def Let_def)
qed

end
