(* ===== verification/Running_Deployments.thy ===== *)
theory Running_Deployments
  imports Deployment_Builder
begin

text \<open>
  Collecting what runs (\<open>ext/singularity/actual_deployment_set.go\<close>): \<open>RunningDeployments\<close> asks
  every Singularity server for its requests, assembles a deploy state from each of them in its
  own goroutine, and collects the results; requests that failed for a passing reason are sent
  again, up to a limit. The goroutines only send to the channels of the collecting loop, so a
  run is an interleaving of listings and finished assemblies, in any order, with any answers:
  the step relation \<open>rd_step\<close>. The pool that limits the assemblers does not restrict them and
  the pause before a retry are left out. \<open>depWait\<close>, the wait group of requests under way, is a
  number, and \<open>Done\<close> on zero panics.
\<close>

section \<open>Operations\<close>

definition retryLimit :: nat where "retryLimit = 3"

text \<open>The name of a request that can be retried; \<open>canRetry\<close> made sure that it has an ID.\<close>

definition canRetry_name :: "SingReq \<Rightarrow> string" where
  "canRetry_name req = srqSourceURL req @ '':'' @ reqID (srqReqParent req)"

type_synonym retryCounter = "(string, nat) gomap"

definition retry_count :: "retryCounter \<Rightarrow> string \<Rightarrow> nat" where
  "retry_count rc name = (case gget rc name of None \<Rightarrow> 0 | Some n \<Rightarrow> n)"

text \<open>\<open>maybe\<close>: the counter and the request that is sent again, if it is.\<close>

definition retry_maybe :: "build_error \<Rightarrow> retryCounter \<Rightarrow> (retryCounter \<times> SingReq) option" where
  "retry_maybe err rc =
     (case err of
        BuildErr e \<Rightarrow> None
      | CanRetryRequest e req \<Rightarrow>
          (let count = retry_count rc (canRetry_name req)
           in if count > retryLimit then None
              else Some (gset (canRetry_name req) (count + 1) rc, req)))"

definition malformed_or_ignorable :: "build_error \<Rightarrow> bool" where
  "malformed_or_ignorable err = (case err of BuildErr e \<Rightarrow> isMalformed e \<or> ignorableDeploy e | _ \<Rightarrow> False)"

record collector =
  coListing :: "string list"
  coInflight :: "SingReq list"
  coWait :: nat
  coRetries :: retryCounter
  coDeps :: DeployStates

datatype collect_result = Collecting collector | Returned DeployStates "build_error option" | Panicked

text \<open>What the loop does with an error it receives.\<close>

definition receive_error :: "build_error \<Rightarrow> collector \<Rightarrow> collect_result" where
  "receive_error err c =
     (if malformed_or_ignorable err
      then (if coWait c = 0 then Panicked else Collecting (c\<lparr>coWait := coWait c - 1\<rparr>))
      else case retry_maybe err (coRetries c) of
          None \<Rightarrow> Returned (coDeps c) (Some err)
        | Some (rc, req) \<Rightarrow> Collecting (c\<lparr>coRetries := rc, coInflight := coInflight c @ [req]\<rparr>))"

definition receive_dep :: "DeployState \<Rightarrow> collector \<Rightarrow> collect_result" where
  "receive_dep dep c =
     (if coWait c = 0 then Panicked
      else Collecting (c\<lparr>coDeps := fst (DeployStates_Add (coDeps c) dep), coWait := coWait c - 1\<rparr>))"

text \<open>
  A server's list of requests (\<open>singPipeline\<close>), sent on as one step. The loop reads the instances
  of every request for a log message, which panics on a parent without one; the panic is caught
  and sent as an error, with the requests before it under way.
\<close>

definition convertSingularityRequestParentsToSingReqs :: "string \<Rightarrow> singClient \<Rightarrow> SingularityRequestParent list \<Rightarrow> SingReq list" where
  "convertSingularityRequestParentsToSingReqs url client srp =
     map (\<lambda>sr. \<lparr>srqSourceURL = url, srqSing = client, srqReqParent = Some sr\<rparr>) srp"

definition list_requests :: "(string \<Rightarrow> singClient) \<Rightarrow> string \<Rightarrow> goerror + SingularityRequestParent list \<Rightarrow> collector \<Rightarrow> collect_result" where
  "list_requests client url answer c0 =
     (let c = c0\<lparr>coListing := remove1 url (coListing c0)\<rparr>
      in case answer of
          Inl err \<Rightarrow> receive_error (BuildErr (WithCause ''getting request list'' (WithCause ''getting request'' err))) c
        | Inr srp \<Rightarrow>
            (let logged = takeWhile (\<lambda>sr. rpRequest sr \<noteq> None) srp;
                 reqs = convertSingularityRequestParentsToSingReqs url (client url) logged;
                 c' = c\<lparr>coInflight := coInflight c @ reqs, coWait := coWait c + length reqs\<rparr>
             in if length logged < length srp
                then receive_error (BuildErr (WithCause (''get requests: '' @ url) (PlainError ''runtime.errorString'' ''nil pointer''))) c'
                else Collecting c'))"

text \<open>An assembly that finished: a deploy state or an error (\<open>depPipeline\<close>, \<open>assembleDeployState\<close>).\<close>

definition finish_assembly :: "SingReq \<Rightarrow> build_error + DeployState \<Rightarrow> collector \<Rightarrow> collect_result" where
  "finish_assembly req result c0 =
     (let c = c0\<lparr>coInflight := remove1 req (coInflight c0)\<rparr>
      in case result of Inl err \<Rightarrow> receive_error err c | Inr dep \<Rightarrow> receive_dep dep c)"

text \<open>
  \<open>assembleDeployState\<close> and what its goroutine sends: a panic is caught and sent as an error
  (\<open>catchAndSend\<close>). The wrappers around a request that can be retried are left out, since \<open>maybe\<close>
  looks only at the cause.
\<close>

definition assembleDeployState ::
    "(string \<Rightarrow> goerror + (string, string) gomap option) \<Rightarrow> (goerror \<Rightarrow> string) \<Rightarrow> (label_error \<Rightarrow> string)
     \<Rightarrow> Clusters \<Rightarrow> SingReq \<Rightarrow> build_error + DeployState" where
  "assembleDeployState ImageLabels message labelMessage clusters req =
     (case Singularity_BuildDeployment ImageLabels message labelMessage clusters req of
        None \<Rightarrow> Inl (BuildErr (WithCause (''dep from req '' @ srqSourceURL req) (PlainError ''runtime.errorString'' ''nil pointer'')))
      | Some (tgt, None) \<Rightarrow> Inr tgt
      | Some (tgt, Some (BuildErr err)) \<Rightarrow> Inl (BuildErr (WithCause ''assembly problem'' (WithCause ''Building deployment'' err)))
      | Some (tgt, Some err) \<Rightarrow> Inl err)"

fun distinct_urls :: "string list \<Rightarrow> string list \<Rightarrow> string list" where
  "distinct_urls sings [] = []"
| "distinct_urls sings (url # urls) =
     (if url \<in> set sings then distinct_urls sings urls else url # distinct_urls (url # sings) urls)"

definition RunningDeployments_start :: "Clusters \<Rightarrow> collector" where
  "RunningDeployments_start clusters =
     \<lparr>coListing = distinct_urls [] (map (\<lambda>(n, cl). clBaseURL cl) clusters), coInflight = [], coWait = 0,
      coRetries = [], coDeps = []\<rparr>"

text \<open>
  A step of a run. \<open>requests\<close> is the answer of each server to \<open>GetRequests\<close>; the answers an
  assembly gets are those of any client that, asked for a request, returns the one it was asked
  for, and of any registry. The channels are closed when nothing is under way.
\<close>

definition answers_by_id :: "singClient \<Rightarrow> bool" where
  "answers_by_id sing = (\<forall>rid rp. GetRequest sing rid = Inr rp \<longrightarrow> reqID (Some rp) = rid)"

inductive rd_step ::
    "Clusters \<Rightarrow> (string \<Rightarrow> singClient) \<Rightarrow> (string \<Rightarrow> goerror + SingularityRequestParent list)
     \<Rightarrow> collect_result \<Rightarrow> collect_result \<Rightarrow> bool"
  for clusters :: Clusters and client :: "string \<Rightarrow> singClient"
    and requests :: "string \<Rightarrow> goerror + SingularityRequestParent list" where
  rd_list: "url \<in> set (coListing c)
    \<Longrightarrow> rd_step clusters client requests (Collecting c) (list_requests client url (requests url) c)"
| rd_finish: "req \<in> set (coInflight c) \<Longrightarrow> answers_by_id sing
    \<Longrightarrow> rd_step clusters client requests (Collecting c)
          (finish_assembly req (assembleDeployState ImageLabels message labelMessage clusters (req\<lparr>srqSing := sing\<rparr>)) c)"
| rd_close: "coListing c = [] \<Longrightarrow> coInflight c = [] \<Longrightarrow> coWait c = 0
    \<Longrightarrow> rd_step clusters client requests (Collecting c) (Returned (coDeps c) None)"

inductive rd_run ::
    "Clusters \<Rightarrow> (string \<Rightarrow> singClient) \<Rightarrow> (string \<Rightarrow> goerror + SingularityRequestParent list)
     \<Rightarrow> nat \<Rightarrow> collect_result \<Rightarrow> collect_result \<Rightarrow> bool"
  for clusters :: Clusters and client :: "string \<Rightarrow> singClient"
    and requests :: "string \<Rightarrow> goerror + SingularityRequestParent list" where
  rd_refl: "rd_run clusters client requests 0 c c"
| rd_trans: "rd_run clusters client requests n c c' \<Longrightarrow> rd_step clusters client requests c' c''
    \<Longrightarrow> rd_run clusters client requests (Suc n) c c''"

inductive_cases rd_step_CollectingE: "rd_step clusters client requests (Collecting c) r"

inductive_simps rd_step_ended: "rd_step clusters client requests (Returned deps err) r"

section \<open>Facts\<close>

text \<open>
  The names of the requests a server lists, and the potential of a collection: what is still to
  be listed, what is under way, and the retries that are left.
\<close>

definition listed :: "goerror + SingularityRequestParent list \<Rightarrow> SingularityRequestParent list" where
  "listed answer = (case answer of Inl _ \<Rightarrow> [] | Inr srp \<Rightarrow> srp)"

definition listed_names :: "(string \<Rightarrow> goerror + SingularityRequestParent list) \<Rightarrow> string \<Rightarrow> string set" where
  "listed_names requests url = (\<lambda>sr. url @ '':'' @ reqID (Some sr)) ` set (listed (requests url))"

definition potential :: "(string \<Rightarrow> goerror + SingularityRequestParent list) \<Rightarrow> string set \<Rightarrow> collector \<Rightarrow> nat" where
  "potential requests N c =
     sum_list (map (\<lambda>url. Suc (length (listed (requests url)))) (coListing c)) + length (coInflight c)
     + (\<Sum>n\<in>N. Suc retryLimit - retry_count (coRetries c) n)"

definition collector_inv :: "(string \<Rightarrow> goerror + SingularityRequestParent list) \<Rightarrow> string set \<Rightarrow> collector \<Rightarrow> bool" where
  "collector_inv requests N c =
     (canRetry_name ` set (coInflight c) \<subseteq> N \<and> (\<forall>url \<in> set (coListing c). listed_names requests url \<subseteq> N)
      \<and> coWait c = length (coInflight c) \<and> keyed DeployState_ID (coDeps c))"

text \<open>What a step leads to from a collection \<open>c\<close>.\<close>

definition advances :: "(string \<Rightarrow> goerror + SingularityRequestParent list) \<Rightarrow> string set \<Rightarrow> collector \<Rightarrow> collect_result \<Rightarrow> bool" where
  "advances requests N c r =
     (case r of
        Panicked \<Rightarrow> False
      | Collecting c' \<Rightarrow> collector_inv requests N c' \<and> potential requests N c' < potential requests N c
      | Returned deps err \<Rightarrow> keyed DeployState_ID deps)"

lemma retry_count_gset: "retry_count (gset k v rc) n = (if n = k then v else retry_count rc n)"
  by (simp add: retry_count_def gget_update)

text \<open>
  An assembly that asks for a retry names the request it started from: of the steps only
  \<open>getFullRequestParent\<close> touches the request, and it replaces it by one with the same ID.
\<close>

definition assembly_result :: "SingReq \<Rightarrow> build_error + DeployState \<Rightarrow> bool" where
  "assembly_result req result =
     (case result of Inl (CanRetryRequest e r) \<Rightarrow> canRetry_name r = canRetry_name req | _ \<Rightarrow> True)"

lemma canRetry_name_sing [simp]: "canRetry_name (req\<lparr>srqSing := sing\<rparr>) = canRetry_name req"
  by (simp add: canRetry_name_def)

lemma assembly_result_sing [simp]: "assembly_result (req\<lparr>srqSing := sing\<rparr>) result = assembly_result req result"
  by (simp add: assembly_result_def split: sum.split build_error.split)

definition keeps_req :: "build_step \<Rightarrow> bool" where
  "keeps_req f = (\<forall>db db' e. f db = Some (db', e) \<longrightarrow> dbReq db' = dbReq db \<and> dbReqID db' = dbReqID db)"

lemma keeps_req_wrapError: "keeps_req f \<Longrightarrow> keeps_req (wrapError f msg)"
  by (auto simp: keeps_req_def wrapError_def split: option.splits)

lemma keeps_req_Returned: "list_all keeps_req fs \<Longrightarrow> keeps_req (firsterr_Returned fs)"
proof (induction fs)
  case Nil
  then show ?case by (simp add: keeps_req_def)
next
  case (Cons f fs)
  then have "keeps_req f" "keeps_req (firsterr_Returned fs)" by auto
  then show ?case unfolding keeps_req_def by (fastforce split: option.splits prod.splits)
qed

lemma on_deployment_req [simp]: "dbReq (on_deployment f db) = dbReq db" "dbReqID (on_deployment f db) = dbReqID db"
  by (simp_all add: on_deployment_def)

lemma on_config_req [simp]: "dbReq (on_config f db) = dbReq db" "dbReqID (on_config f db) = dbReqID db"
  by (simp_all add: on_config_def)

lemma set_status_req [simp]: "dbReq (set_status st db) = dbReq db" "dbReqID (set_status st db) = dbReqID db"
  by (simp_all add: set_status_def)

lemmas step_defs = keeps_req_def step_ok_def step_err_def Let_def

lemma keeps_req_live: "keeps_req retrieveLiveDeploy"
  by (auto simp: retrieveLiveDeploy_def step_defs split: option.splits sum.splits if_splits)

lemma keeps_req_historic: "keeps_req retrieveHistoricDeploy"
  using keeps_req_live
  by (fastforce simp: retrieveHistoricDeploy_def step_defs split: option.splits sum.splits list.splits)

lemma keeps_req_steps:
  "keeps_req determineDeployStatus" "keeps_req retrieveDeployHistory" "keeps_req extractDeployFromDeployHistory"
  "keeps_req (sousDeployCheck clusters)" "keeps_req determineStatus" "keeps_req extractArtifactName"
  "keeps_req (retrieveImageLabels ImageLabels message labelMessage)" "keeps_req restoreFromMetadata"
  "keeps_req unpackDeployConfig" "keeps_req determineManifestKind" "keeps_req extractSchedule"
proof -
  show "keeps_req determineDeployStatus"
    by (auto simp: determineDeployStatus_def step_defs split: option.splits if_splits)
  show "keeps_req retrieveDeployHistory"
    using keeps_req_live keeps_req_historic by (auto simp: retrieveDeployHistory_def keeps_req_def split: if_splits)
  show "keeps_req extractDeployFromDeployHistory"
    by (auto simp: extractDeployFromDeployHistory_def step_defs split: option.splits if_splits)
  show "keeps_req (sousDeployCheck clusters)"
    by (auto simp: sousDeployCheck_def step_defs split: option.splits if_splits)
  show "keeps_req determineStatus"
    by (auto simp: determineStatus_def step_defs split: option.splits if_splits)
  show "keeps_req extractArtifactName"
    by (auto simp: extractArtifactName_def step_defs split: option.splits if_splits)
  show "keeps_req (retrieveImageLabels ImageLabels message labelMessage)"
    by (auto simp: retrieveImageLabels_def step_defs split: option.splits sum.splits prod.splits)
  show "keeps_req restoreFromMetadata"
    by (auto simp: restoreFromMetadata_def step_defs split: option.splits prod.splits)
  show "keeps_req unpackDeployConfig"
    by (auto simp: unpackDeployConfig_def step_defs split: option.splits)
  show "keeps_req determineManifestKind"
    by (auto simp: determineManifestKind_def step_defs split: option.splits if_splits)
  show "keeps_req extractSchedule"
    by (auto simp: extractSchedule_def step_defs split: option.splits if_splits)
qed

lemma getFullRequestParent_names:
  assumes "getFullRequestParent db = Some (db', err)" and "answers_by_id (srqSing (dbReq db))"
    and "dbReqID db = reqID (srqReqParent (dbReq db))"
  shows "canRetry_name (dbReq db') = canRetry_name (dbReq db)"
  using assms
  by (auto simp: getFullRequestParent_def step_ok_def step_err_def canRetry_name_def answers_by_id_def
      split: option.splits sum.splits if_splits)

lemma first_steps_names:
  assumes run: "firsterr_Returned (wrapError basics m1 # wrapError getFullRequestParent m2 # fs) (new_builder req) = Some (db, err)"
    and fs: "list_all keeps_req fs" and ans: "answers_by_id (srqSing req)"
  shows "canRetry_name (dbReq db) = canRetry_name req"
proof -
  obtain rp where rp: "srqReqParent req = Some rp"
    using run by (cases "srqReqParent req") (auto simp: wrapError_def basics_def new_builder_def)
  then obtain db1 where b: "basics (new_builder req) = Some (db1, None)" "dbReq db1 = req" "dbReqID db1 = reqID (srqReqParent req)"
    by (simp add: basics_def new_builder_def step_ok_def Let_def)
  then obtain db2 e where g: "getFullRequestParent db1 = Some (db2, e)"
    using run by (cases "getFullRequestParent db1") (auto simp: wrapError_def)
  have n: "canRetry_name (dbReq db2) = canRetry_name req"
    using getFullRequestParent_names [OF g] b ans by simp
  show ?thesis
  proof (cases e)
    case None
    then have "firsterr_Returned fs db2 = Some (db, err)" using run b g by (simp add: wrapError_def)
    with keeps_req_Returned [OF fs] have "dbReq db = dbReq db2" unfolding keeps_req_def by blast
    with n show ?thesis by simp
  next
    case (Some x)
    then show ?thesis using run b g n by (simp add: wrapError_def)
  qed
qed

lemma assembleDeployState_result:
  assumes "answers_by_id (srqSing req)"
  shows "assembly_result req (assembleDeployState ImageLabels message labelMessage clusters req)"
proof (cases "completeConstruction ImageLabels message labelMessage clusters (new_builder req)")
  case None
  then show ?thesis by (simp add: assembly_result_def assembleDeployState_def Singularity_BuildDeployment_def)
next
  case (Some r)
  obtain db err where r: "r = (db, err)" by fastforce
  have "canRetry_name (dbReq db) = canRetry_name req"
    using Some [unfolded completeConstruction_def r]
    by (rule first_steps_names) (simp_all add: keeps_req_wrapError keeps_req_steps assms)
  then show ?thesis
    using Some r
    by (auto simp: assembly_result_def assembleDeployState_def Singularity_BuildDeployment_def canRetry_def
        split: option.splits build_error.splits if_splits)
qed

text \<open>A retry uses up one of the retries that its name has left.\<close>

lemma retry_uses_up:
  assumes "finite N" and "canRetry_name req \<in> N" and "retry_maybe (CanRetryRequest e req) rc = Some (rc', req')"
  shows "req' = req \<and> (\<Sum>n\<in>N. Suc retryLimit - retry_count rc' n) + 1 = (\<Sum>n\<in>N. Suc retryLimit - retry_count rc n)"
proof -
  let ?k = "canRetry_name req"
  have le: "retry_count rc ?k \<le> retryLimit" and rc': "rc' = gset ?k (retry_count rc ?k + 1) rc" and "req' = req"
    using assms(3) by (auto simp: retry_maybe_def Let_def split: if_splits)
  have "(\<Sum>n\<in>N - {?k}. Suc retryLimit - retry_count rc' n) = (\<Sum>n\<in>N - {?k}. Suc retryLimit - retry_count rc n)"
    by (rule sum.cong) (simp_all add: rc' retry_count_gset)
  moreover have "Suc retryLimit - retry_count rc' ?k + 1 = Suc retryLimit - retry_count rc ?k"
    using le by (simp add: rc' retry_count_gset)
  ultimately show ?thesis
    using sum.remove [OF assms(1,2), of "\<lambda>n. Suc retryLimit - retry_count rc' n"]
      sum.remove [OF assms(1,2), of "\<lambda>n. Suc retryLimit - retry_count rc n"] \<open>req' = req\<close> by simp
qed

lemma length_remove1_Suc: "x \<in> set xs \<Longrightarrow> length xs = Suc (length (remove1 x xs))"
  using length_pos_if_in_set [of x xs] by (simp add: length_remove1)

text \<open>What a finished assembly does to the invariant and the potential.\<close>

lemma finish_assembly_decreases:
  assumes "finite N" and inv: "collector_inv requests N c" and req: "req \<in> set (coInflight c)" "assembly_result req result"
  shows "advances requests N c (finish_assembly req result c)"
proof -
  have len: "length (coInflight c) = Suc (length (remove1 req (coInflight c)))" by (rule length_remove1_Suc [OF req(1)])
  have sub: "canRetry_name ` set (remove1 req (coInflight c)) \<subseteq> N"
    using inv set_remove1_subset [of req "coInflight c"] by (auto simp: collector_inv_def)
  show ?thesis
  proof (cases result)
    case (Inr dep)
    then show ?thesis
      using inv len sub deploystates.keyed_Add [of "coDeps c" dep]
      by (auto simp: advances_def finish_assembly_def receive_dep_def collector_inv_def potential_def DeployStates_Add_def Let_def)
  next
    case (Inl err)
    consider "malformed_or_ignorable err" | "\<not> malformed_or_ignorable err" "retry_maybe err (coRetries c) = None"
      | "\<not> malformed_or_ignorable err \<and> retry_maybe err (coRetries c) \<noteq> None" by blast
    then show ?thesis
    proof cases
      case 1
      then show ?thesis
        using Inl inv len sub
        by (auto simp: advances_def finish_assembly_def receive_error_def collector_inv_def potential_def Let_def)
    next
      case 2
      then show ?thesis
        using Inl inv by (simp add: advances_def finish_assembly_def receive_error_def collector_inv_def Let_def)
    next
      case 3
      then obtain e r rc r' where r: "err = CanRetryRequest e r" "retry_maybe (CanRetryRequest e r) (coRetries c) = Some (rc, r')"
        by (cases err) (auto simp: retry_maybe_def)
      have "canRetry_name r \<in> N" using req inv Inl r(1) by (auto simp: assembly_result_def collector_inv_def)
      from retry_uses_up [OF assms(1) this r(2)] this show ?thesis
        using 3 Inl r inv len sub
        by (auto simp: advances_def finish_assembly_def receive_error_def collector_inv_def potential_def Let_def)
    qed
  qed
qed

text \<open>A listing, when its error is not taken for one of a request.\<close>

definition proper_listings :: "(string \<Rightarrow> goerror + SingularityRequestParent list) \<Rightarrow> bool" where
  "proper_listings requests =
     (\<forall>url err. requests url = Inl err \<longrightarrow> \<not> isMalformed err \<and> \<not> ignorableDeploy err)"

lemma list_requests_decreases:
  assumes inv: "collector_inv requests N c" and url: "url \<in> set (coListing c)" and proper: "proper_listings requests"
  shows "advances requests N c (list_requests client url (requests url) c)"
proof (cases "requests url")
  case (Inl err)
  then have "\<not> isMalformed err" "\<not> ignorableDeploy err" using proper by (auto simp: proper_listings_def)
  then have "\<not> malformed_or_ignorable (BuildErr (WithCause a (WithCause b err)))" for a b
    by (simp add: malformed_or_ignorable_def isMalformed_def ignorableDeploy_def)
  then show ?thesis
    using Inl inv by (simp add: advances_def list_requests_def receive_error_def retry_maybe_def collector_inv_def Let_def)
next
  case (Inr srp)
  let ?logged = "takeWhile (\<lambda>sr. rpRequest sr \<noteq> None) srp"
  have plain: "\<not> malformed_or_ignorable (BuildErr (WithCause m (PlainError ''runtime.errorString'' ''nil pointer'')))" for m
    by (simp add: malformed_or_ignorable_def isMalformed_def ignorableDeploy_def)
  define reqs where "reqs = convertSingularityRequestParentsToSingReqs url (client url) srp"
  have "canRetry_name ` set reqs = listed_names requests url"
    by (simp add: reqs_def convertSingularityRequestParentsToSingReqs_def listed_names_def listed_def Inr canRetry_name_def image_image)
  then have names: "canRetry_name ` set reqs \<subseteq> N" using inv url by (simp add: collector_inv_def)
  have "length reqs = length (listed (requests url))"
    by (simp add: reqs_def convertSingularityRequestParentsToSingReqs_def listed_def Inr)
  then have good: ?thesis if "list_requests client url (Inr srp) c
      = Collecting (c\<lparr>coListing := remove1 url (coListing c), coInflight := coInflight c @ reqs, coWait := coWait c + length reqs\<rparr>)"
    using that Inr inv names sum_list_map_remove1 [OF url, of "\<lambda>url. Suc (length (listed (requests url)))"] notin_set_remove1
    by (auto simp: advances_def collector_inv_def potential_def image_Un dest: notin_set_remove1 simp flip: reqs_def)
  show ?thesis
  proof (cases "\<forall>sr \<in> set srp. rpRequest sr \<noteq> None")
    case True
    then have "?logged = srp" by (simp add: takeWhile_eq_all_conv)
    then show ?thesis by (intro good) (simp only: list_requests_def Let_def sum.case reqs_def less_irrefl if_False, simp)
  next
    case False
    then have "?logged \<noteq> srp" by (simp add: takeWhile_eq_all_conv)
    then have "length ?logged < length srp"
      by (metis append_Nil2 length_append length_greater_0_conv less_add_same_cancel1 takeWhile_dropWhile_id)
    then show ?thesis
      using Inr inv plain by (simp add: advances_def list_requests_def receive_error_def retry_maybe_def collector_inv_def Let_def)
  qed
qed

lemma rd_step_decreases:
  assumes "rd_step clusters client requests (Collecting c) r" and "finite N" and "proper_listings requests" and "collector_inv requests N c"
  shows "advances requests N c r"
proof -
  have asm: "assembly_result req (assembleDeployState il m lm clusters (req\<lparr>srqSing := sing\<rparr>))" if "answers_by_id sing" for req il m lm sing
    using assembleDeployState_result [of "req\<lparr>srqSing := sing\<rparr>" il m lm clusters] that by simp
  have "advances requests N c (Returned (coDeps c) None)" using assms(4) by (simp add: collector_inv_def advances_def)
  with assms(1) show ?thesis
    by (elim rd_step_CollectingE)
      (simp_all add: list_requests_decreases [OF assms(4) _ assms(3)] finish_assembly_decreases [OF assms(2,4) _ asm])
qed

lemma rd_run_bounded:
  assumes "rd_run clusters client requests n (Collecting c0) r" and "finite N" and "proper_listings requests" and "collector_inv requests N c0"
  shows "r \<noteq> Panicked \<and> n \<le> Suc (potential requests N c0)
     \<and> (\<forall>c. r = Collecting c \<longrightarrow> collector_inv requests N c \<and> n + potential requests N c \<le> potential requests N c0)
     \<and> (\<forall>deps err. r = Returned deps err \<longrightarrow> keyed DeployState_ID deps)"
  using assms(1)
proof (induction n "Collecting c0" r rule: rd_run.induct)
  case rd_refl
  then show ?case using assms(4) by simp
next
  case (rd_trans n r r')
  obtain c where c: "r = Collecting c" using rd_trans.hyps(3) by (cases rule: rd_step.cases) auto
  then have "rd_step clusters client requests (Collecting c) r'" "collector_inv requests N c" "n + potential requests N c \<le> potential requests N c0"
    using rd_trans by auto
  with rd_step_decreases [OF this(1) assms(2,3) this(2)] show ?case
    by (auto simp: advances_def split: collect_result.splits)
qed

text \<open>A collection that has not returned can go on.\<close>

lemma rd_step_progress:
  assumes "collector_inv requests N c"
  shows "\<exists>r. rd_step clusters client requests (Collecting c) r"
proof (cases "coListing c")
  case Nil
  show ?thesis
  proof (cases "coInflight c")
    case Nil
    then show ?thesis using \<open>coListing c = []\<close> assms rd_close [of c] by (auto simp: collector_inv_def)
  next
    case (Cons req reqs)
    let ?down = "\<lparr>GetRequest = \<lambda>_. Inl NonSousError, GetDeploys = \<lambda>_. Inl NonSousError, GetDeploy = \<lambda>_ _. Inl NonSousError\<rparr>"
    have "rd_step clusters client requests (Collecting c)
        (finish_assembly req (assembleDeployState (\<lambda>_. Inl NonSousError) (\<lambda>_. []) (\<lambda>_. []) clusters (req\<lparr>srqSing := ?down\<rparr>)) c)"
      by (rule rd_finish) (simp_all add: Cons answers_by_id_def)
    then show ?thesis by blast
  qed
next
  case (Cons url urls)
  then show ?thesis using rd_list [of url c] by auto
qed

text \<open>The requests of the servers of a state, each server once.\<close>

definition request_count :: "(string \<Rightarrow> goerror + SingularityRequestParent list) \<Rightarrow> collector \<Rightarrow> nat" where
  "request_count requests c = sum_list (map (\<lambda>url. length (listed (requests url))) (coListing c))"

definition all_names :: "(string \<Rightarrow> goerror + SingularityRequestParent list) \<Rightarrow> collector \<Rightarrow> string set" where
  "all_names requests c = (\<Union>url \<in> set (coListing c). listed_names requests url)"

lemma card_all_names: "card (all_names requests c) \<le> request_count requests c"
proof -
  have "card (\<Union>url \<in> set urls. listed_names requests url) \<le> sum_list (map (\<lambda>url. length (listed (requests url))) urls)" for urls
  proof (induction urls)
    case (Cons url urls)
    have "card (listed_names requests url) \<le> length (listed (requests url))"
      unfolding listed_names_def by (metis card_image_le card_length finite_set le_trans)
    then show ?case using Cons card_Un_le [of "listed_names requests url" "\<Union>url \<in> set urls. listed_names requests url"] by simp
  qed simp
  then show ?thesis by (simp add: all_names_def request_count_def)
qed

lemma start_potential:
  assumes "coInflight c = []" and "coRetries c = []"
  shows "potential requests (all_names requests c) c \<le> length (coListing c) + 5 * request_count requests c"
proof -
  have "sum_list (map (\<lambda>url. Suc (length (listed (requests url)))) urls)
      = length urls + sum_list (map (\<lambda>url. length (listed (requests url))) urls)" for urls
    by (induction urls) simp_all
  then show ?thesis
    using assms card_all_names [of requests c] by (simp add: potential_def request_count_def retry_count_def retryLimit_def)
qed

section \<open>Properties\<close>

text \<open>C11: \<open>RunningDeployments\<close> ends. Whatever the order in which servers answer and assemblies finish,
  and whatever their results, a run takes at most one step per server and five per request it
  lists, and one to return; until then it can always go on; it does not panic, and the states
  it returns are filed under their own IDs. (The servers' lists of requests are well formed.)\<close>

theorem running_deployments_terminates:
  assumes "proper_listings requests" and "c0 = RunningDeployments_start clusters"
  shows "\<forall>n r. rd_run clusters client requests n (Collecting c0) r \<longrightarrow>
      r \<noteq> Panicked \<and> n \<le> Suc (length (coListing c0) + 5 * request_count requests c0)
      \<and> (\<forall>c. r = Collecting c \<longrightarrow> (\<exists>r'. rd_step clusters client requests r r'))
      \<and> (\<forall>deps err. r = Returned deps err \<longrightarrow> keyed DeployState_ID deps)"
proof (intro allI impI)
  fix n r
  assume run: "rd_run clusters client requests n (Collecting c0) r"
  let ?N = "all_names requests c0"
  have start: "coInflight c0 = []" "coRetries c0 = []" "coWait c0 = 0" "coDeps c0 = []"
    by (simp_all add: assms(2) RunningDeployments_start_def)
  have "finite ?N" by (simp add: all_names_def listed_names_def)
  moreover have "collector_inv requests ?N c0"
    using start by (auto simp: collector_inv_def all_names_def keyed_def)
  ultimately have b: "r \<noteq> Panicked" "n \<le> Suc (potential requests ?N c0)" "\<forall>c. r = Collecting c \<longrightarrow> collector_inv requests ?N c"
      "\<forall>deps err. r = Returned deps err \<longrightarrow> keyed DeployState_ID deps"
    using rd_run_bounded [OF run _ assms(1)] by blast+
  have "n \<le> Suc (length (coListing c0) + 5 * request_count requests c0)"
    using b(2) start_potential [OF start(1,2), of requests] by simp
  moreover have "\<forall>c. r = Collecting c \<longrightarrow> (\<exists>r'. rd_step clusters client requests r r')"
    using b(3) rd_step_progress by metis
  ultimately show "r \<noteq> Panicked \<and> n \<le> Suc (length (coListing c0) + 5 * request_count requests c0)
      \<and> (\<forall>c. r = Collecting c \<longrightarrow> (\<exists>r'. rd_step clusters client requests r r'))
      \<and> (\<forall>deps err. r = Returned deps err \<longrightarrow> keyed DeployState_ID deps)"
    using b(1,4) by blast
qed

text \<open>A server with one request: its listing, then an assembly that its server fails, so that it is sent again.\<close>

definition example_down :: singClient where
  "example_down = \<lparr>GetRequest = \<lambda>_. Inl (ReqError 503 ''down''), GetDeploys = \<lambda>_. Inl (ReqError 503 ''down''),
     GetDeploy = \<lambda>_ _. Inl (ReqError 503 ''down'')\<rparr>"

definition example_parent :: SingularityRequestParent where
  "example_parent = \<lparr>rpRequest = Some \<lparr>sgrId = ''r1'', sgrRequestType = ''SERVICE'', sgrInstances = 1, sgrOwners = [],
       sgrSchedule = [], sgrScheduleType = []\<rparr>,
     rpState = ''ACTIVE'', rpRequestDeployState = None, rpActiveDeploy = None, rpPendingDeploy = None\<rparr>"

definition example_clusters :: Clusters where
  "example_clusters = [(''one'', cluster_of_url ''http://s'')]"

definition example_req :: SingReq where
  "example_req = \<lparr>srqSourceURL = ''http://s'', srqSing = example_down, srqReqParent = Some example_parent\<rparr>"

definition example_listed :: collector where
  "example_listed = \<lparr>coListing = [], coInflight = [example_req], coWait = 1, coRetries = [], coDeps = []\<rparr>"

definition example_retried :: collector where
  "example_retried = example_listed\<lparr>coRetries := [(canRetry_name example_req, 1)]\<rparr>"

lemma example_lists:
  "list_requests (\<lambda>_. example_down) ''http://s'' (Inr [example_parent]) (RunningDeployments_start example_clusters)
     = Collecting example_listed"
  by (simp add: list_requests_def RunningDeployments_start_def example_clusters_def cluster_of_url_def example_listed_def
      example_req_def convertSingularityRequestParentsToSingReqs_def example_parent_def Let_def)

lemma example_assembly:
  "assembleDeployState (\<lambda>_. Inl NonSousError) (\<lambda>_. []) (\<lambda>_. []) example_clusters example_req
     = Inl (CanRetryRequest (WithCause ''Failed to retrieve full RequestParent DTO.'' (ReqError 503 ''down'')) example_req)"
  by (simp add: assembleDeployState_def Singularity_BuildDeployment_def completeConstruction_def wrapError_def basics_def
      getFullRequestParent_def new_builder_def example_req_def example_parent_def example_down_def step_ok_def step_err_def
      on_deployment_def canRetry_def isRetryable_def isMalformed_def ignorableDeploy_def reqID_def Let_def)

lemma example_finishes:
  "finish_assembly example_req (assembleDeployState (\<lambda>_. Inl NonSousError) (\<lambda>_. []) (\<lambda>_. []) example_clusters example_req) example_listed
     = Collecting example_retried"
  by (simp add: example_assembly finish_assembly_def receive_error_def malformed_or_ignorable_def retry_maybe_def retry_count_def
      retryLimit_def example_listed_def example_retried_def Let_def)

theorem running_deployments_terminates_witness:
  "rd_run example_clusters (\<lambda>_. example_down) (\<lambda>_. Inr [example_parent]) 2
     (Collecting (RunningDeployments_start example_clusters)) (Collecting example_retried)
   \<and> (2::nat) \<le> Suc (1 + 5 * 1)
   \<and> (\<exists>r. rd_step example_clusters (\<lambda>_. example_down) (\<lambda>_. Inr [example_parent]) (Collecting example_retried) r)"
proof -
  let ?req = "\<lambda>_ :: string. Inr [example_parent] :: goerror + SingularityRequestParent list"
  let ?start = "RunningDeployments_start example_clusters"
  have url: "''http://s'' \<in> set (coListing ?start)"
    by (simp add: RunningDeployments_start_def example_clusters_def cluster_of_url_def)
  have ans: "answers_by_id example_down" by (simp add: answers_by_id_def example_down_def)
  have sing: "example_req\<lparr>srqSing := example_down\<rparr> = example_req" by (simp add: example_req_def)
  have "rd_step example_clusters (\<lambda>_. example_down) ?req (Collecting ?start) (Collecting example_listed)"
    using rd_list [OF url, of example_clusters "\<lambda>_. example_down" ?req] by (simp add: example_lists)
  moreover have "rd_step example_clusters (\<lambda>_. example_down) ?req (Collecting example_listed) (Collecting example_retried)"
    using rd_finish [of example_req example_listed example_down example_clusters "\<lambda>_. example_down" ?req
        "\<lambda>_. Inl NonSousError" "\<lambda>_. []" "\<lambda>_. []"] ans
    by (simp add: sing example_finishes) (simp add: example_listed_def)
  ultimately have run: "rd_run example_clusters (\<lambda>_. example_down) ?req (Suc (Suc 0)) (Collecting ?start) (Collecting example_retried)"
    by (blast intro: rd_refl rd_trans)
  moreover have "proper_listings ?req" by (simp add: proper_listings_def)
  ultimately have "\<exists>r. rd_step example_clusters (\<lambda>_. example_down) ?req (Collecting example_retried) r"
    using running_deployments_terminates [of ?req ?start example_clusters "\<lambda>_. example_down"] by blast
  with run show ?thesis by (simp add: numeral_2_eq_2)
qed

text \<open>
  A listing that fails because its JSON does not fit is taken for a malformed request: \<open>depWait\<close>,
  which counts requests, is decremented although the listing was never added to it.
\<close>

lemma malformed_listing_panics:
  assumes "isMalformed err" and "coWait c = 0"
  shows "list_requests client url (Inl err) c = Panicked"
  using assms by (simp add: list_requests_def receive_error_def malformed_or_ignorable_def isMalformed_def Let_def)

text \<open>The limit is compared before the count goes up, so a request is sent again four times.\<close>

lemma retried_four_times:
  "retry_maybe (CanRetryRequest e req) rc \<noteq> None \<longleftrightarrow> retry_count rc (canRetry_name req) < 4"
  by (simp add: retry_maybe_def retryLimit_def Let_def)

end
