(* ===== verification/Putback_JSON.thy ===== *)
theory Putback_JSON
  imports Complex_Main Sous_Prelude "HOL-Library.List_Lexorder" "HOL-Library.Char_ord"
begin

text \<open>
  Updating a resource through JSON (\<open>util/restful/putbackjson.go\<close>): a client that knows an older
  or newer form of a structure changes only what it understands. \<open>original\<close> is the document as
  it was received, \<open>base\<close> what the client's structure made of it, \<open>changed\<close> the client's new
  version; the result is \<open>original\<close> with the changes from \<open>base\<close> to \<open>changed\<close> applied.

  A JSON value is what \<open>encoding/json\<close> decodes into an \<open>interface{}\<close>; numbers are the exact
  rationals of their \<open>float64\<close>. Maps are updated in place in the code; here the new map is
  returned. \<open>None\<close> is a panic.
\<close>

datatype json = JNull | JBool bool | JNum rat | JStr string | JArr "json list" | JObj "(string \<times> json) list"

type_synonym jobj = "(string \<times> json) list"

abbreviation field_size :: "string \<times> json \<Rightarrow> nat" where
  "field_size \<equiv> size_prod (\<lambda>_. 0) size"

section \<open>Comparison\<close>

lemma size_field: "(k, v) \<in> set fs \<Longrightarrow> size v < Suc (size_list field_size fs)"
  by (induction fs) auto

lemma size_gget: "gget fs k = Some v \<Longrightarrow> size v < Suc (size_list field_size fs)"
  by (rule size_field) (rule map_of_SomeD)

lemma size_nth_list: "n < length xs \<Longrightarrow> size (xs ! n) < Suc (size_list size xs)"
  by (simp add: less_Suc_eq_le size_list_estimation' [of "xs ! n"])

function same :: "json \<Rightarrow> json \<Rightarrow> bool" where
  "same l r =
     (case l of
        JObj ls \<Rightarrow>
          (case r of
             JObj rs \<Rightarrow>
               list_all (\<lambda>(lk, lv). case gget rs lk of None \<Rightarrow> False | Some rv \<Rightarrow> same lv rv) ls
               \<and> list_all (\<lambda>(rk, rv). case gget ls rk of None \<Rightarrow> False | Some lv \<Rightarrow> same lv rv) rs
           | _ \<Rightarrow> False)
      | JArr ls \<Rightarrow>
          (case r of
             JArr rs \<Rightarrow> length ls = length rs \<and> list_all (\<lambda>n. same (ls ! n) (rs ! n)) [0..<length ls]
           | _ \<Rightarrow> False)
      | _ \<Rightarrow> l = r)"
  by pat_completeness auto
termination
  by (relation "measure (\<lambda>(l, r). size l)") (auto simp: size_field size_gget size_nth_list)

declare same.simps [simp del]

section \<open>Application of changes\<close>

text \<open>The two loops of \<open>applyChanges\<close>: over the fields of \<open>changed\<close>, deleting each from \<open>base\<close>, and over what is left of \<open>base\<close>.\<close>

function applyChanges :: "jobj \<Rightarrow> jobj \<Rightarrow> jobj \<Rightarrow> jobj option" where
  "applyChanges base [] target = Some (foldl (\<lambda>t k. gdel k t) target (gkeys base))"
| "applyChanges base ((k, v) # changed) target =
     (let target' =
        (case v of
           JObj fields \<Rightarrow>
             (case gget base k of
                None \<Rightarrow> Some (gset k v target)
              | Some JNull \<Rightarrow> Some (gset k v target)
              | Some (JObj b) \<Rightarrow>
                  (case (case gget target k of None \<Rightarrow> JObj [] | Some JNull \<Rightarrow> JObj [] | Some tsub \<Rightarrow> tsub) of
                     JObj tsub \<Rightarrow> map_option (\<lambda>newMap. gset k (JObj newMap) target) (applyChanges b fields tsub)
                   | _ \<Rightarrow> None)
              | Some _ \<Rightarrow> None)
         | _ \<Rightarrow>
             (case gget base k of
                None \<Rightarrow> Some (gset k v target)
              | Some b \<Rightarrow> if \<not> same b v then Some (gset k v target) else Some target))
      in case target' of None \<Rightarrow> None | Some t \<Rightarrow> applyChanges (gdel k base) changed t)"
  by pat_completeness auto
termination
  by (relation "measure (\<lambda>(b, c, t). size_list field_size c)") auto

declare applyChanges.simps [simp del]

text \<open>
  A reader, as what \<open>json.Decode\<close> makes of its bytes: an error, or a value. Decoding into a map
  accepts objects and null, which leaves the map nil.
\<close>

definition mapDecode :: "'e + json \<Rightarrow> ('e + string) + jobj option" where
  "mapDecode buf =
     (case buf of
        Inl err \<Rightarrow> Inl (Inl err)
      | Inr (JObj fs) \<Rightarrow> Inr (Some fs)
      | Inr JNull \<Rightarrow> Inr None
      | Inr _ \<Rightarrow> Inl (Inr ''*json.UnmarshalTypeError''))"

definition putbackJSON :: "'e + json \<Rightarrow> 'e + json \<Rightarrow> 'e + json \<Rightarrow> ('e + string, json) outcome" where
  "putbackJSON originalBuf baseBuf changedBuf =
     (case mapDecode originalBuf of
        Inl err \<Rightarrow> Err err
      | Inr original \<Rightarrow>
          (case mapDecode baseBuf of
             Inl err \<Rightarrow> Err err
           | Inr base \<Rightarrow>
               (case mapDecode changedBuf of
                  Inl err \<Rightarrow> Err err
                | Inr changed \<Rightarrow>
                    (case original of
                       None \<Rightarrow> Panic
                     | Some target \<Rightarrow>
                         (case applyChanges (nilmap base) (nilmap changed) target of
                            None \<Rightarrow> Panic
                          | Some result \<Rightarrow> Ok (JObj result))))))"

section \<open>Documents\<close>

text \<open>
  The reference: a document up to the order of the fields of its objects. \<open>json_norm\<close> sorts
  them; \<open>wf_json\<close> says that the fields of every object have different names, as those of a Go
  map do.
\<close>

fun wf_json :: "json \<Rightarrow> bool" where
  "wf_json (JObj fs) = (gwf fs \<and> list_all (\<lambda>(k, v). wf_json v) fs)"
| "wf_json (JArr js) = list_all wf_json js"
| "wf_json _ = True"

fun json_norm :: "json \<Rightarrow> json" where
  "json_norm (JObj fs) = JObj (sort_key fst (map (\<lambda>(k, v). (k, json_norm v)) fs))"
| "json_norm (JArr js) = JArr (map json_norm js)"
| "json_norm j = j"

lemma wf_json_field: "wf_json (JObj fs) \<Longrightarrow> gget fs k = Some v \<Longrightarrow> wf_json v"
  by (auto simp: list_all_iff dest: map_of_SomeD)

lemma gget_norm: "gget (map (\<lambda>(k, v). (k, json_norm v)) fs) k = map_option json_norm (gget fs k)"
  by (rule gget_map_values)

lemma sort_key_fst_eq:
  assumes "gwf m" and "gwf n"
  shows "sort_key fst m = sort_key fst n \<longleftrightarrow> map_of m = map_of n"
proof
  assume "sort_key fst m = sort_key fst n"
  then have "set m = set n" by (metis set_sort)
  then show "map_of m = map_of n" using assms gsame_iff_get [of m n] by (simp add: gsame_def)
next
  assume "map_of m = map_of n"
  then have "set m = set n" using assms gsame_iff_get [of m n] by (simp add: gsame_def)
  then show "sort_key fst m = sort_key fst n"
    using assms by (intro map_sorted_distinct_set_unique [of fst]) (simp_all add: gwf_def distinct_map)
qed

lemma norm_obj_eq:
  assumes "gwf ls" and "gwf rs"
  shows "json_norm (JObj ls) = json_norm (JObj rs)
     \<longleftrightarrow> (\<forall>k. map_option json_norm (gget ls k) = map_option json_norm (gget rs k))"
  using assms by (simp add: sort_key_fst_eq fun_eq_iff gget_norm)

lemma rel_option_all:
  "(\<forall>k. rel_option P (f k) (g k))
     \<longleftrightarrow> (\<forall>k v. f k = Some v \<longrightarrow> (\<exists>w. g k = Some w \<and> P v w)) \<and> (\<forall>k w. g k = Some w \<longrightarrow> (\<exists>v. f k = Some v \<and> P v w))"
proof -
  have "rel_option P x y \<longleftrightarrow> (\<forall>v. x = Some v \<longrightarrow> (\<exists>w. y = Some w \<and> P v w)) \<and> (\<forall>w. y = Some w \<longrightarrow> (\<exists>v. x = Some v \<and> P v w))" for x y
    by (cases x; cases y) auto
  then show ?thesis by (simp add: all_conj_distrib)
qed

lemma same_obj:
  assumes "gwf ls" and "gwf rs"
  shows "same (JObj ls) (JObj rs) \<longleftrightarrow> (\<forall>k. rel_option same (gget ls k) (gget rs k))"
proof -
  have half: "list_all (\<lambda>(k, v). case gget m k of None \<Rightarrow> False | Some w \<Rightarrow> P v w) n
      \<longleftrightarrow> (\<forall>k v. gget n k = Some v \<longrightarrow> (\<exists>w. gget m k = Some w \<and> P v w))" if "gwf n" for m n :: jobj and P
    using that by (fastforce simp: list_all_iff gget_iff_mem split: option.splits)
  show ?thesis
    unfolding same.simps [of "JObj ls"] json.case half [OF assms(1)] half [OF assms(2), where m = ls and P = "\<lambda>v w. same w v"]
    unfolding rel_option_all ..
qed

lemma same_scalar: "(\<forall>fs. l \<noteq> JObj fs) \<Longrightarrow> (\<forall>js. l \<noteq> JArr js) \<Longrightarrow> same l r \<longleftrightarrow> l = r"
  by (subst same.simps, cases l) simp_all

lemma same_obj_other: "\<forall>rs. r \<noteq> JObj rs \<Longrightarrow> \<not> same (JObj ls) r"
  by (subst same.simps, cases r) simp_all

lemma same_arr_other: "\<forall>rs. r \<noteq> JArr rs \<Longrightarrow> \<not> same (JArr ls) r"
  by (subst same.simps, cases r) simp_all

lemma same_arr: "same (JArr ls) (JArr rs) \<longleftrightarrow> length ls = length rs \<and> (\<forall>n < length ls. same (ls ! n) (rs ! n))"
  by (subst same.simps) (auto simp: list_all_iff)

lemma same_norm: "wf_json l \<Longrightarrow> wf_json r \<Longrightarrow> same l r \<longleftrightarrow> json_norm l = json_norm r"
proof (induction l arbitrary: r)
  case (JArr ls)
  show ?case
  proof (cases r)
    case r: (JArr rs)
    have "same (ls ! n) (rs ! n) \<longleftrightarrow> json_norm (ls ! n) = json_norm (rs ! n)" if "n < length ls" "length ls = length rs" for n
      using JArr r that by (simp add: list_all_length)
    then show ?thesis using r by (auto simp: same_arr list_eq_iff_nth_eq)
  qed (simp_all add: same_arr_other)
next
  case (JObj ls)
  show ?case
  proof (cases r)
    case r: (JObj rs)
    have "rel_option same (gget ls k) (gget rs k) \<longleftrightarrow> map_option json_norm (gget ls k) = map_option json_norm (gget rs k)" for k
    proof (cases "gget ls k")
      case (Some lv)
      then have "(k, lv) \<in> set ls" by (rule map_of_SomeD)
      with JObj.IH [of "(k, lv)" lv] have ih: "wf_json rv \<Longrightarrow> same lv rv \<longleftrightarrow> json_norm lv = json_norm rv" for rv
        using wf_json_field [OF JObj.prems(1) Some] by simp
      show ?thesis using Some ih JObj.prems(2) r wf_json_field [of rs k] by (cases "gget rs k") auto
    qed (cases "gget rs k"; simp)
    then show ?thesis using r JObj.prems by (simp only: same_obj norm_obj_eq wf_json.simps)
  qed (simp_all add: same_obj_other)
qed (simp add: same_scalar, metis json_norm.simps json_norm.cases json.distinct)+

section \<open>What a change does to a field\<close>

text \<open>
  The reference for \<open>applyChanges\<close>: what becomes of one field, from its values in \<open>base\<close>,
  \<open>changed\<close> and \<open>target\<close>. (\<open>None\<close> is the panic of a cast.)
\<close>

definition put_field :: "json option \<Rightarrow> json \<Rightarrow> json option \<Rightarrow> json option option" where
  "put_field b v t =
     (case v of
        JObj fields \<Rightarrow>
          (case b of
             None \<Rightarrow> Some (Some v)
           | Some JNull \<Rightarrow> Some (Some v)
           | Some (JObj bs) \<Rightarrow>
               (case (case t of None \<Rightarrow> JObj [] | Some JNull \<Rightarrow> JObj [] | Some tsub \<Rightarrow> tsub) of
                  JObj ts \<Rightarrow> map_option (\<lambda>newMap. Some (JObj newMap)) (applyChanges bs fields ts)
                | _ \<Rightarrow> None)
           | Some _ \<Rightarrow> None)
      | _ \<Rightarrow> (case b of None \<Rightarrow> Some (Some v) | Some b \<Rightarrow> if \<not> same b v then Some (Some v) else Some t))"

definition field_after :: "jobj \<Rightarrow> jobj \<Rightarrow> jobj \<Rightarrow> string \<Rightarrow> json option option" where
  "field_after base changed target k =
     (case gget changed k of
        None \<Rightarrow> Some (if ghas base k then None else gget target k)
      | Some v \<Rightarrow> put_field (gget base k) v (gget target k))"

definition set_field :: "string \<Rightarrow> json option \<Rightarrow> jobj \<Rightarrow> jobj" where
  "set_field k x t = (case x of None \<Rightarrow> t | Some v \<Rightarrow> gset k v t)"

lemma gset_keep: "gget m k = Some v \<Longrightarrow> gset k v m = m"
  by (induction m) (auto split: if_splits)

lemma set_field_gget [simp]: "set_field k (gget t k) t = t"
  by (simp add: set_field_def gset_keep split: option.split)

text \<open>A field keeps its value or gets a new one: it is never removed by the first loop.\<close>

lemma put_field_absent: "put_field b v t = Some None \<Longrightarrow> t = None"
  by (auto simp: put_field_def split: json.splits option.splits if_splits)

lemma applyChanges_Cons:
  "applyChanges base ((k, v) # changed) target =
     (case put_field (gget base k) v (gget target k) of
        None \<Rightarrow> None
      | Some x \<Rightarrow> applyChanges (gdel k base) changed (set_field k x target))"
  unfolding applyChanges.simps(2) put_field_def Let_def
  by (auto simp: set_field_def option.map_comp gset_keep split: json.split option.split)

lemma gget_foldl_del: "gget (foldl (\<lambda>t k. gdel k t) t ks) j = (if j \<in> set ks then None else gget t j)"
  by (induction ks arbitrary: t) (auto simp: gget_delete)

lemma gget_set_field: "(x = None \<Longrightarrow> gget t k = None) \<Longrightarrow> gget (set_field k x t) j = (if j = k then x else gget t j)"
  by (auto simp: set_field_def gget_update split: option.split)

lemma gwf_set_field [simp]: "gwf t \<Longrightarrow> gwf (set_field k x t)"
  by (simp add: set_field_def split: option.split)

text \<open>The loops compute every field by itself.\<close>

lemma applyChanges_fields:
  assumes "gwf changed"
  shows "(applyChanges base changed target = None \<longleftrightarrow> (\<exists>k. field_after base changed target k = None))
     \<and> (\<forall>r. applyChanges base changed target = Some r \<longrightarrow> (\<forall>k. field_after base changed target k = Some (gget r k)))"
  using assms
proof (induction changed arbitrary: base target)
  case Nil
  then show ?case
    by (auto simp: applyChanges.simps(1) field_after_def gget_foldl_del ghas_iff)
next
  case (Cons kv changed)
  obtain k v where kv: "kv = (k, v)" by fastforce
  have fresh: "gget changed k = None" and wf: "gwf changed" using Cons.prems by (simp_all add: kv map_of_eq_None_iff)
  show ?case
  proof (cases "put_field (gget base k) v (gget target k)")
    case None
    then have "field_after base (kv # changed) target k = None" by (simp add: field_after_def kv)
    then show ?thesis using None by (auto simp: kv applyChanges_Cons)
  next
    case (Some x)
    have absent: "x = None \<Longrightarrow> gget target k = None" using put_field_absent Some by blast
    have "field_after base (kv # changed) target j = field_after (gdel k base) changed (set_field k x target) j" for j
      using fresh Some gget_set_field [OF absent]
      by (auto simp: field_after_def kv gget_delete ghas_def split: option.split)
    then show ?thesis using Cons.IH [OF wf, of "gdel k base" "set_field k x target"] Some by (simp add: kv applyChanges_Cons)
  qed
qed

lemma gwf_foldl_del: "gwf t \<Longrightarrow> gwf (foldl (\<lambda>t k. gdel k t) t ks)"
  by (induction ks arbitrary: t) simp_all

lemma applyChanges_gwf: "applyChanges base changed target = Some r \<Longrightarrow> gwf target \<Longrightarrow> gwf r"
proof (induction changed arbitrary: base target)
  case (Cons kv changed)
  then show ?case by (cases kv) (auto simp: applyChanges_Cons split: option.splits)
qed (auto simp: applyChanges.simps(1) gwf_foldl_del)

text \<open>The value at a path of field names.\<close>

fun jget :: "json \<Rightarrow> string list \<Rightarrow> json option" where
  "jget j [] = Some j"
| "jget (JObj fs) (k # p) = (case gget fs k of None \<Rightarrow> None | Some v \<Rightarrow> jget v p)"
| "jget _ (k # p) = None"

lemma wf_json_jget: "wf_json j \<Longrightarrow> jget j p = Some v \<Longrightarrow> wf_json v"
proof (induction j p rule: jget.induct)
  case (2 fs k p)
  then obtain u where "gget fs k = Some u" "jget u p = Some v" by (auto split: option.splits)
  then show ?case using 2 wf_json_field [of fs k u] by blast
qed simp_all

text \<open>Inside objects that all three documents have, the changes are applied in the same way.\<close>

lemma applyChanges_at:
  assumes "wf_json (JObj changed)" and "applyChanges base changed target = Some r"
    and "jget (JObj base) p = Some (JObj b)" and "jget (JObj changed) p = Some (JObj c)" and "jget (JObj target) p = Some (JObj t)"
  shows "\<exists>r'. jget (JObj r) p = Some (JObj r') \<and> applyChanges b c t = Some r' \<and> wf_json (JObj c)"
  using assms
proof (induction p arbitrary: base changed target r)
  case (Cons k p)
  obtain bv cv tv where f: "gget base k = Some bv" "gget changed k = Some cv" "gget target k = Some tv"
      and p: "jget bv p = Some (JObj b)" "jget cv p = Some (JObj c)" "jget tv p = Some (JObj t)"
    using Cons.prems(3-5) by (auto split: option.splits)
  obtain bs cs ts where o: "bv = JObj bs" "cv = JObj cs" "tv = JObj ts"
    using p by (cases bv; cases cv; cases tv; cases p) auto
  have "field_after base changed target k = Some (gget r k)"
    using applyChanges_fields [of changed base target] Cons.prems(1,2) by simp
  then obtain rs where r: "applyChanges bs cs ts = Some rs" "gget r k = Some (JObj rs)"
    by (auto simp: field_after_def f o put_field_def)
  have "wf_json (JObj cs)" using wf_json_field [OF Cons.prems(1) f(2)] o by simp
  then show ?case using Cons.IH [OF _ r(1)] p o r(2) by simp
qed simp

section \<open>Round trips\<close>

text \<open>
  \<open>has_objects t b\<close>: the received document has every object that the client's structure made of it.
  \<open>typed b c\<close>: a field that is an object in the client's new version was absent, null or an
  object in the old one; otherwise the cast in \<open>applyChanges\<close> panics.
\<close>

function has_objects :: "json \<Rightarrow> json \<Rightarrow> bool" where
  "has_objects t b =
     (case b of
        JObj bs \<Rightarrow>
          (case t of
             JObj ts \<Rightarrow> list_all (\<lambda>(k, v). case v of
                 JObj vs \<Rightarrow> (case gget ts k of None \<Rightarrow> False | Some tv \<Rightarrow> has_objects tv (JObj vs))
               | _ \<Rightarrow> True) bs
           | _ \<Rightarrow> False)
      | _ \<Rightarrow> True)"
  by pat_completeness auto
termination
  by (relation "measure (\<lambda>(t, b). size b)") (auto dest: size_field)

function typed :: "json \<Rightarrow> json \<Rightarrow> bool" where
  "typed b c =
     (case c of
        JObj cs \<Rightarrow>
          (case b of
             JNull \<Rightarrow> True
           | JObj bs \<Rightarrow> list_all (\<lambda>(k, v). case gget bs k of None \<Rightarrow> True | Some bv \<Rightarrow> typed bv v) cs
           | _ \<Rightarrow> False)
      | _ \<Rightarrow> True)"
  by pat_completeness auto
termination
  by (relation "measure (\<lambda>(b, c). size c)") (auto dest: size_field)

declare has_objects.simps [simp del] typed.simps [simp del]

lemma has_objects_field:
  assumes "has_objects (JObj ts) (JObj bs)" and "gget bs k = Some (JObj vs)"
  shows "\<exists>ws. gget ts k = Some (JObj ws) \<and> has_objects (JObj ws) (JObj vs)"
proof -
  have "(k, JObj vs) \<in> set bs" by (rule map_of_SomeD) (rule assms(2))
  with assms(1) obtain tv where tv: "gget ts k = Some tv" "has_objects tv (JObj vs)"
    unfolding has_objects.simps [of "JObj ts"] by (fastforce simp: list_all_iff split: option.splits)
  then obtain ws where "tv = JObj ws" by (cases tv) (simp_all add: has_objects.simps [of _ "JObj vs"])
  with tv show ?thesis by simp
qed

lemma typed_field:
  assumes "typed (JObj bs) (JObj cs)" and "gget cs k = Some v" and "gget bs k = Some bv"
  shows "typed bv v"
proof -
  have "(k, v) \<in> set cs" by (rule map_of_SomeD) (rule assms(2))
  then show ?thesis using assms(1,3) unfolding typed.simps [of "JObj bs"] by (auto simp: list_all_iff)
qed

lemma norm_objD: "json_norm (JObj bs) = json_norm v \<Longrightarrow> \<exists>cs. v = JObj cs"
  by (cases v) simp_all

lemma wf_json_gdel: "wf_json (JObj fs) \<Longrightarrow> wf_json (JObj (gdel k fs))"
  by (auto simp: list_all_iff AList.delete_eq)

lemma has_objects_gdel: "has_objects (JObj ts) (JObj bs) \<Longrightarrow> has_objects (JObj ts) (JObj (gdel k bs))"
  unfolding has_objects.simps [of "JObj ts"] by (auto simp: list_all_iff AList.delete_eq)

text \<open>Nothing changed: the document stays as it was received, to the last field and in its order.\<close>

lemma applyChanges_unchanged:
  "wf_json (JObj base) \<Longrightarrow> wf_json (JObj changed) \<Longrightarrow> json_norm (JObj base) = json_norm (JObj changed)
     \<Longrightarrow> has_objects (JObj target) (JObj base) \<Longrightarrow> applyChanges base changed target = Some target"
proof (induction "size_list field_size changed" arbitrary: base changed target rule: less_induct)
  case less
  note wf = less.prems(1,2)
  have fields: "map_option json_norm (gget base j) = map_option json_norm (gget changed j)" for j
    using less.prems(3) norm_obj_eq [of base changed] wf by simp
  show ?case
  proof (cases changed)
    case Nil
    then have "base = []" using fields [of "fst (hd base)"] by (cases base) auto
    then show ?thesis using Nil by (simp add: applyChanges.simps(1))
  next
    case (Cons kv rest)
    obtain k v where kv: "kv = (k, v)" by fastforce
    have v: "gget changed k = Some v" and fresh: "gget rest k = None"
      using wf(2) by (simp_all add: Cons kv map_of_eq_None_iff)
    obtain bv where bv: "gget base k = Some bv" "json_norm bv = json_norm v" using fields [of k] v by auto
    have wfv: "wf_json bv" "wf_json v" using wf_json_field [OF wf(1) bv(1)] wf_json_field [OF wf(2) v] .
    have put: "put_field (gget base k) v (gget target k) = Some (gget target k)"
    proof (cases "\<exists>fs. v = JObj fs")
      case True
      then obtain fs bs where o: "v = JObj fs" "bv = JObj bs" using norm_objD [of _ bv] bv(2) by metis
      obtain ws where ws: "gget target k = Some (JObj ws)" "has_objects (JObj ws) (JObj bs)"
        using has_objects_field [OF less.prems(4)] bv(1) o(2) by blast
      have "applyChanges bs fs ws = Some ws"
        using less.hyps [of fs bs ws] wfv bv(2) ws(2) o by (simp add: Cons kv)
      then show ?thesis by (simp add: put_field_def bv(1) o ws(1))
    next
      case False
      have "same bv v" using same_norm wfv bv(2) by blast
      then show ?thesis using False by (cases v) (simp_all add: put_field_def bv(1))
    qed
    have "map_option json_norm (gget (gdel k base) j) = map_option json_norm (gget rest j)" for j
      using fields [of j] fresh by (auto simp: gget_delete Cons kv)
    then have "json_norm (JObj (gdel k base)) = json_norm (JObj rest)"
      using norm_obj_eq [of "gdel k base" rest] wf by (simp add: Cons kv)
    then have "applyChanges (gdel k base) rest target = Some target"
      using less.hyps [of rest "gdel k base" target] wf wf_json_gdel [OF wf(1)] has_objects_gdel [OF less.prems(4)] by (simp add: Cons kv)
    then show ?thesis using put by (simp add: Cons kv applyChanges_Cons)
  qed
qed

text \<open>A document that holds only what the client knows: the result is the client's new version.\<close>

lemma applyChanges_replaces:
  "wf_json (JObj base) \<Longrightarrow> wf_json (JObj changed) \<Longrightarrow> typed (JObj base) (JObj changed)
     \<Longrightarrow> \<exists>r. applyChanges base changed base = Some r \<and> gwf r \<and> json_norm (JObj r) = json_norm (JObj changed)"
proof (induction "size_list field_size changed" arbitrary: base changed rule: less_induct)
  case less
  note wf = less.prems(1,2)
  have after: "\<exists>x. field_after base changed base k = Some x \<and> map_option json_norm x = map_option json_norm (gget changed k)" for k
  proof (cases "gget changed k")
    case None
    then show ?thesis by (simp add: field_after_def ghas_def)
  next
    case (Some v)
    have wfv: "wf_json v" by (rule wf_json_field [OF wf(2) Some])
    show ?thesis
    proof (cases "gget base k")
      case None
      then show ?thesis using Some by (simp add: field_after_def put_field_def split: json.split)
    next
      case b: (Some bv)
      have bwf: "wf_json bv" by (rule wf_json_field [OF wf(1) b])
      have ty: "typed bv v" by (rule typed_field [OF less.prems(3) Some b])
      show ?thesis
      proof (cases "\<exists>fs. v = JObj fs")
        case True
        then obtain fs where v: "v = JObj fs" ..
        consider "bv = JNull" | bs where "bv = JObj bs" using ty v
          by (cases bv) (simp_all add: typed.simps [of _ "JObj fs"])
        then show ?thesis
        proof cases
          case 1
          then show ?thesis using Some b v by (simp add: field_after_def put_field_def)
        next
          case 2
          have "size_list field_size fs < size_list field_size changed"
            using map_of_SomeD [OF Some] v by (induction changed) auto
          then obtain r where "applyChanges bs fs bs = Some r" "json_norm (JObj r) = json_norm (JObj fs)"
            using less.hyps [of fs bs] bwf wfv ty v 2 by blast
          then show ?thesis using Some b v 2 by (simp add: field_after_def put_field_def)
        qed
      next
        case False
        then show ?thesis
          using Some b same_norm [OF bwf wfv] by (auto simp: field_after_def put_field_def split: json.splits)
      qed
    qed
  qed
  have "gwf changed" using wf(2) by simp
  note fields = applyChanges_fields [OF this, of base base]
  obtain r where r: "applyChanges base changed base = Some r"
    using fields after by (metis not_Some_eq)
  then have "map_option json_norm (gget r k) = map_option json_norm (gget changed k)" for k
    using fields after [of k] by auto
  moreover have "gwf r" by (rule applyChanges_gwf [OF r]) (use wf(1) in simp)
  ultimately show ?case using r norm_obj_eq [of r changed] wf(2) by simp
qed

text \<open>
  No cast fails when the types agree: an object of the new version stands where the old version
  and the received document have an object, null or nothing. The result is well formed again.
\<close>

lemma put_field_typed:
  assumes v: "wf_json v" and b: "\<And>bv. b = Some bv \<Longrightarrow> typed bv v" and t: "\<And>tv. t = Some tv \<Longrightarrow> typed tv v \<and> wf_json tv"
    and ih: "\<And>fs bs ts. v = JObj fs \<Longrightarrow> typed (JObj bs) v \<Longrightarrow> typed (JObj ts) v \<Longrightarrow> wf_json (JObj ts)
       \<Longrightarrow> \<exists>r. applyChanges bs fs ts = Some r \<and> wf_json (JObj r)"
  shows "\<exists>x. put_field b v t = Some x \<and> (\<forall>w. x = Some w \<longrightarrow> wf_json w)"
proof (cases "\<exists>fs. v = JObj fs")
  case True
  then obtain fs where fs: "v = JObj fs" ..
  consider "b = None \<or> b = Some JNull" | bs where "b = Some (JObj bs)"
  proof (cases b)
    case (Some bv)
    then show ?thesis using b [of bv] fs that by (cases bv) (simp_all add: typed.simps [of _ "JObj fs"])
  qed (use that in simp)
  then show ?thesis
  proof cases
    case 1
    then show ?thesis using fs v by (auto simp: put_field_def)
  next
    case 2
    consider ts where "t = Some (JObj ts)" | "t = None \<or> t = Some JNull"
    proof (cases t)
      case (Some tv)
      then show ?thesis using t [of tv] fs that by (cases tv) (simp_all add: typed.simps [of _ "JObj fs"])
    qed (use that in simp)
    then show ?thesis
    proof cases
      case t1: 1
      then obtain r where "applyChanges bs fs ts = Some r" "wf_json (JObj r)"
        using ih [OF fs, of bs ts] b 2 t by blast
      then show ?thesis using fs 2 t1 by (simp add: put_field_def)
    next
      case t2: 2
      have "typed (JObj []) v" by (simp add: fs typed.simps [of _ "JObj fs"] list_all_iff)
      then obtain r where "applyChanges bs fs [] = Some r" "wf_json (JObj r)"
        using ih [OF fs, of bs "[]"] b 2 by auto
      then show ?thesis using fs 2 t2 by (auto simp: put_field_def)
    qed
  qed
next
  case False
  then have "put_field b v t = (case b of None \<Rightarrow> Some (Some v) | Some bv \<Rightarrow> if \<not> same bv v then Some (Some v) else Some t)"
    by (cases v; cases b) (simp_all add: put_field_def)
  then show ?thesis using v t by (auto split: option.splits)
qed

lemma wf_json_objI: "gwf r \<Longrightarrow> (\<And>k v. gget r k = Some v \<Longrightarrow> wf_json v) \<Longrightarrow> wf_json (JObj r)"
  by (auto simp: list_all_iff simp flip: gget_iff_mem)

lemma applyChanges_typed:
  "wf_json (JObj changed) \<Longrightarrow> wf_json (JObj target) \<Longrightarrow> typed (JObj base) (JObj changed) \<Longrightarrow> typed (JObj target) (JObj changed)
     \<Longrightarrow> \<exists>r. applyChanges base changed target = Some r \<and> wf_json (JObj r)"
proof (induction "size_list field_size changed" arbitrary: base changed target rule: less_induct)
  case less
  note wf = less.prems(1,2)
  have after: "\<exists>x. field_after base changed target k = Some x \<and> (\<forall>w. x = Some w \<longrightarrow> wf_json w)" for k
  proof (cases "gget changed k")
    case None
    then show ?thesis using wf_json_field [OF wf(2), of k] by (simp add: field_after_def)
  next
    case (Some v)
    have smaller: "size_list field_size fs < size_list field_size changed" if "v = JObj fs" for fs
      using map_of_SomeD [OF Some] that by (induction changed) auto
    have "\<exists>x. put_field (gget base k) v (gget target k) = Some x \<and> (\<forall>w. x = Some w \<longrightarrow> wf_json w)"
    proof (rule put_field_typed)
      show "wf_json v" by (rule wf_json_field [OF wf(1) Some])
      show "typed bv v" if "gget base k = Some bv" for bv by (rule typed_field [OF less.prems(3) Some that])
      show "typed tv v \<and> wf_json tv" if "gget target k = Some tv" for tv
        using typed_field [OF less.prems(4) Some that] wf_json_field [OF wf(2) that] ..
      show "\<exists>r. applyChanges bs fs ts = Some r \<and> wf_json (JObj r)"
        if "v = JObj fs" "typed (JObj bs) v" "typed (JObj ts) v" "wf_json (JObj ts)" for fs bs ts
        using less.hyps [OF smaller [OF that(1)]] that wf_json_field [OF wf(1) Some] by blast
    qed
    then show ?thesis using Some by (simp add: field_after_def)
  qed
  have "gwf changed" using wf(1) by simp
  note fields = applyChanges_fields [OF this, of base target]
  obtain r where r: "applyChanges base changed target = Some r" using fields after by (metis not_Some_eq)
  moreover have "wf_json (JObj r)"
  proof (rule wf_json_objI)
    show "gwf r" by (rule applyChanges_gwf [OF r]) (use wf(2) in simp)
    show "wf_json v" if "gget r k = Some v" for k v using fields r after [of k] that by auto
  qed
  ultimately show ?case by blast
qed

section \<open>Properties\<close>

text \<open>C22: Updates through JSON are type sound. If every object of the client's new version stands, in the old
  version and in the received document, where there is an object, null or nothing, no cast of
  \<open>applyChanges\<close> panics, and the document it gives is well formed.\<close>

theorem putback_type_sound:
  assumes "wf_json (JObj changed)" and "wf_json (JObj original)"
    and "typed (JObj base) (JObj changed)" and "typed (JObj original) (JObj changed)"
  shows "\<exists>r. putbackJSON (Inr (JObj original)) (Inr (JObj base)) (Inr (JObj changed)) = Ok (JObj r) \<and> wf_json (JObj r)"
  using applyChanges_typed [OF assms] by (auto simp: putbackJSON_def mapDecode_def)

theorem putback_type_sound_witness:
  "\<exists>r. putbackJSON (Inr (JObj [(''n'', JObj [(''y'', JNum 2)])])) (Inr (JObj [(''n'', JNull)])) (Inr (JObj [(''n'', JObj [(''x'', JBool True)])])) = Ok (JObj r)"
  using putback_type_sound [of "[(''n'', JObj [(''x'', JBool True)])]" "[(''n'', JObj [(''y'', JNum 2)])]" "[(''n'', JNull)]"]
  by (auto simp: typed.simps)

text \<open>\<open>same\<close> is equality of documents: two JSON values are the same exactly when they agree after
  the fields of every object are put in order.\<close>

theorem same_is_document_equality:
  assumes "wf_json l" and "wf_json r"
  shows "same l r \<longleftrightarrow> json_norm l = json_norm r"
  by (rule same_norm) (rule assms)+

theorem same_is_document_equality_witness:
  "same (JObj [(''a'', JNum 1), (''b'', JArr [JNull])]) (JObj [(''b'', JArr [JNull]), (''a'', JNum 1)])
     \<longleftrightarrow> json_norm (JObj [(''a'', JNum 1), (''b'', JArr [JNull])]) = json_norm (JObj [(''b'', JArr [JNull]), (''a'', JNum 1)])"
  by (rule same_is_document_equality) (simp_all add: gwf_def)

text \<open>C20: \<open>applyChanges\<close> at every depth, inside the objects that the three documents share: a field the
  client does not know stays as the server has it; a field the client dropped is deleted; a new
  one is created; a changed one is set, and one that the client left alone keeps the server's
  value.\<close>

theorem putback_fieldwise:
  assumes "wf_json (JObj base)" and "wf_json (JObj changed)" and "applyChanges base changed target = Some r"
    and "jget (JObj base) p = Some (JObj b)" and "jget (JObj changed) p = Some (JObj c)" and "jget (JObj target) p = Some (JObj t)"
  shows "\<exists>r'. jget (JObj r) p = Some (JObj r')
     \<and> (\<forall>k. gget b k = None \<longrightarrow> gget c k = None \<longrightarrow> gget r' k = gget t k)
     \<and> (\<forall>k. gget b k \<noteq> None \<longrightarrow> gget c k = None \<longrightarrow> gget r' k = None)
     \<and> (\<forall>k v. gget b k = None \<longrightarrow> gget c k = Some v \<longrightarrow> gget r' k = Some v)
     \<and> (\<forall>k u v. gget b k = Some u \<longrightarrow> gget c k = Some v \<longrightarrow> (\<forall>fs. v \<noteq> JObj fs) \<longrightarrow>
          gget r' k = (if json_norm u = json_norm v then gget t k else Some v))"
proof -
  obtain r' where r': "jget (JObj r) p = Some (JObj r')" "applyChanges b c t = Some r'" "wf_json (JObj c)"
    using applyChanges_at [OF assms(2-6)] by blast
  have wb: "wf_json (JObj b)" using wf_json_jget [OF assms(1,4)] .
  have after: "field_after b c t k = Some (gget r' k)" for k
    using applyChanges_fields [of c b t] r'(2,3) by simp
  have "gget r' k = (if json_norm u = json_norm v then gget t k else Some v)"
    if "gget b k = Some u" "gget c k = Some v" "\<forall>fs. v \<noteq> JObj fs" for k u v
    using after [of k] that same_norm [OF wf_json_field [OF wb that(1)] wf_json_field [OF r'(3) that(2)]]
    by (auto simp: field_after_def put_field_def split: json.splits if_splits)
  moreover have "gget r' k = Some v" if "gget b k = None" "gget c k = Some v" for k v
    using after [of k] that by (auto simp: field_after_def put_field_def split: json.splits)
  moreover have "gget r' k = (if gget b k = None then gget t k else None)" if "gget c k = None" for k
    using after [of k] that by (cases "gget b k") (simp_all add: field_after_def ghas_def)
  ultimately show ?thesis using r'(1) by (intro exI [of _ r'] conjI) simp_all
qed

text \<open>A client that knows \<open>a\<close>, \<open>b\<close> and \<open>n.x\<close> changes \<open>n.x\<close> and drops \<open>b\<close>; the server also has \<open>new\<close> and \<open>n.y\<close>.\<close>

definition example_base :: jobj where
  "example_base = [(''a'', JNum 1), (''b'', JStr ''s''), (''n'', JObj [(''x'', JBool True)])]"

definition example_changed :: jobj where
  "example_changed = [(''n'', JObj [(''x'', JBool False)]), (''a'', JNum 1)]"

definition example_received :: jobj where
  "example_received = [(''a'', JNum 1), (''new'', JNull), (''b'', JStr ''s''), (''n'', JObj [(''x'', JBool True), (''y'', JNum 2)])]"

definition example_result :: jobj where
  "example_result = [(''a'', JNum 1), (''new'', JNull), (''n'', JObj [(''x'', JBool False), (''y'', JNum 2)])]"

lemma example_applies: "applyChanges example_base example_changed example_received = Some example_result"
  by (simp add: example_base_def example_changed_def example_received_def example_result_def applyChanges.simps
      same_scalar Let_def)

theorem putback_fieldwise_witness:
  "applyChanges example_base example_changed example_received = Some example_result
   \<and> (\<exists>r'. jget (JObj example_result) [''n''] = Some (JObj r') \<and> gget r' ''y'' = Some (JNum 2))"
proof -
  have "wf_json (JObj example_base)" "wf_json (JObj example_changed)"
    by (simp_all add: example_base_def example_changed_def)
  from putback_fieldwise [OF this example_applies, of "[''n'']" "[(''x'', JBool True)]" "[(''x'', JBool False)]"
      "[(''x'', JBool True), (''y'', JNum 2)]"] example_applies
  show ?thesis by (force simp: example_base_def example_changed_def example_received_def)
qed

text \<open>C21: The round trips of an update. Where the server's document has every object of the client's
  structure (\<open>has_objects\<close>), a client that puts back what it got leaves the document exactly as it
  was, with the fields it does not know. Where there are no such fields, and the client turns
  nothing into an object but null and missing fields (\<open>typed\<close>), what is sent is its new version,
  up to the order of fields.\<close>

theorem putback_roundtrips:
  assumes "wf_json (JObj base)" and "wf_json (JObj changed)"
  shows "(has_objects (JObj original) (JObj base) \<longrightarrow> json_norm (JObj base) = json_norm (JObj changed) \<longrightarrow>
        putbackJSON (Inr (JObj original)) (Inr (JObj base)) (Inr (JObj changed)) = Ok (JObj original))
     \<and> (typed (JObj base) (JObj changed) \<longrightarrow>
        (\<exists>r. putbackJSON (Inr (JObj base)) (Inr (JObj base)) (Inr (JObj changed)) = Ok r \<and> json_norm r = json_norm (JObj changed)))"
  using applyChanges_unchanged [OF assms, of original] applyChanges_replaces [OF assms]
  by (auto simp: putbackJSON_def mapDecode_def)

theorem putback_roundtrips_witness:
  "putbackJSON (Inr (JObj example_received)) (Inr (JObj example_base)) (Inr (JObj example_base)) = Ok (JObj example_received)
   \<and> (\<exists>r. putbackJSON (Inr (JObj example_base)) (Inr (JObj example_base)) (Inr (JObj example_changed)) = Ok r
        \<and> json_norm r = json_norm (JObj example_changed))"
proof -
  have wf: "wf_json (JObj example_base)" "wf_json (JObj example_changed)"
    by (simp_all add: example_base_def example_changed_def)
  have "has_objects (JObj example_received) (JObj example_base)"
    by (simp add: has_objects.simps example_received_def example_base_def)
  moreover have "typed (JObj example_base) (JObj example_changed)"
    by (simp add: typed.simps example_changed_def example_base_def)
  ultimately show ?thesis
    using putback_roundtrips [OF wf(1) wf(1), of example_received] putback_roundtrips [OF wf, of example_received] by blast
qed

text \<open>
  Where the comment of \<open>applyChanges\<close> does not hold: an object of the client's structure that the
  server's document lacks is added to it, empty, although nothing changed.
\<close>

lemma unchanged_object_is_added:
  "applyChanges [(''n'', JObj [(''x'', JNum 0)])] [(''n'', JObj [(''x'', JNum 0)])] [] = Some [(''n'', JObj [])]"
  by (simp add: applyChanges.simps same_scalar Let_def)

end
