(* ===== verification/Restful.thy ===== *)
theory Restful
  imports Putback_JSON Resolve_Errors
begin

text \<open>
  The conditional requests of the HTTP interface: the client (\<open>util/restful/client.go\<close>) and the
  handling of a request by the server (\<open>util/restful/router.go\<close>, \<open>canaryattr.go\<close>). A client that
  retrieved a resource updates it with \<open>If-Match\<close> and the entity tag it got; the server compares
  the tag with the one of its current version. The server also puts a field named by the tag into
  what it sends, the canary, and demands it back: only a client that preserves the fields it does
  not know passes.

  A body is the JSON value its text holds, or the error of decoding it; an empty body is the error
  \<open>EOF\<close>. URL resolution by \<open>net/url\<close>, the transport, the digests and the decoding into the
  client's structures are arguments. Logging is left out.
\<close>

type_synonym reader = "goerror + json"

definition EOF :: goerror where "EOF = PlainError ''*errors.errorString'' ''EOF''"

definition errorf :: "string \<Rightarrow> goerror" where "errorf msg = PlainError ''*errors.fundamental'' msg"

section \<open>Headers\<close>

text \<open>\<open>net/http.Header\<close>: lists of values under canonical names.\<close>

type_synonym http_header = "(string, string list) gomap"

definition upper :: "char \<Rightarrow> char" where
  "upper c = (if 97 \<le> (of_char c :: nat) \<and> (of_char c :: nat) \<le> 122 then char_of (of_char c - 32 :: nat) else c)"

fun canonical_from :: "bool \<Rightarrow> string \<Rightarrow> string" where
  "canonical_from up [] = []"
| "canonical_from up (c # cs) = (if up then upper c else lower c) # canonical_from (c = CHR ''-'') cs"

definition header_byte :: "char \<Rightarrow> bool" where
  "header_byte c =
     (let n = (of_char c :: nat)
      in 48 \<le> n \<and> n \<le> 57 \<or> 65 \<le> n \<and> n \<le> 90 \<or> 94 \<le> n \<and> n \<le> 122 \<or> n = 33 \<or> 35 \<le> n \<and> n \<le> 39
         \<or> n = 42 \<or> n = 43 \<or> n = 45 \<or> n = 46 \<or> n = 124 \<or> n = 126)"

definition CanonicalHeaderKey :: "string \<Rightarrow> string" where
  "CanonicalHeaderKey k = (if list_all header_byte k then canonical_from True k else k)"

definition header_values :: "http_header \<Rightarrow> string \<Rightarrow> string list" where
  "header_values h k = (case gget h (CanonicalHeaderKey k) of None \<Rightarrow> [] | Some vs \<Rightarrow> vs)"

definition header_Get :: "http_header \<Rightarrow> string \<Rightarrow> string" where
  "header_Get h k = (case header_values h k of [] \<Rightarrow> [] | v # vs \<Rightarrow> v)"

definition header_Add :: "string \<Rightarrow> string \<Rightarrow> http_header \<Rightarrow> http_header" where
  "header_Add k v h = gset (CanonicalHeaderKey k) (header_values h k @ [v]) h"

definition header_Set :: "string \<Rightarrow> string \<Rightarrow> http_header \<Rightarrow> http_header" where
  "header_Set k v h = gset (CanonicalHeaderKey k) [v] h"

record http_request =
  hqMethod :: string
  hqURL :: string
  hqHeader :: http_header
  hqBody :: reader

record http_response =
  hzStatusCode :: int
  hzHeader :: http_header
  hzBody :: reader

section \<open>The client\<close>

record LiveHTTPClient =
  lcCommonHeaders :: http_header
  lcURL :: "string \<Rightarrow> (string, string) gomap option \<Rightarrow> goerror + string"
  lcDo :: "http_request \<Rightarrow> goerror + http_response"

record resourceState =
  rsPath :: string
  rsEtag :: string
  rsHeaders :: http_header
  rsQparms :: "(string, string) gomap option"
  rsBody :: reader
  rsResourceJSON :: reader

definition Retryable :: "goerror \<Rightarrow> bool" where
  "Retryable err = (type_name (errors_Cause err) = ''restful.retryableError'')"

definition buildHeaders :: "(string, string) gomap list \<Rightarrow> http_header" where
  "buildHeaders maybeHeaders =
     (case maybeHeaders of [] \<Rightarrow> [] | hs # _ \<Rightarrow> foldl (\<lambda>h (k, v). header_Set k v h) [] hs)"

definition addNoMatchStar :: "(string, string) gomap option \<Rightarrow> (string, string) gomap" where
  "addNoMatchStar headers =
     (let hs = nilmap headers in if ghas hs ''If-None-Match'' then hs else gset ''If-None-Match'' ''*'' hs)"

definition addIfMatch :: "(string, string) gomap option \<Rightarrow> string \<Rightarrow> (string, string) gomap" where
  "addIfMatch headers etag = gset ''If-Match'' etag (nilmap headers)"

definition updateHeaders :: "http_header \<Rightarrow> (string, string) gomap \<Rightarrow> http_header" where
  "updateHeaders common headers =
     foldl (\<lambda>h (k, vs). if ghas h (CanonicalHeaderKey k) then h else foldl (\<lambda>h s. header_Add k s h) h vs)
       (foldl (\<lambda>h (k, v). header_Add k v h) [] headers) common"

definition putback_error :: "goerror + string \<Rightarrow> goerror" where
  "putback_error err = (case err of Inl e \<Rightarrow> WithCause [] e | Inr t \<Rightarrow> WithCause [] (PlainError t ''cannot unmarshal''))"

definition buildRequest ::
    "LiveHTTPClient \<Rightarrow> string \<Rightarrow> goerror + string \<Rightarrow> (string, string) gomap option \<Rightarrow> resourceState option \<Rightarrow> json option
     \<Rightarrow> (goerror, http_request) outcome" where
  "buildRequest client method url headers resource rqBody =
     (case url of
        Inl ierr \<Rightarrow> Err ierr
      | Inr u \<Rightarrow>
          (let request = (\<lambda>b. Ok \<lparr>hqMethod = method, hqURL = u, hqHeader = updateHeaders (lcCommonHeaders client) (nilmap headers), hqBody = b\<rparr>)
           in case rqBody of
               None \<Rightarrow> request (Inl EOF)
             | Some JSON \<Rightarrow>
                 (case resource of
                    None \<Rightarrow> request (Inr JSON)
                  | Some rs \<Rightarrow>
                      (case putbackJSON (rsBody rs) (rsResourceJSON rs) (Inr JSON) of
                         Ok b \<Rightarrow> request (Inr b)
                       | Err err \<Rightarrow> Err (putback_error err)
                       | Panic \<Rightarrow> Panic))))"

text \<open>\<open>constructRequest\<close> calls a method of the request before it looks at the error: without a request it panics.\<close>

definition constructRequest ::
    "LiveHTTPClient \<Rightarrow> string \<Rightarrow> string \<Rightarrow> (string, string) gomap option \<Rightarrow> json option \<Rightarrow> (string, string) gomap option
     \<Rightarrow> (goerror, http_request) outcome" where
  "constructRequest client method urlPath qParms qBody headers =
     (case buildRequest client method (lcURL client urlPath qParms) headers None qBody of
        Ok rq \<Rightarrow> Ok rq
      | Err err \<Rightarrow> Panic
      | Panic \<Rightarrow> Panic)"

definition sendRequest :: "LiveHTTPClient \<Rightarrow> (goerror, http_request) outcome \<Rightarrow> (goerror, http_response) outcome" where
  "sendRequest client rq =
     (case rq of
        Ok r \<Rightarrow> (case lcDo client r of Inl err \<Rightarrow> Err err | Inr rz \<Rightarrow> Ok rz)
      | Err err \<Rightarrow> Err err
      | Panic \<Rightarrow> Panic)"

text \<open>
  \<open>dto\<close> is the receiver: what unmarshalling a body into the client's structure leaves there, as
  JSON, with the error. Without a receiver the structure's JSON is null. The cases of the switch
  are tried in order, the default last.
\<close>

definition receive :: "(reader \<Rightarrow> json \<times> goerror option) option \<Rightarrow> reader \<Rightarrow> json \<times> goerror option" where
  "receive rzBody b = (case rzBody of None \<Rightarrow> (JNull, None) | Some dto \<Rightarrow> dto b)"

definition extractBody ::
    "(reader \<Rightarrow> json \<times> goerror option) option \<Rightarrow> (goerror, http_response) outcome
     \<Rightarrow> (resourceState option \<times> goerror option) option" where
  "extractBody rzBody result =
     (case result of
        Panic \<Rightarrow> None
      | Err err \<Rightarrow> Some (None, Some err)
      | Ok rz \<Rightarrow>
          if hzStatusCode rz < 200 \<or> hzStatusCode rz \<ge> 300 then Some (None, Some (errorf ''status''))
          else if hzStatusCode rz = 409 then Some (None, Some (WithCause ''getBody'' (PlainError ''restful.retryableError'' ''status'')))
          else Some
            (Some \<lparr>rsPath = [], rsEtag = header_Get (hzHeader rz) ''ETag'', rsHeaders = hzHeader rz, rsQparms = None,
               rsBody = hzBody rz, rsResourceJSON = Inr (fst (receive rzBody (hzBody rz)))\<rparr>,
             map_option (WithCause ''processing response body'') (snd (receive rzBody (hzBody rz)))))"

definition enrichState :: "string \<Rightarrow> (string, string) gomap option \<Rightarrow> resourceState option \<Rightarrow> resourceState option" where
  "enrichState urlPath qParms state = map_option (\<lambda>st. st\<lparr>rsPath := urlPath, rsQparms := qParms\<rparr>) state"

definition wrap_result :: "string \<Rightarrow> resourceState option \<times> goerror option \<Rightarrow> resourceState option \<times> goerror option" where
  "wrap_result msg r = (fst r, map_option (WithCause msg) (snd r))"

definition Client_Retrieve ::
    "LiveHTTPClient \<Rightarrow> string \<Rightarrow> (string, string) gomap option \<Rightarrow> (reader \<Rightarrow> json \<times> goerror option) option
     \<Rightarrow> (string, string) gomap option \<Rightarrow> (resourceState option \<times> goerror option) option" where
  "Client_Retrieve client urlPath qParms rzBody headers =
     map_option (\<lambda>(state, err). wrap_result (''Retrieve '' @ urlPath) (enrichState urlPath qParms state, err))
       (extractBody rzBody (sendRequest client (constructRequest client ''GET'' urlPath qParms None headers)))"

definition Client_Create ::
    "LiveHTTPClient \<Rightarrow> string \<Rightarrow> (string, string) gomap option \<Rightarrow> json \<Rightarrow> (string, string) gomap option
     \<Rightarrow> (resourceState option \<times> goerror option) option" where
  "Client_Create client urlPath qParms qBody headers =
     map_option (\<lambda>(state, err). wrap_result (''Create '' @ urlPath) (enrichState urlPath qParms state, err))
       (extractBody None (sendRequest client (constructRequest client ''PUT'' urlPath qParms (Some qBody) (Some (addNoMatchStar headers)))))"

definition Client_delete :: "LiveHTTPClient \<Rightarrow> resourceState \<Rightarrow> (string, string) gomap option \<Rightarrow> goerror option option" where
  "Client_delete client rs headers =
     map_option (\<lambda>r. map_option (WithCause (''Delete '' @ rsPath rs)) (snd r))
       (extractBody None (sendRequest client
          (buildRequest client ''DELETE'' (lcURL client (rsPath rs) (rsQparms rs)) (Some (addIfMatch headers (rsEtag rs))) None None)))"

definition update_request :: "LiveHTTPClient \<Rightarrow> resourceState \<Rightarrow> json \<Rightarrow> (string, string) gomap option \<Rightarrow> (goerror, http_request) outcome" where
  "update_request client rs qBody headers =
     buildRequest client ''PUT'' (lcURL client (rsPath rs) (rsQparms rs)) (Some (addIfMatch headers (rsEtag rs))) (Some rs) (Some qBody)"

definition Client_update ::
    "LiveHTTPClient \<Rightarrow> resourceState \<Rightarrow> json \<Rightarrow> (string, string) gomap option \<Rightarrow> (resourceState option \<times> goerror option) option" where
  "Client_update client rs qBody headers =
     map_option (\<lambda>(state, err). wrap_result (''Update '' @ rsPath rs) (enrichState (rsPath rs) (rsQparms rs) state, err))
       (extractBody None (sendRequest client (update_request client rs qBody headers)))"

text \<open>
  The readers that an update leaves in the state it was called on: once a request was built from
  them they are at their end.
\<close>

definition state_after_update :: "LiveHTTPClient \<Rightarrow> resourceState \<Rightarrow> resourceState" where
  "state_after_update client rs =
     (case lcURL client (rsPath rs) (rsQparms rs) of
        Inl _ \<Rightarrow> rs
      | Inr _ \<Rightarrow>
          (case mapDecode (rsBody rs) of
             Inl _ \<Rightarrow> rs\<lparr>rsBody := Inl EOF\<rparr>
           | Inr _ \<Rightarrow> rs\<lparr>rsBody := Inl EOF, rsResourceJSON := Inl EOF\<rparr>))"

section \<open>The server\<close>

text \<open>What an exchanger returns: data and a status, and the headers that the data adds (\<open>HeaderAdder\<close>).\<close>

datatype exchange_data = NoData | Data json | ErrorText string

record exchanged =
  exData :: exchange_data
  exStatus :: int
  exAddHeaders :: "(string \<times> string) list"

text \<open>
  \<open>InjectCanaryAttr\<close> on the text of a JSON value: it looks for the first brace, drops what is
  before it, and writes the field after it. In an object with fields this adds a field; in an
  empty object the comma makes the text invalid; of an array the first element with a brace is
  left, which a decoder reads without looking at the rest; without a brace it panics (\<open>None\<close>). Text
  from within a string is taken to be invalid.
\<close>

fun InjectCanaryAttr :: "json \<Rightarrow> string \<Rightarrow> reader option" where
  "InjectCanaryAttr (JObj (f # fs)) attrName = Some (Inr (JObj ((attrName, JStr ''canary'') # f # fs)))"
| "InjectCanaryAttr (JObj []) attrName = Some (Inl (PlainError ''*json.SyntaxError'' ''invalid character''))"
| "InjectCanaryAttr (JArr (j # js)) attrName =
     (case InjectCanaryAttr j attrName of Some b \<Rightarrow> Some b | None \<Rightarrow> InjectCanaryAttr (JArr js) attrName)"
| "InjectCanaryAttr (JStr s) attrName =
     (if CHR ''{'' \<in> set s then Some (Inl (PlainError ''*json.SyntaxError'' ''invalid character'')) else None)"
| "InjectCanaryAttr j attrName = None"

definition add_headers :: "(string \<times> string) list \<Rightarrow> http_header \<Rightarrow> http_header" where
  "add_headers kvs h = foldl (\<lambda>h (k, v). header_Add k v h) h kvs"

definition writeHeaders :: "int \<Rightarrow> http_header \<Rightarrow> string \<Rightarrow> http_response" where
  "writeHeaders status h msg = \<lparr>hzStatusCode = status, hzHeader = h, hzBody = Inl (PlainError ''*json.SyntaxError'' msg)\<rparr>"

text \<open>
  \<open>renderData\<close>. \<open>digest\<close> is the encoded MD5 sum of the encoded data. A panic of the injection comes
  after the status was written; the panic handler appends its text. The content type and length
  are left out.
\<close>

definition renderData :: "(json \<Rightarrow> string) \<Rightarrow> int \<Rightarrow> http_header \<Rightarrow> exchange_data \<Rightarrow> http_response" where
  "renderData digest status h data =
     (case data of
        NoData \<Rightarrow> writeHeaders status h ''<nil>''
      | ErrorText msg \<Rightarrow> writeHeaders status h msg
      | Data j \<Rightarrow>
          if status \<ge> 300 then writeHeaders status h ''data''
          else (let h' = (if ghas h ''Etag'' then h else header_Add ''Etag'' (digest j) h);
                    etag = header_Get h' ''Etag''
                in case InjectCanaryAttr j etag of
                    Some b \<Rightarrow> \<lparr>hzStatusCode = status, hzHeader = h', hzBody = b\<rparr>
                  | None \<Rightarrow> \<lparr>hzStatusCode = status, hzHeader = h',
                       hzBody = Inl (PlainError ''*json.SyntaxError'' ''attempting to add canary attribute'')\<rparr>))"

definition respond :: "(json \<Rightarrow> string) \<Rightarrow> exchanged \<Rightarrow> http_response" where
  "respond digest ex = renderData digest (exStatus ex) (add_headers (exAddHeaders ex) []) (exData ex)"

definition GetHandling :: "(json \<Rightarrow> string) \<Rightarrow> ('s \<Rightarrow> exchanged) \<Rightarrow> 's \<Rightarrow> http_response" where
  "GetHandling digest get s =
     (let ex = get s
      in renderData digest (exStatus ex) (header_Add ''Access-Control-Allow-Origin'' ''*'' (add_headers (exAddHeaders ex) [])) (exData ex))"

definition HeadHandling :: "('s \<Rightarrow> exchanged) \<Rightarrow> 's \<Rightarrow> http_response" where
  "HeadHandling get s = (let ex = get s in writeHeaders (exStatus ex) (add_headers (exAddHeaders ex) []) ''<nil>'')"

definition DeleteHandling :: "(json \<Rightarrow> string) \<Rightarrow> ('s \<Rightarrow> http_request \<Rightarrow> 's \<times> exchanged) \<Rightarrow> 's \<Rightarrow> http_request \<Rightarrow> 's \<times> http_response" where
  "DeleteHandling digest del s r =
     (case del s r of (s', ex) \<Rightarrow> (s', renderData digest (exStatus ex) (add_headers (exAddHeaders ex) []) NoData))"

definition defaultOptions :: "bool \<Rightarrow> bool \<Rightarrow> bool \<Rightarrow> string list" where
  "defaultOptions canGet canPut canDel =
     [''OPTIONS''] @ (if canGet then [''GET'', ''HEAD''] else []) @ (if canPut then [''PUT''] else [])
     @ (if canDel then [''DELETE''] else [])"

definition OptionsHandling :: "string list \<Rightarrow> http_request \<Rightarrow> http_response" where
  "OptionsHandling methods r =
     writeHeaders 200
       (header_Add ''Access-Control-Allow-Methods'' (join_with '', '' methods)
         (header_Add ''Access-Control-Max-Age'' ''86400''
           (header_Add ''Access-Control-Allow-Origin'' (header_Get (hqHeader r) ''Origin'') []))) ''<nil>''"

text \<open>The answer of the route to the same request as a GET; without a GET handler, 405.\<close>

definition synthResponse :: "(json \<Rightarrow> string) \<Rightarrow> ('s \<Rightarrow> exchanged) option \<Rightarrow> 's \<Rightarrow> http_response" where
  "synthResponse digest get s =
     (case get of None \<Rightarrow> writeHeaders 405 [] ''Method Not Allowed'' | Some g \<Rightarrow> GetHandling digest g s)"

text \<open>\<open>validCanaryAttr\<close>: the refusal, if the body has no canary.\<close>

definition validCanaryAttr :: "http_request \<Rightarrow> string \<Rightarrow> http_response option" where
  "validCanaryAttr r etag =
     (case hqBody r of
        Inl err \<Rightarrow> Some (writeHeaders 400 [] ''Error parsing JSON'')
      | Inr j \<Rightarrow>
          (case mapDecode (Inr j :: reader) of
             Inl err \<Rightarrow> Some (writeHeaders 400 [] ''Error parsing JSON'')
           | Inr dump \<Rightarrow>
               if gget (nilmap dump) etag = Some (JStr ''canary'') then None
               else Some (writeHeaders 400 [] ''Absent or malformed canary field'')))"

text \<open>
  \<open>PutHandling\<close>, as one step: the code holds no lock between the check of the tag and the exchange.
\<close>

definition PutHandling ::
    "(json \<Rightarrow> string) \<Rightarrow> ('s \<Rightarrow> exchanged) option \<Rightarrow> ('s \<Rightarrow> http_request \<Rightarrow> 's \<times> exchanged) \<Rightarrow> 's \<Rightarrow> http_request
     \<Rightarrow> 's \<times> http_response" where
  "PutHandling digest get put s r =
     (let ifMatch = header_Get (hqHeader r) ''If-Match''; ifNoneMatch = header_Get (hqHeader r) ''If-None-Match'';
          exchange = (case put s r of (s', ex) \<Rightarrow> (s', respond digest ex))
      in if ifMatch = [] \<and> ifNoneMatch = []
         then (s, writeHeaders 428 [] ''PUT requires If-Match or If-None-Match'')
         else (let grez = synthResponse digest get s
               in if ifNoneMatch = ''*'' \<and> hzStatusCode grez \<noteq> 404 \<and> hzStatusCode grez \<noteq> 405
                  then (s, writeHeaders 412 [] ''resource present for If-None-Match=*!'')
                  else if ifMatch \<noteq> [] then
                    (if header_Get (hzHeader grez) ''Etag'' \<noteq> ifMatch then (s, writeHeaders 412 [] ''Etag mismatch'')
                     else case validCanaryAttr r ifMatch of Some refusal \<Rightarrow> (s, refusal) | None \<Rightarrow> exchange)
                  else exchange))"

text \<open>One route (\<open>BuildRouter\<close>), for a resource with GET and PUT.\<close>

definition serve ::
    "(json \<Rightarrow> string) \<Rightarrow> ('s \<Rightarrow> exchanged) \<Rightarrow> ('s \<Rightarrow> http_request \<Rightarrow> 's \<times> exchanged) \<Rightarrow> 's \<Rightarrow> http_request
     \<Rightarrow> 's \<times> http_response" where
  "serve digest get put s r =
     (if hqMethod r = ''GET'' then (s, GetHandling digest get s)
      else if hqMethod r = ''HEAD'' then (s, HeadHandling get s)
      else if hqMethod r = ''PUT'' then PutHandling digest (Some get) put s r
      else if hqMethod r = ''OPTIONS'' then (s, OptionsHandling (defaultOptions True True False) r)
      else (s, writeHeaders 405 [] ''Method Not Allowed''))"

section \<open>Headers: facts\<close>

lemma canonical_names [simp]:
  "CanonicalHeaderKey ''If-Match'' = ''If-Match''" "CanonicalHeaderKey ''If-None-Match'' = ''If-None-Match''"
  "CanonicalHeaderKey ''Etag'' = ''Etag''" "CanonicalHeaderKey ''ETag'' = ''Etag''"
  "CanonicalHeaderKey ''Access-Control-Allow-Origin'' = ''Access-Control-Allow-Origin''"
  by code_simp+

lemma header_values_Add:
  "header_values (header_Add k v h) j = (if CanonicalHeaderKey j = CanonicalHeaderKey k then header_values h j @ [v] else header_values h j)"
  by (simp add: header_values_def header_Add_def gget_update)

lemma header_values_Nil [simp]: "header_values [] k = []"
  by (simp add: header_values_def)

lemma header_values_absent: "\<not> ghas h (CanonicalHeaderKey k) \<Longrightarrow> header_values h k = []"
  by (simp add: header_values_def ghas_def)

lemma header_values_canonical: "CanonicalHeaderKey j = CanonicalHeaderKey k \<Longrightarrow> header_values h j = header_values h k"
  by (simp add: header_values_def)

lemma header_values_Adds:
  "header_values (foldl (\<lambda>h (k, v). header_Add k v h) h kvs) j
     = header_values h j @ map snd (filter (\<lambda>(k, v). CanonicalHeaderKey k = CanonicalHeaderKey j) kvs)"
  by (induction kvs arbitrary: h) (auto simp: header_values_Add)

lemma header_values_Adds_other:
  "CanonicalHeaderKey k \<noteq> CanonicalHeaderKey j \<Longrightarrow> header_values (foldl (\<lambda>h s. header_Add k s h) h vs) j = header_values h j"
  by (induction vs arbitrary: h) (auto simp: header_values_Add)

text \<open>The client's own headers do not touch a name that the request has already, or that is not among them.\<close>

lemma common_headers_keep:
  assumes "header_values h j \<noteq> [] \<or> (\<forall>(k, vs) \<in> set common. CanonicalHeaderKey k \<noteq> CanonicalHeaderKey j)"
  shows "header_values (foldl (\<lambda>h (k, vs). if ghas h (CanonicalHeaderKey k) then h else foldl (\<lambda>h s. header_Add k s h) h vs) h common) j
     = header_values h j"
  using assms
proof (induction common arbitrary: h)
  case (Cons kv common)
  obtain k vs where kv: "kv = (k, vs)" by fastforce
  let ?h = "if ghas h (CanonicalHeaderKey k) then h else foldl (\<lambda>h s. header_Add k s h) h vs"
  have "header_values ?h j = header_values h j"
  proof (cases "CanonicalHeaderKey k = CanonicalHeaderKey j")
    case True
    then have "ghas h (CanonicalHeaderKey k)"
      using Cons.prems header_values_absent [of h k] header_values_canonical [OF True, of h] by (auto simp: kv)
    then show ?thesis by simp
  qed (simp add: header_values_Adds_other)
  then show ?case using Cons.IH [of ?h] Cons.prems by (auto simp: kv)
qed simp

definition no_conditions :: "http_header \<Rightarrow> (string, string) gomap option \<Rightarrow> bool" where
  "no_conditions common headers =
     (list_all (\<lambda>(k, vs). CanonicalHeaderKey k \<noteq> ''If-None-Match'') common
      \<and> list_all (\<lambda>(k, v). CanonicalHeaderKey k \<noteq> ''If-Match'' \<and> CanonicalHeaderKey k \<noteq> ''If-None-Match'') (nilmap headers))"

lemma filter_gset:
  "\<forall>(k', v') \<in> set m. \<not> P k' \<Longrightarrow> P k \<Longrightarrow> map snd (filter (\<lambda>(k, v). P k) (gset k v m)) = [v]"
  by (induction m) auto

lemma filter_gset_None: "\<forall>(k', v') \<in> set m. \<not> P k' \<Longrightarrow> \<not> P k \<Longrightarrow> filter (\<lambda>(k, v). P k) (gset k v m) = []"
  by (induction m) (auto simp: filter_empty_conv)

lemma update_conditions:
  assumes "no_conditions common headers"
  shows "header_Get (updateHeaders common (addIfMatch headers etag)) ''If-Match'' = etag"
    and "header_Get (updateHeaders common (addIfMatch headers etag)) ''If-None-Match'' = []"
proof -
  let ?h = "foldl (\<lambda>h (k, v). header_Add k v h) [] (addIfMatch headers etag)"
  have none: "\<forall>(k, v) \<in> set (nilmap headers). CanonicalHeaderKey k \<noteq> ''If-Match'' \<and> CanonicalHeaderKey k \<noteq> ''If-None-Match''"
    and common: "\<forall>(k, vs) \<in> set common. CanonicalHeaderKey k \<noteq> ''If-None-Match''"
    using assms by (auto simp: no_conditions_def list_all_iff)
  have im: "header_values ?h ''If-Match'' = [etag]"
    using filter_gset [of "nilmap headers" "\<lambda>k. CanonicalHeaderKey k = ''If-Match''" "''If-Match''" etag] none
    by (auto simp: header_values_Adds addIfMatch_def)
  have inm: "header_values ?h ''If-None-Match'' = []"
    using filter_gset_None [of "nilmap headers" "\<lambda>k. CanonicalHeaderKey k = ''If-None-Match''" "''If-Match''" etag] none
    by (auto simp: header_values_Adds addIfMatch_def)
  show "header_Get (updateHeaders common (addIfMatch headers etag)) ''If-Match'' = etag"
    using common_headers_keep [of ?h "''If-Match''" common] im by (simp add: updateHeaders_def header_Get_def)
  show "header_Get (updateHeaders common (addIfMatch headers etag)) ''If-None-Match'' = []"
    using common_headers_keep [of ?h "''If-None-Match''" common] inm common by (simp add: updateHeaders_def header_Get_def)
qed

section \<open>Conditional updates\<close>

definition etag_of :: "(json \<Rightarrow> string) \<Rightarrow> ('s \<Rightarrow> exchanged) \<Rightarrow> 's \<Rightarrow> string" where
  "etag_of digest get s = header_Get (hzHeader (GetHandling digest get s)) ''Etag''"

text \<open>A client of a server in state \<open>s\<close>.\<close>

definition client_at ::
    "http_header \<Rightarrow> (string \<Rightarrow> (string, string) gomap option \<Rightarrow> goerror + string) \<Rightarrow> (json \<Rightarrow> string) \<Rightarrow> ('s \<Rightarrow> exchanged)
     \<Rightarrow> ('s \<Rightarrow> http_request \<Rightarrow> 's \<times> exchanged) \<Rightarrow> 's \<Rightarrow> LiveHTTPClient" where
  "client_at common url digest get put s =
     \<lparr>lcCommonHeaders = common, lcURL = url, lcDo = \<lambda>rq. Inr (snd (serve digest get put s rq))\<rparr>"

text \<open>What a retrieval leaves with the client: the tag, the document with its canary, and what its structure makes of it.\<close>

lemma retrieved_state:
  assumes "get s = \<lparr>exData = Data (JObj (f # fs)), exStatus = status, exAddHeaders = hs\<rparr>" and "200 \<le> status" and "status < 300"
    and "url path q = Inr u"
    and "Client_Retrieve (client_at common url digest get put s) path q (Some dto) headers = Some (Some rs, err)"
  shows "rsPath rs = path \<and> rsQparms rs = q \<and> rsEtag rs = etag_of digest get s
     \<and> rsBody rs = Inr (JObj ((etag_of digest get s, JStr ''canary'') # f # fs))
     \<and> rsResourceJSON rs = Inr (fst (dto (rsBody rs)))"
proof -
  let ?rz = "GetHandling digest get s"
  have body: "hzBody ?rz = Inr (JObj ((etag_of digest get s, JStr ''canary'') # f # fs))" and st: "hzStatusCode ?rz = status"
    using assms(1-3) by (simp_all add: etag_of_def GetHandling_def renderData_def Let_def)
  have "header_Get (hzHeader ?rz) ''ETag'' = etag_of digest get s"
    by (simp add: etag_of_def header_Get_def header_values_def)
  moreover obtain rq where rq: "constructRequest (client_at common url digest get put s) ''GET'' path q None headers = Ok rq" "hqMethod rq = ''GET''"
    using assms(4) by (simp add: constructRequest_def buildRequest_def client_at_def Let_def)
  ultimately show ?thesis
    using assms(2,3,5) body st
    by (auto simp: Client_Retrieve_def sendRequest_def extractBody_def client_at_def serve_def enrichState_def wrap_result_def receive_def)
qed

text \<open>The canary survives an update by a client whose structure does not have a field of that name.\<close>

lemma putback_keeps_unknown:
  assumes "putbackJSON (Inr (JObj original)) (Inr (JObj base)) (Inr (JObj changed)) = Ok (JObj r)" and "gwf changed"
    and "gget base k = None" and "gget changed k = None"
  shows "gget r k = gget original k"
proof -
  have "applyChanges base changed original = Some r"
    using assms(1) by (auto simp: putbackJSON_def mapDecode_def split: option.splits)
  then have "field_after base changed original k = Some (gget r k)" using applyChanges_fields [OF assms(2)] by blast
  then show ?thesis using assms(3,4) by (simp add: field_after_def ghas_def)
qed

lemma serve_conditional:
  assumes "hqMethod rq = ''PUT''" and "header_Get (hqHeader rq) ''If-Match'' = etag" and "etag \<noteq> []"
    and "header_Get (hqHeader rq) ''If-None-Match'' = []"
  shows "serve digest get put s rq =
     (if etag_of digest get s \<noteq> etag then (s, writeHeaders 412 [] ''Etag mismatch'')
      else case validCanaryAttr rq etag of
          Some refusal \<Rightarrow> (s, refusal)
        | None \<Rightarrow> (case put s rq of (s', ex) \<Rightarrow> (s', respond digest ex)))"
  using assms by (simp add: serve_def PutHandling_def synthResponse_def etag_of_def Let_def)

section \<open>Properties\<close>

text \<open>C16: Optimistic concurrency. A client retrieves a resource and updates it with a new version of its
  structure. If the resource changed in between, so that its tag did, the server refuses with
  412, its state stays as it is, and the client gets an error. If it did not, the server's
  handler runs, on a body that carries the canary and every field of the server's document that
  the client's structure does not have.\<close>

theorem conditional_update:
  fixes get :: "'s \<Rightarrow> exchanged"
  assumes get: "get s0 = \<lparr>exData = Data (JObj (f # fs)), exStatus = status, exAddHeaders = hs\<rparr>" "200 \<le> status" "status < 300"
    and url: "url path q = Inr u" and etag: "etag_of digest get s0 \<noteq> []" and cond: "no_conditions common headers"
    and retrieved: "Client_Retrieve (client_at common url digest get put s0) path q (Some dto) headers0 = Some (Some rs, err)"
    and base: "fst (dto (rsBody rs)) = JObj base" "gget base (etag_of digest get s0) = None"
    and changed: "gwf changed" "gget changed (etag_of digest get s0) = None"
    and putback: "putbackJSON (rsBody rs) (Inr (JObj base)) (Inr (JObj changed)) = Ok (JObj r)"
  shows "\<exists>rq. update_request (client_at common url digest get put s1) rs (JObj changed) headers = Ok rq
     \<and> hqBody rq = Inr (JObj r)
     \<and> (etag_of digest get s1 \<noteq> etag_of digest get s0 \<longrightarrow>
          (\<exists>rz. serve digest get put s1 rq = (s1, rz) \<and> hzStatusCode rz = 412)
          \<and> (\<exists>e. Client_update (client_at common url digest get put s1) rs (JObj changed) headers = Some (None, Some e)))
     \<and> (etag_of digest get s1 = etag_of digest get s0 \<longrightarrow>
          serve digest get put s1 rq = (case put s1 rq of (s', ex) \<Rightarrow> (s', respond digest ex))
          \<and> (\<forall>k. gget base k = None \<longrightarrow> gget changed k = None \<longrightarrow> k \<noteq> etag_of digest get s0 \<longrightarrow> gget r k = gget (f # fs) k))"
proof -
  let ?e = "etag_of digest get s0" and ?c = "client_at common url digest get put s1"
  note rs = retrieved_state [OF get url retrieved]
  define rq where "rq = \<lparr>hqMethod = ''PUT'', hqURL = u, hqHeader = updateHeaders common (addIfMatch headers ?e), hqBody = Inr (JObj r)\<rparr>"
  have built: "update_request ?c rs (JObj changed) headers = Ok rq"
    using rs url putback base(1) by (simp add: update_request_def buildRequest_def client_at_def rq_def Let_def)
  have orig: "putbackJSON (Inr (JObj ((?e, JStr ''canary'') # f # fs)) :: reader) (Inr (JObj base)) (Inr (JObj changed)) = Ok (JObj r)"
    using putback rs by simp
  have keep: "gget r k = gget ((?e, JStr ''canary'') # f # fs) k" if "gget base k = None" "gget changed k = None" for k
    by (rule putback_keeps_unknown [OF orig changed(1) that])
  then have canary: "validCanaryAttr rq ?e = None"
    using base(2) changed(2) by (simp add: validCanaryAttr_def mapDecode_def rq_def)
  have "serve digest get put s1 rq =
     (if etag_of digest get s1 \<noteq> ?e then (s1, writeHeaders 412 [] ''Etag mismatch'')
      else case validCanaryAttr rq ?e of
          Some refusal \<Rightarrow> (s1, refusal)
        | None \<Rightarrow> (case put s1 rq of (s', ex) \<Rightarrow> (s', respond digest ex)))"
    by (rule serve_conditional) (simp_all add: rq_def update_conditions [OF cond] etag)
  note served = this [unfolded canary option.case]
  have "\<exists>e. Client_update ?c rs (JObj changed) headers = Some (None, Some e)" if "etag_of digest get s1 \<noteq> ?e"
  proof -
    have "lcDo ?c rq = Inr (writeHeaders 412 [] ''Etag mismatch'')" using served that by (simp add: client_at_def)
    then show ?thesis
      by (simp add: Client_update_def built sendRequest_def extractBody_def writeHeaders_def enrichState_def wrap_result_def)
  qed
  moreover have "hqBody rq = Inr (JObj r)" by (simp add: rq_def)
  ultimately show ?thesis using built served keep by (intro exI [of _ rq] conjI) (simp_all add: writeHeaders_def)
qed

text \<open>A resource with a flag, and a field that the client does not know.\<close>

definition flag_get :: "bool \<Rightarrow> exchanged" where
  "flag_get s = \<lparr>exData = Data (JObj [(''flag'', JBool s), (''more'', JNull)]), exStatus = 200, exAddHeaders = []\<rparr>"

definition flag_put :: "bool \<Rightarrow> http_request \<Rightarrow> bool \<times> exchanged" where
  "flag_put s rq = (case hqBody rq of Inr j \<Rightarrow> jget j [''flag''] = Some (JBool True) | Inl _ \<Rightarrow> s,
     \<lparr>exData = NoData, exStatus = 200, exAddHeaders = []\<rparr>)"

definition flag_digest :: "json \<Rightarrow> string" where
  "flag_digest j = (if jget j [''flag''] = Some (JBool True) then ''on'' else ''off'')"

definition flag_dto :: "reader \<Rightarrow> json \<times> goerror option" where
  "flag_dto b = (case b of
      Inr j \<Rightarrow> (JObj [(''flag'', case jget j [''flag''] of Some v \<Rightarrow> v | None \<Rightarrow> JBool False)], None)
    | Inl e \<Rightarrow> (JObj [(''flag'', JBool False)], Some e))"

definition flag_client :: "bool \<Rightarrow> LiveHTTPClient" where
  "flag_client s = client_at [] (\<lambda>path q. Inr path) flag_digest flag_get flag_put s"

definition flag_state :: resourceState where
  "flag_state = \<lparr>rsPath = ''flag'', rsEtag = ''off'', rsHeaders = hzHeader (GetHandling flag_digest flag_get False), rsQparms = None,
     rsBody = Inr (JObj [(''off'', JStr ''canary''), (''flag'', JBool False), (''more'', JNull)]),
     rsResourceJSON = Inr (JObj [(''flag'', JBool False)])\<rparr>"

lemma flag_etag: "etag_of flag_digest flag_get s = (if s then ''on'' else ''off'')"
  by (simp add: etag_of_def GetHandling_def flag_get_def renderData_def flag_digest_def add_headers_def
      header_Add_def header_Get_def header_values_def ghas_def gget_update Let_def)

lemma flag_retrieved: "Client_Retrieve (flag_client False) ''flag'' None (Some flag_dto) None = Some (Some flag_state, None)"
  using flag_etag [of False]
  by (simp add: Client_Retrieve_def flag_client_def client_at_def constructRequest_def buildRequest_def sendRequest_def extractBody_def
      serve_def GetHandling_def flag_get_def renderData_def receive_def flag_dto_def enrichState_def
      wrap_result_def flag_state_def etag_of_def header_Get_def header_values_def Let_def)

theorem conditional_update_witness:
  "(\<exists>rq. update_request (flag_client True) flag_state (JObj [(''flag'', JBool True)]) None = Ok rq
      \<and> (\<exists>rz. serve flag_digest flag_get flag_put True rq = (True, rz) \<and> hzStatusCode rz = 412))
   \<and> (\<exists>rq. update_request (flag_client False) flag_state (JObj [(''flag'', JBool True)]) None = Ok rq
      \<and> fst (serve flag_digest flag_get flag_put False rq) = True)"
proof -
  have put: "putbackJSON (rsBody flag_state) (Inr (JObj [(''flag'', JBool False)])) (Inr (JObj [(''flag'', JBool True)]))
      = Ok (JObj [(''off'', JStr ''canary''), (''flag'', JBool True), (''more'', JNull)])"
    by (simp add: putbackJSON_def mapDecode_def flag_state_def applyChanges.simps same_scalar Let_def)
  note upd = conditional_update [where get = flag_get and ?s0.0 = False and url = "\<lambda>path q. Inr path" and digest = flag_digest
      and common = "[]" and headers = None and put = flag_put and dto = flag_dto and rs = flag_state,
      OF _ _ _ refl _ _ flag_retrieved [unfolded flag_client_def], of "(''flag'', JBool False)" "[(''more'', JNull)]" 200 "[]"
      "[(''flag'', JBool False)]" "[(''flag'', JBool True)]"]
  show ?thesis
    using upd [OF _ _ _ _ _ _ _ _ _ put, of True] upd [OF _ _ _ _ _ _ _ _ _ put, of False]
    by (auto simp: flag_etag flag_get_def no_conditions_def flag_dto_def flag_state_def flag_client_def flag_put_def)
qed

text \<open>A conflict is not retryable: its case in \<open>extractBody\<close> comes after the one for every status that is not a success.\<close>

lemma conflict_not_retryable:
  assumes "extractBody dto (Ok rz) = Some (st, Some err)" and "hzStatusCode rz = 409"
  shows "\<not> Retryable err"
  using assms by (auto simp: extractBody_def Retryable_def errorf_def)

text \<open>A second update of the same state fails before it is sent: its readers were used up by the first.\<close>

lemma second_update_fails:
  assumes "lcURL client (rsPath rs) (rsQparms rs) = Inr u"
  shows "update_request client (state_after_update client rs) qBody headers = Err (WithCause [] EOF)"
  using assms
  by (auto simp: update_request_def state_after_update_def buildRequest_def putbackJSON_def mapDecode_def putback_error_def Let_def
      split: sum.splits)

text \<open>A path that is not a URL makes \<open>Retrieve\<close> and \<open>Create\<close> panic instead of returning the error.\<close>

lemma bad_path_panics:
  "lcURL client path q = Inl err \<Longrightarrow> Client_Retrieve client path q dto headers = None \<and> Client_Create client path q body headers = None"
  by (simp add: Client_Retrieve_def Client_Create_def constructRequest_def buildRequest_def sendRequest_def extractBody_def)

end
