(* ===== verification/State_Managers.thy ===== *)
theory State_Managers
  imports State_Mapping Resolve_Errors
begin

text \<open>
  The stores of the state and what is built on them: the interface \<open>StateManager\<close> with its dummy
  (\<open>lib/state_manager.go\<close>), the manager that writes to two stores
  (\<open>ext/storage/duplexstatemanager.go\<close>), the one that only logs
  (\<open>ext/storage/logonlystatemanager.go\<close>), the views of a store by cluster and by deployment
  (\<open>lib/cluster_manager.go\<close>, \<open>lib/deployment_manager.go\<close>), and the manager that dispatches to
  a store per cluster (\<open>lib/dispatchstatemanager.go\<close>).

  A manager is a record of its operations on a world \<open>'m\<close>, which holds what it stores. States are
  values: a state that is read is not changed by a later write.
\<close>

record User =
  uName :: string
  uEmail :: string

definition User_String :: "User \<Rightarrow> string" where
  "User_String u =
     join_with '' '' ((if uName u \<noteq> [] then [uName u] else []) @ (if uEmail u \<noteq> [] then [''<'' @ uEmail u @ ''>''] else []))"

definition User_Complete :: "User \<Rightarrow> bool" where
  "User_Complete u = (uName u \<noteq> [] \<and> uEmail u \<noteq> [])"

definition User_HTTPHeaders :: "User \<Rightarrow> (string, string) gomap" where
  "User_HTTPHeaders u = [(''Sous-User-Name'', uName u), (''Sous-User-Email'', uEmail u)]"

datatype store_error =
    StoreError goerror
  | GDMError gdm_error
  | NoDeployment DeploymentID
  | NoClusterManager string
  | WrappedStoreError string store_error

record 'm StateManager =
  ReadState :: "'m \<Rightarrow> 'm \<times> State \<times> store_error option"
  WriteState :: "State \<Rightarrow> User \<Rightarrow> 'm \<Rightarrow> 'm \<times> store_error option"

record 'm ClusterManager =
  ReadCluster :: "string \<Rightarrow> 'm \<Rightarrow> 'm \<times> Deployments \<times> store_error option"
  WriteCluster :: "string \<Rightarrow> Deployments \<Rightarrow> User \<Rightarrow> 'm \<Rightarrow> 'm \<times> store_error option"

section \<open>Stores\<close>

record DummyStateManager =
  dumState :: State
  dumReadCount :: int
  dumWriteCount :: int
  dumWriteErr :: "goerror option"
  dumReadErr :: "goerror option"

definition Dummy_ReadState :: "DummyStateManager \<Rightarrow> DummyStateManager \<times> State \<times> store_error option" where
  "Dummy_ReadState sm = (sm\<lparr>dumReadCount := dumReadCount sm + 1\<rparr>, dumState sm, map_option StoreError (dumReadErr sm))"

definition Dummy_WriteState :: "State \<Rightarrow> User \<Rightarrow> DummyStateManager \<Rightarrow> DummyStateManager \<times> store_error option" where
  "Dummy_WriteState s u sm =
     (sm\<lparr>dumWriteCount := dumWriteCount sm + 1, dumState := s\<rparr>, map_option StoreError (dumWriteErr sm))"

definition dummyManager :: "DummyStateManager StateManager" where
  "dummyManager = \<lparr>ReadState = Dummy_ReadState, WriteState = Dummy_WriteState\<rparr>"

definition LogOnly_ReadState :: "'m \<Rightarrow> 'm \<times> State \<times> store_error option" where
  "LogOnly_ReadState m = (m, NewState, None)"

definition LogOnly_WriteState :: "State \<Rightarrow> User \<Rightarrow> 'm \<Rightarrow> 'm \<times> store_error option" where
  "LogOnly_WriteState s u m = (m, None)"

text \<open>The world of a duplex manager has a part for each of its stores.\<close>

definition Duplex_ReadState :: "'p StateManager \<Rightarrow> 'q StateManager \<Rightarrow> 'p \<times> 'q \<Rightarrow> ('p \<times> 'q) \<times> State \<times> store_error option" where
  "Duplex_ReadState primary secondary w =
     (case ReadState primary (fst w) of
        (p, state, err) \<Rightarrow>
          (let q = (if err = None then fst (WriteState secondary state \<lparr>uName = [], uEmail = []\<rparr> (snd w)) else snd w)
           in ((p, q), state, err)))"

definition Duplex_WriteState :: "'p StateManager \<Rightarrow> 'q StateManager \<Rightarrow> State \<Rightarrow> User \<Rightarrow> 'p \<times> 'q \<Rightarrow> ('p \<times> 'q) \<times> store_error option" where
  "Duplex_WriteState primary secondary state user w =
     (let q = fst (WriteState secondary state user (snd w))
      in case WriteState primary state user (fst w) of (p, err) \<Rightarrow> ((p, q), err))"

definition duplexManager :: "'p StateManager \<Rightarrow> 'q StateManager \<Rightarrow> ('p \<times> 'q) StateManager" where
  "duplexManager primary secondary =
     \<lparr>ReadState = Duplex_ReadState primary secondary, WriteState = Duplex_WriteState primary secondary\<rparr>"

section \<open>Views of a store\<close>

definition deco_ReadCluster :: "'m StateManager \<Rightarrow> string \<Rightarrow> 'm \<Rightarrow> 'm \<times> Deployments \<times> store_error option" where
  "deco_ReadCluster sm clusterName m =
     (case ReadState sm m of
        (m', state, Some err) \<Rightarrow> (m', [], Some err)
      | (m', state, None) \<Rightarrow>
          (case State_Deployments state of
             (_, Some err) \<Rightarrow> (m', [], Some (GDMError err))
           | (deps, None) \<Rightarrow> (m', Deployments_Filter deps (Some (\<lambda>d. dClusterName d = clusterName)), None)))"

definition deco_WriteCluster :: "'m StateManager \<Rightarrow> string \<Rightarrow> Deployments \<Rightarrow> User \<Rightarrow> 'm \<Rightarrow> 'm \<times> store_error option" where
  "deco_WriteCluster sm clusterName wds user m =
     (case ReadState sm m of
        (m', state, Some err) \<Rightarrow> (m', Some err)
      | (m', state, None) \<Rightarrow>
          (case State_Deployments state of
             (_, Some err) \<Rightarrow> (m', Some (GDMError err))
           | (deps, None) \<Rightarrow>
               (let others = Deployments_Filter deps (Some (\<lambda>d. dClusterName d \<noteq> clusterName));
                    ds = map snd (Deployments_Snapshot (Deployments_Merge others wds))
                in case State_UpdateDeployments state ds of
                    (_, Some err) \<Rightarrow> (m', Some (GDMError err))
                  | (state', None) \<Rightarrow> WriteState sm state' user m')))"

definition MakeClusterManager :: "'m StateManager \<Rightarrow> 'm ClusterManager" where
  "MakeClusterManager sm = \<lparr>ReadCluster = deco_ReadCluster sm, WriteCluster = deco_WriteCluster sm\<rparr>"

definition deco_ReadDeployment :: "'m StateManager \<Rightarrow> DeploymentID \<Rightarrow> 'm \<Rightarrow> 'm \<times> Deployment option \<times> store_error option" where
  "deco_ReadDeployment sm did m =
     (case ReadState sm m of
        (m', state, Some err) \<Rightarrow> (m', None, Some err)
      | (m', state, None) \<Rightarrow>
          (case State_Deployments state of
             (_, Some err) \<Rightarrow> (m', None, Some (GDMError err))
           | (deps, None) \<Rightarrow>
               (case Deployments_Get deps did of
                  None \<Rightarrow> (m', None, Some (NoDeployment did))
                | Some dep \<Rightarrow> (m', Some dep, None))))"

text \<open>\<open>WriteDeployment\<close> sets the deployment in the map it expanded from the state, and writes the state.\<close>

definition deco_WriteDeployment :: "'m StateManager \<Rightarrow> Deployment \<Rightarrow> User \<Rightarrow> 'm \<Rightarrow> 'm \<times> store_error option" where
  "deco_WriteDeployment sm dep user m =
     (case ReadState sm m of
        (m', state, Some err) \<Rightarrow> (m', Some err)
      | (m', state, None) \<Rightarrow>
          (case State_Deployments state of
             (_, Some err) \<Rightarrow> (m', Some (GDMError err))
           | (deps, None) \<Rightarrow>
               (let deps' = Deployments_Set deps (Deployment_ID dep) dep in WriteState sm state user m')))"

section \<open>Dispatch to a store per cluster\<close>

record 'm DispatchStateManager =
  dspLocal :: "'m StateManager"
  dspClusters :: "(string, 'm ClusterManager) gomap"

text \<open>\<open>localCM\<close> is the local manager as a \<open>ClusterManager\<close>, when it is one.\<close>

definition NewDispatchStateManager ::
    "string \<Rightarrow> string list \<Rightarrow> 'm StateManager \<Rightarrow> 'm ClusterManager option \<Rightarrow> 'm ClusterManager \<Rightarrow> 'm DispatchStateManager" where
  "NewDispatchStateManager localCluster clusters sm localCM remote =
     \<lparr>dspLocal = sm,
      dspClusters = gset localCluster (case localCM of None \<Rightarrow> MakeClusterManager sm | Some cm \<Rightarrow> cm)
        (foldl (\<lambda>cs n. gset n remote cs) [] clusters)\<rparr>"

fun dispatch_read_loop :: "State \<Rightarrow> (string \<times> 'm ClusterManager) list \<Rightarrow> 'm \<Rightarrow> 'm \<times> (State + store_error)" where
  "dispatch_read_loop baseState [] m = (m, Inl baseState)"
| "dispatch_read_loop baseState ((cn, cm) # cms) m =
     (case ReadCluster cm cn m of
        (m', _, Some err) \<Rightarrow> (m', Inr (WrappedStoreError cn err))
      | (m', c, None) \<Rightarrow>
          (case State_UpdateDeployments baseState (map snd (Deployments_Snapshot c)) of
             (_, Some err) \<Rightarrow> (m', Inr (WrappedStoreError cn (GDMError err)))
           | (baseState', None) \<Rightarrow> dispatch_read_loop baseState' cms m'))"

definition dispatch_ReadState :: "'m DispatchStateManager \<Rightarrow> 'm \<Rightarrow> 'm \<times> (State + store_error)" where
  "dispatch_ReadState dsm m =
     (case ReadState (dspLocal dsm) m of
        (m', _, Some err) \<Rightarrow> (m', Inr (WrappedStoreError ''base state'' err))
      | (m', baseState, None) \<Rightarrow> dispatch_read_loop baseState (dspClusters dsm) m')"

fun dispatch_write_loop :: "Deployments \<Rightarrow> User \<Rightarrow> (string \<times> 'm ClusterManager) list \<Rightarrow> 'm \<Rightarrow> 'm \<times> store_error option" where
  "dispatch_write_loop deps user [] m = (m, None)"
| "dispatch_write_loop deps user ((cn, cm) # cms) m =
     (case WriteCluster cm cn (Deployments_Filter deps (Some (\<lambda>d. dClusterName d = cn))) user m of
        (m', Some err) \<Rightarrow> (m', Some (WrappedStoreError cn err))
      | (m', None) \<Rightarrow> dispatch_write_loop deps user cms m')"

definition dispatch_WriteState :: "'m DispatchStateManager \<Rightarrow> State \<Rightarrow> User \<Rightarrow> 'm \<Rightarrow> 'm \<times> store_error option" where
  "dispatch_WriteState dsm state user m =
     (case State_Deployments state of
        (_, Some err) \<Rightarrow> (m, Some (GDMError err))
      | (deps, None) \<Rightarrow> dispatch_write_loop deps user (dspClusters dsm) m)"

definition dispatch_ReadCluster :: "'m DispatchStateManager \<Rightarrow> string \<Rightarrow> 'm \<Rightarrow> 'm \<times> Deployments \<times> store_error option" where
  "dispatch_ReadCluster dsm clusterName m =
     (case gget (dspClusters dsm) clusterName of
        None \<Rightarrow> (m, [], Some (NoClusterManager clusterName))
      | Some cm \<Rightarrow> ReadCluster cm clusterName m)"

definition dispatch_WriteCluster :: "'m DispatchStateManager \<Rightarrow> string \<Rightarrow> Deployments \<Rightarrow> User \<Rightarrow> 'm \<Rightarrow> 'm \<times> store_error option" where
  "dispatch_WriteCluster dsm clusterName deps user m =
     (case gget (dspClusters dsm) clusterName of
        None \<Rightarrow> (m, Some (NoClusterManager clusterName))
      | Some cm \<Rightarrow> WriteCluster cm clusterName deps user m)"

section \<open>Updates of many deployments\<close>

lemma upsert_all_append: "upsert_all m (map snd es) = gset_all m (map (\<lambda>(k, d). (Deployment_ID d, d)) es)"
  by (induction es arbitrary: m) (auto simp: Deployments_Set_def CMap_Set_def)

lemma keyed_map_id: "keyed Deployment_ID es \<Longrightarrow> map (\<lambda>(k, d). (Deployment_ID d, d)) es = es"
  by (rule map_idI) (auto simp: keyed_def)

lemma upsert_all_keyed:
  assumes "keyed Deployment_ID m" and "keyed Deployment_ID es"
  shows "upsert_all m (map snd es) = Deployments_Merge m es" and "keyed Deployment_ID (Deployments_Merge m es)"
    and "gget (Deployments_Merge m es) did = (case gget es did of None \<Rightarrow> gget m did | Some d \<Rightarrow> Some d)"
  using assms deployments.keyed_Merge [OF assms] keyed_gwf [OF assms(1)] keyed_gwf [OF assms(2)]
  by (simp_all add: upsert_all_append keyed_map_id Deployments_Merge_def CMap_Merge_def gget_set_all)

lemma deployments_origin:
  assumes "wf_gdm defs ms" and "gget (all_deployments defs ms) k = Some e"
  shows "\<exists>m. gget ms (Deployment_ManifestID e) = Some m \<and> set (dOwners e) = set (mOwners m) \<and> dKind e = mKind m \<and> storable defs e"
proof -
  have ex: "expandable defs ms" using assms(1) by (simp add: wf_gdm_def)
  obtain m spec where m: "gget ms (didManifestID k) = Some m" and e: "e = built defs m (didCluster k) spec"
      and sp: "gget (mDeployments m) (didCluster k) = Some spec"
    using assms(2) by (auto simp: gget_all_deployments [OF ex] split: option.splits)
  have "gget ms (Deployment_ManifestID e) = Some m" using wf_gdmD(1) [OF assms(1) m] m by (simp add: e)
  moreover have "storable defs e" using built_storable [OF assms(1) m sp] e by simp
  moreover have "set (dOwners e) = set (mOwners m)" by (simp add: e owners_built)
  ultimately show ?thesis by (auto simp: e kind_built)
qed

definition joins_all :: "Defs \<Rightarrow> Manifests \<Rightarrow> Deployments \<Rightarrow> bool" where
  "joins_all defs ms es = (keyed Deployment_ID es \<and> consistent es \<and> (\<forall>(k, d) \<in> set es. storable defs d \<and> joins ms d))"

lemma consistentD:
  assumes "consistent ds" and "(k, d) \<in> set ds" and "(l, e) \<in> set ds" and "Deployment_ManifestID d = Deployment_ManifestID e"
  shows "set (dOwners d) = set (dOwners e) \<and> dKind d = dKind e"
  using bspec [OF bspec [OF assms(1) [unfolded consistent_def] assms(2), unfolded prod.case] assms(3), unfolded prod.case] assms(4) ..

lemma consistentI:
  assumes "\<And>k d l e. (k, d) \<in> set ds \<Longrightarrow> (l, e) \<in> set ds \<Longrightarrow> Deployment_ManifestID d = Deployment_ManifestID e
     \<Longrightarrow> set (dOwners d) = set (dOwners e) \<and> dKind d = dKind e"
  shows "consistent ds"
  unfolding consistent_def by (intro ballI, clarify) (rule assms)

lemma merged_consistent:
  assumes wf: "wf_gdm defs ms" and j: "joins_all defs ms es"
  shows "consistent (Deployments_Merge (all_deployments defs ms) es)"
    and "\<forall>(k, d) \<in> set (Deployments_Merge (all_deployments defs ms) es). storable defs d"
proof -
  let ?a = "all_deployments defs ms" and ?u = "Deployments_Merge (all_deployments defs ms) es"
  have ka: "keyed Deployment_ID ?a" using wf by (simp add: wf_gdm_def keyed_all_deployments)
  have ke: "keyed Deployment_ID es" using j by (simp add: joins_all_def)
  have origin: "(k, d) \<in> set es \<and> storable defs d \<and> joins ms d \<or> gget ?a k = Some d" if "(k, d) \<in> set ?u" for k d
  proof -
    have "gget ?u k = Some d" using that keyed_gwf [OF upsert_all_keyed(2) [OF ka ke]] by (simp add: gget_iff_mem)
    then consider "gget es k = Some d" | "gget ?a k = Some d"
      by (auto simp: upsert_all_keyed(3) [OF ka ke] split: option.splits)
    then show ?thesis using j by cases (auto simp: joins_all_def dest!: map_of_SomeD)
  qed
  have pair: "set (dOwners d) = set (dOwners e) \<and> dKind d = dKind e"
    if "(k, d) \<in> set ?u" "(l, e) \<in> set ?u" "Deployment_ManifestID d = Deployment_ManifestID e" for k d l e
  proof -
    note mem = that
    have own: "\<exists>m. gget ms (Deployment_ManifestID x) = Some m \<and> set (dOwners x) = set (mOwners m) \<and> dKind x = mKind m"
      if "gget ?a i = Some x" for i x
      using deployments_origin [OF wf that] by blast
    consider "(k, d) \<in> set es" "(l, e) \<in> set es" | "(k, d) \<in> set es" "joins ms d" "gget ?a l = Some e"
      | "gget ?a k = Some d" "(l, e) \<in> set es" "joins ms e" | "gget ?a k = Some d" "gget ?a l = Some e"
      using origin [OF mem(1)] origin [OF mem(2)] by blast
    then show ?thesis
    proof cases
      case 1
      have "consistent es" using j by (simp add: joins_all_def)
      from consistentD [OF this 1 mem(3)] show ?thesis .
    next
      case 2
      obtain m where "gget ms (Deployment_ManifestID d) = Some m" "set (dOwners e) = set (mOwners m)" "dKind e = mKind m"
        using own [OF 2(3)] mem(3) by auto
      with 2(2) show ?thesis by (simp add: joins_def)
    next
      case 3
      obtain m where "gget ms (Deployment_ManifestID e) = Some m" "set (dOwners d) = set (mOwners m)" "dKind d = mKind m"
        using own [OF 3(1)] mem(3) by auto
      with 3(3) show ?thesis by (simp add: joins_def)
    next
      case 4
      obtain m where "gget ms (Deployment_ManifestID d) = Some m" "set (dOwners d) = set (mOwners m)" "dKind d = mKind m"
        using own [OF 4(1)] by blast
      moreover obtain m' where "gget ms (Deployment_ManifestID e) = Some m'" "set (dOwners e) = set (mOwners m')" "dKind e = mKind m'"
        using own [OF 4(2)] by blast
      ultimately show ?thesis using mem(3) by simp
    qed
  qed
  show "consistent ?u" by (rule consistentI) (rule pair)
  show "\<forall>(k, d) \<in> set ?u. storable defs d"
    using origin deployments_origin [OF wf] by blast
qed

text \<open>Updating with many deployments replaces or adds exactly these.\<close>

lemma update_all_putget:
  assumes wf: "wf_gdm (sDefs s) (sManifests s)" and j: "joins_all (sDefs s) (sManifests s) es"
  shows "\<exists>s' ds'. State_UpdateDeployments s (map snd es) = (s', None) \<and> sDefs s' = sDefs s \<and> State_Deployments s' = (ds', None)
     \<and> keyed Deployment_ID ds'
     \<and> (\<forall>did. rel_option (\<lambda>d' d. Deployment_Diff d' d = Ok (False, [])) (gget ds' did)
           (case gget es did of None \<Rightarrow> gget (fst (State_Deployments s)) did | Some d \<Rightarrow> Some d))"
proof -
  let ?a = "all_deployments (sDefs s) (sManifests s)"
  have ex: "expandable (sDefs s) (sManifests s)" using wf by (simp add: wf_gdm_def)
  have sd: "State_Deployments s = (?a, None)" using Manifests_Deployments_ok [OF ex] by (simp add: State_Deployments_def)
  note keyed = keyed_all_deployments [OF ex] conjunct1 [OF j [unfolded joins_all_def]]
  obtain ms ds' where p: "PutbackManifests (Deployments_Merge ?a es) (sDefs s) (sManifests s) = (ms, None)"
      "Manifests_Deployments ms (sDefs s) = (ds', None)" "keyed Deployment_ID ds'"
      "\<forall>did. rel_option (\<lambda>d' d. Deployment_Diff d' d = Ok (False, [])) (gget ds' did) (gget (Deployments_Merge ?a es) did)"
    using putback_putget [OF upsert_all_keyed(2) [OF keyed] merged_consistent [OF wf j]] by blast
  let ?s' = "s\<lparr>sManifests := ms\<rparr>"
  have "State_UpdateDeployments s (map snd es) = (?s', None)" "State_Deployments ?s' = (ds', None)"
    using p(1,2) sd upsert_all_keyed(1) [OF keyed] by (simp_all add: State_UpdateDeployments_def State_Deployments_def)
  then show ?thesis
    using p(3,4) unfolding upsert_all_keyed(3) [OF keyed] sd fst_conv by (intro exI [of _ ?s'] exI [of _ ds']) simp
qed

text \<open>What \<open>WriteCluster\<close> updates with: some of the old deployments, overlaid by the new ones.\<close>

lemma joins_all_merge:
  assumes wf: "wf_gdm defs ms" and j: "joins_all defs ms es" and P: "\<And>x. x \<in> set os \<Longrightarrow> x \<in> set (all_deployments defs ms)" "gwf os"
  shows "joins_all defs ms (Deployments_Merge os es)"
    and "(case gget (Deployments_Merge os es) did of None \<Rightarrow> gget (all_deployments defs ms) did | Some d \<Rightarrow> Some d)
       = (case gget es did of None \<Rightarrow> gget (all_deployments defs ms) did | Some d \<Rightarrow> Some d)"
proof -
  let ?a = "all_deployments defs ms"
  have ka: "keyed Deployment_ID ?a" using wf by (simp add: wf_gdm_def keyed_all_deployments)
  have ke: "keyed Deployment_ID es" using j by (simp add: joins_all_def)
  have sub: "gget os k = Some d \<Longrightarrow> gget ?a k = Some d" for k d
    using P keyed_gwf [OF ka] by (simp add: gget_iff_mem)
  have ko: "keyed Deployment_ID os" using ka sub P(2) unfolding keyed_iff_get by blast
  note merge = upsert_all_keyed(3) [OF ko ke] and full = upsert_all_keyed(3) [OF ka ke]
  show "(case gget (Deployments_Merge os es) did of None \<Rightarrow> gget ?a did | Some d \<Rightarrow> Some d)
       = (case gget es did of None \<Rightarrow> gget ?a did | Some d \<Rightarrow> Some d)"
    unfolding merge using sub [of did] by (cases "gget es did"; cases "gget os did") simp_all
  have km: "keyed Deployment_ID (Deployments_Merge os es)" by (rule upsert_all_keyed(2) [OF ko ke])
  have mem: "(k, d) \<in> set (Deployments_Merge ?a es) \<and> joins ms d" if "(k, d) \<in> set (Deployments_Merge os es)" for k d
  proof -
    have g: "gget (Deployments_Merge os es) k = Some d" using that keyed_gwf [OF km] by (simp add: gget_iff_mem)
    then have "gget (Deployments_Merge ?a es) k = Some d" unfolding merge full using sub by (auto split: option.splits)
    moreover have "joins ms d"
    proof (cases "gget es k")
      case None
      then have "gget ?a k = Some d" using g sub by (simp add: merge)
      from deployments_origin [OF wf this] show ?thesis by (auto simp: joins_def)
    next
      case (Some d')
      then have "(k, d) \<in> set es" using g by (auto simp: merge dest: map_of_SomeD)
      then show ?thesis using j by (auto simp: joins_all_def)
    qed
    ultimately show ?thesis by (auto dest: map_of_SomeD)
  qed
  have "consistent (Deployments_Merge os es)"
    by (rule consistentI) (use mem consistentD [OF merged_consistent(1) [OF wf j]] in blast)
  moreover have "storable defs d" if "(k, d) \<in> set (Deployments_Merge os es)" for k d
    using mem [OF that] merged_consistent(2) [OF wf j] by blast
  ultimately show "joins_all defs ms (Deployments_Merge os es)"
    using km mem by (auto simp: joins_all_def)
qed

section \<open>The contract of a store\<close>

text \<open>
  What the views need of a state manager: while it is available, a read returns what is stored,
  and a write stores what it is given.
\<close>

definition no_diff :: "Deployment option \<Rightarrow> Deployment option \<Rightarrow> bool" where
  "no_diff = rel_option (\<lambda>d' d. Deployment_Diff d' d = Ok (False, []))"

locale state_store =
  fixes sm :: "'m StateManager" and stored :: "'m \<Rightarrow> State" and available :: "'m \<Rightarrow> bool"
  assumes read_ok: "available m \<Longrightarrow> \<exists>m'. ReadState sm m = (m', stored m, None) \<and> stored m' = stored m \<and> available m'"
    and write_ok: "available m \<Longrightarrow> \<exists>m'. WriteState sm s u m = (m', None) \<and> stored m' = s \<and> available m'"
begin

lemma read_cluster:
  assumes "available m" and "State_Deployments (stored m) = (ds, None)" and "keyed Deployment_ID ds"
  shows "\<exists>m'. deco_ReadCluster sm cn m = (m', filter (\<lambda>(k, d). dClusterName d = cn) ds, None)
     \<and> (\<forall>did. gget (filter (\<lambda>(k, d). dClusterName d = cn) ds) did = (if didCluster did = cn then gget ds did else None))"
proof -
  obtain m' where "ReadState sm m = (m', stored m, None)" using read_ok [OF assms(1)] by blast
  then have "deco_ReadCluster sm cn m = (m', filter (\<lambda>(k, d). dClusterName d = cn) ds, None)"
    using assms(2) deployments.Filter_Some [OF keyed_gwf [OF assms(3)]]
    by (simp add: deco_ReadCluster_def Deployments_Filter_def)
  moreover have "gget (filter (\<lambda>(k, d). dClusterName d = cn) ds) did = (if didCluster did = cn then gget ds did else None)" for did
  proof (cases "gget ds did")
    case (Some d)
    then have "did = Deployment_ID d" using assms(3) by (simp add: keyed_iff_get)
    then have "didCluster did = dClusterName d" by (simp add: Deployment_ID_did_of)
    then show ?thesis using Some by (simp add: gwf_filter_get [OF keyed_gwf [OF assms(3)]])
  qed (simp add: gwf_filter_get [OF keyed_gwf [OF assms(3)]])
  ultimately show ?thesis by blast
qed

lemma write_cluster:
  assumes m: "available m" and wf: "wf_gdm (sDefs (stored m)) (sManifests (stored m))"
    and j: "joins_all (sDefs (stored m)) (sManifests (stored m)) wds"
  shows "\<exists>m'. deco_WriteCluster sm cn wds user m = (m', None) \<and> available m'
     \<and> (\<forall>cn'. \<exists>m'' ds. deco_ReadCluster sm cn' m' = (m'', ds, None)
          \<and> (\<forall>did. no_diff (gget ds did)
               (if didCluster did = cn'
                then case gget wds did of None \<Rightarrow> gget (fst (State_Deployments (stored m))) did | Some d \<Rightarrow> Some d
                else None)))"
proof -
  let ?s = "stored m" and ?a = "all_deployments (sDefs (stored m)) (sManifests (stored m))"
  have ex: "expandable (sDefs ?s) (sManifests ?s)" using wf by (simp add: wf_gdm_def)
  have sd: "State_Deployments ?s = (?a, None)" using Manifests_Deployments_ok [OF ex] by (simp add: State_Deployments_def)
  have gwfa: "gwf ?a" by (rule gwf_all_deployments [OF ex])
  define os where "os = filter (\<lambda>(k, d). dClusterName d \<noteq> cn) ?a"
  have os: "Deployments_Filter ?a (Some (\<lambda>d. dClusterName d \<noteq> cn)) = os"
    using deployments.Filter_Some [OF gwfa] by (simp add: Deployments_Filter_def os_def)
  have j': "joins_all (sDefs ?s) (sManifests ?s) (Deployments_Merge os wds)"
    and get: "(case gget (Deployments_Merge os wds) did of None \<Rightarrow> gget ?a did | Some d \<Rightarrow> Some d)
       = (case gget wds did of None \<Rightarrow> gget ?a did | Some d \<Rightarrow> Some d)" for did
    using joins_all_merge [OF wf j, of os] gwfa by (simp_all add: os_def)
  have snap: "Deployments_Snapshot (Deployments_Merge os wds) = Deployments_Merge os wds"
    using CMap_Snapshot_id [OF keyed_gwf [OF conjunct1 [OF j' [unfolded joins_all_def]]]] by (simp add: Deployments_Snapshot_def)
  obtain s' ds' where u: "State_UpdateDeployments ?s (map snd (Deployments_Merge os wds)) = (s', None)" "State_Deployments s' = (ds', None)"
      "keyed Deployment_ID ds'" "\<forall>did. no_diff (gget ds' did) (case gget wds did of None \<Rightarrow> gget ?a did | Some d \<Rightarrow> Some d)"
    using update_all_putget [OF wf j'] unfolding sd fst_conv get no_diff_def by blast
  obtain m1 where r: "ReadState sm m = (m1, ?s, None)" "available m1" using read_ok [OF m] by blast
  obtain m' where w: "WriteState sm s' user m1 = (m', None)" "stored m' = s'" "available m'" using write_ok [OF r(2)] by blast
  have "deco_WriteCluster sm cn wds user m = (m', None)"
    using r(1) u(1) w(1) by (simp add: deco_WriteCluster_def sd os snap Let_def)
  moreover have "\<exists>m'' ds. deco_ReadCluster sm cn' m' = (m'', ds, None)
      \<and> (\<forall>did. no_diff (gget ds did) (if didCluster did = cn'
            then case gget wds did of None \<Rightarrow> gget ?a did | Some d \<Rightarrow> Some d else None))" for cn'
  proof -
    obtain m'' where "deco_ReadCluster sm cn' m' = (m'', filter (\<lambda>(k, d). dClusterName d = cn') ds', None)"
      and g: "\<And>did. gget (filter (\<lambda>(k, d). dClusterName d = cn') ds') did = (if didCluster did = cn' then gget ds' did else None)"
      using read_cluster [OF w(3), of ds' cn'] u(2,3) w(2) by blast
    moreover have "no_diff None None" by (simp add: no_diff_def)
    ultimately show ?thesis using u(4) by (intro exI conjI) (assumption, simp add: g)
  qed
  ultimately show ?thesis using w(3) unfolding sd fst_conv by blast
qed

lemma write_deployment_unchanged:
  assumes "available m" and "snd (State_Deployments (stored m)) = None"
  shows "\<exists>m'. deco_WriteDeployment sm dep user m = (m', None) \<and> stored m' = stored m"
proof -
  obtain m1 where r: "ReadState sm m = (m1, stored m, None)" "available m1" using read_ok [OF assms(1)] by blast
  then obtain m' where "WriteState sm (stored m) user m1 = (m', None)" "stored m' = stored m" using write_ok by blast
  moreover obtain ds where "State_Deployments (stored m) = (ds, None)"
    using assms(2) by (cases "State_Deployments (stored m)") simp
  ultimately show ?thesis using r by (simp add: deco_WriteDeployment_def Let_def)
qed

end

interpretation dummy: state_store dummyManager dumState "\<lambda>sm. dumReadErr sm = None \<and> dumWriteErr sm = None"
  by unfold_locales (auto simp: dummyManager_def Dummy_ReadState_def Dummy_WriteState_def)

text \<open>A duplex manager keeps the contract of its primary, whatever its secondary does.\<close>

locale duplex_store = state_store +
  fixes secondary :: "'q StateManager"

sublocale duplex_store \<subseteq> duplex: state_store "duplexManager sm secondary" "\<lambda>w. stored (fst w)" "\<lambda>w. available (fst w)"
proof
  fix w :: "'a \<times> 'q" and s u
  assume av: "available (fst w)"
  obtain m' where "ReadState sm (fst w) = (m', stored (fst w), None)" "stored m' = stored (fst w)" "available m'"
    using read_ok [OF av] by blast
  then show "\<exists>w'. ReadState (duplexManager sm secondary) w = (w', stored (fst w), None) \<and> stored (fst w') = stored (fst w) \<and> available (fst w')"
    by (simp add: duplexManager_def Duplex_ReadState_def)
  obtain m' where "WriteState sm s u (fst w) = (m', None)" "stored m' = s" "available m'"
    using write_ok [OF av] by blast
  then show "\<exists>w'. WriteState (duplexManager sm secondary) s u w = (w', None) \<and> stored (fst w') = s \<and> available (fst w')"
    by (simp add: duplexManager_def Duplex_WriteState_def)
qed

interpretation logged: duplex_store dummyManager dumState "\<lambda>sm. dumReadErr sm = None \<and> dumWriteErr sm = None"
    "\<lparr>ReadState = LogOnly_ReadState, WriteState = LogOnly_WriteState\<rparr> :: unit StateManager"
  by unfold_locales

section \<open>Properties\<close>

text \<open>C26: The view of a store by cluster. \<open>WriteCluster\<close> on any store that keeps its contract succeeds, and
  afterwards \<open>ReadCluster\<close> gives, for the cluster and for every other, the deployments that were
  written and those that were there before and were not written: up to what \<open>Diff\<close> compares,
  nothing else is changed.\<close>

theorem write_cluster_reads_back:
  assumes "state_store sm stored available" and "available m"
    and "wf_gdm (sDefs (stored m)) (sManifests (stored m))" and "joins_all (sDefs (stored m)) (sManifests (stored m)) wds"
  shows "\<exists>m'. WriteCluster (MakeClusterManager sm) cn wds user m = (m', None) \<and> available m'
     \<and> (\<forall>cn'. \<exists>m'' ds. ReadCluster (MakeClusterManager sm) cn' m' = (m'', ds, None)
          \<and> (\<forall>did. no_diff (gget ds did)
               (if didCluster did = cn'
                then case gget wds did of None \<Rightarrow> gget (fst (State_Deployments (stored m))) did | Some d \<Rightarrow> Some d
                else None)))"
  using state_store.write_cluster [OF assms] by (simp add: MakeClusterManager_def)

definition example_store :: DummyStateManager where
  "example_store = \<lparr>dumState = \<lparr>sDefs = example_defs, sManifests = example_manifests, sEtag = None\<rparr>,
     dumReadCount = 0, dumWriteCount = 0, dumWriteErr = None, dumReadErr = None\<rparr>"

definition example_written :: Deployments where
  "example_written = (let d = storable_deployment\<lparr>dOwners := [''sam'', ''judson'']\<rparr> in [(Deployment_ID d, d)])"

theorem write_cluster_reads_back_witness:
  "\<exists>m'. WriteCluster (MakeClusterManager dummyManager) ''left'' example_written \<lparr>uName = [], uEmail = []\<rparr> example_store = (m', None)"
proof -
  let ?d = "storable_deployment\<lparr>dOwners := [''sam'', ''judson'']\<rparr>"
  have "storable example_defs ?d"
    by (simp add: storable_def storable_deployment_def example_deployment_def example_defs_def zeroDefs_def
        example_cluster_def wf_deployment_def wf_config_def zeroDeployConfig_def Startup_MergeDefaults_def
        merge_field_def zeroStartup_def)
  moreover have "joins example_manifests ?d"
    by (auto simp: joins_def storable_deployment_def example_deployment_def example_manifest_def)
  ultimately have "joins_all example_defs example_manifests example_written"
    by (simp add: joins_all_def example_written_def keyed_def consistent_def Let_def)
  then show ?thesis
    using write_cluster_reads_back [OF dummy.state_store_axioms, of example_store example_written "''left''" "\<lparr>uName = [], uEmail = []\<rparr>"] wf_example_gdm
    by (auto simp: example_store_def)
qed

text \<open>\<open>WriteDeployment\<close> does not write the deployment. On any store that keeps its contract it succeeds
  and leaves what is stored as it was: the deployment goes into a map that is thrown away.\<close>

theorem write_deployment_is_lost:
  assumes "state_store sm stored available" and "available m" and "snd (State_Deployments (stored m)) = None"
  shows "\<exists>m'. deco_WriteDeployment sm dep user m = (m', None) \<and> stored m' = stored m"
  using state_store.write_deployment_unchanged [OF assms] .

theorem write_deployment_is_lost_witness:
  "\<exists>m'. deco_WriteDeployment dummyManager storable_deployment \<lparr>uName = [], uEmail = []\<rparr> example_store = (m', None)
     \<and> dumState m' = dumState example_store"
proof -
  have "snd (State_Deployments (dumState example_store)) = None"
    using Manifests_Deployments_ok [of example_defs example_manifests] wf_example_gdm
    by (simp add: State_Deployments_def example_store_def wf_gdm_def)
  then show ?thesis
    by (intro write_deployment_is_lost [OF dummy.state_store_axioms]) (simp_all add: example_store_def)
qed

end
