(* ===== verification/Server_Handlers.thy ===== *)
theory Server_Handlers
  imports Restful State_Managers R11n_Queue_Set
begin

text \<open>
  The resources of the server (\<open>server/\<close>): parsing of the query (\<open>queries.go\<close>,
  \<open>util/restful/queryvalues.go\<close>) and the exchanges of the GDM, manifests, single deployments, the
  deployments of a cluster, the queues and the other servers. The store and the queues are passed
  through; a body is what \<open>json.Decode\<close> leaves in the handler's structure, with its error. A reply
  carries typed data and a status; its headers are given with the data, as \<open>AddHeaders\<close> does.
\<close>

datatype 'a reply = Reply 'a int | Message string int | Empty int

fun status_of :: "'a reply \<Rightarrow> int" where
  "status_of (Reply a s) = s"
| "status_of (Message m s) = s"
| "status_of (Empty s) = s"

datatype 'a run = Finished 'a | Panics | Blocks

section \<open>Queries\<close>

type_synonym QueryValues = "(string, string list) gomap"

definition Single :: "QueryValues \<Rightarrow> string \<Rightarrow> string option \<Rightarrow> (string, string) outcome" where
  "Single qv field def =
     (case gget qv field of
        None \<Rightarrow> (case def of None \<Rightarrow> Err (''No '' @ field @ '' given'') | Some d \<Rightarrow> Ok d)
      | Some values \<Rightarrow>
          if length values > 1 then Err (''Multiples of '' @ field @ '' given'')
          else (case values of [] \<Rightarrow> Panic | v # _ \<Rightarrow> Ok v))"

fun then_do :: "('e, 'a) outcome \<Rightarrow> ('a \<Rightarrow> ('e, 'b) outcome) \<Rightarrow> ('e, 'b) outcome" where
  "then_do (Ok a) f = f a"
| "then_do (Err e) f = Err e"
| "then_do Panic f = Panic"

definition manifestIDFromValues :: "QueryValues \<Rightarrow> (string, ManifestID) outcome" where
  "manifestIDFromValues qv =
     then_do (Single qv ''repo'' None) (\<lambda>r.
       then_do (Single qv ''offset'' (Some [])) (\<lambda>ofs.
         then_do (Single qv ''flavor'' (Some [])) (\<lambda>f.
           Ok \<lparr>midSource = \<lparr>slRepo = r, slDir = ofs\<rparr>, midFlavor = f\<rparr>)))"

definition deploymentIDFromValues :: "QueryValues \<Rightarrow> (string, DeploymentID) outcome" where
  "deploymentIDFromValues qv =
     then_do (Single qv ''cluster'' None) (\<lambda>cluster.
       then_do (manifestIDFromValues qv) (\<lambda>mid. Ok \<lparr>didManifestID = mid, didCluster = cluster\<rparr>))"

definition ParseBool :: "string \<Rightarrow> bool option" where
  "ParseBool s =
     (if s \<in> set [''1'', ''t'', ''T'', ''TRUE'', ''true'', ''True''] then Some True
      else if s \<in> set [''0'', ''f'', ''F'', ''FALSE'', ''false'', ''False''] then Some False
      else None)"

definition forceFromValues :: "QueryValues \<Rightarrow> (string, bool) outcome" where
  "forceFromValues qv =
     then_do (Single qv ''force'' None) (\<lambda>f. case ParseBool f of None \<Rightarrow> Err ''invalid syntax'' | Some b \<Rightarrow> Ok b)"

text \<open>\<open>GetUser\<close>, and \<open>liveState\<close>: \<open>missing\<close> says which errors mean that there is no state yet.\<close>

definition GetUser :: "http_header \<Rightarrow> User" where
  "GetUser h = \<lparr>uName = header_Get h ''Sous-User-Name'', uEmail = header_Get h ''Sous-User-Email''\<rparr>"

definition liveState :: "'m StateManager \<Rightarrow> (store_error \<Rightarrow> bool) \<Rightarrow> 'm \<Rightarrow> 'm \<times> State option" where
  "liveState sm missing m =
     (case ReadState sm m of
        (m', state, None) \<Rightarrow> (m', Some state)
      | (m', state, Some err) \<Rightarrow> (m', if missing err then Some NewState else None))"

section \<open>Manifests\<close>

definition GETManifest_Exchange :: "State option \<Rightarrow> QueryValues \<Rightarrow> Manifest reply run" where
  "GETManifest_Exchange state qv =
     (case manifestIDFromValues qv of
        Panic \<Rightarrow> Panics
      | Err err \<Rightarrow> Finished (Message err 404)
      | Ok mid \<Rightarrow>
          (case state of
             None \<Rightarrow> Panics
           | Some s \<Rightarrow>
               (case Manifests_Get (sManifests s) mid of
                  None \<Rightarrow> Finished (Empty 404)
                | Some m \<Rightarrow> Finished (Reply m 200))))"

text \<open>The state without the manifest is not given to any writer.\<close>

definition DELETEManifest_Exchange :: "State option \<Rightarrow> QueryValues \<Rightarrow> (State \<times> unit reply) run" where
  "DELETEManifest_Exchange state qv =
     (case manifestIDFromValues qv of
        Panic \<Rightarrow> Panics
      | Err err \<Rightarrow> (case state of None \<Rightarrow> Panics | Some s \<Rightarrow> Finished (s, Message err 404))
      | Ok mid \<Rightarrow>
          (case state of
             None \<Rightarrow> Panics
           | Some s \<Rightarrow>
               (case Manifests_Get (sManifests s) mid of
                  None \<Rightarrow> Finished (s, Empty 404)
                | Some _ \<Rightarrow> Finished (s\<lparr>sManifests := Manifests_Remove (sManifests s) mid\<rparr>, Empty 204))))"

text \<open>\<open>body\<close> is what decoding left in the manifest; the error of decoding is not looked at.\<close>

definition PUTManifest_Exchange ::
    "'m StateManager \<Rightarrow> User \<Rightarrow> State option \<Rightarrow> QueryValues \<Rightarrow> Manifest \<Rightarrow> 'm \<Rightarrow> ('m \<times> Manifest reply) run" where
  "PUTManifest_Exchange sm user state qv body m =
     (case manifestIDFromValues qv of
        Panic \<Rightarrow> Panics
      | Err err \<Rightarrow> Finished (m, Message err 404)
      | Ok mid \<Rightarrow>
          if length (Manifest_Validate body) > 0 then Finished (m, Message ''Invalid manifest'' 400)
          else (case state of
              None \<Rightarrow> Panics
            | Some s \<Rightarrow>
                (case WriteState sm (s\<lparr>sManifests := Manifests_Set (sManifests s) mid body\<rparr>) user m of
                   (m', Some err) \<Rightarrow> Finished (m', Message ''state recording collision - retry'' 409)
                 | (m', None) \<Rightarrow> Finished (m', Reply body 200))))"

section \<open>The GDM\<close>

type_synonym GDMWrapper = "Deployment list"

text \<open>
  \<open>etag\<close>: the deployments are copied into a slice of length zero, so none is. \<open>sha\<close> is the encoded
  SHA-512 sum, \<open>str\<close> prints a deployment.
\<close>

definition go_copy :: "'a list \<Rightarrow> 'a list \<Rightarrow> 'a list" where
  "go_copy dst src = take (length dst) src @ drop (length src) dst"

definition GDMWrapper_etag :: "(string \<Rightarrow> string) \<Rightarrow> (Deployment \<Rightarrow> string) \<Rightarrow> GDMWrapper \<Rightarrow> string" where
  "GDMWrapper_etag sha str g =
     (let deps = sort_key (\<lambda>d. DeploymentID_String (Deployment_ID d)) (go_copy [] g)
      in ''w/'' @ sha (concat (map str deps)))"

definition GDMWrapper_AddHeaders :: "(string \<Rightarrow> string) \<Rightarrow> (Deployment \<Rightarrow> string) \<Rightarrow> GDMWrapper \<Rightarrow> http_header \<Rightarrow> http_header" where
  "GDMWrapper_AddHeaders sha str g h = header_Add ''Etag'' (GDMWrapper_etag sha str g) h"

fun get_sorted :: "Deployments \<Rightarrow> DeploymentID list \<Rightarrow> GDMWrapper option" where
  "get_sorted deps [] = Some []"
| "get_sorted deps (k # ks) =
     (case Deployments_Get deps k of None \<Rightarrow> None | Some d \<Rightarrow> map_option ((#) d) (get_sorted deps ks))"

definition GETGDM_Exchange :: "(string \<Rightarrow> string) \<Rightarrow> State option \<Rightarrow> GDMWrapper reply run" where
  "GETGDM_Exchange md5sum gdm =
     (case gdm of
        None \<Rightarrow> Panics
      | Some s \<Rightarrow>
          (case State_Deployments s of
             (_, Some err) \<Rightarrow> Finished (Message ''error'' 500)
           | (deps, None) \<Rightarrow>
               (case get_sorted deps (sort_key (DeploymentID_Digest md5sum) (Deployments_Keys deps)) of
                  None \<Rightarrow> Finished (Message ''Error serializing GDM'' 500)
                | Some ds \<Rightarrow> Finished (Reply ds 200))))"

text \<open>\<open>body\<close> is what decoding left in the wrapper; the error of decoding is not looked at.\<close>

definition PUTGDM_Exchange ::
    "'m StateManager \<Rightarrow> User \<Rightarrow> http_header \<Rightarrow> GDMWrapper \<Rightarrow> 'm \<Rightarrow> ('m \<times> unit reply) run" where
  "PUTGDM_Exchange sm user header body m =
     (case NewDeployments body of
        Ok deps \<Rightarrow>
          (case ReadState sm m of
             (m', _, Some err) \<Rightarrow> Finished (m', Message ''Error loading state from storage'' 500)
           | (m', state, None) \<Rightarrow>
               (case PutbackManifests deps (sDefs state) (sManifests state) of
                  (_, Some err) \<Rightarrow> Finished (m', Message ''Error getting state'' 409)
                | (ms, None) \<Rightarrow>
                    (let state1 = state\<lparr>sManifests := ms\<rparr>
                     in if length (State_Validate state1) > 0 then Finished (m', Message ''Invalid GDM'' 400)
                        else (let state2 = (if ghas header ''Etag'' then State_SetEtag state1 (header_Get header ''Etag'') else state1)
                              in case WriteState sm state2 user m' of
                                  (m'', Some err) \<Rightarrow> Finished (m'', Message ''Error committing state'' 500)
                                | (m'', None) \<Rightarrow> Finished (m'', Message [] 204)))))
      | _ \<Rightarrow> Panics)"

section \<open>The deployments of the server's cluster\<close>

definition GETStateDeployments_Exchange :: "'m ClusterManager \<Rightarrow> string \<Rightarrow> 'm \<Rightarrow> 'm \<times> GDMWrapper reply" where
  "GETStateDeployments_Exchange cm clusterName m =
     (case ReadCluster cm clusterName m of
        (m', _, Some err) \<Rightarrow> (m', Message ''error'' 500)
      | (m', deps, None) \<Rightarrow> (m', Reply (map snd (Deployments_Snapshot deps)) 200))"

definition PUTStateDeployments_Exchange ::
    "'m ClusterManager \<Rightarrow> string \<Rightarrow> User \<Rightarrow> string + GDMWrapper \<Rightarrow> 'm \<Rightarrow> ('m \<times> unit reply) run" where
  "PUTStateDeployments_Exchange cm clusterName user body m =
     (case body of
        Inl err \<Rightarrow> Finished (m, Message err 400)
      | Inr ds \<Rightarrow>
          (case NewDeployments ds of
             Ok deps \<Rightarrow>
               (case WriteCluster cm clusterName deps user m of
                  (m', Some err) \<Rightarrow> Finished (m', Message ''error'' 500)
                | (m', None) \<Rightarrow> Finished (m', Empty 202))
           | _ \<Rightarrow> Panics))"

section \<open>Single deployments\<close>

record SingleDeploymentBody =
  sdbLinks :: "(string, string) gomap"
  sdbDeployment :: "DeploySpec option"

text \<open>\<open>marshal\<close> is the JSON of a deploy spec, \<open>sha\<close> the encoded SHA-512 sum.\<close>

definition SingleDeploymentBody_etag :: "(string \<Rightarrow> string) \<Rightarrow> (DeploySpec option \<Rightarrow> string) \<Rightarrow> SingleDeploymentBody \<Rightarrow> string" where
  "SingleDeploymentBody_etag sha marshal b = ''w/'' @ sha (marshal (sdbDeployment b))"

definition SingleDeploymentBody_AddHeaders ::
    "(string \<Rightarrow> string) \<Rightarrow> (DeploySpec option \<Rightarrow> string) \<Rightarrow> SingleDeploymentBody \<Rightarrow> http_header \<Rightarrow> http_header" where
  "SingleDeploymentBody_AddHeaders sha marshal b h =
     (let h1 = header_Add ''Etag'' (SingleDeploymentBody_etag sha marshal b) h
      in case gget (sdbLinks b) ''queuedDeployAction'' of None \<Rightarrow> h1 | Some url \<Rightarrow> header_Add ''Location'' url h1)"

definition GETSingleDeployment_Exchange :: "State option \<Rightarrow> QueryValues \<Rightarrow> SingleDeploymentBody reply run" where
  "GETSingleDeployment_Exchange gdm qv =
     (case deploymentIDFromValues qv of
        Panic \<Rightarrow> Panics
      | Err err \<Rightarrow> Finished (Message (''Cannot decode Deployment ID: '' @ err) 400)
      | Ok did \<Rightarrow>
          (case gdm of
             None \<Rightarrow> Panics
           | Some s \<Rightarrow>
               (case Manifests_Get (sManifests s) (didManifestID did) of
                  None \<Rightarrow> Finished (Message ''No manifest'' 404)
                | Some m \<Rightarrow>
                    (case gget (mDeployments m) (didCluster did) of
                       None \<Rightarrow> Finished (Message ''no deployment for cluster'' 404)
                     | Some dep \<Rightarrow> Finished (Reply \<lparr>sdbLinks = [], sdbDeployment = Some dep\<rparr> 200)))))"

text \<open>The pair that is queued: no prior, the new deployment as the post, under the ID.\<close>

definition single_pair :: "DeploymentID \<Rightarrow> Deployment \<Rightarrow> DeployablePair" where
  "single_pair did d =
     \<lparr>dpPrior = None, dpPost = Some \<lparr>dblStatus = DeployStatusAny, dblDeployment = d, dblArtifact = None\<rparr>, dpName = did,
      dpExecutorData = None, dpUUID = []\<rparr>"

text \<open>The state with the new spec; the manifest is changed where it is.\<close>

definition set_spec :: "State \<Rightarrow> DeploymentID \<Rightarrow> Manifest \<Rightarrow> DeploySpec \<Rightarrow> State" where
  "set_spec s did m spec =
     s\<lparr>sManifests := gset (didManifestID did) (m\<lparr>mDeployments := gset (didCluster did) spec (mDeployments m)\<rparr>) (sManifests s)\<rparr>"

text \<open>
  What follows the writing of the state: the new deployment is read back, validated and queued.
  \<open>uri\<close> is the address of a queue item, or the error of making it; \<open>new\<close> the ID of the queue item.
\<close>

definition queue_single ::
    "(R11nID \<Rightarrow> DeploymentID \<Rightarrow> string + string) \<Rightarrow> R11nID \<Rightarrow> State \<Rightarrow> DeploymentID \<Rightarrow> DeploySpec \<Rightarrow> R11nQueueSet
     \<Rightarrow> (R11nQueueSet \<times> SingleDeploymentBody reply) run" where
  "queue_single uri new gdm did spec rqs =
     (case State_Deployments gdm of
        (_, Some err) \<Rightarrow> Finished (rqs, Message ''Failed to round-trip new deployment spec to GDM'' 500)
      | (deployments, None) \<Rightarrow>
          (case Deployments_Get deployments did of
             None \<Rightarrow> Finished (rqs, Message ''Failed to round-trip new deployment spec to GDM.'' 500)
           | Some newDeployment \<Rightarrow>
               if length (Deployment_Validate newDeployment) \<noteq> 0
               then Finished (rqs, Message ''Deployment invalid after round-trip to GDM'' 400)
               else (case QueueSet_Push new (NewRectification (single_pair did newDeployment)) rqs of
                   None \<Rightarrow> Blocks
                 | Some (rqs', None) \<Rightarrow> Finished (rqs', Message ''Queue full, please try again later.'' 409)
                 | Some (rqs', Some qr) \<Rightarrow>
                     (case uri qr did of
                        Inl err \<Rightarrow> Finished (rqs', Message (''Determining queue item URL: '' @ err) 500)
                      | Inr queueURI \<Rightarrow>
                          Finished (rqs', Reply \<lparr>sdbLinks = [(''queuedDeployAction'', queueURI)], sdbDeployment = Some spec\<rparr> 201)))))"

definition PUTSingleDeployment_Exchange ::
    "(R11nID \<Rightarrow> DeploymentID \<Rightarrow> string + string) \<Rightarrow> 'm StateManager \<Rightarrow> User \<Rightarrow> R11nID \<Rightarrow> State option \<Rightarrow> QueryValues
     \<Rightarrow> string + DeploySpec option \<Rightarrow> 'm \<Rightarrow> R11nQueueSet \<Rightarrow> ('m \<times> R11nQueueSet \<times> SingleDeploymentBody reply) run" where
  "PUTSingleDeployment_Exchange uri sm user new gdm qv body m rqs =
     (case deploymentIDFromValues qv of
        Panic \<Rightarrow> Panics
      | Err err \<Rightarrow> Finished (m, rqs, Message (''Cannot decode Deployment ID: '' @ err) 400)
      | Ok did \<Rightarrow>
     (case forceFromValues qv of
        Panic \<Rightarrow> Panics
      | Err err \<Rightarrow> Finished (m, rqs, Message (''Cannot parse force from client: '' @ err) 400)
      | Ok force \<Rightarrow>
     (case body of
        Inl err \<Rightarrow> Finished (m, rqs, Message (''Error parsing body: '' @ err) 400)
      | Inr None \<Rightarrow> Finished (m, rqs, Message ''Body.Deployment is nil.'' 400)
      | Inr (Some spec) \<Rightarrow>
     (case gdm of
        None \<Rightarrow> Panics
      | Some s \<Rightarrow>
     (case Manifests_Get (sManifests s) (didManifestID did) of
        None \<Rightarrow> Finished (m, rqs, Message ''No manifest'' 404)
      | Some man \<Rightarrow>
     (case gget (mDeployments man) (didCluster did) of
        None \<Rightarrow> Finished (m, rqs, Message ''no deployment for cluster'' 404)
      | Some original \<Rightarrow>
          if dcNumInstances (dsDeployConfig spec) = 0 then Finished (m, rqs, Message ''Cannot deploy: NumInstances is 0'' 400)
          else if \<not> fst (DeploySpec_Diff spec original) \<and> \<not> force
          then Finished (m, rqs, Reply \<lparr>sdbLinks = [], sdbDeployment = Some spec\<rparr> 200)
          else (let gdm' = set_spec s did man spec
                in case WriteState sm gdm' user m of
                    (m', Some err) \<Rightarrow> Finished (m', rqs, Message ''Failed to write state'' 500)
                  | (m', None) \<Rightarrow>
                      (case queue_single uri new gdm' did spec rqs of
                         Panics \<Rightarrow> Panics | Blocks \<Rightarrow> Blocks
                       | Finished (rqs', reply) \<Rightarrow> Finished (m', rqs', reply)))))))))"

section \<open>The queues\<close>

record R11nResponse =
  rrQueuePosition :: int
  rrResolution :: "DiffResolution option"

definition GETR11n_Exchange :: "R11nQueueSet \<Rightarrow> bool \<Rightarrow> (string, DeploymentID) outcome \<Rightarrow> R11nID \<Rightarrow> R11nResponse reply run" where
  "GETR11n_Exchange rqs wait deploymentID rid =
     (case deploymentID of
        Panic \<Rightarrow> Panics
      | Err _ \<Rightarrow> Finished (Empty 404)
      | Ok did \<Rightarrow>
          (let look =
             (case gget (QueueSet_Queues rqs) did of
                None \<Rightarrow> Finished (Message ''Nothing queued'' 404)
              | Some queue \<Rightarrow>
                  (case R11nQueue_ByID queue rid of
                     None \<Rightarrow> Finished (Message ''Deploy action not found in queue'' 404)
                   | Some qr \<Rightarrow>
                       Finished (Reply \<lparr>rrQueuePosition = qrPos qr,
                         rrResolution = (if qrPos qr \<ge> 0 then None else Some (rResolution (qrRectification qr)))\<rparr> 200)))
           in if \<not> wait then look
              else (case QueueSet_Wait rqs did rid of
                  WaitMissing \<Rightarrow> Finished (Message ''Deploy action not found in queue'' 404)
                | WaitBlocked \<Rightarrow> Blocks
                | WaitDone _ \<Rightarrow> look)))"

text \<open>The response has as many places as \<open>Len\<close> says; the loop over the snapshot writes past them if there are more.\<close>

definition GETDeployQueue_Exchange :: "R11nQueueSet \<Rightarrow> (string, DeploymentID) outcome \<Rightarrow> R11nID list reply run" where
  "GETDeployQueue_Exchange rqs deploymentID =
     (case deploymentID of
        Panic \<Rightarrow> Panics
      | Err _ \<Rightarrow> Finished (Empty 404)
      | Ok did \<Rightarrow>
          (case gget (QueueSet_Queues rqs) did of
             None \<Rightarrow> Finished (Reply [] 404)
           | Some queue \<Rightarrow>
               (let ids = map qrID (R11nQueue_Snapshot queue)
                in if length ids > R11nQueue_Len queue then Panics
                   else Finished (Reply (ids @ replicate (R11nQueue_Len queue - length ids) []) 200))))"

record QueueDesc =
  qdDeploymentID :: DeploymentID
  qdLength :: nat

definition GETAllDeployQueues_Exchange :: "R11nQueueSet \<Rightarrow> (string, QueueDesc) gomap reply" where
  "GETAllDeployQueues_Exchange rqs =
     Reply (gset_all [] (map (\<lambda>(did, q). (DeploymentID_String did, \<lparr>qdDeploymentID = did, qdLength = R11nQueue_Len q\<rparr>)) (QueueSet_Queues rqs))) 200"

section \<open>Definitions, artifacts and servers\<close>

definition GETDefs_Exchange :: "State option \<Rightarrow> Defs reply run" where
  "GETDefs_Exchange s = (case s of None \<Rightarrow> Panics | Some st \<Rightarrow> Finished (Reply (sDefs st) 200))"

definition sourceIDFromValues :: "QueryValues \<Rightarrow> (string, SourceID) outcome" where
  "sourceIDFromValues qv =
     then_do (Single qv ''repo'' None) (\<lambda>r.
       then_do (Single qv ''offset'' (Some [])) (\<lambda>ofs.
         then_do (Single qv ''version'' (Some [])) (\<lambda>vs.
           case Semv_Parse vs of
             (v, Some err) \<Rightarrow> Err ''version''
           | (v, None) \<Rightarrow> Ok \<lparr>sidLocation = \<lparr>slRepo = r, slDir = ofs\<rparr>, sidVersion = v\<rparr>)))"

text \<open>\<open>Insert\<close> is the registry's inserter; what \<open>json.Decode\<close> makes of the body is an error or an artifact.\<close>

definition PUTArtifact_Exchange ::
    "(SourceID \<Rightarrow> string \<Rightarrow> string \<Rightarrow> Quality list \<Rightarrow> 'r \<Rightarrow> 'r \<times> string option) \<Rightarrow> QueryValues \<Rightarrow> string + BuildArtifact \<Rightarrow> 'r
     \<Rightarrow> ('r \<times> unit reply) run" where
  "PUTArtifact_Exchange Insert qv body r =
     (case body of
        Inl err \<Rightarrow> Finished (r, Message err 406)
      | Inr ba \<Rightarrow>
          (case sourceIDFromValues qv of
             Panic \<Rightarrow> Panics
           | Err err \<Rightarrow> Finished (r, Message err 406)
           | Ok sid \<Rightarrow>
               (case Insert sid (baName ba) [] (baQualities ba) r of
                  (r', Some err) \<Rightarrow> Finished (r', Message err 406)
                | (r', None) \<Rightarrow> Finished (r', Message [] 200))))"

type_synonym ServerListData = "(string \<times> string) list"

definition GETServers_Exchange :: "(string, string) gomap \<Rightarrow> ServerListData reply" where
  "GETServers_Exchange siblings = Reply siblings 200"

definition PUTServers_Exchange :: "ServerListData \<Rightarrow> (string, string) gomap \<Rightarrow> (string, string) gomap \<times> ServerListData reply" where
  "PUTServers_Exchange data siblings = (gset_all siblings data, Reply data 200)"

definition ServerListData_VariancesFrom :: "ServerListData \<Rightarrow> ServerListData option \<Rightarrow> string list" where
  "ServerListData_VariancesFrom ld other =
     (case other of
        None \<Rightarrow> [''not a list of Deployments'']
      | Some ol \<Rightarrow>
          if length ld \<noteq> length ol then [''server list lengths differ'']
          else (case find (\<lambda>l. l \<notin> set ol) ld of None \<Rightarrow> [] | Some l \<Rightarrow> [''No match found for '' @ fst l]))"

text \<open>What a client compares before it updates; the type switch on the other side is \<open>None\<close> for another type.\<close>

definition GDMWrapper_VariancesFrom :: "GDMWrapper \<Rightarrow> GDMWrapper option \<Rightarrow> (string list + difference list) run" where
  "GDMWrapper_VariancesFrom g other =
     (case other of
        None \<Rightarrow> Finished (Inl [''Not a gdmWrapper''])
      | Some og \<Rightarrow>
          (case (NewDeployments g, NewDeployments og) of
             (Ok ds, Ok ods) \<Rightarrow>
               (case Deployments_VariancesFrom ds (Some ods) of Ok vs \<Rightarrow> Finished (Inr vs) | _ \<Rightarrow> Panics)
           | _ \<Rightarrow> Panics))"

definition SingleDeploymentBody_VariancesFrom ::
    "SingleDeploymentBody \<Rightarrow> SingleDeploymentBody option \<Rightarrow> (string list + difference list) run" where
  "SingleDeploymentBody_VariancesFrom b other =
     (case other of
        None \<Rightarrow> Finished (Inl [''Not a SingleDeploymentBody''])
      | Some ob \<Rightarrow>
          (case (sdbDeployment b, sdbDeployment ob) of
             (Some spec, Some ospec) \<Rightarrow> Finished (Inr (snd (DeploySpec_Diff spec ospec)))
           | _ \<Rightarrow> Panics))"

section \<open>Health\<close>

record Health =
  hlVersion :: string
  hlRevision :: string

definition GETHealth_Exchange :: "Version \<Rightarrow> Health reply" where
  "GETHealth_Exchange v = Reply \<lparr>hlVersion = Version_Format v ''M.m.p-?'', hlRevision = Version_Format v ''+?''\<rparr> 200"

section \<open>The inserter that sends names to a server\<close>

text \<open>\<open>HTTPNameInserter.Insert\<close> (\<open>lib/http_name_inserter.go\<close>); \<open>Do\<close> is the transport, the URL is resolved by the caller.\<close>

definition HTTPNameInserter_Insert ::
    "(http_request \<Rightarrow> goerror + http_response) \<Rightarrow> goerror + string \<Rightarrow> (BuildArtifact \<Rightarrow> json) \<Rightarrow> string \<Rightarrow> Quality list \<Rightarrow> goerror option" where
  "HTTPNameInserter_Insert Do url marshal inn qs =
     (case url of
        Inl err \<Rightarrow> Some (WithCause ''http insert name'' err)
      | Inr u \<Rightarrow>
          (let art = \<lparr>baName = inn, baType = ''docker'', baQualities = qs\<rparr>
           in case Do \<lparr>hqMethod = ''PUT'', hqURL = u, hqHeader = [], hqBody = Inr (marshal art)\<rparr> of
               Inl err \<Rightarrow> Some (WithCause ''http insert name'' err)
             | Inr rz \<Rightarrow> if hzStatusCode rz \<ge> 200 \<and> hzStatusCode rz < 300 then None else Some (errorf ''Received'')))"

section \<open>Facts\<close>

text \<open>Every GDM has the same entity tag: the tag is the digest of no deployment at all.\<close>

lemma gdm_etag_constant: "GDMWrapper_etag sha str g = ''w/'' @ sha []"
  by (simp add: GDMWrapper_etag_def go_copy_def)

text \<open>So a conditional update of the GDM is never refused for a version that is out of date.\<close>

lemma gdm_updates_never_conflict:
  assumes "\<And>s. exAddHeaders (get s) = [(''Etag'', GDMWrapper_etag sha str (gdm s))]" and "\<And>s. \<exists>j. exData (get s) = Data j"
    and "\<And>s. exStatus (get s) = 200"
  shows "etag_of digest get s = etag_of digest get s'"
proof -
  have "etag_of digest get s = ''w/'' @ sha []" for s
  proof -
    obtain j where "exData (get s) = Data j" using assms(2) by blast
    let ?h = "header_Add ''Access-Control-Allow-Origin'' ''*'' (header_Add ''Etag'' (''w/'' @ sha []) [])"
    have "ghas ?h ''Etag''" "header_Get ?h ''Etag'' = ''w/'' @ sha []"
      by (simp_all add: header_Add_def header_Get_def header_values_def ghas_def gget_update)
    then show ?thesis
      using \<open>exData (get s) = Data j\<close> assms(1) [of s] assms(3) [of s]
      by (simp add: etag_of_def GetHandling_def renderData_def gdm_etag_constant add_headers_def Let_def split: option.split)
  qed
  then show ?thesis by simp
qed

text \<open>The name inserter sends neither condition, so the server it sends to refuses every name.\<close>

lemma name_inserter_refused:
  "HTTPNameInserter_Insert (\<lambda>rq. Inr (snd (PutHandling digest None put s rq))) (Inr u) marshal inn qs = Some (errorf ''Received'')"
  by (simp add: HTTPNameInserter_Insert_def PutHandling_def header_Get_def writeHeaders_def Let_def)

lemma gkeys_gget: "k \<in> set (gkeys m) \<Longrightarrow> \<exists>v. gget m k = Some v"
  by (cases "gget m k") (auto simp: map_of_eq_None_iff)

lemma get_sorted_all:
  assumes "\<And>k. k \<in> set ks \<Longrightarrow> \<exists>d. gget deps k = Some d"
  shows "get_sorted deps ks = Some (map (\<lambda>k. the (gget deps k)) ks)"
  using assms
proof (induction ks)
  case (Cons k ks)
  moreover obtain d where "gget deps k = Some d" using Cons.prems by fastforce
  ultimately show ?case by (simp add: Deployments_Get_def CMap_Get_def)
qed simp

lemma gget_relisted:
  assumes "keyed Deployment_ID deps" and "set ks = set (gkeys deps)" and "distinct ks"
  shows "gget (map (\<lambda>d. (Deployment_ID d, d)) (map (\<lambda>k. the (gget deps k)) ks)) did = gget deps did"
proof -
  have key: "Deployment_ID (the (gget deps k)) = k" if "k \<in> set ks" for k
  proof -
    have "\<exists>d. gget deps k = Some d" by (rule gkeys_gget) (use that assms(2) in simp)
    then obtain d where d: "gget deps k = Some d" ..
    then have "k = Deployment_ID d" by (intro keyed_Get [OF assms(1)]) (simp add: CMap_Get_def)
    with d show ?thesis by simp
  qed
  have "map (\<lambda>d. (Deployment_ID d, d)) (map (\<lambda>k. the (gget deps k)) ks) = map (\<lambda>k. (k, the (gget deps k))) ks"
    using key by simp
  also have "gget \<dots> did = (if did \<in> set ks then Some (the (gget deps did)) else None)"
    by (simp add: map_of_map_restrict restrict_map_def)
  also have "\<dots> = gget deps did"
  proof (cases "did \<in> set ks")
    case True
    then have "\<exists>v. gget deps did = Some v" by (intro gkeys_gget) (simp add: assms(2))
    with True show ?thesis by auto
  next
    case False
    moreover have "gget deps did = None" using False assms(2) by (simp add: map_of_eq_None_iff)
    ultimately show ?thesis by simp
  qed
  finally show ?thesis .
qed

lemma GETGDM_ok:
  assumes "State_Deployments s = (deps, None)" and "keyed Deployment_ID deps"
  shows "\<exists>ds. GETGDM_Exchange md5sum (Some s) = Finished (Reply ds 200) \<and> distinct (map Deployment_ID ds)
     \<and> (\<forall>did. gget (map (\<lambda>d. (Deployment_ID d, d)) ds) did = gget deps did)
     \<and> sorted (map (\<lambda>d. DeploymentID_Digest md5sum (Deployment_ID d)) ds)"
proof -
  define ks where "ks = sort_key (DeploymentID_Digest md5sum) (Deployments_Keys deps)"
  have keys: "set ks = set (gkeys deps)" "distinct ks" 
    using keyed_gwf [OF assms(2)] by (simp_all add: ks_def Deployments_Keys_def CMap_Keys_def gwf_def)
  have some: "\<exists>d. gget deps k = Some d" if "k \<in> set ks" for k
    by (rule gkeys_gget) (use that keys(1) in simp)
  have id: "Deployment_ID (the (gget deps k)) = k" if "k \<in> set ks" for k
  proof -
    from some [OF that] obtain d where d: "gget deps k = Some d" ..
    then have "k = Deployment_ID d" by (intro keyed_Get [OF assms(2)]) (simp add: CMap_Get_def)
    with d show ?thesis by simp
  qed
  let ?ds = "map (\<lambda>k. the (gget deps k)) ks"
  have ids: "map Deployment_ID ?ds = ks" using id by (simp add: map_idI)
  have "get_sorted deps ks = Some ?ds" by (rule get_sorted_all) (rule some)
  moreover have "sorted (map (DeploymentID_Digest md5sum) ks)" by (simp add: ks_def)
  then have "sorted (map (\<lambda>d. DeploymentID_Digest md5sum (Deployment_ID d)) ?ds)"
    using ids by (metis (no_types, lifting) comp_apply map_eq_conv map_map)
  ultimately show ?thesis
    using assms(1) gget_relisted [OF assms(2) keys] ids keys(2)
    by (intro exI [of _ ?ds] conjI) (simp_all add: GETGDM_Exchange_def flip: ks_def)
qed

text \<open>What was pushed is found in its queue, with the position it got.\<close>

lemma QueueSet_Push_found:
  assumes "QueueSet_Push new r rqs = Some (rqs', Some i)" and "qset_inv cap rqs"
    and "new \<notin> set (history (queue_for rqs (dpName (rPair r))))" and "gwf (qsSet rqs)"
  shows "i = new \<and> (\<exists>rq'. gget (QueueSet_Queues rqs') (dpName (rPair r)) = Some rq'
     \<and> R11nQueue_ByID rq' new = Some \<lparr>qrID = new, qrPos = int (R11nQueue_Len (queue_for rqs (dpName (rPair r)))), qrRectification = r, qrDone = False\<rparr>)"
proof -
  let ?did = "dpName (rPair r)"
  let ?q = "queue_for rqs ?did"
  obtain rq' where q: "R11nQueue_Push new r ?q = Some (rq', Some i)" "rqs' = put_queue ?did rq' rqs"
    using assms(1) by (auto simp: QueueSet_Push_def Let_def)
  have p: "i = new" "internalPush new r ?q = Some rq'" using Push_added [OF q(1)] by simp_all
  have inv: "rq_inv ?q" using queue_reachable_inv [OF queue_for_reachable [OF assms(2)]] by simp
  have "ring_inv rq'"
    by (rule ring_internalPush [OF _ _ assms(3) p(2)]) (use inv in \<open>simp_all add: rq_inv_def history_inv_def\<close>)
  moreover have "rqFifoRefs rq' = tl (rqFifoRefs ?q) @ [Some new]" using internalPush_Some [OF p(2)] by simp
  ultimately have "new \<in> set (rqAllRefs rq')" by (simp add: ring_inv_def)
  moreover have "gget (rqObjs rq') new = Some \<lparr>qrID = new, qrPos = int (length (rqQueue ?q)), qrRectification = r, qrDone = False\<rparr>"
    using internalPush_Some [OF p(2)] by (simp add: gget_update)
  moreover have "gget (QueueSet_Queues rqs') ?did = Some rq'"
    using assms(4) q(2) by (simp add: QueueSet_Queues_def put_queue_def gget_update)
  ultimately show ?thesis using p(1) by (simp add: R11nQueue_ByID_def R11nQueue_Len_def)
qed

lemma set_spec_get:
  assumes "gget (sManifests s) (didManifestID did) = Some m"
  shows "gget (sManifests (set_spec s did m spec)) (didManifestID did) = Some (m\<lparr>mDeployments := gset (didCluster did) spec (mDeployments m)\<rparr>)"
  by (simp add: set_spec_def gget_update)

text \<open>A \<open>PUT\<close> of the GDM that is accepted writes the manifests made of the body.\<close>

lemma PUTGDM_accepted:
  assumes "state_store sm stored available" and "available m"
    and "PUTGDM_Exchange sm user header body m = Finished (m', reply)" and "status_of reply = 204"
  shows "\<exists>deps ms. NewDeployments body = Ok deps
     \<and> PutbackManifests deps (sDefs (stored m)) (sManifests (stored m)) = (ms, None)
     \<and> available m' \<and> sDefs (stored m') = sDefs (stored m) \<and> sManifests (stored m') = ms"
proof -
  obtain m1 where r: "ReadState sm m = (m1, stored m, None)" "available m1"
    using state_store.read_ok [OF assms(1,2)] by blast
  have w: "\<exists>m2. WriteState sm s user m1 = (m2, None) \<and> stored m2 = s \<and> available m2" for s
    using state_store.write_ok [OF assms(1) r(2)] .
  obtain deps where deps: "NewDeployments body = Ok deps"
    using assms(3) by (auto simp: PUTGDM_Exchange_def split: outcome.splits)
  obtain ms where ms: "PutbackManifests deps (sDefs (stored m)) (sManifests (stored m)) = (ms, None)"
    using assms(3,4) deps r(1) by (auto simp: PUTGDM_Exchange_def split: prod.splits option.splits)
  define s1 where "s1 = (stored m)\<lparr>sManifests := ms\<rparr>"
  define s2 where "s2 = (if ghas header ''Etag'' then State_SetEtag s1 (header_Get header ''Etag'') else s1)"
  obtain m2 where m2: "WriteState sm s2 user m1 = (m2, None)" "stored m2 = s2" "available m2" using w by blast
  have "m' = m2"
    using assms(3,4) deps r(1) ms m2(1) by (auto simp: PUTGDM_Exchange_def s2_def s1_def Let_def split: if_splits)
  then show ?thesis
    using deps ms m2(2,3) by (simp add: s2_def s1_def State_SetEtag_def)
qed

text \<open>A body that cannot be decoded leaves the wrapper empty, and the empty GDM is accepted: every manifest is gone.\<close>

lemma undecodable_gdm_erases:
  assumes "state_store sm stored available" and "available m"
  shows "\<exists>m'. PUTGDM_Exchange sm user header [] m = Finished (m', Message [] 204) \<and> sManifests (stored m') = []"
proof -
  obtain m1 where r: "ReadState sm m = (m1, stored m, None)" "available m1"
    using state_store.read_ok [OF assms] by blast
  define s1 where "s1 = (stored m)\<lparr>sManifests := []\<rparr>"
  define s2 where "s2 = (if ghas header ''Etag'' then State_SetEtag s1 (header_Get header ''Etag'') else s1)"
  obtain m2 where w: "WriteState sm s2 user m1 = (m2, None)" "stored m2 = s2"
    using state_store.write_ok [OF assms(1) r(2)] by blast
  have "State_Validate s1 = []"
    by (simp add: State_Validate_def State_Deployments_def Manifests_Deployments_def s1_def Manifests_Snapshot_def
        Deployments_Snapshot_def CMap_Snapshot_def)
  moreover have "PutbackManifests [] defs olds = ([], None)" for defs olds
    by (simp add: PutbackManifests_def reset_all_def Manifests_Keys_def CMap_Keys_def)
  ultimately have "PUTGDM_Exchange sm user header [] m = Finished (m2, Message [] 204)"
    using r(1) w(1) by (simp add: PUTGDM_Exchange_def NewDeployments_def NewCMap_def s1_def s2_def Let_def split: if_splits)
  moreover have "sManifests (stored m2) = []" by (simp add: w(2) s2_def s1_def State_SetEtag_def)
  ultimately show ?thesis by blast
qed

text \<open>The objects of a queue are filed under their IDs.\<close>

definition objs_named :: "'r R11nQueue \<Rightarrow> bool" where
  "objs_named rq = (\<forall>i qr. gget (rqObjs rq) i = Some qr \<longrightarrow> qrID qr = i)"

lemma objs_named_push: "internalPush new r rq = Some rq' \<Longrightarrow> objs_named rq \<Longrightarrow> objs_named rq'"
  using internalPush_Some [of new r rq rq'] by (simp add: objs_named_def gget_update)

lemma objs_named_step: "qstep rq e rq' \<Longrightarrow> objs_named rq \<Longrightarrow> objs_named rq'"
proof (induction rule: qstep.induct)
  case (push new rq r rq')
  then show ?case using objs_named_push [OF conjunct2 [OF Push_added [OF push(2)]]] by simp
next
  case (push_if_empty new rq r rq')
  then show ?case using objs_named_push [OF conjunct2 [OF PushIfEmpty_added [OF push_if_empty(2)]]] by simp
next
  case (push_refused new r rq rq')
  then show ?case using Push_refused_same [OF push_refused(1)] by simp
next
  case (push_if_empty_refused new r rq rq')
  then show ?case using PushIfEmpty_refused_same [OF push_if_empty_refused(1)] by simp
qed (auto simp: objs_named_def next_receive_def next_popped_def finish_def handlePopped_def gget_map_values
     split: consumer.splits list.splits if_splits)

lemma objs_named_init: "objs_named (NewR11nQueue cap)"
  by (simp add: objs_named_def NewR11nQueue_def)

lemma objs_named_run: "runs qstep (NewR11nQueue cap) es rq \<Longrightarrow> objs_named rq"
  by (induction "NewR11nQueue cap :: 'a R11nQueue" es rq rule: runs.induct)
    (blast intro: objs_named_init objs_named_step)+

lemma Snapshot_ids:
  assumes "queue_reachable cap rq"
  shows "distinct (map qrID (R11nQueue_Snapshot rq)) \<and> set (map qrID (R11nQueue_Snapshot rq)) = set (pending rq)
     \<and> length (R11nQueue_Snapshot rq) = length (pending rq)"
proof -
  obtain es where run: "runs qstep (NewR11nQueue cap) es rq" using assms by (auto simp: queue_reachable_def)
  have refs: "distinct (rqRefs rq)" "set (rqRefs rq) = set (pending rq)" and h: "history_inv rq"
    using inv_run [OF run] by (simp_all add: rq_inv_def refs_inv_def)
  obtain fin where fin: "history rq = fin @ pending rq" "distinct (history rq)" using h by (auto simp: history_inv_def)
  then have "distinct (pending rq)" "set (pending rq) \<subseteq> set (history rq)" by (metis distinct_append, simp)
  then have id: "qrID (the_obj rq i) = i" if "i \<in> set (rqRefs rq)" for i
  proof -
    have "i \<in> set (history rq)" using that refs(2) \<open>set (pending rq) \<subseteq> set (history rq)\<close> by blast
    from gkeys_gget [OF this] obtain qr where "gget (rqObjs rq) i = Some qr" ..
    then show ?thesis using objs_named_run [OF run] by (simp add: the_obj_def objs_named_def)
  qed
  have "map qrID (map (the_obj rq) (rqRefs rq)) = rqRefs rq" using id by (simp add: map_idI)
  moreover have "mset (map qrID (R11nQueue_Snapshot rq)) = mset (map qrID (map (the_obj rq) (rqRefs rq)))"
    by (simp add: R11nQueue_Snapshot_def multiset.map_comp)
  ultimately have "mset (map qrID (R11nQueue_Snapshot rq)) = mset (rqRefs rq)" by simp
  then have "set (map qrID (R11nQueue_Snapshot rq)) = set (rqRefs rq)" "distinct (map qrID (R11nQueue_Snapshot rq))"
    using refs(1) by (metis mset_eq_setD, metis mset_eq_imp_distinct_iff)
  moreover have "length (R11nQueue_Snapshot rq) = length (pending rq)"
    using refs \<open>distinct (pending rq)\<close> by (simp add: R11nQueue_Snapshot_def) (metis distinct_card)
  ultimately show ?thesis using refs(2) by simp
qed

section \<open>Properties\<close>

text \<open>C17: Putting a single deployment. When the handler answers 201, on a store that keeps its contract, the
  new spec is what the store and the same resource give back; the new deployment was read back
  from the stored state and is valid; and it is queued under its ID, where the queue item whose
  address was returned is found waiting.\<close>

theorem single_deployment_put_get:
  assumes "state_store sm stored available" and "available m"
    and put: "PUTSingleDeployment_Exchange uri sm user new (Some s) qv (Inr (Some spec)) m rqs = Finished (m', rqs', Reply b 201)"
    and queues: "qset_inv cap rqs" "gwf (qsSet rqs)" "\<forall>did. new \<notin> set (history (queue_for rqs did))"
  shows "available m' \<and> GETSingleDeployment_Exchange (Some (stored m')) qv = Finished (Reply \<lparr>sdbLinks = [], sdbDeployment = Some spec\<rparr> 200)
     \<and> (\<exists>did d. deploymentIDFromValues qv = Ok did \<and> gget (fst (State_Deployments (stored m'))) did = Some d \<and> Deployment_Validate d = []
          \<and> GETR11n_Exchange rqs' False (Ok did) new
              = Finished (Reply \<lparr>rrQueuePosition = int (R11nQueue_Len (queue_for rqs did)), rrResolution = None\<rparr> 200)
          \<and> (\<exists>rq qr. gget (QueueSet_Queues rqs') did = Some rq \<and> R11nQueue_ByID rq new = Some qr
                \<and> rPair (qrRectification qr) = single_pair did d))"
proof -
  obtain did where did: "deploymentIDFromValues qv = Ok did" using put by (auto simp: PUTSingleDeployment_Exchange_def split: outcome.splits)
  obtain force where force: "forceFromValues qv = Ok force" using put did by (auto simp: PUTSingleDeployment_Exchange_def split: outcome.splits)
  obtain man where man: "gget (sManifests s) (didManifestID did) = Some man"
    using put did force by (auto simp: PUTSingleDeployment_Exchange_def Manifests_Get_def CMap_Get_def split: option.splits)
  obtain original where orig: "gget (mDeployments man) (didCluster did) = Some original"
    using put did force man by (auto simp: PUTSingleDeployment_Exchange_def Manifests_Get_def CMap_Get_def split: option.splits)
  let ?s = "set_spec s did man spec"
  obtain m1 where w: "WriteState sm ?s user m = (m1, None)" "stored m1 = ?s" "available m1"
    using state_store.write_ok [OF assms(1,2)] by blast
  have q: "queue_single uri new ?s did spec rqs = Finished (rqs', Reply b 201)" "m' = m1"
    using put did force man orig w(1)
    by (auto simp: PUTSingleDeployment_Exchange_def Manifests_Get_def CMap_Get_def Let_def split: if_splits run.splits)
  obtain ds d i where d: "State_Deployments ?s = (ds, None)" "gget ds did = Some d" "Deployment_Validate d = []"
      "QueueSet_Push new (NewRectification (single_pair did d)) rqs = Some (rqs', Some i)"
    using q(1) by (auto simp: queue_single_def Deployments_Get_def CMap_Get_def split: prod.splits option.splits if_splits sum.splits)
  let ?r = "NewRectification (single_pair did d)"
  have name: "dpName (rPair ?r) = did" by (simp add: NewRectification_def single_pair_def)
  obtain rq' where rq: "gget (QueueSet_Queues rqs') did = Some rq'"
      "R11nQueue_ByID rq' new = Some \<lparr>qrID = new, qrPos = int (R11nQueue_Len (queue_for rqs did)), qrRectification = ?r, qrDone = False\<rparr>"
    using QueueSet_Push_found [OF d(4) queues(1) _ queues(2)] queues(3) unfolding name by blast
  have "GETSingleDeployment_Exchange (Some (stored m')) qv = Finished (Reply \<lparr>sdbLinks = [], sdbDeployment = Some spec\<rparr> 200)"
    using did set_spec_get [OF man, of spec] w(2) q(2)
    by (simp add: GETSingleDeployment_Exchange_def Manifests_Get_def CMap_Get_def gget_update)
  moreover have "GETR11n_Exchange rqs' False (Ok did) new
      = Finished (Reply \<lparr>rrQueuePosition = int (R11nQueue_Len (queue_for rqs did)), rrResolution = None\<rparr> 200)"
    by (simp add: GETR11n_Exchange_def rq Let_def)
  moreover have "rPair ?r = single_pair did d" by (simp add: NewRectification_def)
  ultimately show ?thesis using did d(1-3) rq w(2,3) q(2) by auto
qed

text \<open>A GDM with one deployment of two instances, and its update to three, with the query and the body of the request.\<close>

definition single_config :: "int \<Rightarrow> DeployConfig" where
  "single_config n = zeroDeployConfig\<lparr>dcResources := Some [(''cpus'', ''1''), (''memory'', ''100''), (''ports'', ''1'')], dcNumInstances := n,
     dcStartup := zeroStartup\<lparr>SkipCheck := True\<rparr>\<rparr>"

definition single_manifest :: Manifest where
  "single_manifest = example_manifest\<lparr>mDeployments := [(''left'', zeroDeploySpec\<lparr>dsDeployConfig := single_config 2\<rparr>)]\<rparr>"

definition single_state :: State where
  "single_state = \<lparr>sDefs = example_defs, sManifests = [(Manifest_ID single_manifest, single_manifest)], sEtag = None\<rparr>"

definition single_store :: DummyStateManager where
  "single_store = \<lparr>dumState = single_state, dumReadCount = 0, dumWriteCount = 0, dumWriteErr = None, dumReadErr = None\<rparr>"

definition single_query :: QueryValues where
  "single_query = [(''repo'', [''github.com/opentable/sous'']), (''cluster'', [''left'']), (''force'', [''false''])]"

definition single_spec :: DeploySpec where
  "single_spec = zeroDeploySpec\<lparr>dsDeployConfig := single_config 3\<rparr>"


definition single_did :: DeploymentID where
  "single_did = \<lparr>didManifestID = Manifest_ID single_manifest, didCluster = ''left''\<rparr>"

lemma single_request:
  "deploymentIDFromValues single_query = Ok single_did \<and> forceFromValues single_query = Ok False
"
  by code_simp

lemma single_differs: "fst (DeploySpec_Diff single_spec (zeroDeploySpec\<lparr>dsDeployConfig := single_config 2\<rparr>))"
  by (simp add: DeploySpec_Diff_def DeployConfig_Diff_def single_spec_def single_config_def zeroDeploySpec_def Let_def)

lemma unflawed:
  assumes "dKind d = ''http-service''" and "dcVolumes (dDeployConfig d) = []" and "SkipCheck (dcStartup (dDeployConfig d))"
    and "dcResources (dDeployConfig d) = Some [(''cpus'', ''1''), (''memory'', ''100''), (''ports'', ''1'')]"
  shows "Deployment_Validate d = []"
proof -
  have "ManifestKind_Validate ''http-service'' = []" by code_simp
  with assms show ?thesis
    by (simp add: Deployment_Validate_def DeployConfig_Validate_def Startup_Validate_def Resources_Validate_def
        Resources_validateField_def ghas_def nil_volume_flaws_def flaw_if_def)
qed

lemma single_stored:
  "\<exists>ds d. State_Deployments (set_spec single_state single_did single_manifest single_spec) = (ds, None)
     \<and> gget ds single_did = Some d \<and> Deployment_Validate d = []"
proof -
  let ?ms = "sManifests (set_spec single_state single_did single_manifest single_spec)"
  let ?m = "single_manifest\<lparr>mDeployments := [(''left'', single_spec)]\<rparr>"
  have ms: "?ms = [(Manifest_ID single_manifest, ?m)]"
    by (simp add: set_spec_def single_state_def single_did_def single_manifest_def)
  have ex: "expandable example_defs ?ms"
    unfolding ms by (simp add: keyed_def ghas_def expandable_def single_manifest_def example_manifest_def example_defs_def zeroDefs_def clusters_defined_def Manifest_ID_def)
  have "State_Deployments (set_spec single_state single_did single_manifest single_spec) = (all_deployments example_defs ?ms, None)"
    using Manifests_Deployments_ok [OF ex] by (simp add: State_Deployments_def set_spec_def single_state_def)
  moreover have "gget (all_deployments example_defs ?ms) single_did = Some (built example_defs ?m ''left'' single_spec)"
    using gget_all_deployments [OF ex, of single_did] unfolding ms by (simp add: single_did_def)
  moreover have "Deployment_Validate (built example_defs ?m ''left'' single_spec) = []"
  proof -
    let ?d = "built example_defs ?m ''left'' single_spec"
    have "dKind ?d = ''http-service''" by (simp add: kind_built single_manifest_def example_manifest_def)
    moreover have "dcVolumes (dDeployConfig ?d) = []" "SkipCheck (dcStartup (dDeployConfig ?d))"
      "dcResources (dDeployConfig ?d) = Some [(''cpus'', ''1''), (''memory'', ''100''), (''ports'', ''1'')]"
      by (simp_all add: built_def BuildDeployment_def flattenDeploySpecs_def flattenDeployConfigs_def single_spec_def single_config_def
          zeroDeploySpec_def zeroDeployConfig_def Startup_MergeDefaults_def
          first_that_def merge_field_def zeroStartup_def ghas_def Let_def)
    ultimately show ?thesis by (rule unflawed)
  qed
  ultimately show ?thesis by blast
qed

lemma single_put_created:
  "\<exists>m' rqs' b. PUTSingleDeployment_Exchange (\<lambda>i did. Inr i) dummyManager \<lparr>uName = [], uEmail = []\<rparr> ''r1'' (Some single_state) single_query (Inr (Some single_spec))
     single_store (NewR11nQueueSet 10) = Finished (m', rqs', Reply b 201)"
proof -
  obtain ds d where d: "State_Deployments (set_spec single_state single_did single_manifest single_spec) = (ds, None)"
      "gget ds single_did = Some d" "Deployment_Validate d = []"
    using single_stored by blast
  have man: "gget (sManifests single_state) (didManifestID single_did) = Some single_manifest"
    by (simp add: single_state_def single_did_def)
  have spec: "gget (mDeployments single_manifest) (didCluster single_did) = Some (zeroDeploySpec\<lparr>dsDeployConfig := single_config 2\<rparr>)"
    "dcNumInstances (dsDeployConfig single_spec) \<noteq> 0"
    by (simp_all add: single_did_def single_manifest_def single_spec_def single_config_def)
  have wr: "WriteState dummyManager s user single_store = (single_store\<lparr>dumState := s, dumWriteCount := 1\<rparr>, None)" for s user
    by (simp add: dummyManager_def Dummy_WriteState_def single_store_def)
  have "\<exists>rqs' qr. QueueSet_Push ''r1'' r (NewR11nQueueSet 10) = Some (rqs', Some qr)" for r
    by (simp add: QueueSet_Push_def R11nQueue_Push_def internalPush_def queue_for_def NewR11nQueueSet_def NewR11nQueue_def Let_def)
  then obtain rqs' qr where push: "QueueSet_Push ''r1'' (NewRectification (single_pair single_did d)) (NewR11nQueueSet 10) = Some (rqs', Some qr)"
    by blast
  show ?thesis
    using single_request single_differs d man spec
    by (simp add: PUTSingleDeployment_Exchange_def queue_single_def Manifests_Get_def Deployments_Get_def CMap_Get_def wr push Let_def)
qed

theorem single_deployment_put_get_witness:
  "\<exists>m' b. (\<exists>rqs'. PUTSingleDeployment_Exchange (\<lambda>i did. Inr i) dummyManager \<lparr>uName = [], uEmail = []\<rparr> ''r1'' (Some single_state) single_query (Inr (Some single_spec))
     single_store (NewR11nQueueSet 10) = Finished (m', rqs', Reply b 201))
     \<and> GETSingleDeployment_Exchange (Some (dumState m')) single_query = Finished (Reply \<lparr>sdbLinks = [], sdbDeployment = Some single_spec\<rparr> 200)"
proof -
  obtain m' rqs' b where put: "PUTSingleDeployment_Exchange (\<lambda>i did. Inr i) dummyManager \<lparr>uName = [], uEmail = []\<rparr> ''r1'' (Some single_state) single_query
      (Inr (Some single_spec)) single_store (NewR11nQueueSet 10) = Finished (m', rqs', Reply b 201)"
    using single_put_created by blast
  have "qset_inv 10 (NewR11nQueueSet 10)" "gwf (qsSet (NewR11nQueueSet 10))"
    "\<forall>did. ''r1'' \<notin> set (history (queue_for (NewR11nQueueSet 10) did))"
    by (simp_all add: qset_inv_def NewR11nQueueSet_def queue_for_def NewR11nQueue_def gwf_def)
  from single_deployment_put_get [OF dummy.state_store_axioms _ put this] put
  show ?thesis by (auto simp: single_store_def)
qed

text \<open>C19: The reply about a queue. Over everything that can happen to a set of queues, a query for an existing
  queue lists exactly the pending rectifications, each once, while the consumer is idle; while it
  has one in hand the handler panics, writing one more entry than it made room for.\<close>

theorem deploy_queue_reply:
  assumes "qset_inv cap rqs" and "gwf (qsSet rqs)" and "gget (qsSet rqs) did = Some rq"
  shows "(rqConsumer rq = Idle \<longrightarrow>
        (\<exists>ids. GETDeployQueue_Exchange rqs (Ok did) = Finished (Reply ids 200) \<and> distinct ids \<and> set ids = set (pending rq)))
     \<and> (rqConsumer rq \<noteq> Idle \<longrightarrow> GETDeployQueue_Exchange rqs (Ok did) = Panics)"
proof -
  have q: "gget (QueueSet_Queues rqs) did = Some rq" using assms(2,3) by (simp add: QueueSet_Queues_def)
  have "queue_reachable cap rq" using assms(1,3) by (auto simp: qset_inv_def)
  note ids = Snapshot_ids [OF this]
  have "length (pending rq) = length (rqQueue rq) + (if rqConsumer rq = Idle then 0 else 1)"
    by (simp add: pending_def in_hand_def split: consumer.split)
  then show ?thesis
    using ids by (auto simp: GETDeployQueue_Exchange_def q R11nQueue_Len_def Let_def)
qed

text \<open>A set of queues in which one rectification waits, and the same with a consumer at work on it.\<close>

definition example_handled :: R11nQueueSet where
  "example_handled = put_queue (Deployment_ID example_deployment)
     (the (next_receive (the (gget (qsSet example_set) (Deployment_ID example_deployment))))) example_set"

lemma gwf_example_set: "gwf (qsSet example_set)"
  by (simp add: example_set_def QueueSet_PushIfEmpty_def R11nQueue_PushIfEmpty_def internalPush_def queue_for_def
      NewR11nQueueSet_def NewR11nQueue_def put_queue_def gwf_def Let_def)

theorem deploy_queue_reply_witness:
  "GETDeployQueue_Exchange example_handled (Ok (Deployment_ID example_deployment)) = Panics"
proof -
  obtain rq where rq: "gget (qsSet example_set) (Deployment_ID example_deployment) = Some rq"
      "rqConsumer rq = Idle" "rqQueue rq = [''a'']"
    using example_set_queue by (auto simp: R11nQueue_PushIfEmpty_def internalPush_def NewR11nQueue_def Let_def)
  let ?rq = "rq\<lparr>rqQueue := [], rqConsumer := Received ''a''\<rparr>"
  have received: "next_receive rq = Some ?rq" by (simp add: next_receive_def rq)
  have handled: "example_handled = put_queue (Deployment_ID example_deployment) ?rq example_set"
    by (simp add: example_handled_def rq(1) received)
  have inv: "qset_inv 10 example_set" by (rule qset_inv_reachable [OF example_set_reachable])
  then have "queue_reachable 10 rq" using rq(1) by (simp add: qset_inv_def)
  then have "queue_reachable 10 ?rq"
    using runs_snoc [of qstep _ _ rq "EReceive ''a''"] qstep.receive [OF received, of "''a''"] by (auto simp: queue_reachable_def)
  then have "qset_inv 10 example_handled" unfolding handled by (rule qset_inv_put [OF inv])
  moreover have "gwf (qsSet example_handled)" using gwf_example_set by (simp add: handled put_queue_def)
  moreover have "gget (qsSet example_handled) (Deployment_ID example_deployment) = Some ?rq"
    by (simp add: handled put_queue_def gget_update)
  ultimately show ?thesis using deploy_queue_reply [of 10 example_handled "Deployment_ID example_deployment" ?rq] by simp
qed

text \<open>C18: The GDM survives its trip. When a \<open>PUT\<close> of a list of deployments that can be stored is answered 204,
  a \<open>GET\<close> answers 200 with exactly the IDs of the list, in the order of their digests, and no
  deployment differs from the one that was put; nothing of what was stored before is left.\<close>

theorem gdm_put_get:
  assumes "state_store sm stored available" and "available m"
    and "PUTGDM_Exchange sm user header body m = Finished (m', reply)" and "status_of reply = 204"
    and "distinct (map Deployment_ID body)" and "consistent (map (\<lambda>d. (Deployment_ID d, d)) body)"
    and "\<forall>d \<in> set body. storable (sDefs (stored m)) d"
  shows "available m' \<and> (\<exists>ds. GETGDM_Exchange md5sum (Some (stored m')) = Finished (Reply ds 200)
     \<and> sorted (map (\<lambda>d. DeploymentID_Digest md5sum (Deployment_ID d)) ds)
     \<and> (\<forall>did. no_diff (gget (map (\<lambda>d. (Deployment_ID d, d)) ds) did) (gget (map (\<lambda>d. (Deployment_ID d, d)) body) did)))"
proof -
  let ?ds = "map (\<lambda>d. (Deployment_ID d, d)) body"
  have keyed: "keyed Deployment_ID ?ds" using assms(5) by (auto simp: keyed_def gwf_def comp_def)
  obtain ms where ms: "PutbackManifests ?ds (sDefs (stored m)) (sManifests (stored m)) = (ms, None)"
      and m': "available m'" "sDefs (stored m') = sDefs (stored m)" "sManifests (stored m') = ms"
    using PUTGDM_accepted [OF assms(1-4)] deployments.New_distinct [OF assms(5)] by (auto simp: NewDeployments_def)
  obtain ds' where ds': "Manifests_Deployments ms (sDefs (stored m)) = (ds', None)" "keyed Deployment_ID ds'"
      "\<forall>did. rel_option (\<lambda>d' d. Deployment_Diff d' d = Ok (False, [])) (gget ds' did) (gget ?ds did)"
    using putback_putget [OF keyed assms(6), of "sDefs (stored m)" "sManifests (stored m)"] assms(7) ms by auto
  have "State_Deployments (stored m') = (ds', None)" by (simp add: State_Deployments_def m' ds'(1))
  from GETGDM_ok [OF this ds'(2), of md5sum] show ?thesis using ds'(3) m'(1) by (auto simp: no_diff_def)
qed

definition example_put :: Deployment where
  "example_put = storable_deployment\<lparr>dDeployConfig := zeroDeployConfig\<lparr>dcEnv := [(''REGION'', ''eu'')], dcNumInstances := 2,
     dcResources := Some [(''cpus'', ''1''), (''memory'', ''100''), (''ports'', ''1'')],
     dcStartup := zeroStartup\<lparr>Timeout := 30, SkipCheck := True\<rparr>\<rparr>\<rparr>"

lemma example_put_storable: "storable example_defs example_put"
  by (simp add: example_put_def storable_def storable_deployment_def example_deployment_def example_defs_def zeroDefs_def
      example_cluster_def wf_deployment_def wf_config_def zeroDeployConfig_def Startup_MergeDefaults_def gwf_def
      merge_field_def zeroStartup_def)

lemma example_put_back:
  "PutbackManifests [(Deployment_ID example_put, example_put)] example_defs example_manifests
     = ([(Deployment_ManifestID example_put,
          (Manifest_SetID (Deployment_ManifestID example_put) (emptyManifest\<lparr>mOwners := OwnerSet_Slice (dOwners example_put)\<rparr>))
            \<lparr>mDeployments := [(''left'', putback_spec example_cluster (old_spec example_manifests (Deployment_ManifestID example_put) ''left'') example_put)],
             mKind := ''http-service''\<rparr>)], None)"
proof -
  have "dClusterName example_put = ''left''" "dKind example_put = ''http-service''"
    by (simp_all add: example_put_def storable_deployment_def example_deployment_def)
  moreover have "resolve_cluster example_defs example_put = Inr example_cluster"
    by (simp add: resolve_cluster_def example_put_def storable_deployment_def example_deployment_def example_defs_def zeroDefs_def)
  ultimately show ?thesis
    by (simp add: PutbackManifests_def put_spec_def manifest_for_def Manifests_Get_def Manifests_Set_def CMap_Get_def CMap_Set_def
        reset_all_def Manifests_Keys_def CMap_Keys_def emptyManifest_def Manifest_SetID_def Let_def)
qed

lemma example_put_valid:
  "State_Validate ((dumState example_store)\<lparr>sManifests := fst (PutbackManifests [(Deployment_ID example_put, example_put)] example_defs example_manifests)\<rparr>) = []"
proof -
  let ?spec = "putback_spec example_cluster (old_spec example_manifests (Deployment_ManifestID example_put) ''left'') example_put"
  let ?m = "(Manifest_SetID (Deployment_ManifestID example_put) (emptyManifest\<lparr>mOwners := OwnerSet_Slice (dOwners example_put)\<rparr>))
            \<lparr>mDeployments := [(''left'', ?spec)], mKind := ''http-service''\<rparr>"
  let ?ms = "[(Deployment_ManifestID example_put, ?m)]"
  let ?d = "built example_defs ?m ''left'' ?spec"
  have "Manifest_ID ?m = Deployment_ManifestID example_put"
    by (simp add: Manifest_ID_def Manifest_SetID_def)
  then have ex: "expandable example_defs ?ms"
    by (simp add: keyed_def expandable_def example_defs_def zeroDefs_def clusters_defined_def ghas_def gwf_def)
  have "dcVolumes (dDeployConfig ?d) = []" "SkipCheck (dcStartup (dDeployConfig ?d))"
    "dcResources (dDeployConfig ?d) = Some [(''cpus'', ''1''), (''memory'', ''100''), (''ports'', ''1'')]"
    by (simp_all add: built_def BuildDeployment_def flattenDeploySpecs_def flattenDeployConfigs_def putback_spec_def
        example_put_def storable_deployment_def example_deployment_def DeployConfig_Clone_def Startup_UnmergeDefaults_def
        zeroDeploySpec_def zeroDeployConfig_def Startup_MergeDefaults_def first_that_def merge_field_def unmerge_field_def zeroStartup_def
        example_cluster_def Volumes_Clone_def ghas_def Let_def split: option.splits)
  then have "Deployment_Validate ?d = []" by (intro unflawed) (simp_all add: kind_built)
  moreover have "Manifest_Validate ?m = []"
  proof -
    have "ManifestKind_Validate ''http-service'' = []" by code_simp
    then show ?thesis by (simp add: Manifest_Validate_def)
  qed
  moreover have "all_deployments example_defs ?ms = [(Deployment_ID ?d, ?d)]"
    by (simp add: all_deployments_def manifest_deployments_def)
  ultimately show ?thesis
    using Manifests_Deployments_ok [OF ex]
    by (simp add: example_put_back State_Validate_def State_Deployments_def example_store_def Manifests_Snapshot_def
        Deployments_Snapshot_def CMap_Snapshot_def)
qed

theorem gdm_put_get_witness:
  "\<exists>m'. PUTGDM_Exchange dummyManager \<lparr>uName = [], uEmail = []\<rparr> [] [example_put] example_store = Finished (m', Message [] 204)
     \<and> (\<exists>ds. GETGDM_Exchange id (Some (dumState m')) = Finished (Reply ds 200)
          \<and> (\<exists>d \<in> set ds. Deployment_ID d = Deployment_ID example_put \<and> Deployment_Diff d example_put = Ok (False, [])))"
proof -
  let ?body = "[example_put]"
  have new: "NewDeployments ?body = Ok [(Deployment_ID example_put, example_put)]"
    using deployments.New_distinct [of ?body] by (simp add: NewDeployments_def)
  obtain m' where put: "PUTGDM_Exchange dummyManager \<lparr>uName = [], uEmail = []\<rparr> [] ?body example_store = Finished (m', Message [] 204)"
    using example_put_valid unfolding PUTGDM_Exchange_def
    by (simp add: new example_put_back dummyManager_def Dummy_ReadState_def Dummy_WriteState_def example_store_def ghas_def Let_def)
  have "consistent (map (\<lambda>d. (Deployment_ID d, d)) ?body)" by (simp add: consistent_def)
  from gdm_put_get [OF dummy.state_store_axioms _ put _ _ this, of id] example_put_storable obtain ds
    where ds: "GETGDM_Exchange id (Some (dumState m')) = Finished (Reply ds 200)"
      "\<forall>did. no_diff (gget (map (\<lambda>d. (Deployment_ID d, d)) ds) did) (gget (map (\<lambda>d. (Deployment_ID d, d)) ?body) did)"
    by (auto simp: example_store_def)
  then obtain d where d: "gget (map (\<lambda>d. (Deployment_ID d, d)) ds) (Deployment_ID example_put) = Some d" "Deployment_Diff d example_put = Ok (False, [])"
    using spec [OF ds(2), of "Deployment_ID example_put"] by (auto simp: no_diff_def option_rel_Some2)
  then have "d \<in> set ds" "Deployment_ID d = Deployment_ID example_put" by (auto dest!: map_of_SomeD)
  then show ?thesis using put ds(1) d(2) by blast
qed

end
