(* ===== verification/Auto_Resolver.thy ===== *)
theory Auto_Resolver
  imports Resolver
begin

text \<open>
  The loop of resolutions (\<open>lib/auto_resolver.go\<close>): \<open>Kickoff\<close> starts one goroutine for the
  resolutions, one for each standard listener, and one that passes the outcome of a resolution on
  to the listeners. They meet on unbuffered channels, so a send and its receipt are one step. The
  first listener waits for an outcome, sleeps, and triggers the next resolution; the second one
  logs errors. \<open>Statuses\<close> is called by the handlers of HTTP requests at any time.

  A step relation has the steps of all goroutines. Reading the state, the recorder of the running
  resolution and the clock are the environment: what they give is an argument of their steps.
  Begin's phases run in the recorder's goroutine and are steps of the recorder. It ends with
  \<open>logger.Wait()\<close>, which panics when a phase failed, as \<open>logger\<close> is nil then; nothing recovers
  from it, so the process ends. Logging is left out. A goroutine whose \<open>loopTilDone\<close> has returned has exited.
\<close>

section \<open>The goroutines\<close>

text \<open>\<open>RWait\<close> and \<open>RReady\<close> are the two selects of \<open>resolveLoop\<close>; the others are the places of \<open>resolveOnce\<close>.\<close>

datatype resolve_pc =
    RWait | RReady | RRead | RBegin Clusters | RWaitRecorder
  | RTellFailed goerror | RTellDone "goerror option" | RStore | RStatuses | RCleanup | RExit

datatype after_pc = AWait | ASleep | ATrigger | AExit

datatype logging_pc = LWait | LExit

datatype multicast_pc = MWait | MBoth "goerror option" | MSecond "goerror option" | MExit

record AutoResolver =
  arGDM :: Deployments
  arStable :: "ResolveStatus option"
  arLive :: "ResolveStatus option"
  arRecorder :: "ResolveRecorder option"
  arResolve :: resolve_pc
  arAfter :: after_pc
  arLogging :: logging_pc
  arMulticast :: multicast_pc
  arKickoff :: bool
  arAsking :: nat
  arPanicked :: bool
  arCrashed :: bool
  arDone :: bool

definition Kickoff :: AutoResolver where
  "Kickoff = \<lparr>arGDM = [], arStable = None, arLive = None, arRecorder = None, arResolve = RWait, arAfter = AWait,
     arLogging = LWait, arMulticast = MWait, arKickoff = True, arAsking = 0, arPanicked = False, arCrashed = False, arDone = False\<rparr>"

text \<open>What reading the state leads to: the error to announce, or the GDM and the clusters.\<close>

definition read_outcome :: "(gdm_error \<Rightarrow> goerror) \<Rightarrow> goerror + State \<Rightarrow> goerror + Deployments \<times> Clusters" where
  "read_outcome wrap r =
     (case r of
        Inl err \<Rightarrow> Inl err
      | Inr state \<Rightarrow>
          (case State_Deployments state of
             (_, Some err) \<Rightarrow> Inl (wrap err)
           | (deps, None) \<Rightarrow> Inr (deps, defClusters (sDefs state))))"

text \<open>The GDM after it: \<open>ar.GDM\<close> is assigned even when the expansion failed.\<close>

definition gdm_after_read :: "goerror + State \<Rightarrow> Deployments \<Rightarrow> Deployments" where
  "gdm_after_read r old = (case r of Inl _ \<Rightarrow> old | Inr state \<Rightarrow> fst (State_Deployments state))"

text \<open>
  \<open>updateStatus\<close> looks at the recorder without the lock, and reads its status under the lock. The
  two are separate steps of a request; \<open>update_live\<close> is the second, \<open>None\<close> its nil dereference.
\<close>

definition update_live :: "AutoResolver \<Rightarrow> AutoResolver option" where
  "update_live ar =
     (case arRecorder ar of
        None \<Rightarrow> None
      | Some rr \<Rightarrow> Some (ar\<lparr>arLive := Some (CurrentStatus rr)\<rparr>))"

datatype ar_event =
    Trigger | ReadState "goerror + State" | Began | RecorderStep rec_event | Crash | Told "goerror option" | Internal
  | Heard "goerror option" | Logged "goerror option" | Slept | Ask | Answer | CloseDone | Exit

inductive goroutine_step :: "ResolveFilter \<Rightarrow> (gdm_error \<Rightarrow> goerror) \<Rightarrow> AutoResolver \<Rightarrow> ar_event \<Rightarrow> AutoResolver \<Rightarrow> bool"
  for rf wrap where
  kick: "arKickoff ar \<Longrightarrow> arResolve ar \<in> {RWait, RReady} \<Longrightarrow>
     goroutine_step rf wrap ar Trigger (ar\<lparr>arKickoff := False, arResolve := RReady\<rparr>)"
| retrigger: "arAfter ar = ATrigger \<Longrightarrow> arResolve ar \<in> {RWait, RReady} \<Longrightarrow>
     goroutine_step rf wrap ar Trigger (ar\<lparr>arAfter := AWait, arResolve := RReady\<rparr>)"
| go_on: "arResolve ar = RReady \<Longrightarrow> \<not> arKickoff ar \<Longrightarrow> arAfter ar \<noteq> ATrigger \<Longrightarrow> \<not> arDone ar \<Longrightarrow>
     goroutine_step rf wrap ar Internal (ar\<lparr>arResolve := RRead\<rparr>)"
| read_failed: "arResolve ar = RRead \<Longrightarrow> read_outcome wrap r = Inl err \<Longrightarrow>
     goroutine_step rf wrap ar (ReadState r) (ar\<lparr>arGDM := gdm_after_read r (arGDM ar), arResolve := RTellFailed err\<rparr>)"
| read_ok: "arResolve ar = RRead \<Longrightarrow> read_outcome wrap r = Inr (deps, clusters) \<Longrightarrow>
     goroutine_step rf wrap ar (ReadState r) (ar\<lparr>arGDM := deps, arResolve := RBegin clusters\<rparr>)"
| begin_recorder: "arResolve ar = RBegin clusters \<Longrightarrow>
     goroutine_step rf wrap ar Began
       (ar\<lparr>arRecorder := Some (NewResolveRecorder now (Deployments_Filter (arGDM ar) (Some (FilterDeployment rf)))),
           arResolve := RWaitRecorder\<rparr>)"
| recorder: "arRecorder ar = Some rr \<Longrightarrow> rec_step rr e rr' \<Longrightarrow> e \<noteq> RClose \<or> \<not> earlyExit rr \<Longrightarrow>
     goroutine_step rf wrap ar (RecorderStep e) (ar\<lparr>arRecorder := Some rr'\<rparr>)"
| waited: "arResolve ar = RWaitRecorder \<Longrightarrow> arRecorder ar = Some rr \<Longrightarrow> Recorder_Wait rr = Some res \<Longrightarrow>
     goroutine_step rf wrap ar Internal (ar\<lparr>arResolve := RTellDone res\<rparr>)"
| tell_failed: "arResolve ar = RTellFailed err \<Longrightarrow> arMulticast ar = MWait \<Longrightarrow>
     goroutine_step rf wrap ar (Told (Some err)) (ar\<lparr>arMulticast := MBoth (Some err), arResolve := RWait\<rparr>)"
| tell_done: "arResolve ar = RTellDone res \<Longrightarrow> arMulticast ar = MWait \<Longrightarrow>
     goroutine_step rf wrap ar (Told res) (ar\<lparr>arMulticast := MBoth res, arResolve := RStore\<rparr>)"
| store: "arResolve ar = RStore \<Longrightarrow> arRecorder ar = Some rr \<Longrightarrow>
     goroutine_step rf wrap ar Internal (ar\<lparr>arStable := Some (CurrentStatus rr), arResolve := RStatuses\<rparr>)"
| statuses: "arResolve ar = RStatuses \<Longrightarrow> update_live ar = Some ar' \<Longrightarrow>
     goroutine_step rf wrap ar Internal (ar'\<lparr>arResolve := RCleanup\<rparr>)"
| cleanup: "arResolve ar = RCleanup \<Longrightarrow>
     goroutine_step rf wrap ar Internal (ar\<lparr>arRecorder := None, arResolve := RWait\<rparr>)"
| hear: "arMulticast ar = MBoth res \<Longrightarrow> arAfter ar = AWait \<Longrightarrow>
     goroutine_step rf wrap ar (Heard res) (ar\<lparr>arMulticast := MSecond res, arAfter := ASleep\<rparr>)"
| log: "arMulticast ar = MSecond res \<Longrightarrow> arLogging ar = LWait \<Longrightarrow>
     goroutine_step rf wrap ar (Logged res) (ar\<lparr>arMulticast := MWait\<rparr>)"
| sleep: "arAfter ar = ASleep \<Longrightarrow> goroutine_step rf wrap ar Slept (ar\<lparr>arAfter := ATrigger\<rparr>)"
| ask: "arRecorder ar = Some rr \<Longrightarrow> goroutine_step rf wrap ar Ask (ar\<lparr>arAsking := Suc (arAsking ar)\<rparr>)"
| answer: "arAsking ar = Suc n \<Longrightarrow> update_live ar = Some ar' \<Longrightarrow>
     goroutine_step rf wrap ar Answer (ar'\<lparr>arAsking := n\<rparr>)"
| answer_panics: "arAsking ar = Suc n \<Longrightarrow> update_live ar = None \<Longrightarrow>
     goroutine_step rf wrap ar Answer (ar\<lparr>arAsking := n, arPanicked := True\<rparr>)"
| close_done: "\<not> arDone ar \<Longrightarrow> goroutine_step rf wrap ar CloseDone (ar\<lparr>arDone := True\<rparr>)"
| exit_resolve: "arDone ar \<Longrightarrow> arResolve ar \<in> {RWait, RReady} \<Longrightarrow>
     goroutine_step rf wrap ar Exit (ar\<lparr>arResolve := RExit\<rparr>)"
| exit_after: "arDone ar \<Longrightarrow> arAfter ar \<in> {AWait, ASleep} \<Longrightarrow> goroutine_step rf wrap ar Exit (ar\<lparr>arAfter := AExit\<rparr>)"
| exit_logging: "arDone ar \<Longrightarrow> arLogging ar = LWait \<Longrightarrow> goroutine_step rf wrap ar Exit (ar\<lparr>arLogging := LExit\<rparr>)"
| exit_multicast: "arDone ar \<Longrightarrow> arMulticast ar = MWait \<Longrightarrow> goroutine_step rf wrap ar Exit (ar\<lparr>arMulticast := MExit\<rparr>)"

text \<open>The process: it lives until the goroutine of a resolution whose listing failed reaches its end.\<close>

inductive ar_step :: "ResolveFilter \<Rightarrow> (gdm_error \<Rightarrow> goerror) \<Rightarrow> AutoResolver \<Rightarrow> ar_event \<Rightarrow> AutoResolver \<Rightarrow> bool"
  for rf wrap where
  lives: "\<not> arCrashed ar \<Longrightarrow> goroutine_step rf wrap ar e ar' \<Longrightarrow> ar_step rf wrap ar e ar'"
| dies: "\<not> arCrashed ar \<Longrightarrow> arRecorder ar = Some rr \<Longrightarrow> earlyExit rr \<Longrightarrow> \<not> rrLogClosed rr \<Longrightarrow>
     ar_step rf wrap ar Crash (ar\<lparr>arCrashed := True\<rparr>)"

text \<open>\<open>Statuses\<close> as one call that nothing interrupts: it updates the live status if there is a recorder.\<close>

definition Statuses :: "AutoResolver \<Rightarrow> AutoResolver \<times> ResolveStatus option \<times> ResolveStatus option" where
  "Statuses ar =
     (let ar' = (case update_live ar of None \<Rightarrow> ar | Some ar' \<Rightarrow> ar')
      in (ar', arStable ar', arLive ar'))"

text \<open>The page of the server that shows them (\<open>server/handle_status.go\<close>).\<close>

record statusPage =
  sdDeployments :: "Deployment list"
  sdCompleted :: "ResolveStatus option"
  sdInProgress :: "ResolveStatus option"

definition Status_Exchange :: "ResolveFilter \<Rightarrow> AutoResolver \<Rightarrow> AutoResolver \<times> statusPage \<times> int" where
  "Status_Exchange rf ar =
     (let deps = map snd (Deployments_Snapshot (Deployments_Filter (arGDM ar) (Some (FilterDeployment rf))))
      in case Statuses ar of
          (ar', completed, inProgress) \<Rightarrow>
            (ar', \<lparr>sdDeployments = deps, sdCompleted = completed, sdInProgress = inProgress\<rparr>, 200))"

section \<open>The invariant\<close>

text \<open>One token goes round: a trigger on its way, a resolution, an outcome not yet heard, or a sleep.\<close>

fun resolve_token :: "resolve_pc \<Rightarrow> nat" where
  "resolve_token RWait = 0"
| "resolve_token RReady = 1"
| "resolve_token RRead = 1"
| "resolve_token (RBegin _) = 1"
| "resolve_token RWaitRecorder = 1"
| "resolve_token (RTellFailed _) = 1"
| "resolve_token (RTellDone _) = 1"
| "resolve_token RStore = 0"
| "resolve_token RStatuses = 0"
| "resolve_token RCleanup = 0"
| "resolve_token RExit = 0"

fun after_token :: "after_pc \<Rightarrow> nat" where
  "after_token AWait = 0"
| "after_token ASleep = 1"
| "after_token ATrigger = 1"
| "after_token AExit = 0"

fun multicast_token :: "multicast_pc \<Rightarrow> nat" where
  "multicast_token MWait = 0"
| "multicast_token (MBoth _) = 1"
| "multicast_token (MSecond _) = 0"
| "multicast_token MExit = 0"

definition tokens :: "AutoResolver \<Rightarrow> nat" where
  "tokens ar = of_bool (arKickoff ar) + resolve_token (arResolve ar) + after_token (arAfter ar)
     + multicast_token (arMulticast ar)"

definition running :: "AutoResolver \<Rightarrow> bool" where
  "running ar = (arResolve ar \<noteq> RExit \<and> arAfter ar \<noteq> AExit \<and> arLogging ar \<noteq> LExit \<and> arMulticast ar \<noteq> MExit)"

definition token_inv :: "AutoResolver \<Rightarrow> bool" where
  "token_inv ar = (tokens ar \<le> 1 \<and> (\<not> arDone ar \<longrightarrow> tokens ar = 1 \<and> running ar))"

lemma token_step: "goroutine_step rf wrap ar e ar' \<Longrightarrow> tokens ar \<le> 1 \<Longrightarrow> tokens ar' \<le> tokens ar \<and> (arDone ar' \<or> tokens ar' = tokens ar)"
  by (induction rule: goroutine_step.induct) (auto simp: tokens_def update_live_def split: option.splits)

lemma running_step: "goroutine_step rf wrap ar e ar' \<Longrightarrow> running ar \<Longrightarrow> \<not> arDone ar \<Longrightarrow> running ar'"
  by (induction rule: goroutine_step.induct) (auto simp: running_def update_live_def split: option.splits)

lemma done_step: "goroutine_step rf wrap ar e ar' \<Longrightarrow> arDone ar \<Longrightarrow> arDone ar'"
  by (induction rule: goroutine_step.induct) (auto simp: update_live_def split: option.splits)

lemma token_inv_step: "goroutine_step rf wrap ar e ar' \<Longrightarrow> token_inv ar \<Longrightarrow> token_inv ar'"
  using token_step [of rf wrap ar e ar'] running_step [of rf wrap ar e ar'] done_step [of rf wrap ar e ar']
  unfolding token_inv_def by linarith

fun has_recorder :: "resolve_pc \<Rightarrow> bool" where
  "has_recorder RWaitRecorder = True"
| "has_recorder (RTellDone _) = True"
| "has_recorder RStore = True"
| "has_recorder RStatuses = True"
| "has_recorder RCleanup = True"
| "has_recorder _ = False"

definition rr_inv :: "ResolveRecorder \<Rightarrow> bool" where
  "rr_inv rr = ((rrFinished rr \<longleftrightarrow> rsFinished (rrStatus rr) \<noteq> None) \<and> (rrFinished rr \<longrightarrow> rrLogClosed rr)
     \<and> (rrLogClosed rr \<longrightarrow> \<not> earlyExit rr))"

definition recorder_inv :: "AutoResolver \<Rightarrow> bool" where
  "recorder_inv ar =
     ((has_recorder (arResolve ar) \<longleftrightarrow> arRecorder ar \<noteq> None)
      \<and> (\<forall>rr. arRecorder ar = Some rr \<longrightarrow> rr_inv rr \<and> (arResolve ar \<noteq> RWaitRecorder \<longrightarrow> rrFinished rr))
      \<and> (\<forall>st. arStable ar = Some st \<longrightarrow> rsFinished st \<noteq> None))"

definition ar_inv :: "AutoResolver \<Rightarrow> bool" where
  "ar_inv ar = (token_inv ar \<and> recorder_inv ar)"

lemma rr_inv_new: "rr_inv (NewResolveRecorder now d)"
  by (simp add: rr_inv_def NewResolveRecorder_def)

lemma performPhase_status [simp]:
  "rsFinished (rrStatus (fst (performPhase name f rr))) = rsFinished (rrStatus rr)"
  "rrFinished (fst (performPhase name f rr)) = rrFinished rr" "rrLogClosed (fst (performPhase name f rr)) = rrLogClosed rr"
  by (cases f; simp add: performPhase_def doneWithError_def setPhase_def)+

lemma rr_inv_step:
  "rec_step rr e rr' \<Longrightarrow> rr_inv rr \<Longrightarrow> e \<noteq> RClose \<or> \<not> earlyExit rr \<Longrightarrow> rr_inv rr' \<and> (rrFinished rr \<longrightarrow> rrFinished rr')"
  by (induction rule: rec_step.induct) (auto simp: rr_inv_def record_rez_def finish_recorder_def earlyExit_def)

lemma Wait_finished: "Recorder_Wait rr = Some res \<Longrightarrow> rrFinished rr"
  by (simp add: Recorder_Wait_def split: if_splits)

lemma update_live_Some: "update_live ar = Some ar' \<Longrightarrow> \<exists>rr. arRecorder ar = Some rr \<and> ar' = ar\<lparr>arLive := Some (CurrentStatus rr)\<rparr>"
  by (simp add: update_live_def split: option.splits)

lemma recorder_inv_step: "goroutine_step rf wrap ar e ar' \<Longrightarrow> recorder_inv ar \<Longrightarrow> recorder_inv ar'"
proof (induction rule: goroutine_step.induct)
  case (recorder ar rr e rr')
  then show ?case using rr_inv_step [OF recorder(2) _ recorder(3)] by (simp add: recorder_inv_def)
next
  case (begin_recorder ar clusters now)
  then show ?case using rr_inv_new by (simp add: recorder_inv_def)
next
  case (waited ar rr res)
  then show ?case using Wait_finished [OF waited(3)] by (simp add: recorder_inv_def)
next
  case (store ar rr)
  then show ?case by (auto simp: recorder_inv_def rr_inv_def CurrentStatus_def)
next
  case (statuses ar ar')
  then show ?case by (auto dest!: update_live_Some simp: recorder_inv_def)
next
  case (answer ar n ar')
  then show ?case by (auto dest!: update_live_Some simp: recorder_inv_def)
qed (auto simp: recorder_inv_def)

lemma ar_inv_Kickoff: "ar_inv Kickoff"
  by (simp add: ar_inv_def token_inv_def tokens_def running_def recorder_inv_def Kickoff_def)

lemma ar_inv_step: "ar_step rf wrap ar e ar' \<Longrightarrow> ar_inv ar \<Longrightarrow> ar_inv ar'"
proof (induction rule: ar_step.induct)
  case (lives ar e ar')
  then show ?case using token_inv_step recorder_inv_step by (simp add: ar_inv_def)
next
  case (dies ar rr)
  then show ?case by (simp add: ar_inv_def token_inv_def tokens_def running_def recorder_inv_def)
qed

definition ar_reachable :: "ResolveFilter \<Rightarrow> (gdm_error \<Rightarrow> goerror) \<Rightarrow> AutoResolver \<Rightarrow> bool" where
  "ar_reachable rf wrap ar = (\<exists>es. runs (ar_step rf wrap) Kickoff es ar)"

lemma ar_inv_run: "runs (ar_step rf wrap) Kickoff es ar \<Longrightarrow> ar_inv ar"
  by (induction Kickoff es ar rule: runs.induct) (blast intro: ar_inv_Kickoff ar_inv_step)+

section \<open>The cycle goes on\<close>

text \<open>How far a state is from the next reading of the state: the place of the loop, then what else has to move.\<close>

fun resolve_rank :: "resolve_pc \<Rightarrow> nat" where
  "resolve_rank RRead = 0"
| "resolve_rank RReady = 1"
| "resolve_rank RWait = 2"
| "resolve_rank RCleanup = 3"
| "resolve_rank RStatuses = 4"
| "resolve_rank RStore = 5"
| "resolve_rank (RTellFailed _) = 6"
| "resolve_rank (RTellDone _) = 6"
| "resolve_rank RWaitRecorder = 7"
| "resolve_rank (RBegin _) = 8"
| "resolve_rank RExit = 0"

fun after_rank :: "after_pc \<Rightarrow> nat" where
  "after_rank ASleep = 2"
| "after_rank ATrigger = 1"
| "after_rank _ = 0"

fun multicast_rank :: "multicast_pc \<Rightarrow> nat" where
  "multicast_rank (MBoth _) = 4"
| "multicast_rank (MSecond _) = 1"
| "multicast_rank _ = 0"

definition rank :: "AutoResolver \<Rightarrow> nat" where
  "rank ar = 8 * resolve_rank (arResolve ar) + after_rank (arAfter ar) + multicast_rank (arMulticast ar) + of_bool (\<not> arCrashed ar)"

lemma rank_bound: "rank ar \<le> 71"
proof -
  have "resolve_rank (arResolve ar) \<le> 8" by (cases "arResolve ar") simp_all
  moreover have "after_rank (arAfter ar) \<le> 2" by (cases "arAfter ar") simp_all
  moreover have "multicast_rank (arMulticast ar) \<le> 4" by (cases "arMulticast ar") simp_all
  ultimately show ?thesis by (simp add: rank_def)
qed

text \<open>The steps that need neither a request nor the end of the server, and those of them that a recorder makes.\<close>

definition own_event :: "ar_event \<Rightarrow> bool" where
  "own_event e = (e \<notin> {Ask, Answer, CloseDone, Exit} \<and> (\<forall>r. e \<noteq> ReadState r))"

definition recorder_event :: "ar_event \<Rightarrow> bool" where
  "recorder_event e = (\<exists>r. e = RecorderStep r)"

lemma goroutine_closer:
  "goroutine_step rf wrap ar e ar' \<Longrightarrow> own_event e \<Longrightarrow> tokens ar \<le> 1
     \<Longrightarrow> rank ar' + of_bool (\<not> recorder_event e) \<le> rank ar \<and> (arDone ar' \<longrightarrow> arDone ar)"
  by (induction rule: goroutine_step.induct)
    (auto simp: own_event_def recorder_event_def rank_def tokens_def update_live_def split: option.splits)

lemma step_closer:
  assumes "ar_step rf wrap ar e ar'" and "own_event e" and "ar_inv ar"
  shows "rank ar' + of_bool (\<not> recorder_event e) \<le> rank ar \<and> (arDone ar' \<longrightarrow> arDone ar)"
  using assms
proof cases
  case lives
  then show ?thesis using assms goroutine_closer by (simp add: ar_inv_def token_inv_def)
next
  case (dies rr)
  then show ?thesis by (simp add: rank_def recorder_event_def)
qed

lemma run_closer:
  "runs (ar_step rf wrap) ar es ar' \<Longrightarrow> ar_inv ar \<Longrightarrow> list_all own_event es \<Longrightarrow>
   rank ar' + length (filter (\<lambda>e. \<not> recorder_event e) es) \<le> rank ar \<and> (arDone ar' \<longrightarrow> arDone ar) \<and> ar_inv ar'"
proof (induction ar es ar' rule: runs.induct)
  case (runs_snoc ar es ar1 e ar2)
  then have IH: "rank ar1 + length (filter (\<lambda>e. \<not> recorder_event e) es) \<le> rank ar" "arDone ar1 \<longrightarrow> arDone ar" "ar_inv ar1"
    by simp_all
  have "own_event e" using runs_snoc.prems by simp
  from step_closer [OF runs_snoc.hyps(2) this IH(3)] ar_inv_step [OF runs_snoc.hyps(2) IH(3)] IH
  show ?case by (cases "recorder_event e") simp_all
qed simp

text \<open>What the loop can be waiting for: a resolution that has not ended.\<close>

definition waits_for_recorder :: "AutoResolver \<Rightarrow> bool" where
  "waits_for_recorder ar = (arResolve ar = RWaitRecorder \<and> (\<exists>rr. arRecorder ar = Some rr \<and> \<not> rrFinished rr))"

lemma can_move:
  assumes "ar_inv ar" and "\<not> arDone ar" and "arResolve ar \<noteq> RRead" and "\<not> waits_for_recorder ar"
  shows "\<exists>e ar'. goroutine_step rf wrap ar e ar' \<and> own_event e \<and> \<not> recorder_event e"
proof -
  have t: "tokens ar = 1" and r: "running ar" using assms(1,2) by (simp_all add: ar_inv_def token_inv_def)
  note own = own_event_def recorder_event_def
  have multicast: ?thesis if "\<forall>res. arMulticast ar \<noteq> MBoth res" "arMulticast ar \<noteq> MWait"
  proof -
    have "\<exists>res. arMulticast ar = MSecond res"
      using that r by (cases "arMulticast ar") (auto simp: running_def)
    then obtain res where m: "arMulticast ar = MSecond res" ..
    have "arLogging ar = LWait" using r by (cases "arLogging ar") (auto simp: running_def)
    from log [of ar, OF m this] show ?thesis by (intro exI conjI) (assumption, simp_all add: own)
  qed
  show ?thesis
  proof (cases "arResolve ar")
    case RWait
    consider "arKickoff ar" | "arAfter ar = ATrigger" | "arAfter ar = ASleep" | res where "arMulticast ar = MBoth res" "arAfter ar = AWait"
      using t r RWait by (cases "arKickoff ar"; cases "arAfter ar"; cases "arMulticast ar") (auto simp: tokens_def running_def)
    then show ?thesis
    proof cases
      case 1
      from kick [OF this, of rf wrap] show ?thesis using RWait by (intro exI conjI) (simp, simp_all add: own)
    next
      case 2
      from retrigger [OF this, of rf wrap] show ?thesis using RWait by (intro exI conjI) (simp, simp_all add: own)
    next
      case 3
      from sleep [OF this, of rf wrap] show ?thesis by (intro exI conjI) (assumption, simp_all add: own)
    next
      case 4
      from hear [OF this, of rf wrap] show ?thesis by (intro exI conjI) (assumption, simp_all add: own)
    qed
  next
    case RReady
    then have "\<not> arKickoff ar" "arAfter ar \<noteq> ATrigger" using t by (auto simp: tokens_def)
    from go_on [OF RReady this assms(2)] show ?thesis by (intro exI conjI) (assumption, simp_all add: own)
  next
    case (RBegin clusters)
    from begin_recorder [OF RBegin] show ?thesis by (intro exI conjI) (assumption, simp_all add: own)
  next
    case RWaitRecorder
    then obtain rr where rr: "arRecorder ar = Some rr" "rrFinished rr"
      using assms(1,4) by (auto simp: ar_inv_def recorder_inv_def waits_for_recorder_def)
    then obtain res where "Recorder_Wait rr = Some res" by (simp add: Recorder_Wait_def)
    from waited [OF RWaitRecorder rr(1) this, of rf wrap] show ?thesis by (intro exI conjI) (assumption, simp_all add: own)
  next
    case (RTellFailed err)
    then have "\<forall>r. arMulticast ar \<noteq> MBoth r" using t by (auto simp: tokens_def)
    show ?thesis
    proof (cases "arMulticast ar = MWait")
      case True
      from tell_failed [OF RTellFailed True, of rf wrap] show ?thesis by (intro exI conjI) (assumption, simp_all add: own)
    qed (use multicast \<open>\<forall>r. arMulticast ar \<noteq> MBoth r\<close> in blast)
  next
    case (RTellDone res)
    then have "\<forall>r. arMulticast ar \<noteq> MBoth r" using t by (auto simp: tokens_def)
    show ?thesis
    proof (cases "arMulticast ar = MWait")
      case True
      from tell_done [OF RTellDone True, of rf wrap] show ?thesis by (intro exI conjI) (assumption, simp_all add: own)
    qed (use multicast \<open>\<forall>r. arMulticast ar \<noteq> MBoth r\<close> in blast)
  next
    case RStore
    then obtain rr where "arRecorder ar = Some rr" using assms(1) by (auto simp: ar_inv_def recorder_inv_def)
    from store [OF RStore this, of rf wrap] show ?thesis by (intro exI conjI) (assumption, simp_all add: own)
  next
    case RStatuses
    then obtain rr where "arRecorder ar = Some rr" using assms(1) by (auto simp: ar_inv_def recorder_inv_def)
    then have "update_live ar = Some (ar\<lparr>arLive := Some (CurrentStatus rr)\<rparr>)" by (simp add: update_live_def)
    from statuses [OF RStatuses this, of rf wrap] show ?thesis by (intro exI conjI) (assumption, simp_all add: own)
  next
    case RCleanup
    from cleanup [OF this] show ?thesis by (intro exI conjI) (assumption, simp_all add: own)
  qed (use assms(3) r in \<open>simp_all add: running_def\<close>)
qed

text \<open>A process that ended has the recorder of a failed listing.\<close>

lemma goroutine_alive: "goroutine_step rf wrap ar e ar' \<Longrightarrow> arCrashed ar' = arCrashed ar"
  by (induction rule: goroutine_step.induct) (auto simp: update_live_def split: option.splits)

lemma failed_listing_waits:
  assumes "ar_inv ar" and "arRecorder ar = Some rr" and "rrErr rr \<noteq> None"
  shows "waits_for_recorder ar"
  using assms by (auto simp: ar_inv_def recorder_inv_def rr_inv_def earlyExit_def waits_for_recorder_def)

lemma crashed_run:
  "runs (ar_step rf wrap) Kickoff es ar \<Longrightarrow> arCrashed ar \<Longrightarrow> \<exists>rr. arRecorder ar = Some rr \<and> rrErr rr \<noteq> None"
proof (induction Kickoff es ar rule: runs.induct)
  case runs_refl
  then show ?case by (simp add: Kickoff_def)
next
  case (runs_snoc es ar e ar')
  from runs_snoc.hyps(3) show ?case
  proof cases
    case lives
    then show ?thesis using goroutine_alive runs_snoc.prems by blast
  next
    case (dies rr)
    then show ?thesis by (simp add: earlyExit_def)
  qed
qed

lemma runs_append: "runs st s' es' s'' \<Longrightarrow> runs st s es s' \<Longrightarrow> runs st s (es @ es') s''"
  by (induction s' es' s'' rule: runs.induct) (simp, metis append_assoc runs_snoc)

section \<open>Announcements\<close>

fun unlogged :: "multicast_pc \<Rightarrow> goerror option list" where
  "unlogged (MBoth r) = [r]"
| "unlogged (MSecond r) = [r]"
| "unlogged _ = []"

fun told_by :: "ar_event \<Rightarrow> goerror option list" where
  "told_by (Told r) = [r]"
| "told_by _ = []"

fun logged_by :: "ar_event \<Rightarrow> goerror option list" where
  "logged_by (Logged r) = [r]"
| "logged_by _ = []"

lemma goroutine_step_announces:
  "goroutine_step rf wrap ar e ar' \<Longrightarrow> unlogged (arMulticast ar) @ told_by e = logged_by e @ unlogged (arMulticast ar')"
  by (induction rule: goroutine_step.induct) (auto simp: update_live_def split: option.splits)

lemma ar_step_announces:
  "ar_step rf wrap ar e ar' \<Longrightarrow> unlogged (arMulticast ar) @ told_by e = logged_by e @ unlogged (arMulticast ar')"
  by (induction rule: ar_step.induct) (simp_all add: goroutine_step_announces)

interpretation announce: fifo_steps "ar_step rf wrap" "\<lambda>ar. unlogged (arMulticast ar)" told_by logged_by
  by unfold_locales (rule ar_step_announces)

section \<open>An example\<close>

text \<open>A run on which the process lives.\<close>

definition live_run :: "ResolveFilter \<Rightarrow> (gdm_error \<Rightarrow> goerror) \<Rightarrow> ar_event list \<Rightarrow> AutoResolver \<Rightarrow> bool" where
  "live_run rf wrap es ar = (runs (ar_step rf wrap) Kickoff es ar \<and> \<not> arCrashed ar)"

lemma live_start: "live_run rf wrap [] Kickoff"
  by (simp add: live_run_def runs_refl) (simp add: Kickoff_def)

lemma live_snoc: "live_run rf wrap es ar \<Longrightarrow> goroutine_step rf wrap ar e ar' \<Longrightarrow> live_run rf wrap (es @ [e]) ar'"
  using goroutine_alive [of rf wrap ar e ar'] by (auto simp: live_run_def intro: runs_snoc lives)

text \<open>The first cycle: a state without manifests is read, its resolution ends at once and is stored, and a request asks meanwhile.\<close>

definition first_recorder :: ResolveRecorder where
  "first_recorder = NewResolveRecorder 1 []"

definition first_finished :: ResolveRecorder where
  "first_finished = finish_recorder 2 (first_recorder\<lparr>rrLogClosed := True\<rparr>)"

definition cycle_events :: "ar_event list" where
  "cycle_events = [Trigger, Internal, ReadState (Inr NewState), Began, Ask, RecorderStep RClose, RecorderStep RFinish, Internal, Told None, Internal, Internal]"

definition after_cycle :: AutoResolver where
  "after_cycle = Kickoff\<lparr>arKickoff := False, arRecorder := Some first_finished, arAsking := 1, arMulticast := MBoth None,
     arStable := Some (CurrentStatus first_finished), arLive := Some (CurrentStatus first_finished), arResolve := RCleanup\<rparr>"

lemma NewState_outcome: "read_outcome wrap (Inr NewState) = Inr ([], [])"
  by (simp add: read_outcome_def NewState_def State_Deployments_def Manifests_Deployments_def Manifests_Snapshot_def
      CMap_Snapshot_def zeroDefs_def)

lemma no_deployments: "Deployments_Filter [] p = []"
  by (simp add: Deployments_Filter_def CMap_Filter_def CMap_Clone_def split: option.split)

lemma cycle_live: "live_run rf wrap cycle_events after_cycle"
proof -
  let ?st = "goroutine_step rf wrap"
  let ?s1 = "Kickoff\<lparr>arKickoff := False, arResolve := RReady\<rparr>"
  let ?s2 = "?s1\<lparr>arResolve := RRead\<rparr>"
  let ?s3 = "?s1\<lparr>arResolve := RBegin []\<rparr>"
  let ?s4 = "?s1\<lparr>arRecorder := Some first_recorder, arResolve := RWaitRecorder\<rparr>"
  let ?s5 = "?s4\<lparr>arAsking := 1\<rparr>"
  let ?s6 = "?s5\<lparr>arRecorder := Some (first_recorder\<lparr>rrLogClosed := True\<rparr>)\<rparr>"
  let ?s7 = "?s5\<lparr>arRecorder := Some first_finished\<rparr>"
  let ?s8 = "?s7\<lparr>arResolve := RTellDone None\<rparr>"
  let ?s9 = "?s8\<lparr>arMulticast := MBoth None, arResolve := RStore\<rparr>"
  let ?s10 = "?s9\<lparr>arStable := Some (CurrentStatus first_finished), arResolve := RStatuses\<rparr>"
  have 1: "?st Kickoff Trigger ?s1" by (rule kick) (simp_all add: Kickoff_def)
  have 2: "?st ?s1 Internal ?s2" using go_on [of ?s1] by (simp add: Kickoff_def)
  have 3: "?st ?s2 (ReadState (Inr NewState)) ?s3"
    using read_ok [of ?s2 wrap "Inr NewState" "[]" "[]"] by (simp add: NewState_outcome Kickoff_def)
  have 4: "?st ?s3 Began ?s4" using begin_recorder [of ?s3 "[]" rf wrap 1] by (simp add: first_recorder_def no_deployments Kickoff_def)
  have 5: "?st ?s4 Ask ?s5" using ask [of ?s4] by (simp add: Kickoff_def)
  have 6: "?st ?s5 (RecorderStep RClose) ?s6"
    using recorder [of ?s5 first_recorder RClose] rec_close [of first_recorder] by (simp add: first_recorder_def NewResolveRecorder_def earlyExit_def)
  have 7: "?st ?s6 (RecorderStep RFinish) ?s7"
    using recorder [of ?s6 "first_recorder\<lparr>rrLogClosed := True\<rparr>" RFinish] rec_finish [of "first_recorder\<lparr>rrLogClosed := True\<rparr>" 2]
    by (simp add: first_recorder_def first_finished_def NewResolveRecorder_def)
  have "Recorder_Wait first_finished = Some None"
    by (simp add: first_finished_def first_recorder_def finish_recorder_def Recorder_Wait_def ResolveStatus_Err_def NewResolveRecorder_def)
  then have 8: "?st ?s7 Internal ?s8" using waited [of ?s7 first_finished None] by simp
  have 9: "?st ?s8 (Told None) ?s9" using tell_done [of ?s8 None] by (simp add: Kickoff_def)
  have 10: "?st ?s9 Internal ?s10" using store [of ?s9 first_finished] by simp
  have 11: "?st ?s10 Internal after_cycle"
    using statuses [of ?s10 "?s10\<lparr>arLive := Some (CurrentStatus first_finished)\<rparr>"]
    by (simp add: update_live_def after_cycle_def Kickoff_def)
  from live_snoc [OF live_snoc [OF live_snoc [OF live_snoc [OF live_snoc [OF live_snoc [OF live_snoc [OF live_snoc
      [OF live_snoc [OF live_snoc [OF live_snoc [OF live_start 1] 2] 3] 4] 5] 6] 7] 8] 9] 10] 11]
  show ?thesis by (simp add: cycle_events_def)
qed

lemma cycle_run: "runs (ar_step rf wrap) Kickoff cycle_events after_cycle"
  using cycle_live by (simp add: live_run_def)

text \<open>After the first cycle the recorder is dropped, and nobody has heard the outcome yet.\<close>

definition cleaned_up :: AutoResolver where
  "cleaned_up = after_cycle\<lparr>arRecorder := None, arResolve := RWait\<rparr>"

lemma cleaned_step: "goroutine_step rf wrap after_cycle Internal cleaned_up"
  unfolding cleaned_up_def by (rule cleanup) (simp add: after_cycle_def)

lemma cleaned_run: "runs (ar_step rf wrap) after_cycle [Internal] cleaned_up"
proof -
  have "\<not> arCrashed after_cycle" by (simp add: after_cycle_def Kickoff_def)
  from runs_snoc [where st = "ar_step rf wrap" and es = "[]", OF runs_refl lives [OF this cleaned_step]] show ?thesis by simp
qed

section \<open>Properties\<close>

text \<open>C10: The loop of resolutions. In every reachable state of a server that is not shut down there is exactly
  one of: a trigger on its way, a resolution, an outcome the timer has not heard, a sleep. So two
  resolutions never overlap, and no trigger arrives while one is being prepared. The stable status
  is always one of a finished resolution, and the outcomes that were logged are those that were
  announced, in their order, but for at most one.\<close>

theorem auto_resolver_invariant:
  assumes "runs (ar_step rf wrap) Kickoff es ar"
  shows "tokens ar \<le> 1 \<and> (\<not> arDone ar \<longrightarrow> tokens ar = 1)
     \<and> (arResolve ar = RReady \<longrightarrow> \<not> arKickoff ar \<and> arAfter ar \<noteq> ATrigger)
     \<and> (\<forall>st. arStable ar = Some st \<longrightarrow> rsFinished st \<noteq> None)
     \<and> (\<exists>late. concat (map told_by es) = concat (map logged_by es) @ late \<and> length late \<le> 1)"
proof -
  have inv: "tokens ar \<le> 1" "\<not> arDone ar \<longrightarrow> tokens ar = 1" "recorder_inv ar"
    using ar_inv_run [OF assms] by (simp_all add: ar_inv_def token_inv_def)
  have "unlogged (arMulticast Kickoff) = []" by (simp add: Kickoff_def)
  from announce.run_from_empty [OF assms this]
  have "concat (map told_by es) = concat (map logged_by es) @ unlogged (arMulticast ar)" .
  moreover have "length (unlogged (arMulticast ar)) \<le> 1" by (cases "arMulticast ar") simp_all
  moreover have "arResolve ar = RReady \<longrightarrow> \<not> arKickoff ar \<and> arAfter ar \<noteq> ATrigger" using inv(1) by (auto simp: tokens_def)
  ultimately show ?thesis using inv by (auto simp: recorder_inv_def)
qed

text \<open>C9: The loop goes on until a listing fails. From every reachable state of a server that is not shut
  down, on every run without requests the goroutines other than the recorder's make at most 71
  steps before the loop reads the state again; and as long as it does not read it, one of them
  can make a step, unless the process has ended or the resolution has not. The process ends only
  when the listing of the running deployments failed; and the loop never gets past such a
  resolution, so its error is never announced.\<close>

theorem auto_resolver_goes_on:
  assumes "runs (ar_step rf wrap) Kickoff es0 ar" and "\<not> arDone ar"
    and "runs (ar_step rf wrap) ar es ar'" and "list_all own_event es"
  shows "length (filter (\<lambda>e. \<not> recorder_event e) es) \<le> 71
     \<and> (arResolve ar' = RRead \<or> arCrashed ar' \<or> waits_for_recorder ar'
        \<or> (\<exists>e ar''. ar_step rf wrap ar' e ar'' \<and> own_event e \<and> \<not> recorder_event e))
     \<and> (arCrashed ar' \<longrightarrow> (\<exists>rr. arRecorder ar' = Some rr \<and> rrErr rr \<noteq> None))
     \<and> (\<forall>rr. arRecorder ar' = Some rr \<and> rrErr rr \<noteq> None \<longrightarrow> waits_for_recorder ar')"
proof (intro conjI allI impI)
  note inv = run_closer [OF assms(3) ar_inv_run [OF assms(1)] assms(4)]
  then show "length (filter (\<lambda>e. \<not> recorder_event e) es) \<le> 71" using rank_bound [of ar] by simp
  show "arResolve ar' = RRead \<or> arCrashed ar' \<or> waits_for_recorder ar'
      \<or> (\<exists>e ar''. ar_step rf wrap ar' e ar'' \<and> own_event e \<and> \<not> recorder_event e)"
    using can_move [of ar' rf wrap] inv assms(2) by (blast intro: lives)
  show "\<exists>rr. arRecorder ar' = Some rr \<and> rrErr rr \<noteq> None" if "arCrashed ar'"
    by (rule crashed_run [OF runs_append [OF assms(3,1)] that])
  show "waits_for_recorder ar'" if "arRecorder ar' = Some rr \<and> rrErr rr \<noteq> None" for rr
    using that inv failed_listing_waits by blast
qed

theorem auto_resolver_invariant_witness:
  "tokens after_cycle = 1 \<and> (\<exists>st. arStable after_cycle = Some st \<and> rsFinished st \<noteq> None)"
proof -
  have "\<not> arDone after_cycle" "arStable after_cycle = Some (CurrentStatus first_finished)"
    by (simp_all add: after_cycle_def Kickoff_def)
  with auto_resolver_invariant [OF cycle_run [of cluster_filter "\<lambda>_. PlainError [] []"]] show ?thesis by auto
qed

theorem auto_resolver_goes_on_witness:
  "\<exists>e ar. ar_step cluster_filter (\<lambda>_. PlainError [] []) cleaned_up e ar \<and> own_event e"
  using auto_resolver_goes_on [OF cycle_run _ cleaned_run, of cluster_filter "\<lambda>_. PlainError [] []"]
  by (auto simp: after_cycle_def Kickoff_def cleaned_up_def waits_for_recorder_def own_event_def)

text \<open>A request that saw the recorder of the resolution and gets the lock after its end dereferences nil.\<close>

lemma statuses_can_panic:
  "\<exists>es ar. runs (ar_step rf wrap) Kickoff es ar \<and> arPanicked ar \<and> \<not> arDone ar"
proof -
  have 2: "goroutine_step rf wrap cleaned_up Answer (cleaned_up\<lparr>arAsking := 0, arPanicked := True\<rparr>)"
    by (rule answer_panics) (simp_all add: cleaned_up_def after_cycle_def update_live_def)
  show ?thesis
    using live_snoc [OF live_snoc [OF cycle_live cleaned_step] 2, unfolded live_run_def]
    by (intro exI conjI) (erule conjunct1, simp_all add: cleaned_up_def after_cycle_def Kickoff_def)
qed

text \<open>One failed listing ends the process, as \<open>begin_panics_without_running_deployments\<close> shows of \<open>Begin\<close>.\<close>

lemma failed_listing_crashes:
  assumes "arResolve ar = RWaitRecorder" and "arRecorder ar = Some rr" and "rrErr rr = None" and "\<not> rrLogClosed rr" and "\<not> arCrashed ar"
  shows "\<exists>ar1 ar2. ar_step rf wrap ar (RecorderStep RPhase) ar1 \<and> ar_step rf wrap ar1 Crash ar2 \<and> (\<forall>e ar3. \<not> ar_step rf wrap ar2 e ar3)"
proof -
  let ?rr = "fst (performPhase ''getting running deployments'' (Inl (PlainError [] []) :: goerror + unit) rr)"
  let ?ar1 = "ar\<lparr>arRecorder := Some ?rr\<rparr>"
  have "goroutine_step rf wrap ar (RecorderStep RPhase) ?ar1"
    by (rule recorder [OF assms(2) rec_phase [OF assms(4)]]) simp
  then have "ar_step rf wrap ar (RecorderStep RPhase) ?ar1" by (rule lives [OF assms(5)])
  moreover have "ar_step rf wrap ?ar1 Crash (?ar1\<lparr>arCrashed := True\<rparr>)"
    using assms by (intro dies [where rr = ?rr]) (simp_all add: performPhase_def earlyExit_def doneWithError_def setPhase_def)
  moreover have "\<not> ar_step rf wrap (?ar1\<lparr>arCrashed := True\<rparr>) e ar3" for e ar3
    by (auto elim: ar_step.cases)
  ultimately show ?thesis by blast
qed

end
