(* ===== verification/Name_Cache.thy ===== *)
theory Name_Cache
  imports Docker_Labels Resolve_Errors
begin

text \<open>
  The database of image names (\<open>ext/docker/image_mapping.go\<close>): which source ID an image was built
  from, and which image was built from a source ID. What is not known yet is fetched from the
  registry and recorded.

  The tables are lists of their rows in the order of insertion, and a statement is what it does
  to the rows: \<open>unique\<close> constraints with their conflict clauses, generated keys that are never
  reused, natural joins in the order of the rows, and \<open>on delete cascade\<close>. SQLite obeys the last
  only on a connection on which \<open>pragma foreign_keys\<close> was set, so it is an argument (\<open>fk\<close>). The
  database itself does not fail. The registry's HTTP client, the parser of references to images
  (\<open>ref_name\<close>, \<open>with_tag\<close>, \<open>digested\<close>) and the schema's fingerprint are arguments. Log messages
  and table metrics are left out.
\<close>

section \<open>The tables\<close>

record metadata_row =
  mdID :: nat
  mdLocation :: nat
  mdEtag :: string
  mdCanonicalName :: string
  mdVersion :: string

record name_db =
  ndFingerprint :: "string option"
  ndRepoNames :: "(nat \<times> string) list"
  ndLocations :: "(nat \<times> SourceLocation) list"
  ndThrough :: "(nat \<times> nat) list"
  ndMetadata :: "metadata_row list"
  ndNames :: "(nat \<times> string) list"
  ndQualities :: "(nat \<times> Quality) list"
  ndNextRepo :: nat
  ndNextLocation :: nat
  ndNextMetadata :: nat

definition schema :: name_db where
  "schema = \<lparr>ndFingerprint = None, ndRepoNames = [], ndLocations = [], ndThrough = [], ndMetadata = [], ndNames = [], ndQualities = [],
     ndNextRepo = 1, ndNextLocation = 1, ndNextMetadata = 1\<rparr>"

text \<open>\<open>ensureInDB\<close>, for the three tables it is used on: the key of the row, found or made.\<close>

definition ensure_repo :: "string \<Rightarrow> name_db \<Rightarrow> name_db \<times> nat" where
  "ensure_repo n db =
     (case find (\<lambda>(i, m). m = n) (ndRepoNames db) of
        Some (i, _) \<Rightarrow> (db, i)
      | None \<Rightarrow>
          (db\<lparr>ndRepoNames := ndRepoNames db @ [(ndNextRepo db, n)], ndNextRepo := Suc (ndNextRepo db)\<rparr>, ndNextRepo db))"

definition ensure_location :: "SourceLocation \<Rightarrow> name_db \<Rightarrow> name_db \<times> nat" where
  "ensure_location sl db =
     (case find (\<lambda>(i, m). m = sl) (ndLocations db) of
        Some (i, _) \<Rightarrow> (db, i)
      | None \<Rightarrow>
          (db\<lparr>ndLocations := ndLocations db @ [(ndNextLocation db, sl)], ndNextLocation := Suc (ndNextLocation db)\<rparr>, ndNextLocation db))"

text \<open>\<open>insert or replace\<close>: the rows that violate a constraint go, and with them what refers to them.\<close>

definition conflicts :: "nat \<Rightarrow> string \<Rightarrow> string \<Rightarrow> metadata_row \<Rightarrow> bool" where
  "conflicts lid cn v row = (mdCanonicalName row = cn \<or> mdLocation row = lid \<and> mdVersion row = v)"

definition replace_metadata :: "bool \<Rightarrow> nat \<Rightarrow> string \<Rightarrow> string \<Rightarrow> string \<Rightarrow> name_db \<Rightarrow> name_db \<times> nat" where
  "replace_metadata fk lid etag cn v db =
     (let kept = filter (\<lambda>row. \<not> conflicts lid cn v row) (ndMetadata db);
          live = (\<lambda>i. \<not> fk \<or> i \<in> mdID ` set kept);
          new = ndNextMetadata db
      in (db\<lparr>ndMetadata := kept @ [\<lparr>mdID = new, mdLocation = lid, mdEtag = etag, mdCanonicalName = cn, mdVersion = v\<rparr>],
             ndNames := filter (\<lambda>(i, n). live i) (ndNames db), ndQualities := filter (\<lambda>(i, q). live i) (ndQualities db),
             ndNextMetadata := Suc new\<rparr>, new))"

definition ensure_metadata :: "bool \<Rightarrow> nat \<Rightarrow> string \<Rightarrow> string \<Rightarrow> string \<Rightarrow> name_db \<Rightarrow> name_db \<times> nat" where
  "ensure_metadata fk lid etag cn v db =
     (case find (\<lambda>row. mdCanonicalName row = cn) (ndMetadata db) of
        Some row \<Rightarrow> (db, mdID row)
      | None \<Rightarrow> replace_metadata fk lid etag cn v db)"

definition add_through :: "nat \<Rightarrow> nat \<Rightarrow> name_db \<Rightarrow> name_db" where
  "add_through nid lid db =
     (if (nid, lid) \<in> set (ndThrough db) then db else db\<lparr>ndThrough := ndThrough db @ [(nid, lid)]\<rparr>)"

definition add_quality :: "nat \<Rightarrow> Quality \<Rightarrow> name_db \<Rightarrow> name_db" where
  "add_quality i q db =
     (if qKind q = ''advisory'' \<and> qName q = [] then db
      else if (i, q) \<in> set (ndQualities db) then db
      else db\<lparr>ndQualities := ndQualities db @ [(i, q)]\<rparr>)"

definition add_name :: "nat \<Rightarrow> string \<Rightarrow> name_db \<Rightarrow> name_db" where
  "add_name i n db = db\<lparr>ndNames := filter (\<lambda>(j, m). m \<noteq> n) (ndNames db) @ [(i, n)]\<rparr>"

definition dbAddNamesForID :: "nat \<Rightarrow> string list \<Rightarrow> name_db \<Rightarrow> name_db" where
  "dbAddNamesForID i ins db = foldl (\<lambda>db n. add_name i n db) db ins"

definition ErrNoRows :: goerror where "ErrNoRows = PlainError ''*errors.errorString'' ''sql: no rows in result set''"

definition dbAddNames :: "string \<Rightarrow> string list \<Rightarrow> name_db \<Rightarrow> name_db \<times> goerror option" where
  "dbAddNames cn ins db =
     (case find (\<lambda>row. mdCanonicalName row = cn) (ndMetadata db) of
        None \<Rightarrow> (db, Some ErrNoRows)
      | Some row \<Rightarrow> (dbAddNamesForID (mdID row) ins db, None))"

definition dbInsert ::
    "(string \<Rightarrow> string option) \<Rightarrow> bool \<Rightarrow> SourceID \<Rightarrow> string \<Rightarrow> string \<Rightarrow> Quality list \<Rightarrow> name_db \<Rightarrow> name_db \<times> goerror option" where
  "dbInsert ref_name fk sid inn etag quals db =
     (case ref_name inn of
        None \<Rightarrow> (db, Some (PlainError ''*errors.fundamental'' inn))
      | Some repo \<Rightarrow>
          (let (db1, nid) = ensure_repo repo db;
               (db2, lid) = ensure_location (sidLocation sid) db1;
               db3 = add_through nid lid db2;
               (db4, i) = ensure_metadata fk lid etag inn (Version_Format (sidVersion sid) Complete) db3;
               db5 = foldl (\<lambda>db q. add_quality i q db) db4 quals
           in (dbAddNamesForID i [inn] db5, None)))"

section \<open>Queries\<close>

definition joined :: "name_db \<Rightarrow> (string \<times> metadata_row \<times> SourceLocation) list" where
  "joined db =
     concat (map (\<lambda>(i, n).
       concat (map (\<lambda>row.
         concat (map (\<lambda>(j, sl). if mdID row = i \<and> j = mdLocation row then [(n, row, sl)] else []) (ndLocations db)))
       (ndMetadata db))) (ndNames db))"

definition dbQueryOnName :: "string \<Rightarrow> name_db \<Rightarrow> (metadata_row \<times> SourceLocation) option" where
  "dbQueryOnName inn db = map_option snd (find (\<lambda>(n, row, sl). n = inn) (joined db))"

definition dbQueryOnSL :: "SourceLocation \<Rightarrow> name_db \<Rightarrow> goerror + string list" where
  "dbQueryOnSL sl db =
     (let rs = concat (map (\<lambda>(i, n).
                 concat (map (\<lambda>(j, k).
                   concat (map (\<lambda>(k', sl'). if i = j \<and> k = k' \<and> sl' = sl then [n] else []) (ndLocations db)))
                 (ndThrough db))) (ndRepoNames db))
      in if rs = [] then Inl (PlainError ''*errors.errorString'' ''no repos found'') else Inr rs)"

text \<open>\<open>semverEqual\<close>, a function the code adds to SQLite; an error of it is one of the query.\<close>

definition semverEqual :: "string \<Rightarrow> string \<Rightarrow> bool option" where
  "semverEqual a b =
     (if a = b then Some True
      else case (Semv_Parse a, Semv_Parse b) of
          ((v, None), (w, None)) \<Rightarrow> Some (Version_Equals v w)
        | _ \<Rightarrow> None)"

definition NoImageNameFound :: goerror where
  "NoImageNameFound = WithCause [] (PlainError ''docker.NoImageNameFound'' ''No image name'')"

definition at_location :: "SourceID \<Rightarrow> name_db \<Rightarrow> (string \<times> metadata_row \<times> SourceLocation) list" where
  "at_location sid db = filter (\<lambda>(n, row, sl). sl = sidLocation sid) (joined db)"

text \<open>
  The scan leaves the canonical name of the last row. The rows end at the first one whose version
  \<open>semverEqual\<close> cannot read; that error is kept only if rows came before it.
\<close>

definition dbQueryCNameforSourceID :: "SourceID \<Rightarrow> name_db \<Rightarrow> goerror + string \<times> string list" where
  "dbQueryCNameforSourceID sid db =
     (let same = (\<lambda>(n, row, sl). semverEqual (mdVersion row) (Version_String (sidVersion sid)));
          rows = at_location sid db;
          hits = filter (\<lambda>r. same r = Some True) (takeWhile (\<lambda>r. same r \<noteq> None) rows)
      in if hits = [] then Inl NoImageNameFound
         else if None \<in> set (map same rows) then Inl (PlainError ''sqlite3.Error'' ''semverEqual'')
         else Inr (mdCanonicalName (fst (snd (last hits))), map fst hits))"

definition dbQueryQualsForCName :: "string \<Rightarrow> name_db \<Rightarrow> Quality list" where
  "dbQueryQualsForCName cn db =
     concat (map (\<lambda>(i, q).
       concat (map (\<lambda>row. if mdID row = i \<and> mdCanonicalName row = cn then [q] else []) (ndMetadata db)))
     (ndQualities db))"

definition dbQueryOnSourceID :: "SourceID \<Rightarrow> name_db \<Rightarrow> goerror + string \<times> Quality list" where
  "dbQueryOnSourceID sid db =
     (case dbQueryCNameforSourceID sid db of
        Inl err \<Rightarrow> Inl err
      | Inr (cn, ins) \<Rightarrow> Inr (cn, dbQueryQualsForCName cn db))"

text \<open>\<open>MustParse\<close> panics on a version that does not parse: \<open>None\<close>.\<close>

definition dbQueryAllSourceIds :: "name_db \<Rightarrow> SourceID list option" where
  "dbQueryAllSourceIds db =
     (let ids = concat (map (\<lambda>(j, sl).
            concat (map (\<lambda>row. if j = mdLocation row
                               then [case Semv_Parse (mdVersion row) of
                                       (v, None) \<Rightarrow> Some \<lparr>sidLocation = sl, sidVersion = v\<rparr> | (v, Some e) \<Rightarrow> None]
                               else []) (ndMetadata db))) (ndLocations db))
      in if None \<in> set ids then None else Some (map the ids))"

section \<open>The registry\<close>

record ImageMetadata =
  imRegistry :: string
  imLabels :: "(string, string) gomap"
  imEtag :: string
  imCanonicalName :: string
  imAllNames :: "string list"

datatype md_answer = Unchanged | Failed goerror | Metadata ImageMetadata

record name_cache_env =
  neHost :: string
  neForeignKeys :: bool
  neRefName :: "string \<Rightarrow> string option"
  neWithTag :: "string \<Rightarrow> string \<Rightarrow> string option"
  neDigested :: "string \<Rightarrow> bool"
  neGetImageMetadata :: "string \<Rightarrow> string \<Rightarrow> md_answer"
  neAllTags :: "string \<Rightarrow> goerror + string list"

definition docker_NewBuildArtifact :: "string \<Rightarrow> Quality list \<Rightarrow> BuildArtifact" where
  "docker_NewBuildArtifact imageName qs = \<lparr>baName = imageName, baType = ''docker'', baQualities = qs\<rparr>"

definition qualitiesFromLabels :: "(string, string) gomap \<Rightarrow> Quality list" where
  "qualitiesFromLabels lm =
     (case gget lm ''com.opentable.sous.advisories'' of
        None \<Rightarrow> []
      | Some advs \<Rightarrow> map (\<lambda>adv. \<lparr>qName = adv, qKind = ''advisory''\<rparr>) (split_on CHR '','' advs))"

definition NameCache_Insert :: "name_cache_env \<Rightarrow> SourceID \<Rightarrow> string \<Rightarrow> string \<Rightarrow> Quality list \<Rightarrow> name_db \<Rightarrow> name_db \<times> goerror option" where
  "NameCache_Insert env sid inn etag qs db = dbInsert (neRefName env) (neForeignKeys env) sid inn etag qs db"

text \<open>What the registry says about an image is recorded under its canonical name and all its names.\<close>

definition record_metadata :: "name_cache_env \<Rightarrow> SourceID \<Rightarrow> SourceID \<Rightarrow> ImageMetadata \<Rightarrow> name_db \<Rightarrow> name_db \<times> SourceID \<times> goerror option" where
  "record_metadata env sid newSID md db =
     (let host = neHost env;
          onHost = host @ ''/'' @ imCanonicalName md;
          onRegistry = imRegistry md @ ''/'' @ imCanonicalName md;
          mirrored = (imRegistry md \<noteq> host);
          fullCanon = (if mirrored then (case neGetImageMetadata env onHost (imEtag md) of Failed _ \<Rightarrow> onRegistry | _ \<Rightarrow> onHost) else onHost)
      in case dbInsert (neRefName env) (neForeignKeys env) newSID fullCanon (imEtag md) (qualitiesFromLabels (imLabels md)) db of
          (db1, Some err) \<Rightarrow> (db1, sid, Some err)
        | (db1, None) \<Rightarrow>
            (let names = map (\<lambda>n. host @ ''/'' @ n) (imAllNames md)
             in case dbAddNames onHost names db1 of
                 (db2, None) \<Rightarrow> (db2, newSID, None)
               | (db2, Some err) \<Rightarrow>
                   if mirrored then (case dbAddNames onRegistry names db2 of (db3, err') \<Rightarrow> (db3, newSID, err'))
                   else (db2, newSID, Some err)))"

definition label_goerror :: goerror where "label_goerror = PlainError ''*errors.fundamental'' ''labels''"

definition NameCache_GetSourceID :: "name_cache_env \<Rightarrow> string \<Rightarrow> name_db \<Rightarrow> name_db \<times> SourceID \<times> goerror option" where
  "NameCache_GetSourceID env inn db =
     (let fetch = (\<lambda>sid etag.
            (case neGetImageMetadata env inn etag of
               Unchanged \<Rightarrow> (db, sid, None)
             | Failed err \<Rightarrow> (db, sid, Some err)
             | Metadata md \<Rightarrow>
                 (case SourceIDFromLabels (imLabels md) of
                    (_, Some err) \<Rightarrow> (db, sid, Some label_goerror)
                  | (newSID, None) \<Rightarrow> record_metadata env sid newSID md db)))
      in case dbQueryOnName inn db of
          None \<Rightarrow> fetch zeroSourceID []
        | Some (row, sl) \<Rightarrow>
            (case NewSourceID (slRepo sl) (slDir sl) (mdVersion row) of
               Ok sid \<Rightarrow> if neDigested env inn then (db, sid, None) else fetch sid (mdEtag row)
             | _ \<Rightarrow> (db, zeroSourceID, Some label_goerror)))"

fun warm_tags :: "name_cache_env \<Rightarrow> string \<Rightarrow> string list \<Rightarrow> name_db \<Rightarrow> name_db" where
  "warm_tags env r [] db = db"
| "warm_tags env r (t # ts) db =
     (case neWithTag env r t of
        None \<Rightarrow> warm_tags env r ts db
      | Some inn \<Rightarrow> warm_tags env r ts (fst (NameCache_GetSourceID env inn db)))"

definition NameCache_Warmup :: "name_cache_env \<Rightarrow> string \<Rightarrow> name_db \<Rightarrow> name_db \<times> goerror option" where
  "NameCache_Warmup env r db =
     (case neRefName env r of
        None \<Rightarrow> (db, Some (PlainError ''*errors.fundamental'' r))
      | Some _ \<Rightarrow>
          (case neAllTags env r of
             Inl err \<Rightarrow> (db, Some (WithCause ''warming up'' err))
           | Inr ts \<Rightarrow> (warm_tags env r ts db, None)))"

definition warmupSingle :: "name_cache_env \<Rightarrow> SourceID \<Rightarrow> name_db \<Rightarrow> name_db \<times> goerror option" where
  "warmupSingle env sid db =
     (let inn = versionTag (neHost env) sid []
      in case NameCache_GetSourceID env inn db of
          (db', gsid, Some err) \<Rightarrow> (db', None)
        | (db', gsid, None) \<Rightarrow>
            (db', if SourceID_Equal sid gsid then None else Some (PlainError ''*errors.fundamental'' inn)))"

fun warm_all :: "name_cache_env \<Rightarrow> string list \<Rightarrow> name_db \<Rightarrow> name_db \<times> goerror option" where
  "warm_all env [] db = (db, None)"
| "warm_all env (r # rs) db =
     (case NameCache_Warmup env r db of
        (db', Some err) \<Rightarrow> (db', Some err)
      | (db', None) \<Rightarrow> warm_all env rs db')"

definition harvest :: "name_cache_env \<Rightarrow> SourceLocation \<Rightarrow> name_db \<Rightarrow> name_db \<times> goerror option" where
  "harvest env sl db =
     (let repos = (case dbQueryOnSL sl db of Inl _ \<Rightarrow> [] | Inr rs \<Rightarrow> rs);
          guessed = fullRepoName (neHost env) sl []
      in case warm_all env repos db of
          (db', Some err) \<Rightarrow> (db', Some err)
        | (db', None) \<Rightarrow> if guessed \<in> set repos then (db', None) else NameCache_Warmup env guessed db')"

definition getImageNameAfterHarvest :: "name_cache_env \<Rightarrow> SourceID \<Rightarrow> name_db \<Rightarrow> name_db \<times> (goerror + string \<times> Quality list)" where
  "getImageNameAfterHarvest env sid db =
     (case warmupSingle env sid db of
        (db1, None) \<Rightarrow> (db1, dbQueryOnSourceID sid db1)
      | (db1, Some _) \<Rightarrow>
          (case harvest env (sidLocation sid) db1 of
             (db2, None) \<Rightarrow> (db2, dbQueryOnSourceID sid db2)
           | (db2, Some err) \<Rightarrow> (db2, Inl err)))"

definition getImageName :: "name_cache_env \<Rightarrow> SourceID \<Rightarrow> name_db \<Rightarrow> name_db \<times> (goerror + string \<times> Quality list)" where
  "getImageName env sid db =
     (case dbQueryOnSourceID sid db of
        Inr r \<Rightarrow> (db, Inr r)
      | Inl err \<Rightarrow>
          if type_name (errors_Cause err) \<noteq> ''docker.NoImageNameFound''
          then (db, Inl (WithCause ''getting name from cache'' err))
          else (case getImageNameAfterHarvest env sid db of
              (db', Inl err') \<Rightarrow> (db', Inl (WithCause ''getting image from cache after harvest'' err'))
            | (db', Inr r) \<Rightarrow> (db', Inr r)))"

definition NameCache_GetArtifact :: "name_cache_env \<Rightarrow> SourceID \<Rightarrow> name_db \<Rightarrow> name_db \<times> (goerror + BuildArtifact)" where
  "NameCache_GetArtifact env sid db =
     (case getImageName env sid db of
        (db', Inl err) \<Rightarrow> (db', Inl err)
      | (db', Inr (name, qls)) \<Rightarrow> (db', Inr (docker_NewBuildArtifact name qls)))"

definition NameCache_ImageLabels :: "name_cache_env \<Rightarrow> string \<Rightarrow> name_db \<Rightarrow> name_db \<times> (goerror + (string, string) gomap)" where
  "NameCache_ImageLabels env inn db =
     (case NameCache_GetSourceID env inn db of
        (db', sv, Some err) \<Rightarrow> (db', Inl (WithCause ''Image name'' err))
      | (db', sv, None) \<Rightarrow> (db', Inr (Labels sv)))"

definition GetCanonicalName :: "string \<Rightarrow> name_db \<Rightarrow> string option" where
  "GetCanonicalName inn db = map_option (\<lambda>(row, sl). mdCanonicalName row) (dbQueryOnName inn db)"

text \<open>A database with another schema is made anew, and the repositories it knew are fetched again.\<close>

definition GroomDatabase :: "string \<Rightarrow> name_cache_env \<Rightarrow> name_db \<Rightarrow> name_db \<times> goerror option" where
  "GroomDatabase schemaFingerprint env db =
     (if ndFingerprint db = Some schemaFingerprint then (db, None)
      else warm_all env (map snd (ndRepoNames db)) (schema\<lparr>ndFingerprint := Some schemaFingerprint\<rparr>))"

section \<open>What the tables always satisfy\<close>

definition keys_inv :: "nat \<Rightarrow> (nat \<times> 'a) list \<Rightarrow> bool" where
  "keys_inv next xs = (distinct (map fst xs) \<and> distinct (map snd xs) \<and> (\<forall>(i, x) \<in> set xs. i < next))"

definition metadata_inv :: "name_db \<Rightarrow> bool" where
  "metadata_inv db =
     (distinct (map mdID (ndMetadata db)) \<and> distinct (map mdCanonicalName (ndMetadata db))
      \<and> distinct (map (\<lambda>row. (mdLocation row, mdVersion row)) (ndMetadata db))
      \<and> (\<forall>row \<in> set (ndMetadata db). mdID row < ndNextMetadata db \<and> mdLocation row \<in> fst ` set (ndLocations db)))"

definition names_inv :: "name_db \<Rightarrow> bool" where
  "names_inv db = (distinct (map snd (ndNames db)) \<and> (\<forall>(i, n) \<in> set (ndNames db). i < ndNextMetadata db))"

definition qualities_inv :: "name_db \<Rightarrow> bool" where
  "qualities_inv db = (distinct (ndQualities db) \<and> (\<forall>(i, q) \<in> set (ndQualities db). i < ndNextMetadata db))"

definition db_inv :: "name_db \<Rightarrow> bool" where
  "db_inv db =
     (keys_inv (ndNextRepo db) (ndRepoNames db) \<and> keys_inv (ndNextLocation db) (ndLocations db) \<and> distinct (ndThrough db)
      \<and> metadata_inv db \<and> names_inv db \<and> qualities_inv db)"

lemmas db_inv_defs = db_inv_def metadata_inv_def names_inv_def qualities_inv_def

lemma db_inv_schema: "db_inv (schema\<lparr>ndFingerprint := fp\<rparr>)"
  by (simp add: db_inv_defs keys_inv_def schema_def)

lemma keys_inv_snoc: "keys_inv n xs \<Longrightarrow> x \<notin> snd ` set xs \<Longrightarrow> keys_inv (Suc n) (xs @ [(n, x)])"
  by (fastforce simp: keys_inv_def)

lemma keys_inv_key: "keys_inv n xs \<Longrightarrow> (i, x) \<in> set xs \<Longrightarrow> (j, x) \<in> set xs \<Longrightarrow> i = j"
  unfolding keys_inv_def by (metis eq_key_imp_eq_value inj_onD distinct_map fst_conv snd_conv)

lemma keys_inv_value: "keys_inv n xs \<Longrightarrow> (i, x) \<in> set xs \<Longrightarrow> (i, y) \<in> set xs \<Longrightarrow> x = y"
  unfolding keys_inv_def by (metis eq_key_imp_eq_value)

lemma find_snd_None: "find (\<lambda>(i, m). m = x) xs = None \<longleftrightarrow> x \<notin> snd ` set xs"
  by (force simp: find_None_iff)

lemma find_snd_Some: "find (\<lambda>(i, m). m = x) xs = Some (i, m) \<Longrightarrow> m = x \<and> (i, x) \<in> set xs"
  by (auto simp: find_Some_iff in_set_conv_nth split: prod.splits) (metis prod.collapse snd_conv)+

lemma ensure_repo_inv: "db_inv db \<Longrightarrow> db_inv (fst (ensure_repo n db))"
  by (auto simp: ensure_repo_def db_inv_defs find_snd_None keys_inv_snoc split: option.splits)

lemma ensure_repo_other [simp]:
  "ndLocations (fst (ensure_repo n db)) = ndLocations db" "ndMetadata (fst (ensure_repo n db)) = ndMetadata db"
  "ndNames (fst (ensure_repo n db)) = ndNames db" "ndQualities (fst (ensure_repo n db)) = ndQualities db"
  "ndNextMetadata (fst (ensure_repo n db)) = ndNextMetadata db"
  by (auto simp: ensure_repo_def split: option.splits)

lemma ensure_location_inv: "db_inv db \<Longrightarrow> db_inv (fst (ensure_location sl db))"
  by (fastforce simp: ensure_location_def db_inv_defs find_snd_None keys_inv_snoc split: option.splits)

lemma ensure_location_other [simp]:
  "ndMetadata (fst (ensure_location n db)) = ndMetadata db"
  "ndNames (fst (ensure_location n db)) = ndNames db" "ndQualities (fst (ensure_location n db)) = ndQualities db"
  "ndNextMetadata (fst (ensure_location n db)) = ndNextMetadata db"
  by (auto simp: ensure_location_def split: option.splits)

lemma ensure_location_key: "(snd (ensure_location sl db), sl) \<in> set (ndLocations (fst (ensure_location sl db)))"
  by (auto simp: ensure_location_def dest: find_snd_Some split: option.splits)

lemma ensure_location_grows: "set (ndLocations db) \<subseteq> set (ndLocations (fst (ensure_location sl db)))"
  by (auto simp: ensure_location_def split: option.splits)

lemma add_through_inv: "db_inv db \<Longrightarrow> db_inv (add_through i j db)"
  by (simp add: add_through_def db_inv_defs)

lemma add_through_other [simp]:
  "ndLocations (add_through i j db) = ndLocations db" "ndMetadata (add_through i j db) = ndMetadata db"
  "ndNames (add_through i j db) = ndNames db" "ndQualities (add_through i j db) = ndQualities db"
  "ndNextMetadata (add_through i j db) = ndNextMetadata db"
  by (simp_all add: add_through_def)

lemma distinct_map_filterI: "distinct (map f xs) \<Longrightarrow> distinct (map f (filter P xs))"
  by (rule distinct_map_filter)

lemma replace_metadata_inv:
  assumes "db_inv db" and "lid \<in> fst ` set (ndLocations db)"
  shows "db_inv (fst (replace_metadata fk lid etag cn v db))"
proof -
  let ?db = "fst (replace_metadata fk lid etag cn v db)"
  let ?kept = "filter (\<lambda>row. \<not> conflicts lid cn v row) (ndMetadata db)"
  have m: "metadata_inv db" "names_inv db" "qualities_inv db" using assms(1) by (simp_all add: db_inv_def)
  have "metadata_inv ?db"
    using m(1) assms(2)
    by (auto simp: metadata_inv_def replace_metadata_def conflicts_def Let_def distinct_map_filter less_Suc_eq)
  moreover have "names_inv ?db"
    using m(2) by (auto simp: names_inv_def replace_metadata_def Let_def distinct_map_filter less_Suc_eq)
  moreover have "qualities_inv ?db"
    using m(3) by (auto simp: qualities_inv_def replace_metadata_def Let_def less_Suc_eq)
  ultimately show ?thesis
    using assms(1) by (simp add: db_inv_def replace_metadata_def Let_def)
qed

lemma ensure_metadata_inv:
  "db_inv db \<Longrightarrow> lid \<in> fst ` set (ndLocations db) \<Longrightarrow> db_inv (fst (ensure_metadata fk lid etag cn v db))"
  by (auto simp: ensure_metadata_def intro: replace_metadata_inv split: option.splits)

lemma ensure_metadata_key:
  assumes "db_inv db"
  shows "snd (ensure_metadata fk lid etag cn v db) < ndNextMetadata (fst (ensure_metadata fk lid etag cn v db))"
proof (cases "find (\<lambda>row. mdCanonicalName row = cn) (ndMetadata db)")
  case (Some row)
  then have "row \<in> set (ndMetadata db)" by (auto simp: find_Some_iff)
  then show ?thesis using assms Some by (simp add: ensure_metadata_def db_inv_def metadata_inv_def)
qed (simp add: ensure_metadata_def replace_metadata_def Let_def)

lemma add_quality_inv: "db_inv db \<Longrightarrow> i < ndNextMetadata db \<Longrightarrow> db_inv (add_quality i q db)"
  by (auto simp: add_quality_def db_inv_defs)

lemma add_quality_other [simp]:
  "ndLocations (add_quality i q db) = ndLocations db" "ndMetadata (add_quality i q db) = ndMetadata db"
  "ndNames (add_quality i q db) = ndNames db" "ndNextMetadata (add_quality i q db) = ndNextMetadata db"
  by (simp_all add: add_quality_def)

lemma add_qualities_inv:
  "db_inv db \<Longrightarrow> i < ndNextMetadata db \<Longrightarrow> db_inv (foldl (\<lambda>db q. add_quality i q db) db qs)"
  by (induction qs arbitrary: db) (simp_all add: add_quality_inv)

lemma add_qualities_other [simp]:
  "ndLocations (foldl (\<lambda>db q. add_quality i q db) db qs) = ndLocations db"
  "ndMetadata (foldl (\<lambda>db q. add_quality i q db) db qs) = ndMetadata db"
  "ndNames (foldl (\<lambda>db q. add_quality i q db) db qs) = ndNames db"
  "ndNextMetadata (foldl (\<lambda>db q. add_quality i q db) db qs) = ndNextMetadata db"
  by (induction qs arbitrary: db) simp_all

lemma add_name_inv: "db_inv db \<Longrightarrow> i < ndNextMetadata db \<Longrightarrow> db_inv (add_name i n db)"
  by (auto simp: add_name_def db_inv_defs distinct_map_filter)

lemma add_name_other [simp]:
  "ndLocations (add_name i n db) = ndLocations db" "ndMetadata (add_name i n db) = ndMetadata db"
  "ndQualities (add_name i n db) = ndQualities db" "ndNextMetadata (add_name i n db) = ndNextMetadata db"
  by (simp_all add: add_name_def)

lemma dbAddNamesForID_inv: "db_inv db \<Longrightarrow> i < ndNextMetadata db \<Longrightarrow> db_inv (dbAddNamesForID i ins db)"
  unfolding dbAddNamesForID_def by (induction ins arbitrary: db) (simp_all add: add_name_inv)

lemma dbAddNames_inv: "db_inv db \<Longrightarrow> db_inv (fst (dbAddNames cn ins db))"
proof (cases "find (\<lambda>row. mdCanonicalName row = cn) (ndMetadata db)")
  case (Some row)
  assume inv: "db_inv db"
  have "row \<in> set (ndMetadata db)" using Some by (auto simp: find_Some_iff)
  then have "mdID row < ndNextMetadata db" using inv by (simp add: db_inv_def metadata_inv_def)
  then show ?thesis using Some dbAddNamesForID_inv [OF inv] by (simp add: dbAddNames_def)
qed (simp add: dbAddNames_def)

text \<open>The stages of an insertion.\<close>

definition insert_stage :: "string \<Rightarrow> SourceID \<Rightarrow> name_db \<Rightarrow> name_db \<times> nat" where
  "insert_stage repo sid db =
     (let (db1, nid) = ensure_repo repo db; (db2, lid) = ensure_location (sidLocation sid) db1
      in (add_through nid lid db2, lid))"

lemma dbInsert_staged:
  "dbInsert ref_name fk sid inn etag quals db =
     (case ref_name inn of
        None \<Rightarrow> (db, Some (PlainError ''*errors.fundamental'' inn))
      | Some repo \<Rightarrow>
          (let (db3, lid) = insert_stage repo sid db;
               (db4, i) = ensure_metadata fk lid etag inn (Version_Format (sidVersion sid) Complete) db3
           in (dbAddNamesForID i [inn] (foldl (\<lambda>db q. add_quality i q db) db4 quals), None)))"
  by (simp add: dbInsert_def insert_stage_def Let_def split: option.split prod.split)

lemma insert_stage_facts:
  assumes "db_inv db" and "insert_stage repo sid db = (db3, lid)"
  shows "db_inv db3" and "(lid, sidLocation sid) \<in> set (ndLocations db3)" and "set (ndLocations db) \<subseteq> set (ndLocations db3)"
    and "ndMetadata db3 = ndMetadata db" and "ndNames db3 = ndNames db" and "ndQualities db3 = ndQualities db"
    and "ndNextMetadata db3 = ndNextMetadata db"
proof -
  let ?db1 = "fst (ensure_repo repo db)"
  let ?e = "ensure_location (sidLocation sid) ?db1"
  have e: "db3 = add_through (snd (ensure_repo repo db)) (snd ?e) (fst ?e)" "lid = snd ?e"
    using assms(2) by (auto simp: insert_stage_def Let_def split: prod.splits)
  show "db_inv db3" unfolding e(1) by (intro add_through_inv ensure_location_inv ensure_repo_inv assms(1))
  show "(lid, sidLocation sid) \<in> set (ndLocations db3)" using ensure_location_key by (simp add: e)
  show "set (ndLocations db) \<subseteq> set (ndLocations db3)"
    using ensure_location_grows [of ?db1 "sidLocation sid"] by (simp add: e(1))
  show "ndMetadata db3 = ndMetadata db" "ndNames db3 = ndNames db" "ndQualities db3 = ndQualities db"
    "ndNextMetadata db3 = ndNextMetadata db" by (simp_all add: e(1))
qed

lemma dbInsert_inv: "db_inv db \<Longrightarrow> db_inv (fst (dbInsert ref_name fk sid inn etag quals db))"
proof (cases "ref_name inn")
  case (Some repo)
  assume inv: "db_inv db"
  obtain db3 lid where s: "insert_stage repo sid db = (db3, lid)" by fastforce
  let ?e = "ensure_metadata fk lid etag inn (Version_Format (sidVersion sid) Complete) db3"
  note f = insert_stage_facts [OF inv s]
  have "db_inv (fst ?e)" by (rule ensure_metadata_inv [OF f(1)]) (use f(2) in force)
  moreover have "snd ?e < ndNextMetadata (fst ?e)" by (rule ensure_metadata_key [OF f(1)])
  ultimately have "db_inv (dbAddNamesForID (snd ?e) [inn] (foldl (\<lambda>db q. add_quality (snd ?e) q db) (fst ?e) quals))"
    by (intro dbAddNamesForID_inv add_qualities_inv) simp_all
  then show ?thesis by (simp add: dbInsert_staged Some s case_prod_beta)
qed (simp add: dbInsert_def)

section \<open>What insertions keep, the cache keeps\<close>

text \<open>The registry's answers reach the tables only through \<open>dbInsert\<close> and \<open>dbAddNames\<close>.\<close>

locale cache_invariant =
  fixes P :: "name_db \<Rightarrow> bool"
  assumes insert_keeps: "P db \<Longrightarrow> P (fst (dbInsert ref_name fk sid inn etag quals db))"
    and names_keeps: "P db \<Longrightarrow> P (fst (dbAddNames cn ins db))"
begin

lemma inserted_keeps: "dbInsert ref_name fk sid inn etag quals db = (db', e) \<Longrightarrow> P db \<Longrightarrow> P db'"
  by (metis fst_conv insert_keeps)

lemma named_keeps: "dbAddNames cn ins db = (db', e) \<Longrightarrow> P db \<Longrightarrow> P db'"
  by (metis fst_conv names_keeps)

lemma record_keeps: "P db \<Longrightarrow> P (fst (record_metadata env sid newSID md db))"
  unfolding record_metadata_def Let_def
  by (auto split: option.splits prod.splits dest: inserted_keeps named_keeps)

lemma GetSourceID_keeps: "P db \<Longrightarrow> P (fst (NameCache_GetSourceID env inn db))"
  using record_keeps
  by (auto simp: NameCache_GetSourceID_def Let_def split: option.splits prod.splits outcome.splits md_answer.splits)

lemma warm_tags_keeps: "P db \<Longrightarrow> P (warm_tags env r ts db)"
  by (induction ts arbitrary: db) (auto intro: GetSourceID_keeps split: option.splits)

lemma Warmup_keeps: "P db \<Longrightarrow> P (fst (NameCache_Warmup env r db))"
  by (auto simp: NameCache_Warmup_def intro: warm_tags_keeps split: option.splits sum.splits)

lemma warm_all_keeps: "P db \<Longrightarrow> P (fst (warm_all env rs db))"
proof (induction rs arbitrary: db)
  case (Cons r rs)
  have "P (fst (NameCache_Warmup env r db))" by (rule Warmup_keeps [OF Cons.prems])
  then show ?case using Cons.IH [of "fst (NameCache_Warmup env r db)"] by (auto split: prod.splits option.splits)
qed simp

lemma warmupSingle_keeps: "P db \<Longrightarrow> P (fst (warmupSingle env sid db))"
  using GetSourceID_keeps [of db env "versionTag (neHost env) sid []"]
  by (auto simp: warmupSingle_def Let_def split: prod.splits option.splits)

lemma harvest_keeps:
  assumes "P db"
  shows "P (fst (harvest env sl db))"
proof -
  let ?w = "warm_all env (case dbQueryOnSL sl db of Inl _ \<Rightarrow> [] | Inr rs \<Rightarrow> rs) db"
  have "P (fst ?w)" by (rule warm_all_keeps [OF assms])
  then show ?thesis using Warmup_keeps [of "fst ?w"] by (auto simp: harvest_def Let_def split: prod.splits option.splits)
qed

lemma GetArtifact_keeps:
  assumes "P db"
  shows "P (fst (NameCache_GetArtifact env sid db))"
proof -
  have w: "P (fst (warmupSingle env sid db))" by (rule warmupSingle_keeps [OF assms])
  then have "P (fst (harvest env (sidLocation sid) (fst (warmupSingle env sid db))))" by (rule harvest_keeps)
  with w have "P (fst (getImageNameAfterHarvest env sid db))"
    by (auto simp: getImageNameAfterHarvest_def split: prod.splits option.splits)
  then show ?thesis
    using assms by (auto simp: NameCache_GetArtifact_def getImageName_def split: prod.splits sum.splits)
qed

end

interpretation tables: cache_invariant db_inv
  by unfold_locales (rule dbInsert_inv dbAddNames_inv; assumption)+

section \<open>Lookups\<close>

lemma joined_iff:
  "(n, row, sl) \<in> set (joined db) \<longleftrightarrow>
     (mdID row, n) \<in> set (ndNames db) \<and> row \<in> set (ndMetadata db) \<and> (mdLocation row, sl) \<in> set (ndLocations db)"
  by (auto simp: joined_def split: if_splits)

lemma takeWhile_readable:
  assumes "None \<notin> f ` set rows"
  shows "takeWhile (\<lambda>r. f r \<noteq> None) rows = rows"
  using assms by (subst takeWhile_eq_all_conv) (metis image_eqI)

lemma scan_Inr:
  "(if filter (\<lambda>r. f r = Some True) (takeWhile (\<lambda>r. f r \<noteq> None) rows) = [] then Inl a
    else if None \<in> set (map f rows) then Inl b else Inr (g (filter (\<lambda>r. f r = Some True) (takeWhile (\<lambda>r. f r \<noteq> None) rows)))) = Inr x
   \<longleftrightarrow> None \<notin> f ` set rows \<and> filter (\<lambda>r. f r = Some True) rows \<noteq> [] \<and> x = g (filter (\<lambda>r. f r = Some True) rows)"
proof (cases "None \<in> f ` set rows")
  case False
  note readable = takeWhile_readable [OF False]
  show ?thesis unfolding readable set_map using False by auto
qed simp

lemma dbQueryCName_Inr:
  "dbQueryCNameforSourceID sid db = Inr x \<longleftrightarrow>
     (let same = (\<lambda>(n, row, sl). semverEqual (mdVersion row) (Version_String (sidVersion sid)));
          hits = filter (\<lambda>r. same r = Some True) (at_location sid db)
      in None \<notin> same ` set (at_location sid db) \<and> hits \<noteq> [] \<and> x = (mdCanonicalName (fst (snd (last hits))), map fst hits))"
  unfolding dbQueryCNameforSourceID_def Let_def by (rule scan_Inr)

lemma found_artifact:
  assumes "dbQueryOnSourceID sid db = Inr (cn, qs)"
  shows "qs = dbQueryQualsForCName cn db \<and> (\<exists>row \<in> set (ndMetadata db). mdCanonicalName row = cn
     \<and> (mdLocation row, sidLocation sid) \<in> set (ndLocations db)
     \<and> semverEqual (mdVersion row) (Version_String (sidVersion sid)) = Some True)"
proof -
  define hits where
    "hits = filter (\<lambda>r. (\<lambda>(n, row, sl). semverEqual (mdVersion row) (Version_String (sidVersion sid))) r = Some True) (at_location sid db)"
  have "hits \<noteq> []" "cn = mdCanonicalName (fst (snd (last hits)))" "qs = dbQueryQualsForCName cn db"
    using assms by (auto simp: dbQueryOnSourceID_def dbQueryCName_Inr Let_def hits_def split: sum.splits)
  moreover obtain n row sl where l: "last hits = (n, row, sl)" by (cases "last hits")
  moreover have "(n, row, sl) \<in> set hits" using \<open>hits \<noteq> []\<close> last_in_set [of hits] l by simp
  then have "(n, row, sl) \<in> set (joined db)" "sl = sidLocation sid"
      "semverEqual (mdVersion row) (Version_String (sidVersion sid)) = Some True"
    by (auto simp: hits_def at_location_def)
  ultimately show ?thesis by (auto simp: joined_iff)
qed

text \<open>The row that an insertion under a new name makes is the one that is found.\<close>

fun kept_qualities :: "Quality list \<Rightarrow> Quality list \<Rightarrow> Quality list" where
  "kept_qualities acc [] = acc"
| "kept_qualities acc (q # qs) =
     kept_qualities (if qKind q = ''advisory'' \<and> qName q = [] \<or> q \<in> set acc then acc else acc @ [q]) qs"

lemma set_kept: "set (kept_qualities acc qs) = set acc \<union> {q \<in> set qs. \<not> (qKind q = ''advisory'' \<and> qName q = [])}"
  by (induction acc qs rule: kept_qualities.induct) auto

lemma distinct_kept: "distinct acc \<Longrightarrow> distinct (kept_qualities acc qs)"
  by (induction acc qs rule: kept_qualities.induct) auto

lemma qualities_of_new:
  assumes "\<forall>(j, q) \<in> set (ndQualities db). j \<noteq> i"
  shows "ndQualities (foldl (\<lambda>db q. add_quality i q db) (db\<lparr>ndQualities := ndQualities db @ map (Pair i) acc\<rparr>) qs)
     = ndQualities db @ map (Pair i) (kept_qualities acc qs)"
proof (induction acc qs rule: kept_qualities.induct)
  case (2 acc q qs)
  have "(i, q) \<notin> set (ndQualities db)" using assms by auto
  then show ?case using 2 by (auto simp: add_quality_def image_iff)
qed simp

text \<open>The tables after an insertion under a new canonical name.\<close>

lemma ensure_new:
  "inn \<notin> mdCanonicalName ` set (ndMetadata db) \<Longrightarrow> ensure_metadata fk lid etag inn v db = replace_metadata fk lid etag inn v db"
  by (auto simp: ensure_metadata_def find_None_iff split: option.split dest: find_Some_iff [THEN iffD1])

definition new_row :: "name_db \<Rightarrow> nat \<Rightarrow> SourceID \<Rightarrow> string \<Rightarrow> string \<Rightarrow> metadata_row" where
  "new_row db lid sid inn etag = \<lparr>mdID = ndNextMetadata db, mdLocation = lid, mdEtag = etag, mdCanonicalName = inn,
     mdVersion = Version_Format (sidVersion sid) Complete\<rparr>"

lemma inserted_tables:
  assumes inv: "db_inv db" and new: "inn \<notin> mdCanonicalName ` set (ndMetadata db)" and ref: "neRefName env inn = Some repo"
    and d: "d = fst (NameCache_Insert env sid inn etag qs db)"
  obtains lid keptn keptq where "(lid, sidLocation sid) \<in> set (ndLocations d)" "set (ndLocations db) \<subseteq> set (ndLocations d)"
    "ndMetadata d = filter (\<lambda>row. \<not> conflicts lid inn (Version_Format (sidVersion sid) Complete) row) (ndMetadata db) @ [new_row db lid sid inn etag]"
    "ndNames d = keptn @ [(ndNextMetadata db, inn)]" "set keptn \<subseteq> set (ndNames db)"
    "ndQualities d = keptq @ map (Pair (ndNextMetadata db)) (kept_qualities [] qs)" "set keptq \<subseteq> set (ndQualities db)"
proof -
  obtain db3 lid where s: "insert_stage repo sid db = (db3, lid)" by fastforce
  note f = insert_stage_facts [OF inv s]
  let ?v = "Version_Format (sidVersion sid) Complete" and ?i = "ndNextMetadata db"
  let ?r = "replace_metadata (neForeignKeys env) lid etag inn ?v db3"
  have e: "ensure_metadata (neForeignKeys env) lid etag inn ?v db3 = ?r" by (rule ensure_new) (use new f(4) in simp)
  have i: "snd ?r = ?i" by (simp add: replace_metadata_def Let_def f(7))
  have d': "d = dbAddNamesForID ?i [inn] (foldl (\<lambda>db q. add_quality ?i q db) (fst ?r) qs)"
    using i by (simp add: d NameCache_Insert_def dbInsert_staged ref s e case_prod_beta)
  have old: "\<forall>(j, q) \<in> set (ndQualities (fst ?r)). j \<noteq> ?i"
    using inv f(6) by (auto simp: replace_metadata_def Let_def db_inv_def qualities_inv_def)
  show thesis
  proof (rule that)
    show "(lid, sidLocation sid) \<in> set (ndLocations d)" "set (ndLocations db) \<subseteq> set (ndLocations d)"
      using f(2,3) by (simp_all add: d' dbAddNamesForID_def replace_metadata_def Let_def)
    show "ndMetadata d = filter (\<lambda>row. \<not> conflicts lid inn ?v row) (ndMetadata db) @ [new_row db lid sid inn etag]"
      by (simp add: d' dbAddNamesForID_def replace_metadata_def new_row_def Let_def f(4,7))
    show "ndNames d = filter (\<lambda>(j, m). m \<noteq> inn) (ndNames (fst ?r)) @ [(?i, inn)]"
      by (simp add: d' dbAddNamesForID_def add_name_def)
    show "set (filter (\<lambda>(j, m). m \<noteq> inn) (ndNames (fst ?r))) \<subseteq> set (ndNames db)"
      by (auto simp: replace_metadata_def Let_def f(5))
    show "ndQualities d = ndQualities (fst ?r) @ map (Pair ?i) (kept_qualities [] qs)"
      using qualities_of_new [OF old, where acc = "[]"] by (simp add: d' dbAddNamesForID_def)
    show "set (ndQualities (fst ?r)) \<subseteq> set (ndQualities db)"
      by (auto simp: replace_metadata_def Let_def f(6))
  qed
qed

lemma quals_of_last:
  assumes "\<forall>row \<in> set rows. mdCanonicalName row \<noteq> cn" and "mdCanonicalName r = cn" and "\<forall>(j, q) \<in> set old. j \<noteq> mdID r"
    and "ndMetadata d = rows @ [r]" and "ndQualities d = old @ map (Pair (mdID r)) ks"
  shows "dbQueryQualsForCName cn d = ks"
proof -
  have none: "concat (map (\<lambda>row. if mdID row = i \<and> mdCanonicalName row = cn then [q] else []) rows) = []" for i :: nat and q :: Quality
    using assms(1) by (induction rows) auto
  have "concat (map (\<lambda>(i, q). if i = mdID r then [q] else []) old) = []" using assms(3) by (induction old) auto
  moreover have "concat (map (\<lambda>q. [q]) ks) = ks" by (induction ks) auto
  ultimately show ?thesis
    using assms(2) by (simp add: dbQueryQualsForCName_def assms(4,5) none comp_def case_prod_beta eq_commute [of "mdID r"])
qed

definition versions_apart :: "SourceID \<Rightarrow> name_db \<Rightarrow> bool" where
  "versions_apart sid db = (\<forall>(n, row, sl) \<in> set (at_location sid db).
     mdVersion row = Version_Format (sidVersion sid) Complete \<or> semverEqual (mdVersion row) (Version_String (sidVersion sid)) = Some False)"

text \<open>
  The queries after an insertion of \<open>sid'\<close> under the new name \<open>inn\<close>, for a source ID at the same
  location with an equal version: the row is the only match, whatever other names it got.
\<close>

lemma found_in:
  assumes inv: "db_inv db" and invd: "db_inv d" and new: "inn \<notin> mdCanonicalName ` set (ndMetadata db)"
    and apart: "\<forall>(n, row, sl) \<in> set (at_location sid db). mdVersion row = Version_Format (sidVersion sid') Complete
      \<or> semverEqual (mdVersion row) (Version_String (sidVersion sid)) = Some False"
    and loc: "sidLocation sid' = sidLocation sid"
    and eq: "semverEqual (Version_Format (sidVersion sid') Complete) (Version_String (sidVersion sid)) = Some True"
    and t: "(lid, sidLocation sid) \<in> set (ndLocations d)" "set (ndLocations db) \<subseteq> set (ndLocations d)"
    "ndMetadata d = filter (\<lambda>row. \<not> conflicts lid inn (Version_Format (sidVersion sid') Complete) row) (ndMetadata db) @ [new_row db lid sid' inn etag]"
    "(ndNextMetadata db, inn) \<in> set (ndNames d)" "set (ndNames d) \<subseteq> set (ndNames db) \<union> {ndNextMetadata db} \<times> UNIV"
    "ndQualities d = keptq @ map (Pair (ndNextMetadata db)) (kept_qualities [] qs)" "set keptq \<subseteq> set (ndQualities db)"
  shows "dbQueryOnSourceID sid d = Inr (inn, kept_qualities [] qs)"
proof -
  let ?r = "new_row db lid sid' inn etag" and ?v = "Version_Format (sidVersion sid') Complete"
  let ?same = "\<lambda>(n, row, sl). semverEqual (mdVersion row) (Version_String (sidVersion sid))"
  let ?hits = "filter (\<lambda>r. ?same r = Some True) (at_location sid d)"
  have keys: "keys_inv (ndNextLocation d) (ndLocations d)" using invd by (simp add: db_inv_def)
  have unique: "k = lid" if "(k, sidLocation sid) \<in> set (ndLocations d)" for k
    by (rule keys_inv_key [OF keys that t(1)])
  have rows: "row = ?r \<or> ?same (n, row, sl) = Some False" if "(n, row, sl) \<in> set (at_location sid d)" for n row sl
  proof (cases "row = ?r")
    case False
    have j: "(mdID row, n) \<in> set (ndNames d)" "row \<in> set (ndMetadata d)" "(mdLocation row, sl) \<in> set (ndLocations d)" "sl = sidLocation sid"
      using that by (auto simp: at_location_def joined_iff)
    then have m: "row \<in> set (ndMetadata db)" "\<not> conflicts lid inn ?v row" using False t(3) by auto
    then have b: "mdID row < ndNextMetadata db" "mdLocation row \<in> fst ` set (ndLocations db)" using inv by (simp_all add: db_inv_def metadata_inv_def)
    then have "(mdID row, n) \<in> set (ndNames db)" using j(1) t(5) by auto
    moreover have "mdLocation row = lid" using unique j(3,4) by simp
    moreover obtain sl' where sl': "(mdLocation row, sl') \<in> set (ndLocations db)" using b(2) by auto
    moreover have "sl' = sl" by (rule keys_inv_value [OF keys subsetD [OF t(2) sl'] j(3)])
    ultimately have "(n, row, sl) \<in> set (at_location sid db)" using m(1) j(4) by (simp add: at_location_def joined_iff)
    then have "mdVersion row = ?v \<or> ?same (n, row, sl) = Some False" using apart by auto
    then show ?thesis using m(2) \<open>mdLocation row = lid\<close> by (simp add: conflicts_def)
  qed simp
  have r: "?same (n, ?r, sl) = Some True" for n sl using eq by (simp add: new_row_def)
  have no: "None \<notin> ?same ` set (at_location sid d)" using rows r by fastforce
  have hits: "fst (snd h) = ?r" if "h \<in> set ?hits" for h using rows that by (cases h) fastforce
  have "(inn, ?r, sidLocation sid) \<in> set (at_location sid d)"
    using t(1,3,4) by (simp add: at_location_def joined_iff new_row_def)
  then have some: "?hits \<noteq> []" using r by (fastforce simp: filter_empty_conv)
  have "fst (snd (last ?hits)) = ?r" by (rule hits [OF last_in_set [OF some]])
  then have "\<exists>ins. dbQueryCNameforSourceID sid d = Inr (inn, ins)"
    using no some unfolding dbQueryCName_Inr Let_def by (simp add: new_row_def)
  moreover have "dbQueryQualsForCName inn d = kept_qualities [] qs"
    by (rule quals_of_last [OF _ _ _ t(3)]) (use new t(6,7) inv in \<open>auto simp: new_row_def conflicts_def db_inv_def qualities_inv_def\<close>)
  ultimately show ?thesis by (auto simp: dbQueryOnSourceID_def)
qed

lemma inserted_found:
  assumes inv: "db_inv db" and new: "inn \<notin> mdCanonicalName ` set (ndMetadata db)" and ref: "neRefName env inn = Some repo"
    and apart: "versions_apart sid db"
    and eq: "semverEqual (Version_Format (sidVersion sid) Complete) (Version_String (sidVersion sid)) = Some True"
    and d: "d = fst (NameCache_Insert env sid inn etag qs db)"
  shows "dbQueryOnSourceID sid d = Inr (inn, kept_qualities [] qs)"
proof -
  obtain lid keptn keptq where t: "(lid, sidLocation sid) \<in> set (ndLocations d)" "set (ndLocations db) \<subseteq> set (ndLocations d)"
    "ndMetadata d = filter (\<lambda>row. \<not> conflicts lid inn (Version_Format (sidVersion sid) Complete) row) (ndMetadata db) @ [new_row db lid sid inn etag]"
    "ndNames d = keptn @ [(ndNextMetadata db, inn)]" "set keptn \<subseteq> set (ndNames db)"
    "ndQualities d = keptq @ map (Pair (ndNextMetadata db)) (kept_qualities [] qs)" "set keptq \<subseteq> set (ndQualities db)"
    by (rule inserted_tables [OF inv new ref d])
  have "db_inv d" using tables.insert_keeps [OF inv] by (simp add: d NameCache_Insert_def)
  then show ?thesis
    by (rule found_in [OF inv _ new _ _ eq t(1,2,3) _ _ t(6,7)]) (use apart t(4,5) in \<open>auto simp: versions_apart_def\<close>)
qed

text \<open>What the registry says about an image is recorded and found, with all the names it gets.\<close>

lemma add_names_names:
  "set (ndNames (dbAddNamesForID i ns d)) \<subseteq> set (ndNames d) \<union> {i} \<times> UNIV"
  "(i, n) \<in> set (ndNames d) \<Longrightarrow> (i, n) \<in> set (ndNames (dbAddNamesForID i ns d))"
  unfolding dbAddNamesForID_def by (induction ns arbitrary: d) (fastforce simp: add_name_def)+

lemma add_names_other:
  "ndLocations (dbAddNamesForID i ns d) = ndLocations d" "ndMetadata (dbAddNamesForID i ns d) = ndMetadata d"
  "ndQualities (dbAddNamesForID i ns d) = ndQualities d"
  unfolding dbAddNamesForID_def by (induction ns arbitrary: d) simp_all

lemma find_app: "find P (xs @ ys) = (case find P xs of None \<Rightarrow> find P ys | Some x \<Rightarrow> Some x)"
  by (induction xs) simp_all

lemma recorded_found:
  assumes inv: "db_inv db" and new: "inn \<notin> mdCanonicalName ` set (ndMetadata db)" and ref: "neRefName env inn = Some repo"
    and host: "imRegistry md = neHost env" and inn: "inn = neHost env @ ''/'' @ imCanonicalName md"
    and apart: "\<forall>(n, row, sl) \<in> set (at_location sid db). semverEqual (mdVersion row) (Version_String (sidVersion sid)) = Some False"
    and loc: "sidLocation sid' = sidLocation sid"
    and eq: "semverEqual (Version_Format (sidVersion sid') Complete) (Version_String (sidVersion sid)) = Some True"
  shows "\<exists>d. record_metadata env sid0 sid' md db = (d, sid', None) \<and> dbQueryOnSourceID sid d = Inr (inn, kept_qualities [] (qualitiesFromLabels (imLabels md)))"
proof -
  let ?qs = "qualitiesFromLabels (imLabels md)" and ?v = "Version_Format (sidVersion sid') Complete"
  define d where "d = fst (NameCache_Insert env sid' inn (imEtag md) ?qs db)"
  let ?ns = "map (\<lambda>n. neHost env @ ''/'' @ n) (imAllNames md)"
  obtain lid keptn keptq where t: "(lid, sidLocation sid') \<in> set (ndLocations d)" "set (ndLocations db) \<subseteq> set (ndLocations d)"
    "ndMetadata d = filter (\<lambda>row. \<not> conflicts lid inn ?v row) (ndMetadata db) @ [new_row db lid sid' inn (imEtag md)]"
    "ndNames d = keptn @ [(ndNextMetadata db, inn)]" "set keptn \<subseteq> set (ndNames db)"
    "ndQualities d = keptq @ map (Pair (ndNextMetadata db)) (kept_qualities [] ?qs)" "set keptq \<subseteq> set (ndQualities db)"
    by (rule inserted_tables [OF inv new ref d_def])
  let ?d2 = "dbAddNamesForID (ndNextMetadata db) ?ns d"
  have ins: "dbInsert (neRefName env) (neForeignKeys env) sid' inn (imEtag md) ?qs db = (d, None)"
    by (simp add: d_def NameCache_Insert_def dbInsert_def ref Let_def split: prod.split)
  have "find (\<lambda>row. mdCanonicalName row = inn) (filter (\<lambda>row. \<not> conflicts lid inn ?v row) (ndMetadata db)) = None"
    by (auto simp: find_None_iff conflicts_def)
  then have "find (\<lambda>row. mdCanonicalName row = inn) (ndMetadata d) = Some (new_row db lid sid' inn (imEtag md))"
    by (simp add: t(3) find_app new_row_def)
  then have names: "dbAddNames inn ?ns d = (?d2, None)" by (simp add: dbAddNames_def new_row_def)
  then have rec: "record_metadata env sid0 sid' md db = (?d2, sid', None)"
    using ins by (simp add: record_metadata_def host inn Let_def)
  have "db_inv d" using tables.insert_keeps [OF inv] by (simp add: d_def NameCache_Insert_def)
  then have "db_inv ?d2" by (rule tables.named_keeps [OF names])
  then have "dbQueryOnSourceID sid ?d2 = Inr (inn, kept_qualities [] ?qs)"
    by (rule found_in [OF inv _ new _ loc eq, where lid = lid and etag = "imEtag md" and keptq = keptq])
      (use apart t loc add_names_names [where i = "ndNextMetadata db" and ns = ?ns and d = d] in \<open>auto simp: add_names_other\<close>)
  with rec show ?thesis by blast
qed

section \<open>Databases of running servers\<close>

text \<open>What a groomed database becomes: insertions of builds, and lookups that record what they fetch.\<close>

inductive cache_reaches :: "name_db \<Rightarrow> bool" where
  groomed: "cache_reaches (fst (GroomDatabase fp env schema))"
| inserted: "cache_reaches db \<Longrightarrow> cache_reaches (fst (NameCache_Insert env sid inn etag qs db))"
| got: "cache_reaches db \<Longrightarrow> cache_reaches (fst (NameCache_GetArtifact env sid db))"
| sourced: "cache_reaches db \<Longrightarrow> cache_reaches (fst (NameCache_GetSourceID env inn db))"
| warmed: "cache_reaches db \<Longrightarrow> cache_reaches (fst (NameCache_Warmup env r db))"
| regroomed: "cache_reaches db \<Longrightarrow> cache_reaches (fst (GroomDatabase fp env db))"

lemma GroomDatabase_inv: "db_inv db \<Longrightarrow> db_inv (fst (GroomDatabase fp env db))"
  using tables.warm_all_keeps [OF db_inv_schema] by (simp add: GroomDatabase_def)

lemma cache_reaches_inv: "cache_reaches db \<Longrightarrow> db_inv db"
proof (induction rule: cache_reaches.induct)
  case groomed
  show ?case using GroomDatabase_inv [of schema] db_inv_schema [of None] by (simp add: schema_def)
next
  case (inserted db env sid inn etag qs)
  then show ?case by (simp add: NameCache_Insert_def dbInsert_inv)
qed (simp_all add: tables.GetArtifact_keeps tables.GetSourceID_keeps tables.Warmup_keeps GroomDatabase_inv)

lemma GetArtifact_found:
  "dbQueryOnSourceID sid db = Inr (n, qls) \<Longrightarrow> NameCache_GetArtifact env sid db = (db, Inr (docker_NewBuildArtifact n qls))"
  by (simp add: NameCache_GetArtifact_def getImageName_def)

lemma AfterHarvest_queries:
  "getImageNameAfterHarvest env sid db = (db', Inr r) \<Longrightarrow> dbQueryOnSourceID sid db' = Inr r"
  by (auto simp: getImageNameAfterHarvest_def split: prod.splits option.splits)

lemma GetArtifact_queries:
  assumes "NameCache_GetArtifact env sid db = (db', Inr a)"
  shows "dbQueryOnSourceID sid db' = Inr (baName a, baQualities a)"
  using assms AfterHarvest_queries [of env sid db]
  by (auto simp: NameCache_GetArtifact_def getImageName_def docker_NewBuildArtifact_def split: prod.splits sum.splits if_splits)

text \<open>An image that is not known yet is found by its tag, and recorded.\<close>

lemma fetched_artifact:
  assumes inv: "db_inv db" and tag: "dbQueryOnName (versionTag (neHost env) sid []) db = None"
    and answer: "neGetImageMetadata env (versionTag (neHost env) sid []) [] = Metadata md"
    and labels: "SourceIDFromLabels (imLabels md) = (sid', None)" "SourceID_Equal sid sid'"
    and new: "inn \<notin> mdCanonicalName ` set (ndMetadata db)" and ref: "neRefName env inn = Some repo"
    and host: "imRegistry md = neHost env" and inn: "inn = neHost env @ ''/'' @ imCanonicalName md"
    and apart: "\<forall>(n, row, sl) \<in> set (at_location sid db). semverEqual (mdVersion row) (Version_String (sidVersion sid)) = Some False"
    and loc: "sidLocation sid' = sidLocation sid"
    and eq: "semverEqual (Version_Format (sidVersion sid') Complete) (Version_String (sidVersion sid)) = Some True"
  shows "\<exists>d. NameCache_GetArtifact env sid db = (d, Inr (docker_NewBuildArtifact inn (kept_qualities [] (qualitiesFromLabels (imLabels md)))))"
proof -
  obtain d where d: "record_metadata env zeroSourceID sid' md db = (d, sid', None)"
      "dbQueryOnSourceID sid d = Inr (inn, kept_qualities [] (qualitiesFromLabels (imLabels md)))"
    using recorded_found [OF inv new ref host inn apart loc eq] by blast
  have "dbQueryCNameforSourceID sid db = Inl NoImageNameFound"
    using apart unfolding dbQueryCNameforSourceID_def Let_def by (subst if_P) (auto simp: filter_empty_conv dest!: set_takeWhileD)
  then have "dbQueryOnSourceID sid db = Inl NoImageNameFound" by (simp add: dbQueryOnSourceID_def)
  moreover have "NameCache_GetSourceID env (versionTag (neHost env) sid []) db = (d, sid', None)"
    by (simp add: NameCache_GetSourceID_def tag answer labels(1) d(1))
  then have "getImageNameAfterHarvest env sid db = (d, Inr (inn, kept_qualities [] (qualitiesFromLabels (imLabels md))))"
    by (simp add: getImageNameAfterHarvest_def warmupSingle_def labels(2) d(2))
  ultimately show ?thesis by (simp add: NameCache_GetArtifact_def getImageName_def NoImageNameFound_def)
qed

text \<open>The tag that a build of this version would carry is tried first; when that fails no harvest follows.\<close>

lemma missing_tag_no_harvest:
  "NameCache_GetSourceID env (versionTag (neHost env) sid []) db = (db', g, Some e) \<Longrightarrow>
     getImageNameAfterHarvest env sid db = (db', dbQueryOnSourceID sid db')"
  by (simp add: getImageNameAfterHarvest_def warmupSingle_def)

text \<open>A name that is known keeps its version, and its qualities only grow.\<close>

lemma reinsert_keeps_version:
  assumes "db_inv db" and "inn \<in> mdCanonicalName ` set (ndMetadata db)"
  shows "ndMetadata (fst (NameCache_Insert env sid inn etag qs db)) = ndMetadata db"
proof (cases "neRefName env inn")
  case (Some repo)
  obtain db3 lid where s: "insert_stage repo sid db = (db3, lid)" by fastforce
  obtain row where "find (\<lambda>row. mdCanonicalName row = inn) (ndMetadata db) = Some row"
    using assms(2) by (cases "find (\<lambda>row. mdCanonicalName row = inn) (ndMetadata db)") (auto simp: find_None_iff)
  then show ?thesis
    using insert_stage_facts(4) [OF assms(1) s]
    by (simp add: NameCache_Insert_def dbInsert_staged Some s ensure_metadata_def dbAddNamesForID_def)
qed (simp add: NameCache_Insert_def dbInsert_def)

section \<open>Properties of the image-name database\<close>

text \<open>C23: whatever a server does with its database of names, the tables satisfy their constraints:
  keys identify rows and are below the next key, no repository, location, name or quality is there
  twice, no two images share a canonical name or a version at a location, every image is at a
  location that exists.\<close>

theorem name_tables_invariant: "cache_reaches db \<Longrightarrow> db_inv db"
  by (rule cache_reaches_inv)

definition plain_registry :: name_cache_env where
  "plain_registry = \<lparr>neHost = ''reg'', neForeignKeys = True, neRefName = Some, neWithTag = (\<lambda>r t. Some (r @ '':'' @ t)),
     neDigested = (\<lambda>_. False), neGetImageMetadata = (\<lambda>_ _. Failed ErrNoRows), neAllTags = (\<lambda>_. Inr [])\<rparr>"

definition built_sid :: SourceID where
  "built_sid = \<lparr>sidLocation = \<lparr>slRepo = ''r'', slDir = []\<rparr>,
     sidVersion = \<lparr>vMajor = 1, vMinor = 2, vPatch = 3, vPre = [], vMeta = ''abc'', vDefaultFormat = Complete\<rparr>\<rparr>"

definition built_db :: name_db where
  "built_db = fst (NameCache_Insert plain_registry built_sid ''reg/r:1.2.3'' [] [\<lparr>qName = ''dirty'', qKind = ''advisory''\<rparr>]
     (fst (GroomDatabase ''f'' plain_registry schema)))"

lemma built_db_reaches: "cache_reaches built_db"
  unfolding built_db_def by (intro cache_reaches.intros)

lemma name_tables_invariant_witness: "db_inv built_db"
  by (rule name_tables_invariant [OF built_db_reaches])

text \<open>An image inserted under a name that is new, when what is known at the source's location are
  other versions (or this very version, which the insertion replaces), is the artifact that a lookup
  of the source ID returns, without asking the registry: under its name, with each of its qualities
  once, the empty advisory left out.\<close>

theorem insert_then_get:
  assumes "cache_reaches db" and "inn \<notin> mdCanonicalName ` set (ndMetadata db)" and "neRefName env inn = Some repo"
    and "vDefaultFormat (sidVersion sid) = Complete" and "versions_apart sid db"
  shows "\<exists>a. NameCache_GetArtifact env' sid (fst (NameCache_Insert env sid inn etag qs db))
       = (fst (NameCache_Insert env sid inn etag qs db), Inr a)
     \<and> baName a = inn \<and> baType a = ''docker'' \<and> distinct (baQualities a)
     \<and> set (baQualities a) = {q \<in> set qs. \<not> (qKind q = ''advisory'' \<and> qName q = [])}"
proof -
  have "semverEqual (Version_Format (sidVersion sid) Complete) (Version_String (sidVersion sid)) = Some True"
    using assms(4) by (simp add: semverEqual_def Version_String_def)
  note f = inserted_found [OF cache_reaches_inv [OF assms(1)] assms(2,3,5) this refl]
  show ?thesis by (simp add: GetArtifact_found [OF f] docker_NewBuildArtifact_def set_kept distinct_kept)
qed

lemma insert_then_get_witness:
  "\<exists>a. NameCache_GetArtifact plain_registry built_sid (fst (NameCache_Insert plain_registry built_sid ''reg/r:1.2.3'' []
        [\<lparr>qName = ''dirty'', qKind = ''advisory''\<rparr>] (fst (GroomDatabase ''f'' plain_registry schema))))
       = (fst (NameCache_Insert plain_registry built_sid ''reg/r:1.2.3'' [] [\<lparr>qName = ''dirty'', qKind = ''advisory''\<rparr>]
            (fst (GroomDatabase ''f'' plain_registry schema))), Inr a)
     \<and> baName a = ''reg/r:1.2.3'' \<and> baType a = ''docker'' \<and> distinct (baQualities a)
     \<and> set (baQualities a) = {q \<in> set [\<lparr>qName = ''dirty'', qKind = ''advisory''\<rparr>]. \<not> (qKind q = ''advisory'' \<and> qName q = [])}"
  by (rule insert_then_get [OF cache_reaches.groomed, where repo = "''reg/r:1.2.3''"])
    (simp_all add: GroomDatabase_def schema_def plain_registry_def built_sid_def versions_apart_def at_location_def joined_def)

text \<open>C24: a lookup never returns an image of another source: whether it was known, or fetched under its
  tag, or found by harvesting the repositories, the image's row is at the source's location with an
  equal version, and the qualities are those recorded for that name.\<close>

theorem artifact_sound:
  assumes "NameCache_GetArtifact env sid db = (db', Inr a)"
  shows "baQualities a = dbQueryQualsForCName (baName a) db'
    \<and> (\<exists>row \<in> set (ndMetadata db'). mdCanonicalName row = baName a
         \<and> (mdLocation row, sidLocation sid) \<in> set (ndLocations db')
         \<and> semverEqual (mdVersion row) (Version_String (sidVersion sid)) = Some True)"
  by (rule found_artifact [OF GetArtifact_queries [OF assms]])

lemma artifact_sound_witness:
  "baQualities (docker_NewBuildArtifact ''reg/r:1.2.3'' [\<lparr>qName = ''dirty'', qKind = ''advisory''\<rparr>])
      = dbQueryQualsForCName (baName (docker_NewBuildArtifact ''reg/r:1.2.3'' [\<lparr>qName = ''dirty'', qKind = ''advisory''\<rparr>])) built_db
    \<and> (\<exists>row \<in> set (ndMetadata built_db).
         mdCanonicalName row = baName (docker_NewBuildArtifact ''reg/r:1.2.3'' [\<lparr>qName = ''dirty'', qKind = ''advisory''\<rparr>])
         \<and> (mdLocation row, sidLocation built_sid) \<in> set (ndLocations built_db)
         \<and> semverEqual (mdVersion row) (Version_String (sidVersion built_sid)) = Some True)"
  by (rule artifact_sound [where env = plain_registry and db = built_db], rule GetArtifact_found) code_simp

end
