(* ===== verification/Builds.thy ===== *)
theory Builds
  imports Name_Cache Resolver
begin

text \<open>
  Building an image from the sources in a workspace: what is built and under which version
  (\<open>lib/source_context.go\<close>), how the user's intent changes it and which advisories apply
  (\<open>lib/build_config.go\<close>), and the stages of a build (\<open>lib/build_manager.go\<close>, \<open>buildpack.go\<close>,
  \<open>ext/docker/builder.go\<close>, \<open>dockerfile_buildpack.go\<close>, \<open>selector.go\<close>).

  A run of docker is a function of the commands before it (\<open>beDocker\<close>); files, symbolic links and
  the clock are arguments too, and so is the build pack for split containers. The metadata
  Dockerfile is the image it starts from and the labels it sets. Go's \<open>filepath.Rel\<close> is written
  out. The shells, user and machine that a build context carries unchanged, and log messages, are
  left out. Shown: when a strict build is accepted, which version is built, where an offset leads,
  that the registry's labels say what is recorded locally, and that a built image is deployable
  exactly where its advisories are allowed.
\<close>

section \<open>The sources\<close>

record Tag =
  tgName :: string
  tgRevision :: string

record SourceContext =
  scxRootDir :: string
  scxOffsetDir :: string
  scxBranch :: string
  scxRevision :: string
  scxFiles :: "string list"
  scxModifiedFiles :: "string list"
  scxNewFiles :: "string list"
  scxTags :: "Tag list"
  scxNearestTag :: Tag
  scxNearestTagName :: string
  scxNearestTagRevision :: string
  scxPrimaryRemoteURL :: string
  scxRemoteURL :: string
  scxRemoteURLs :: "string list"
  scxDirtyWorkingTree :: bool
  scxRevisionUnpushed :: bool
  scxDevBuild :: bool

text \<open>\<open>ZeroVersion\<close> is \<open>MustParse("0.0.0-unversioned")\<close>.\<close>

definition ZeroVersion :: Version where
  "ZeroVersion = fst (Semv_Parse ''0.0.0-unversioned'')"

fun nearestVersion :: "Tag list \<Rightarrow> Version" where
  "nearestVersion [] = ZeroVersion"
| "nearestVersion (t # ts) =
     (case parseSemverTagWithOptionalPrefix (tgName t) of (v, None) \<Rightarrow> v | (_, Some _) \<Rightarrow> nearestVersion ts)"

definition SourceContext_Version :: "SourceContext \<Rightarrow> SourceID" where
  "SourceContext_Version sc =
     (let v = nearestVersion (scxNearestTag sc # scxTags sc)
      in \<lparr>sidLocation = \<lparr>slRepo = scxRemoteURL sc, slDir = scxOffsetDir sc\<rparr>,
          sidVersion = v\<lparr>vMeta := scxRevision sc, vDefaultFormat := Complete\<rparr>\<rparr>)"

definition SourceContext_SourceLocation :: "SourceContext \<Rightarrow> SourceLocation" where
  "SourceContext_SourceLocation sc = \<lparr>slRepo = scxPrimaryRemoteURL sc, slDir = scxOffsetDir sc\<rparr>"

definition AbsDir :: "SourceContext \<Rightarrow> string" where
  "AbsDir sc = filepath_Join [scxRootDir sc, scxOffsetDir sc]"

definition SourceContext_TagVersion :: "SourceContext \<Rightarrow> string" where
  "SourceContext_TagVersion sc =
     (let v = sidVersion (SourceContext_Version sc)
      in if Version_Equals v ZeroVersion then [] else Version_Format v ''M.m.p'')"

section \<open>Paths\<close>

definition filepath_IsAbs :: "string \<Rightarrow> bool" where
  "filepath_IsAbs p = (p \<noteq> [] \<and> hd p = CHR ''/'')"

text \<open>
  \<open>filepath.Rel\<close>, by the elements of the two paths. (The roots of workspaces, from which the code
  asks for relative paths, are absolute.)
\<close>

definition path_elements :: "string \<Rightarrow> string list" where
  "path_elements p =
     (let body = (if filepath_IsAbs p then tl p else p) in if body = [] then [] else split_on CHR ''/'' body)"

fun rel_elements :: "string list \<Rightarrow> string list \<Rightarrow> string list option" where
  "rel_elements [] ts = Some ts"
| "rel_elements (b # bs) [] = Some (map (\<lambda>_. ''..'') (b # bs))"
| "rel_elements (b # bs) (t # ts) =
     (if b = t then rel_elements bs ts
      else if b = ''..'' then None
      else Some (map (\<lambda>_. ''..'') (b # bs) @ t # ts))"

definition filepath_Rel :: "string \<Rightarrow> string \<Rightarrow> goerror + string" where
  "filepath_Rel basepath targpath =
     (let base = filepath_Clean basepath;
          targ = filepath_Clean targpath;
          err = Inl (PlainError ''*errors.errorString'' ''Rel: can't make relative'')
      in if targ = base then Inr ''.''
         else (let base' = (if base = ''.'' then [] else base)
               in if filepath_IsAbs base' \<noteq> filepath_IsAbs targ then err
                  else case rel_elements (path_elements base') (path_elements targ) of
                      None \<Rightarrow> err
                    | Some es \<Rightarrow> Inr (join_with ''/'' es)))"

text \<open>\<open>NormalizedOffset\<close>; \<open>eval\<close> is \<open>filepath.EvalSymlinks\<close>.\<close>

fun physical_workdir :: "(string \<Rightarrow> string option) \<Rightarrow> string \<Rightarrow> string \<Rightarrow> string list \<Rightarrow> string list \<Rightarrow> string" where
  "physical_workdir eval rootdir workdir seen [] = workdir"
| "physical_workdir eval rootdir workdir seen (p # rest) =
     (case eval (CHR ''/'' # filepath_Join (seen @ [p])) of
        None \<Rightarrow> workdir
      | Some prefix \<Rightarrow>
          (case drop_prefix rootdir prefix of
             Some mid \<Rightarrow> filepath_Join ([rootdir, mid] @ rest)
           | None \<Rightarrow> physical_workdir eval rootdir workdir (seen @ [p]) rest))"

definition NormalizedOffset :: "(string \<Rightarrow> string option) \<Rightarrow> string \<Rightarrow> string \<Rightarrow> goerror + string" where
  "NormalizedOffset eval rootdir workdir =
     (case filepath_Rel rootdir (physical_workdir eval rootdir workdir [] (split_on CHR ''/'' workdir)) of
        Inl err \<Rightarrow> Inl err
      | Inr relDir \<Rightarrow>
          (case filepath_Rel rootdir (filepath_Join [rootdir, relDir]) of
             Inl err \<Rightarrow> Inl err
           | Inr relDir \<Rightarrow> Inr (if relDir = ''.'' then [] else relDir)))"

section \<open>The build configuration\<close>

record BuildContext =
  bxSource :: SourceContext
  bxAdvisories :: "string list"

record BuildConfig =
  bgRepo :: string
  bgOffset :: string
  bgTag :: string
  bgRevision :: string
  bgStrict :: bool
  bgForceClone :: bool
  bgDev :: bool
  bgContext :: BuildContext

definition UnknownRepo :: string where "UnknownRepo = ''source workspace lacked repo''"
definition NoRepoAdv :: string where "NoRepoAdv = ''no repository''"
definition NotRequestedRevision :: string where "NotRequestedRevision = ''requested revision not built''"
definition Unversioned :: string where "Unversioned = ''no versioned tag''"
definition TagNotHead :: string where "TagNotHead = ''tag not on built revision''"
definition EphemeralTag :: string where "EphemeralTag = ''ephemeral tag''"
definition UnpushedRev :: string where "UnpushedRev = ''unpushed revision''"
definition DirtyWS :: string where "DirtyWS = ''dirty workspace''"
definition DeveloperBuild :: string where "DeveloperBuild = ''developer build''"

lemmas advisory_names = UnknownRepo_def NoRepoAdv_def NotRequestedRevision_def Unversioned_def TagNotHead_def
  EphemeralTag_def UnpushedRev_def DirtyWS_def DeveloperBuild_def

definition chooseRemoteURL :: "BuildConfig \<Rightarrow> string" where
  "chooseRemoteURL c = (if bgRepo c = [] then scxPrimaryRemoteURL (bxSource (bgContext c)) else bgRepo c)"

definition chooseTag :: "BuildConfig \<Rightarrow> string" where
  "chooseTag c = (if bgTag c = [] then scxNearestTagName (bxSource (bgContext c)) else bgTag c)"

definition chooseOffset :: "BuildConfig \<Rightarrow> string" where
  "chooseOffset c =
     (if bgOffset c = [] then scxOffsetDir (bxSource (bgContext c))
      else let clean = filepath_Clean (bgOffset c) in if clean = ''.'' then [] else clean)"

definition BuildConfig_Resolve :: "BuildConfig \<Rightarrow> BuildConfig" where
  "BuildConfig_Resolve c = c\<lparr>bgTag := chooseTag c\<rparr>"

definition BuildConfig_Validate :: "BuildConfig \<Rightarrow> goerror option" where
  "BuildConfig_Validate c =
     (case parseSemverTagWithOptionalPrefix (bgTag c) of
        (_, None) \<Rightarrow> None
      | (_, Some _) \<Rightarrow> Some (PlainError ''*errors.errorString'' (''semver git tag required: invalid tag: '' @ bgTag c)))"

definition GuardStrict :: "BuildConfig \<Rightarrow> BuildContext \<Rightarrow> goerror option" where
  "GuardStrict c bc =
     (if \<not> bgStrict c then None
      else let as = bxAdvisories bc
           in if length as > 0
              then Some (PlainError ''*errors.errorString'' (''Strict built encountered advisories:'' @ [CHR 0x0A] @ ''  '' @ join_with (''  '' @ [CHR 0x0A]) as))
              else None)"

definition Advisories :: "BuildConfig \<Rightarrow> SourceContext \<Rightarrow> string list" where
  "Advisories c s =
     (let knowsRepo = (\<exists>r \<in> set (scxRemoteURLs s). scxRemoteURL s = r);
          hasTag = (\<exists>t \<in> set (scxTags s). tgName t = bgTag c)
      in (if \<not> knowsRepo then [UnknownRepo] else [])
       @ (if scxRemoteURL s = [] then [NoRepoAdv] else [])
       @ (if bgRevision c \<noteq> [] \<and> bgRevision c \<noteq> scxRevision s then [NotRequestedRevision] else [])
       @ (if Version_Format (sidVersion (SourceContext_Version (bxSource (bgContext c)))) ''M.m.p'' = ''0.0.0'' then [Unversioned] else [])
       @ (if bgTag c \<noteq> []
          then (if \<not> hasTag then [EphemeralTag] else if scxNearestTagRevision s \<noteq> scxRevision s then [TagNotHead] else [])
          else [])
       @ (if scxDirtyWorkingTree s then [DirtyWS] else [])
       @ (if scxRevisionUnpushed s then [UnpushedRev] else [])
       @ (if bgDev c then [DeveloperBuild] else []))"

definition NewContext :: "BuildConfig \<Rightarrow> BuildContext" where
  "NewContext c =
     (let sc = bxSource (bgContext c);
          tag = chooseTag c;
          source = sc\<lparr>scxOffsetDir := chooseOffset c, scxRemoteURL := chooseRemoteURL c, scxNearestTagName := tag,
            scxNearestTag := \<lparr>tgName = tag, tgRevision = scxNearestTagRevision sc\<rparr>, scxDevBuild := bgDev c\<rparr>
      in \<lparr>bxSource = source, bxAdvisories = Advisories c source\<rparr>)"

text \<open>The verb for quoted strings, on text without quotes, backslashes and control characters.\<close>

definition quoted :: "string \<Rightarrow> string" where
  "quoted s = CHR 0x22 # s @ [CHR 0x22]"

definition OffsetFromWorkdir :: "string \<Rightarrow> BuildConfig \<Rightarrow> goerror + BuildConfig" where
  "OffsetFromWorkdir offset0 cfg =
     (if bgOffset cfg \<noteq> [] then Inl (PlainError ''*errors.fundamental'' ''Cannot use both --offset and path argument'')
      else (let sc = bxSource (bgContext cfg);
                workAbs = filepath_Join [scxRootDir sc, scxOffsetDir sc];
                offset1 = (if \<not> filepath_IsAbs offset0 then filepath_Join [workAbs, offset0] else offset0)
            in case filepath_Rel (scxRootDir sc) offset1 of
                Inl err \<Rightarrow> Inl (WithCause ''offset'' err)
              | Inr offset \<Rightarrow>
                  if take 2 offset = ''..''
                  then Inl (PlainError ''*errors.fundamental'' (''Offset '' @ quoted offset @ '' outside of project root '' @ quoted (scxRootDir sc)))
                  else Inr (cfg\<lparr>bgOffset := (if offset = ''.'' then [] else offset)\<rparr>)))"

section \<open>Products\<close>

record BuildProduct =
  bpSource :: SourceID
  bpKind :: string
  bpID :: string
  bpAdvisories :: "string list"
  bpVersionName :: string
  bpRevisionName :: string

definition GuardRegister :: "BuildProduct list \<Rightarrow> goerror option" where
  "GuardRegister ps =
     (let blockers = concat (map (\<lambda>p. concat (map (\<lambda>a.
            if a \<in> {DirtyWS, UnpushedRev, NoRepoAdv, NotRequestedRevision}
            then [SourceID_String (bpSource p) @ '': '' @ a] else []) (bpAdvisories p))) ps)
      in if length blockers > 0
         then Some (PlainError ''*errors.errorString'' (''build may not be deployable in all clusters due to advisories:'' @ [CHR 0x0A] @ ''  '' @ join_with (CHR 0x0A # ''  '') blockers))
         else None)"

definition contextualized :: "BuildContext \<Rightarrow> BuildProduct \<Rightarrow> BuildProduct" where
  "contextualized c p =
     (let p' = (if slRepo (sidLocation (bpSource p)) = [] then p\<lparr>bpSource := SourceContext_Version (bxSource c)\<rparr> else p)
      in p'\<lparr>bpAdvisories := bpAdvisories p' @ bxAdvisories c\<rparr>)"

definition Contextualize :: "BuildContext \<Rightarrow> BuildProduct list \<Rightarrow> BuildProduct list" where
  "Contextualize c ps = map (contextualized c) ps"

section \<open>Docker\<close>

text \<open>A command's arguments, and the metadata Dockerfile where one is its input.\<close>

record docker_cmd =
  dkArgs :: "string list"
  dkStdin :: "(string \<times> (string, string) gomap) option"

record build_world =
  bwRan :: "docker_cmd list"
  bwNames :: name_db

type_synonym building = "build_world \<Rightarrow> build_world \<times> (goerror + BuildProduct list)"

record build_env =
  beHost :: string
  beDocker :: "docker_cmd list \<Rightarrow> docker_cmd \<Rightarrow> goerror + string"
  beTime :: "docker_cmd list \<Rightarrow> string"
  beNames :: name_cache_env
  beFile :: "string \<Rightarrow> (goerror + string) option"
  beSplit :: "BuildContext \<Rightarrow> building option"

definition docker :: "build_env \<Rightarrow> docker_cmd \<Rightarrow> build_world \<Rightarrow> build_world \<times> (goerror + string)" where
  "docker env cmd w = (w\<lparr>bwRan := bwRan w @ [cmd]\<rparr>, beDocker env (bwRan w) cmd)"

definition metadata_labels :: "BuildProduct \<Rightarrow> (string, string) gomap" where
  "metadata_labels p =
     (if bpAdvisories p = [] then Labels (bpSource p)
      else gset ''com.opentable.sous.advisories'' (join_with '','' (bpAdvisories p)) (Labels (bpSource p)))"

definition applyMetadata :: "build_env \<Rightarrow> BuildProduct \<Rightarrow> build_world \<Rightarrow> build_world \<times> BuildProduct \<times> goerror option" where
  "applyMetadata env p w =
     (let p' = p\<lparr>bpVersionName := versionTag (beHost env) (bpSource p) (bpKind p),
                 bpRevisionName := revisionTag (beHost env) (bpSource p) (bpKind p) (beTime env (bwRan w))\<rparr>;
          cmd = \<lparr>dkArgs = [''build'', ''-t'', bpVersionName p', ''-t'', bpRevisionName p', ''-''],
                 dkStdin = Some (bpID p', metadata_labels p')\<rparr>
      in case docker env cmd w of
          (w', Inl err) \<Rightarrow> (w', p', Some err)
        | (w', Inr _) \<Rightarrow> (w', p', None))"

text \<open>\<open>ApplyMetadata\<close> changes the products up to the one that fails.\<close>

fun ApplyMetadata :: "build_env \<Rightarrow> BuildProduct list \<Rightarrow> build_world \<Rightarrow> build_world \<times> BuildProduct list \<times> goerror option" where
  "ApplyMetadata env [] w = (w, [], None)"
| "ApplyMetadata env (p # ps) w =
     (case applyMetadata env p w of
        (w', p', Some err) \<Rightarrow> (w', p' # ps, Some err)
      | (w', p', None) \<Rightarrow> (case ApplyMetadata env ps w' of (w'', ps', e) \<Rightarrow> (w'', p' # ps', e)))"

definition pushToRegistry :: "build_env \<Rightarrow> BuildProduct \<Rightarrow> build_world \<Rightarrow> build_world \<times> goerror option" where
  "pushToRegistry env p w =
     (case docker env \<lparr>dkArgs = [''push'', bpVersionName p], dkStdin = None\<rparr> w of
        (w1, verr) \<Rightarrow>
          (case docker env \<lparr>dkArgs = [''push'', bpRevisionName p], dkStdin = None\<rparr> w1 of
             (w2, rerr) \<Rightarrow>
               (w2, case verr of
                      Inr _ \<Rightarrow> (case rerr of Inl e \<Rightarrow> Some e | Inr _ \<Rightarrow> None)
                    | Inl e \<Rightarrow> Some e)))"

definition advisory :: "string \<Rightarrow> Quality" where "advisory a = \<lparr>qName = a, qKind = ''advisory''\<rparr>"

definition recordName :: "build_env \<Rightarrow> BuildProduct \<Rightarrow> build_world \<Rightarrow> build_world \<times> goerror option" where
  "recordName env p w =
     (case NameCache_Insert (beNames env) (bpSource p) (bpVersionName p) [] (map advisory (bpAdvisories p)) (bwNames w) of
        (db, e) \<Rightarrow> (w\<lparr>bwNames := db\<rparr>, e))"

fun Builder_Register :: "build_env \<Rightarrow> BuildProduct list \<Rightarrow> build_world \<Rightarrow> build_world \<times> goerror option" where
  "Builder_Register env [] w = (w, None)"
| "Builder_Register env (p # ps) w =
     (case pushToRegistry env p w of
        (w1, Some err) \<Rightarrow> (w1, Some err)
      | (w1, None) \<Rightarrow>
          (case recordName env p w1 of
             (w2, Some err) \<Rightarrow> (w2, Some err)
           | (w2, None) \<Rightarrow> Builder_Register env ps w2))"

section \<open>Build packs\<close>

record detectData =
  ddHasAppVersionArg :: bool
  ddHasAppRevisionArg :: bool

definition is_word :: "char \<Rightarrow> bool" where
  "is_word c = (is_alpha c \<or> is_digit c \<or> c = CHR ''_'')"

text \<open>\<open>(?m)^ARG name\b\<close>: a line that begins so, the name ending there.\<close>

definition has_arg :: "string \<Rightarrow> string \<Rightarrow> bool" where
  "has_arg name df =
     (\<exists>l \<in> set (split_on CHR 0x0A df).
        case drop_prefix (''ARG '' @ name) l of None \<Rightarrow> False | Some rest \<Rightarrow> rest = [] \<or> \<not> is_word (hd rest))"

definition Dockerfile_Detect :: "build_env \<Rightarrow> BuildContext \<Rightarrow> goerror + detectData" where
  "Dockerfile_Detect env c =
     (let dfPath = filepath_Join [scxOffsetDir (bxSource c), ''Dockerfile'']
      in case beFile env dfPath of
          None \<Rightarrow> Inl (PlainError ''*errors.errorString'' (dfPath @ '' does not exist''))
        | Some (Inl err) \<Rightarrow> Inl err
        | Some (Inr df) \<Rightarrow> Inr \<lparr>ddHasAppVersionArg = has_arg ''APP_VERSION'' df, ddHasAppRevisionArg = has_arg ''APP_REVISION'' df\<rparr>)"

text \<open>The first match of \<open>Successfully built (\w+)\<close>.\<close>

fun built_id :: "string \<Rightarrow> string option" where
  "built_id [] = None"
| "built_id (c # cs) =
     (case drop_prefix ''Successfully built '' (c # cs) of
        Some rest \<Rightarrow> if takeWhile is_word rest \<noteq> [] then Some (takeWhile is_word rest) else built_id cs
      | None \<Rightarrow> built_id cs)"

definition source_product :: "string \<Rightarrow> BuildProduct" where
  "source_product i = \<lparr>bpSource = zeroSourceID, bpKind = [], bpID = i, bpAdvisories = [], bpVersionName = [], bpRevisionName = []\<rparr>"

definition Dockerfile_Build :: "build_env \<Rightarrow> detectData \<Rightarrow> BuildContext \<Rightarrow> building" where
  "Dockerfile_Build env r c w =
     (let offset = (if scxOffsetDir (bxSource c) = [] then ''.'' else scxOffsetDir (bxSource c));
          sid = SourceContext_Version (bxSource c);
          versionArg = (if ddHasAppVersionArg r then [''--build-arg'', ''APP_VERSION='' @ Version_String (sidVersion sid\<lparr>vMeta := []\<rparr>)] else []);
          revisionArg = (if ddHasAppRevisionArg r then [''--build-arg'', ''APP_REVISION='' @ SourceID_RevID sid] else [])
      in case docker env \<lparr>dkArgs = [''build'', ''--pull''] @ versionArg @ revisionArg @ [offset], dkStdin = None\<rparr> w of
          (w', Inl err) \<Rightarrow> (w', Inl err)
        | (w', Inr output) \<Rightarrow>
            (case built_id output of
               None \<Rightarrow> (w', Inl (PlainError ''*errors.errorString'' (''Couldn't find container id in: '' @ output)))
             | Some i \<Rightarrow> (w', Inr [source_product i])))"

definition SelectBuildpack :: "build_env \<Rightarrow> BuildContext \<Rightarrow> goerror + building" where
  "SelectBuildpack env ctx =
     (case beSplit env ctx of
        Some build \<Rightarrow> Inr build
      | None \<Rightarrow>
          (case Dockerfile_Detect env ctx of
             Inr r \<Rightarrow> Inr (Dockerfile_Build env r ctx)
           | Inl _ \<Rightarrow> Inl (PlainError ''*errors.errorString'' ''no Dockerfile present'')))"

section \<open>A build\<close>

text \<open>\<open>RegisterAndWarnAdvisories\<close>; the second component is the warning that is logged.\<close>

definition RegisterAndWarnAdvisories ::
    "build_env \<Rightarrow> BuildProduct list \<Rightarrow> build_world \<Rightarrow> build_world \<times> goerror option \<times> goerror option" where
  "RegisterAndWarnAdvisories env br w =
     (let warning = GuardRegister br in case Builder_Register env br w of (w', e) \<Rightarrow> (w', warning, e))"

definition BuildManager_Build ::
    "build_env \<Rightarrow> BuildConfig \<Rightarrow> build_world \<Rightarrow> build_world \<times> BuildProduct list option \<times> goerror option" where
  "BuildManager_Build env cfg w =
     (let failed = (\<lambda>w br err. (w, br, Some (WithCause ''unable to build'' err)))
      in case BuildConfig_Validate cfg of
          Some err \<Rightarrow> failed w None err
        | None \<Rightarrow>
            (let bc = NewContext cfg
             in case GuardStrict cfg bc of
                 Some err \<Rightarrow> failed w None err
               | None \<Rightarrow>
                   (case SelectBuildpack env bc of
                      Inl err \<Rightarrow> failed w None err
                    | Inr build \<Rightarrow>
                        (case build w of
                           (w1, Inl err) \<Rightarrow> failed w1 None err
                         | (w1, Inr br) \<Rightarrow>
                             (case ApplyMetadata env (Contextualize bc br) w1 of
                                (w2, br', Some err) \<Rightarrow> failed w2 (Some br') err
                              | (w2, br', None) \<Rightarrow>
                                  (case RegisterAndWarnAdvisories env br' w2 of
                                     (w3, _, Some err) \<Rightarrow> failed w3 (Some br') err
                                   | (w3, _, None) \<Rightarrow> (w3, Some br', None)))))))"

section \<open>Facts about paths\<close>

definition normal :: "string \<Rightarrow> bool" where
  "normal e = (e \<noteq> [] \<and> e \<noteq> ''.'' \<and> e \<noteq> ''..'' \<and> CHR ''/'' \<notin> set e)"

lemma clean_elements_normal:
  "rooted \<Longrightarrow> list_all normal out \<Longrightarrow> list_all (\<lambda>e. CHR ''/'' \<notin> set e) es \<Longrightarrow> list_all normal (clean_elements rooted out es)"
proof (induction rooted out es rule: clean_elements.induct)
  case (1 rooted out)
  then show ?case by (simp add: list_all_iff)
next
  case (2 rooted out e es)
  consider "e = [] \<or> e = ''.''" | "\<not> (e = [] \<or> e = ''.'')" "e = ''..''" | "normal e" "\<not> (e = [] \<or> e = ''.'')" "e \<noteq> ''..''"
    using 2(8) by (auto simp: normal_def)
  then show ?case
  proof cases
    case 1
    then show ?thesis using 2(1,6,7,8) by simp
  next
    case dots: 2
    show ?thesis
    proof (cases out)
      case Nil
      then show ?thesis using 2(2) [OF dots Nil] 2(6,8) dots Nil by simp
    next
      case (Cons t out')
      have "t \<noteq> ''..''" using 2(7) Cons by (auto simp: normal_def)
      then show ?thesis using 2(4) [OF dots Cons] 2(6,7,8) dots Cons by simp
    qed
  next
    case 3
    then show ?thesis using 2(5) 2(6,7,8) by simp
  qed
qed

lemma clean_elements_id: "list_all normal es \<Longrightarrow> clean_elements rooted out es = rev out @ es"
  by (induction es arbitrary: out) (simp_all add: normal_def)

definition rooted_path :: "string list \<Rightarrow> string" where "rooted_path es = CHR ''/'' # join_with ''/'' es"

lemma split_on_app: "split_on d (s @ d # t) = split_on d s @ split_on d t"
proof (induction s)
  case (Cons c s)
  obtain h r where "split_on d s = h # r" by (cases "split_on d s") simp_all
  then show ?case using Cons by simp
qed simp

lemma split_join: "list_all (\<lambda>e. d \<notin> set e) es \<Longrightarrow> es \<noteq> [] \<Longrightarrow> split_on d (join_with [d] es) = es"
proof (induction es)
  case (Cons e es)
  then show ?case by (cases es) (simp_all add: split_on_append)
qed simp

lemma normal_no_slash: "list_all normal es \<Longrightarrow> list_all (\<lambda>e. CHR ''/'' \<notin> set e) es"
  by (auto simp: list_all_iff normal_def)

lemma join_normal_Nil: "list_all normal es \<Longrightarrow> join_with d es = [] \<longleftrightarrow> es = []"
  by (induction d es rule: join_with.induct) (simp_all add: normal_def)

lemma path_elements_rooted: "list_all normal es \<Longrightarrow> path_elements (rooted_path es) = es"
  using split_join [OF normal_no_slash, of es]
  by (cases "es = []") (simp_all add: path_elements_def rooted_path_def filepath_IsAbs_def join_normal_Nil)

lemma IsAbs_rooted [simp]: "filepath_IsAbs (rooted_path es)"
  by (simp add: filepath_IsAbs_def rooted_path_def)

lemma Clean_rooted:
  assumes "filepath_IsAbs p"
  shows "\<exists>es. list_all normal es \<and> filepath_Clean p = rooted_path es"
proof (intro exI conjI)
  show "list_all normal (clean_elements True [] (split_on CHR ''/'' p))"
    by (rule clean_elements_normal) (auto simp: list_all_iff dest: split_on_no_sep)
  show "filepath_Clean p = rooted_path (clean_elements True [] (split_on CHR ''/'' p))"
    using assms by (simp add: filepath_IsAbs_def filepath_Clean_def rooted_path_def)
qed

definition elements :: "string \<Rightarrow> string list" where
  "elements p = filter (\<lambda>e. e \<noteq> []) (split_on CHR ''/'' p)"

lemma elements_app: "elements (s @ CHR ''/'' # t) = elements s @ elements t"
  by (simp add: elements_def split_on_app)

lemma elements_join: "list_all normal es \<Longrightarrow> elements (join_with ''/'' es) = es"
  using split_join [OF normal_no_slash, of es]
  by (cases "es = []") (simp_all add: elements_def filter_id_conv list_all_iff normal_def)

lemma elements_rooted: "list_all normal es \<Longrightarrow> elements (rooted_path es) = es"
  using elements_app [of "[]" "join_with ''/'' es"] by (simp add: rooted_path_def elements_join) (simp add: elements_def)

lemma clean_filter: "clean_elements rooted out (filter (\<lambda>e. e \<noteq> []) es) = clean_elements rooted out es"
proof (induction rooted out es rule: clean_elements.induct)
  case (2 rooted out e es)
  then show ?case by (cases out) auto
qed simp

lemma Clean_elements: "filepath_IsAbs p \<Longrightarrow> list_all normal (elements p) \<Longrightarrow> filepath_Clean p = rooted_path (elements p)"
  using clean_filter [of True "[]" "split_on CHR ''/'' p"] clean_elements_id [of "elements p" True "[]"]
  by (simp add: filepath_Clean_def rooted_path_def filepath_IsAbs_def elements_def)

lemma Clean_normal: "list_all normal es \<Longrightarrow> filepath_Clean (rooted_path es) = rooted_path es"
  using Clean_elements [of "rooted_path es"] by (simp add: elements_rooted)

text \<open>What is below a clean root, joined to it.\<close>

lemma Join_below:
  assumes "list_all normal rs" and "list_all normal ts"
  shows "filepath_Join [rooted_path rs, join_with ''/'' ts] = rooted_path (rs @ ts)"
proof -
  let ?p = "rooted_path rs @ CHR ''/'' # join_with ''/'' ts"
  have "elements ?p = rs @ ts" using assms by (simp add: elements_app elements_rooted elements_join)
  moreover have "filepath_IsAbs ?p" by (simp add: rooted_path_def filepath_IsAbs_def)
  ultimately have "filepath_Clean ?p = rooted_path (rs @ ts)" using Clean_elements [of ?p] assms by simp
  then show ?thesis by (simp add: rooted_path_def)
qed

lemma rel_elements_below:
  assumes "rel_elements bs ts = Some es" and "take 2 (join_with ''/'' es) \<noteq> ''..''"
  shows "ts = bs @ es"
  using assms
proof (induction bs ts rule: rel_elements.induct)
  case (2 b bs)
  then have "take 2 (join_with ''/'' es) = ''..''" by (cases bs) auto
  then show ?case using 2 by simp
next
  case (3 b bs t ts)
  show ?case
  proof (cases "b = t")
    case False
    then have "es = ''..'' # (map (\<lambda>_. ''..'') bs @ t # ts)" using 3 by (simp split: if_splits)
    then have "take 2 (join_with ''/'' es) = ''..''" by (cases "map (\<lambda>_. ''..'') bs @ t # ts") simp_all
    then show ?thesis using 3 by simp
  qed (use 3 in simp)
qed simp

lemma rel_elements_prefix: "rel_elements rs (rs @ es) = Some es"
  by (induction rs) simp_all

lemma rooted_inj: "list_all normal as \<Longrightarrow> list_all normal bs \<Longrightarrow> rooted_path as = rooted_path bs \<Longrightarrow> as = bs"
  by (metis elements_rooted)

lemma Rel_below:
  assumes "list_all normal rs" and "filepath_IsAbs p" and "filepath_Rel (rooted_path rs) p = Inr r" and "take 2 r \<noteq> ''..''"
  shows "filepath_Join [rooted_path rs, if r = ''.'' then [] else r] = filepath_Clean p"
proof -
  obtain ts where ts: "list_all normal ts" "filepath_Clean p = rooted_path ts" using Clean_rooted [OF assms(2)] by blast
  have dot: "rooted_path rs \<noteq> ''.''" by (simp add: rooted_path_def)
  show ?thesis
  proof (cases "ts = rs")
    case True
    then have "r = ''.''" using assms(3) by (simp add: filepath_Rel_def Clean_normal [OF assms(1)] ts(2))
    then show ?thesis using Join_below [OF assms(1), of "[]"] True ts(2) by simp
  next
    case False
    then have ne: "rooted_path ts \<noteq> rooted_path rs" using rooted_inj [OF ts(1) assms(1)] by blast
    have "(case rel_elements rs ts of None \<Rightarrow> Inl (PlainError ''*errors.errorString'' ''Rel: can't make relative'')
        | Some es \<Rightarrow> Inr (join_with ''/'' es)) = Inr r"
      using assms(3) ne dot
      by (simp add: filepath_Rel_def Let_def Clean_normal [OF assms(1)] ts(2) path_elements_rooted [OF ts(1)] path_elements_rooted [OF assms(1)])
    then obtain es where es: "rel_elements rs ts = Some es" "r = join_with ''/'' es" by (auto split: option.splits)
    then have "ts = rs @ es" using rel_elements_below assms(4) by blast
    moreover from this have n: "list_all normal es" using ts(1) by simp
    moreover have "r \<noteq> ''.''" using elements_join [OF n] n es(2) by (auto simp: elements_def normal_def)
    ultimately show ?thesis using Join_below [OF assms(1), of es] es(2) ts(2) by simp
  qed
qed

section \<open>Facts about builds\<close>

lemma Advisories_nonempty: "[] \<notin> set (Advisories c s)"
  by (simp add: Advisories_def Let_def advisory_names)

lemma Advisories_no_comma: "a \<in> set (Advisories c s) \<Longrightarrow> CHR '','' \<notin> set a"
  by (auto simp: Advisories_def Let_def advisory_names split: if_splits)

text \<open>What a workspace must be like for a strict build.\<close>

definition immaculate :: "BuildConfig \<Rightarrow> bool" where
  "immaculate c =
     (let s = bxSource (bgContext c)
      in chooseRemoteURL c \<noteq> [] \<and> chooseRemoteURL c \<in> set (scxRemoteURLs s)
       \<and> (bgRevision c = [] \<or> bgRevision c = scxRevision s)
       \<and> Version_Format (sidVersion (SourceContext_Version s)) ''M.m.p'' \<noteq> ''0.0.0''
       \<and> (bgTag c \<noteq> [] \<longrightarrow> (\<exists>t \<in> set (scxTags s). tgName t = bgTag c) \<and> scxNearestTagRevision s = scxRevision s)
       \<and> \<not> scxDirtyWorkingTree s \<and> \<not> scxRevisionUnpushed s \<and> \<not> bgDev c)"

lemma Advisories_Nil: "bxAdvisories (NewContext c) = [] \<longleftrightarrow> immaculate c"
  by (auto simp: NewContext_def Advisories_def immaculate_def Let_def)

lemma GuardStrict_None: "GuardStrict c (NewContext c) = None \<longleftrightarrow> \<not> bgStrict c \<or> immaculate c"
  by (simp add: GuardStrict_def Advisories_Nil)

lemma validated_tag: "BuildConfig_Validate c = None \<longleftrightarrow> (\<exists>v. parseSemverTagWithOptionalPrefix (bgTag c) = (v, None))"
  by (auto simp: BuildConfig_Validate_def split: prod.splits option.splits)

lemma parse_empty_tag: "snd (parseSemverTagWithOptionalPrefix []) \<noteq> None"
  by code_simp

lemma built_version:
  assumes "parseSemverTagWithOptionalPrefix (bgTag c) = (v, None)"
  shows "SourceContext_Version (bxSource (NewContext c))
    = \<lparr>sidLocation = \<lparr>slRepo = chooseRemoteURL c, slDir = chooseOffset c\<rparr>,
       sidVersion = v\<lparr>vMeta := scxRevision (bxSource (bgContext c)), vDefaultFormat := Complete\<rparr>\<rparr>"
proof -
  have "bgTag c \<noteq> []" using assms parse_empty_tag by auto
  then show ?thesis using assms by (simp add: SourceContext_Version_def NewContext_def chooseTag_def Let_def)
qed

lemma Dockerfile_Build_source:
  assumes "Dockerfile_Build env r c w = (w', Inr ps)"
  shows "\<exists>i cmd. ps = [source_product i] \<and> w' = w\<lparr>bwRan := bwRan w @ [cmd]\<rparr> \<and> hd (dkArgs cmd) = ''build'' \<and> dkStdin cmd = None"
  using assms by (auto simp: Dockerfile_Build_def docker_def Let_def split: sum.splits option.splits)

lemma contextualized_source:
  "contextualized bc (source_product i) = (source_product i)\<lparr>bpSource := SourceContext_Version (bxSource bc), bpAdvisories := bxAdvisories bc\<rparr>"
  by (simp add: contextualized_def source_product_def zeroSourceID_def)

lemma applied:
  assumes "ApplyMetadata env [p] w = (w', ps, None)"
  shows "\<exists>p'. ps = [p'] \<and> bpSource p' = bpSource p \<and> bpKind p' = bpKind p \<and> bpID p' = bpID p \<and> bpAdvisories p' = bpAdvisories p
    \<and> bpVersionName p' = versionTag (beHost env) (bpSource p) (bpKind p)
    \<and> w' = w\<lparr>bwRan := bwRan w @ [\<lparr>dkArgs = [''build'', ''-t'', bpVersionName p', ''-t'', bpRevisionName p', ''-''],
                                   dkStdin = Some (bpID p, metadata_labels p)\<rparr>]\<rparr>"
  using assms by (auto simp: applyMetadata_def docker_def metadata_labels_def Let_def split: sum.splits prod.splits option.splits)

lemma registered:
  assumes "Builder_Register env [p] w = (w', None)"
  shows "bwRan w' = bwRan w @ [\<lparr>dkArgs = [''push'', bpVersionName p], dkStdin = None\<rparr>, \<lparr>dkArgs = [''push'', bpRevisionName p], dkStdin = None\<rparr>]
    \<and> NameCache_Insert (beNames env) (bpSource p) (bpVersionName p) [] (map advisory (bpAdvisories p)) (bwNames w) = (bwNames w', None)"
  using assms by (auto simp: pushToRegistry_def recordName_def docker_def split: sum.splits prod.splits option.splits)

lemma built_stages:
  assumes "BuildManager_Build env cfg w = (w', Some ps, None)"
  obtains build w1 br w2 where "BuildConfig_Validate cfg = None" "GuardStrict cfg (NewContext cfg) = None"
    "SelectBuildpack env (NewContext cfg) = Inr build" "build w = (w1, Inr br)"
    "ApplyMetadata env (Contextualize (NewContext cfg) br) w1 = (w2, ps, None)" "Builder_Register env ps w2 = (w', None)"
  using assms
  by (auto simp: BuildManager_Build_def RegisterAndWarnAdvisories_def Let_def split: option.splits sum.splits prod.splits)

text \<open>The product of a build from a Dockerfile.\<close>

lemma dockerfile_product:
  assumes "BuildManager_Build env cfg w = (w', Some ps, None)" and "beSplit env (NewContext cfg) = None"
  obtains p v src where "ps = [p]" "parseSemverTagWithOptionalPrefix (bgTag cfg) = (v, None)"
    "bpSource p = \<lparr>sidLocation = \<lparr>slRepo = chooseRemoteURL cfg, slDir = chooseOffset cfg\<rparr>,
        sidVersion = v\<lparr>vMeta := scxRevision (bxSource (bgContext cfg)), vDefaultFormat := Complete\<rparr>\<rparr>"
    "bpAdvisories p = bxAdvisories (NewContext cfg)" "bpVersionName p = versionTag (beHost env) (bpSource p) []"
    "\<not> bgStrict cfg \<or> immaculate cfg" "hd (dkArgs src) = ''build'' \<and> dkStdin src = None"
    "bwRan w' = bwRan w @ [src,
        \<lparr>dkArgs = [''build'', ''-t'', bpVersionName p, ''-t'', bpRevisionName p, ''-''], dkStdin = Some (bpID p, metadata_labels p)\<rparr>,
        \<lparr>dkArgs = [''push'', bpVersionName p], dkStdin = None\<rparr>, \<lparr>dkArgs = [''push'', bpRevisionName p], dkStdin = None\<rparr>]"
    "NameCache_Insert (beNames env) (bpSource p) (bpVersionName p) [] (map advisory (bpAdvisories p)) (bwNames w) = (bwNames w', None)"
proof -
  obtain build w1 br w2 where b: "BuildConfig_Validate cfg = None" "GuardStrict cfg (NewContext cfg) = None"
      "SelectBuildpack env (NewContext cfg) = Inr build" "build w = (w1, Inr br)"
      "ApplyMetadata env (Contextualize (NewContext cfg) br) w1 = (w2, ps, None)" "Builder_Register env ps w2 = (w', None)"
    by (rule built_stages [OF assms(1)])
  obtain v where v: "parseSemverTagWithOptionalPrefix (bgTag cfg) = (v, None)" using b(1) validated_tag by blast
  obtain r where "build = Dockerfile_Build env r (NewContext cfg)"
    using b(3) assms(2) by (auto simp: SelectBuildpack_def split: sum.splits)
  then obtain i src where i: "br = [source_product i]" "w1 = w\<lparr>bwRan := bwRan w @ [src]\<rparr>" "hd (dkArgs src) = ''build'' \<and> dkStdin src = None"
    using Dockerfile_Build_source b(4) by metis
  let ?q = "contextualized (NewContext cfg) (source_product i)"
  have q: "bpKind ?q = []" "bpSource ?q = SourceContext_Version (bxSource (NewContext cfg))" "bpAdvisories ?q = bxAdvisories (NewContext cfg)"
    by (simp_all add: contextualized_source) (simp add: source_product_def)
  obtain p where p: "ps = [p]" "bpSource p = bpSource ?q" "bpKind p = bpKind ?q" "bpID p = bpID ?q" "bpAdvisories p = bpAdvisories ?q"
      "bpVersionName p = versionTag (beHost env) (bpSource ?q) (bpKind ?q)"
      "w2 = w1\<lparr>bwRan := bwRan w1 @ [\<lparr>dkArgs = [''build'', ''-t'', bpVersionName p, ''-t'', bpRevisionName p, ''-''],
                                   dkStdin = Some (bpID ?q, metadata_labels ?q)\<rparr>]\<rparr>"
    using applied [of env ?q w1 w2 ps] b(5) by (auto simp: Contextualize_def i(1))
  have l: "metadata_labels ?q = metadata_labels p" by (simp add: metadata_labels_def p)
  note r = registered [of env p w2 w'] b(6) p(1)
  show thesis
    by (rule that [of p v src]) (use r i p q l v b(2) GuardStrict_None built_version [OF v] in simp_all)
qed

text \<open>The registry as name resolution uses it, and what its guard decides by.\<close>

definition cache_registry :: "name_cache_env \<Rightarrow> name_db \<Rightarrow> get_artifact" where
  "cache_registry env db = (\<lambda>sid. case snd (NameCache_GetArtifact env sid db) of Inl e \<Rightarrow> Inl e | Inr a \<Rightarrow> Inr (Some a))"

definition allows :: "Deployment \<Rightarrow> string \<Rightarrow> bool" where
  "allows d a = (\<exists>c. dCluster d = Some c \<and> a \<in> set (clAllowedAdvisories c))"

lemma guard_allows:
  assumes "snd (NameCache_GetArtifact env (dSourceID d) db) = Inr art" and "set (baQualities art) = advisory ` as" and "[] \<notin> as"
    and "dcNumInstances (dDeployConfig d) \<noteq> 0"
  shows "guardImage (cache_registry env db) d = Ok (Some art) \<longleftrightarrow> (\<forall>a \<in> as. allows d a)"
    and "guardImage (cache_registry env db) d \<noteq> Ok (Some art) \<longrightarrow> (\<exists>e. guardImage (cache_registry env db) d = Err e)"
proof -
  have "check_advisories d (baQualities art) = None \<longleftrightarrow> (\<forall>a \<in> as. allows d a)"
    using assms(2,3) unfolding check_advisories_None by (auto simp: advisory_def allows_def)
  then show "guardImage (cache_registry env db) d = Ok (Some art) \<longleftrightarrow> (\<forall>a \<in> as. allows d a)"
    using assms(1,4) by (auto simp: guardImage_def cache_registry_def split: option.split)
  show "guardImage (cache_registry env db) d \<noteq> Ok (Some art) \<longrightarrow> (\<exists>e. guardImage (cache_registry env db) d = Err e)"
    using assms(1,4) by (simp add: guardImage_def cache_registry_def split: option.split)
qed

lemma kept_advisories: "[] \<notin> as \<Longrightarrow> {q \<in> advisory ` as. \<not> (qKind q = ''advisory'' \<and> qName q = [])} = advisory ` as"
  by (auto simp: advisory_def)

text \<open>The labels of a product give back its source and its advisories.\<close>

lemma other_labels:
  "k \<noteq> ''com.opentable.sous.advisories'' \<Longrightarrow> gget (metadata_labels p) k = gget (Labels (bpSource p)) k"
  by (simp add: metadata_labels_def gomap_simps)

lemma label_keys:
  "DockerRepoLabel \<noteq> ''com.opentable.sous.advisories''" "DockerVersionLabel \<noteq> ''com.opentable.sous.advisories''"
  "DockerRevisionLabel \<noteq> ''com.opentable.sous.advisories''" "DockerPathLabel \<noteq> ''com.opentable.sous.advisories''"
  by (simp_all add: DockerRepoLabel_def DockerVersionLabel_def DockerRevisionLabel_def DockerPathLabel_def)

lemma metadata_source: "SourceIDFromLabels (metadata_labels p) = SourceIDFromLabels (Labels (bpSource p))"
  by (simp only: SourceIDFromLabels_def label_or_empty_def ghas_def filter.simps other_labels label_keys simp_thms)

lemma metadata_advisories:
  assumes "\<forall>a \<in> set (bpAdvisories p). CHR '','' \<notin> set a"
  shows "qualitiesFromLabels (metadata_labels p) = map advisory (bpAdvisories p)"
proof (cases "bpAdvisories p = []")
  case True
  then show ?thesis
    using label_keys by (simp add: metadata_labels_def qualitiesFromLabels_def Labels_def gomap_simps Let_def)
next
  case False
  then have "split_on CHR '','' (join_with '','' (bpAdvisories p)) = bpAdvisories p"
    by (intro split_join) (use assms in \<open>simp_all add: list_all_iff\<close>)
  then show ?thesis using False by (simp add: metadata_labels_def qualitiesFromLabels_def gomap_simps advisory_def)
qed

section \<open>An example\<close>

text \<open>A build of a dirty workspace, and a server that learns of it.\<close>

definition example_sources :: SourceContext where
  "example_sources = \<lparr>scxRootDir = ''/w'', scxOffsetDir = [], scxBranch = ''b'', scxRevision = ''abc'', scxFiles = [],
     scxModifiedFiles = [''f''], scxNewFiles = [], scxTags = [\<lparr>tgName = ''v1.2.3'', tgRevision = ''abc''\<rparr>],
     scxNearestTag = \<lparr>tgName = ''v1.2.3'', tgRevision = ''abc''\<rparr>, scxNearestTagName = ''v1.2.3'', scxNearestTagRevision = ''abc'',
     scxPrimaryRemoteURL = ''github.com/o/r'', scxRemoteURL = ''github.com/o/r'', scxRemoteURLs = [''github.com/o/r''],
     scxDirtyWorkingTree = True, scxRevisionUnpushed = False, scxDevBuild = False\<rparr>"

definition example_config :: "bool \<Rightarrow> BuildConfig" where
  "example_config strict = \<lparr>bgRepo = [], bgOffset = [], bgTag = ''v1.2.3'', bgRevision = [], bgStrict = strict, bgForceClone = False,
     bgDev = False, bgContext = \<lparr>bxSource = example_sources, bxAdvisories = []\<rparr>\<rparr>"

definition example_docker :: build_env where
  "example_docker = \<lparr>beHost = ''reg'', beDocker = (\<lambda>_ _. Inr ''Successfully built f00''), beTime = (\<lambda>_. ''t''), beNames = plain_registry,
     beFile = (\<lambda>_. Some (Inr ''FROM x'')), beSplit = (\<lambda>_. None)\<rparr>"

definition no_names :: name_db where "no_names = fst (GroomDatabase ''f'' plain_registry schema)"

definition example_world :: build_world where "example_world = \<lparr>bwRan = [], bwNames = no_names\<rparr>"

definition example_product :: BuildProduct where
  "example_product = \<lparr>bpSource = \<lparr>sidLocation = \<lparr>slRepo = ''github.com/o/r'', slDir = []\<rparr>,
      sidVersion = \<lparr>vMajor = 1, vMinor = 2, vPatch = 3, vPre = [], vMeta = ''abc'', vDefaultFormat = Complete\<rparr>\<rparr>,
     bpKind = [], bpID = ''f00'', bpAdvisories = [''dirty workspace''], bpVersionName = ''reg/o/r:1.2.3'', bpRevisionName = ''reg/o/r:zabc-t''\<rparr>"

definition example_built :: build_world where
  "example_built = fst (BuildManager_Build example_docker (example_config False) example_world)"

lemma example_build:
  "BuildManager_Build example_docker (example_config False) example_world = (example_built, Some [example_product], None)"
proof -
  have "snd (BuildManager_Build example_docker (example_config False) example_world) = (Some [example_product], None)"
    by code_simp
  then show ?thesis by (simp add: example_built_def prod_eq_iff)
qed

section \<open>Properties of builds\<close>

text \<open>C15: a strict build of a workspace that is not immaculate fails before anything is run or
  recorded. A strict build from a Dockerfile that succeeds was of an immaculate workspace (the known
  remote, the requested and pushed revision, a released tag on it, nothing modified), and its
  products carry no advisory.\<close>

theorem strict_build:
  assumes "bgStrict cfg"
  shows "(\<not> immaculate cfg \<longrightarrow> (\<exists>e. BuildManager_Build env cfg w = (w, None, Some e)))
    \<and> (beSplit env (NewContext cfg) = None \<longrightarrow> (\<forall>w' ps. BuildManager_Build env cfg w = (w', Some ps, None) \<longrightarrow>
         immaculate cfg \<and> (\<forall>p \<in> set ps. bpAdvisories p = [])))"
proof (intro conjI impI allI)
  assume "\<not> immaculate cfg"
  then have "GuardStrict cfg (NewContext cfg) \<noteq> None" using assms GuardStrict_None by blast
  then show "\<exists>e. BuildManager_Build env cfg w = (w, None, Some e)"
    by (auto simp: BuildManager_Build_def Let_def split: option.split)
next
  fix w' ps
  assume b: "beSplit env (NewContext cfg) = None" "BuildManager_Build env cfg w = (w', Some ps, None)"
  show "immaculate cfg" by (rule dockerfile_product [OF b(2,1)]) (use assms in blast)
  then show "\<forall>p \<in> set ps. bpAdvisories p = []" using Advisories_Nil by (auto intro: dockerfile_product [OF b(2,1)])
qed

lemma strict_build_witness:
  "\<exists>e. BuildManager_Build example_docker (example_config True) example_world = (example_world, None, Some e)"
proof -
  have "bgStrict (example_config True)" "\<not> immaculate (example_config True)"
    by (simp_all add: example_config_def immaculate_def example_sources_def)
  then show ?thesis using strict_build [of "example_config True" example_docker example_world] by blast
qed

text \<open>C13: a build from a Dockerfile that succeeds makes one product: of the version that the requested
  tag names with the revision as its metadata, at the chosen repository and directory, with the
  advisories of the build. Docker was run four times, to build the source, to label the image under
  both its names, and to push each name; and the product is recorded under its version name.\<close>

theorem dockerfile_build:
  assumes "BuildManager_Build env cfg w = (w', Some ps, None)" and "beSplit env (NewContext cfg) = None"
  shows "\<exists>p v src. ps = [p] \<and> parseSemverTagWithOptionalPrefix (bgTag cfg) = (v, None)
    \<and> bpSource p = \<lparr>sidLocation = \<lparr>slRepo = chooseRemoteURL cfg, slDir = chooseOffset cfg\<rparr>,
        sidVersion = v\<lparr>vMeta := scxRevision (bxSource (bgContext cfg)), vDefaultFormat := Complete\<rparr>\<rparr>
    \<and> bpAdvisories p = bxAdvisories (NewContext cfg) \<and> bpVersionName p = versionTag (beHost env) (bpSource p) []
    \<and> hd (dkArgs src) = ''build'' \<and> dkStdin src = None
    \<and> bwRan w' = bwRan w @ [src,
        \<lparr>dkArgs = [''build'', ''-t'', bpVersionName p, ''-t'', bpRevisionName p, ''-''], dkStdin = Some (bpID p, metadata_labels p)\<rparr>,
        \<lparr>dkArgs = [''push'', bpVersionName p], dkStdin = None\<rparr>, \<lparr>dkArgs = [''push'', bpRevisionName p], dkStdin = None\<rparr>]
    \<and> NameCache_Insert (beNames env) (bpSource p) (bpVersionName p) [] (map advisory (bpAdvisories p)) (bwNames w) = (bwNames w', None)"
  by (rule dockerfile_product [OF assms]) blast

lemma dockerfile_build_witness:
  "\<exists>p v src. [example_product] = [p] \<and> parseSemverTagWithOptionalPrefix (bgTag (example_config False)) = (v, None)
    \<and> bpSource p = \<lparr>sidLocation = \<lparr>slRepo = chooseRemoteURL (example_config False), slDir = chooseOffset (example_config False)\<rparr>,
        sidVersion = v\<lparr>vMeta := scxRevision (bxSource (bgContext (example_config False))), vDefaultFormat := Complete\<rparr>\<rparr>
    \<and> bpAdvisories p = bxAdvisories (NewContext (example_config False)) \<and> bpVersionName p = versionTag (beHost example_docker) (bpSource p) []
    \<and> hd (dkArgs src) = ''build'' \<and> dkStdin src = None
    \<and> bwRan example_built = bwRan example_world @ [src,
        \<lparr>dkArgs = [''build'', ''-t'', bpVersionName p, ''-t'', bpRevisionName p, ''-''], dkStdin = Some (bpID p, metadata_labels p)\<rparr>,
        \<lparr>dkArgs = [''push'', bpVersionName p], dkStdin = None\<rparr>, \<lparr>dkArgs = [''push'', bpRevisionName p], dkStdin = None\<rparr>]
    \<and> NameCache_Insert (beNames example_docker) (bpSource p) (bpVersionName p) [] (map advisory (bpAdvisories p)) (bwNames example_world)
        = (bwNames example_built, None)"
  by (rule dockerfile_build [OF example_build]) (simp add: example_docker_def)

text \<open>C14: whoever builds an image and then deploys it from the same database of names: when the name is
  new and the location has only other versions, the image is found, and the guard of name resolution
  lets a deployment of it pass exactly where the cluster allows every advisory of the build, and
  otherwise reports an error.\<close>

theorem built_image_deployable:
  assumes "BuildManager_Build env cfg w = (w', Some ps, None)" and "beSplit env (NewContext cfg) = None"
    and "cache_reaches (bwNames w)" and "\<forall>p \<in> set ps. bpVersionName p \<notin> mdCanonicalName ` set (ndMetadata (bwNames w))"
    and "\<forall>p \<in> set ps. versions_apart (bpSource p) (bwNames w)"
    and "\<forall>p \<in> set ps. dSourceID d = bpSource p" and "dcNumInstances (dDeployConfig d) \<noteq> 0"
  shows "(\<forall>a \<in> set (bxAdvisories (NewContext cfg)). allows d a) \<and>
        (\<exists>art. guardImage (cache_registry env' (bwNames w')) d = Ok (Some art) \<and> [baName art] = map bpVersionName ps)
    \<or> \<not> (\<forall>a \<in> set (bxAdvisories (NewContext cfg)). allows d a) \<and> (\<exists>e. guardImage (cache_registry env' (bwNames w')) d = Err e)"
proof -
  obtain p where p: "ps = [p]" "bpAdvisories p = bxAdvisories (NewContext cfg)" "vDefaultFormat (sidVersion (bpSource p)) = Complete"
      "NameCache_Insert (beNames env) (bpSource p) (bpVersionName p) [] (map advisory (bpAdvisories p)) (bwNames w) = (bwNames w', None)"
    by (rule dockerfile_product [OF assms(1,2)]) simp
  obtain repo where repo: "neRefName (beNames env) (bpVersionName p) = Some repo"
    using p(4) by (cases "neRefName (beNames env) (bpVersionName p)") (simp_all add: NameCache_Insert_def dbInsert_def)
  have "semverEqual (Version_Format (sidVersion (bpSource p)) Complete) (Version_String (sidVersion (bpSource p))) = Some True"
    using p(3) by (simp add: semverEqual_def Version_String_def)
  then have "dbQueryOnSourceID (bpSource p) (bwNames w') = Inr (bpVersionName p, kept_qualities [] (map advisory (bpAdvisories p)))"
    using inserted_found [OF cache_reaches_inv [OF assms(3)] _ repo, where sid = "bpSource p" and qs = "map advisory (bpAdvisories p)" and etag = "[]"]
      assms(4,5) p(1,4) by simp
  note found = GetArtifact_found [OF this, of env']
  let ?art = "docker_NewBuildArtifact (bpVersionName p) (kept_qualities [] (map advisory (bpAdvisories p)))"
  have ne: "[] \<notin> set (bpAdvisories p)" using Advisories_nonempty by (simp add: p(2) NewContext_def Let_def)
  have q: "set (baQualities ?art) = advisory ` set (bpAdvisories p)"
    using kept_advisories [OF ne] by (simp add: docker_NewBuildArtifact_def set_kept)
  have s: "snd (NameCache_GetArtifact env' (dSourceID d) (bwNames w')) = Inr ?art" using assms(6) p(1) found by simp
  note g = guard_allows [OF s q ne assms(7)]
  have "baName ?art = bpVersionName p" by (simp add: docker_NewBuildArtifact_def)
  then show ?thesis using g p(1,2) by auto
qed

lemma no_names_reached: "cache_reaches no_names"
  unfolding no_names_def by (rule cache_reaches.groomed)

lemma no_names_empty: "ndMetadata no_names = []" "at_location sid no_names = []" "dbQueryOnName n no_names = None"
  by (simp_all add: no_names_def GroomDatabase_def schema_def plain_registry_def at_location_def dbQueryOnName_def joined_def)

definition deployed_example :: Deployment where
  "deployed_example = example_deployment\<lparr>dSourceID := bpSource example_product\<rparr>"

lemma not_allowed: "a \<in> set (bxAdvisories (NewContext (example_config False))) \<Longrightarrow> \<not> allows deployed_example a"
  by (simp add: allows_def deployed_example_def example_deployment_def)

lemma some_advisory: "\<exists>a. a \<in> set (bxAdvisories (NewContext (example_config False)))"
  by (rule exI [where x = DirtyWS]) code_simp

lemma built_image_deployable_witness:
  "\<exists>e. guardImage (cache_registry plain_registry (bwNames example_built)) deployed_example = Err e"
proof -
  have "(\<forall>a \<in> set (bxAdvisories (NewContext (example_config False))). allows deployed_example a) \<and>
        (\<exists>art. guardImage (cache_registry plain_registry (bwNames example_built)) deployed_example = Ok (Some art)
             \<and> [baName art] = map bpVersionName [example_product])
    \<or> \<not> (\<forall>a \<in> set (bxAdvisories (NewContext (example_config False))). allows deployed_example a)
      \<and> (\<exists>e. guardImage (cache_registry plain_registry (bwNames example_built)) deployed_example = Err e)"
    by (rule built_image_deployable [OF example_build])
      (simp_all add: example_docker_def example_world_def no_names_reached no_names_empty versions_apart_def
        deployed_example_def example_deployment_def zeroDeployConfig_def)
  then show ?thesis using some_advisory not_allowed by blast
qed

text \<open>C12: the same for a server that has not heard of the image: when the registry answers for the tag
  of the source ID with the labels that the build's docker commands set, the lookup fetches and
  records them, and the guard decides by the build's advisories.\<close>

theorem server_learns_build:
  assumes "BuildManager_Build env cfg w = (w', Some [p], None)" and "beSplit env (NewContext cfg) = None"
    and "wf_version (sidVersion (bpSource p))"
    and "cache_reaches db" and "neHost s = beHost env" and "dbQueryOnName (bpVersionName p) db = None"
    and "neGetImageMetadata s (bpVersionName p) [] = Metadata md" and "imRegistry md = neHost s"
    and "\<exists>i. Some (i, imLabels md) \<in> dkStdin ` set (drop (length (bwRan w)) (bwRan w'))"
    and "neHost s @ ''/'' @ imCanonicalName md \<notin> mdCanonicalName ` set (ndMetadata db)"
    and "neRefName s (neHost s @ ''/'' @ imCanonicalName md) = Some repo"
    and "\<forall>(n, row, sl) \<in> set (at_location (bpSource p) db). semverEqual (mdVersion row) (Version_String (sidVersion (bpSource p))) = Some False"
    and "dSourceID d = bpSource p" and "dcNumInstances (dDeployConfig d) \<noteq> 0"
  shows "(\<forall>a \<in> set (bxAdvisories (NewContext cfg)). allows d a) \<and>
        (\<exists>art. guardImage (cache_registry s db) d = Ok (Some art) \<and> baName art = neHost s @ ''/'' @ imCanonicalName md)
    \<or> \<not> (\<forall>a \<in> set (bxAdvisories (NewContext cfg)). allows d a) \<and> (\<exists>e. guardImage (cache_registry s db) d = Err e)"
proof -
  let ?sid = "bpSource p" and ?inn = "neHost s @ ''/'' @ imCanonicalName md"
  have p: "vDefaultFormat (sidVersion ?sid) = Complete" "bpAdvisories p = bxAdvisories (NewContext cfg)"
      "bpVersionName p = versionTag (neHost s) ?sid []" "imLabels md = metadata_labels p"
    by (rule dockerfile_product [OF assms(1,2)]; use assms(5,9) in auto)+
  define sid' where "sid' = with_revision (SourceID_RevID ?sid) \<lparr>sidLocation = sidLocation ?sid, sidVersion = label_version (sidVersion ?sid)\<rparr>"
  have l: "SourceIDFromLabels (imLabels md) = (sid', None)"
    by (simp add: p(4) metadata_source SourceIDFromLabels_Labels [OF assms(3)] sid'_def)
  have same: "SourceID_Equal ?sid sid'" "sidLocation sid' = sidLocation ?sid"
    by (simp_all add: sid'_def with_revision_def SourceID_Equal_def label_version_def Version_Equals_def Version_Less_def)
  have "Version_Format (sidVersion sid') Complete = Version_String (sidVersion ?sid)"
    by (simp add: Version_String_def p(1) sid'_def with_revision_def label_version_def SourceID_RevID_def Version_Format_def)
  then have eq: "semverEqual (Version_Format (sidVersion sid') Complete) (Version_String (sidVersion ?sid)) = Some True"
    by (simp add: semverEqual_def)
  have adv: "[] \<notin> set (bpAdvisories p)" "\<forall>a \<in> set (bpAdvisories p). CHR '','' \<notin> set a"
    using Advisories_nonempty Advisories_no_comma by (simp_all add: p(2) NewContext_def Let_def)
  let ?art = "docker_NewBuildArtifact ?inn (kept_qualities [] (qualitiesFromLabels (imLabels md)))"
  have "\<exists>db'. NameCache_GetArtifact s ?sid db = (db', Inr ?art)"
    by (rule fetched_artifact [OF cache_reaches_inv [OF assms(4)] _ _ l same(1) assms(10,11,8) refl assms(12) same(2) eq])
      (use assms(6,7) p(3) in simp_all)
  then have g: "snd (NameCache_GetArtifact s (dSourceID d) db) = Inr ?art" using assms(13) by auto
  have q: "set (baQualities ?art) = advisory ` set (bpAdvisories p)"
    using kept_advisories [OF adv(1)] by (simp add: docker_NewBuildArtifact_def set_kept p(4) metadata_advisories [OF adv(2)])
  have "baName ?art = ?inn" by (simp add: docker_NewBuildArtifact_def)
  then show ?thesis using guard_allows [OF g q adv(1) assms(14)] p(2) by auto
qed

definition example_metadata :: ImageMetadata where
  "example_metadata = \<lparr>imRegistry = ''reg'', imLabels = metadata_labels example_product, imEtag = ''e'', imCanonicalName = ''o/r@1'',
     imAllNames = [''o/r:1.2.3'']\<rparr>"

definition example_server :: name_cache_env where
  "example_server = plain_registry\<lparr>neGetImageMetadata := (\<lambda>_ _. Metadata example_metadata)\<rparr>"

lemma example_labelled: "\<exists>i. Some (i, metadata_labels example_product) \<in> dkStdin ` set (drop (length (bwRan example_world)) (bwRan example_built))"
  by (rule dockerfile_product [OF example_build]) (simp add: example_docker_def, force simp: example_world_def)

lemma server_learns_build_witness:
  "\<exists>e. guardImage (cache_registry example_server no_names) deployed_example = Err e"
proof -
  have labelled: "\<exists>i. Some (i, imLabels example_metadata) \<in> dkStdin ` set (drop (length (bwRan example_world)) (bwRan example_built))"
    using example_labelled by (simp add: example_metadata_def)
  have wf: "wf_version (sidVersion (bpSource example_product))"
    by (simp add: example_product_def wf_version_def in_int64_def validPreAndMetaChar_def is_digit_def)
  have "(\<forall>a \<in> set (bxAdvisories (NewContext (example_config False))). allows deployed_example a) \<and>
        (\<exists>art. guardImage (cache_registry example_server no_names) deployed_example = Ok (Some art)
           \<and> baName art = neHost example_server @ ''/'' @ imCanonicalName example_metadata)
    \<or> \<not> (\<forall>a \<in> set (bxAdvisories (NewContext (example_config False))). allows deployed_example a)
      \<and> (\<exists>e. guardImage (cache_registry example_server no_names) deployed_example = Err e)"
    by (rule server_learns_build [OF example_build _ wf _ _ _ _ _ labelled, where repo = "''reg/o/r@1''"])
      (simp_all add: example_docker_def no_names_reached no_names_empty example_server_def plain_registry_def example_metadata_def
        deployed_example_def example_deployment_def zeroDeployConfig_def)
  then show ?thesis using some_advisory not_allowed by blast
qed

lemma Rel_found:
  assumes "list_all normal rs" and "list_all normal es" and "filepath_Clean p = rooted_path (rs @ es)"
  shows "filepath_Rel (rooted_path rs) p = Inr (if es = [] then ''.'' else join_with ''/'' es)"
proof (cases "es = []")
  case False
  have n: "list_all normal (rs @ es)" using assms(1,2) by simp
  have "rooted_path (rs @ es) \<noteq> rooted_path rs" using rooted_inj [OF n assms(1)] False by auto
  moreover have "rooted_path rs \<noteq> ''.''" by (simp add: rooted_path_def)
  ultimately show ?thesis
    using False
    by (simp add: filepath_Rel_def Let_def Clean_normal [OF assms(1)] assms(3) path_elements_rooted [OF n]
        path_elements_rooted [OF assms(1)] rel_elements_prefix)
qed (use assms in \<open>simp add: filepath_Rel_def Clean_normal\<close>)

text \<open>The directories that an offset can name.\<close>

definition plain_offset :: "string \<Rightarrow> bool" where
  "plain_offset r = (\<exists>es. list_all normal es \<and> r = join_with ''/'' es \<and> take 2 r \<noteq> ''..'')"

text \<open>A directory given to \<open>sous build\<close>, relative to the workspace's directory or absolute, becomes the
  offset that leads from the root to that directory. It is refused when the offset option is set
  too, and when no path below the root leads there (a first name with two dots at its start does
  not count as one).\<close>

theorem offset_from_workdir:
  assumes "filepath_IsAbs (scxRootDir (bxSource (bgContext cfg)))"
    and "filepath_Clean (scxRootDir (bxSource (bgContext cfg))) = scxRootDir (bxSource (bgContext cfg))"
    and "target = filepath_Clean (if filepath_IsAbs offset then offset else filepath_Join [AbsDir (bxSource (bgContext cfg)), offset])"
  shows "(case OffsetFromWorkdir offset cfg of
       Inl e \<Rightarrow> bgOffset cfg \<noteq> [] \<or> \<not> (\<exists>r. plain_offset r \<and> filepath_Join [scxRootDir (bxSource (bgContext cfg)), r] = target)
     | Inr cfg' \<Rightarrow> bgOffset cfg = [] \<and> cfg' = cfg\<lparr>bgOffset := bgOffset cfg'\<rparr>
         \<and> filepath_Join [scxRootDir (bxSource (bgContext cfg)), bgOffset cfg'] = target)"
proof -
  let ?sc = "bxSource (bgContext cfg)"
  let ?off = "if filepath_IsAbs offset then offset else filepath_Join [AbsDir ?sc, offset]"
  obtain rs where rs: "list_all normal rs" "scxRootDir ?sc = rooted_path rs" using Clean_rooted [OF assms(1)] assms(2) by auto
  show ?thesis
  proof (cases "OffsetFromWorkdir offset cfg")
    case (Inr cfg')
    obtain r where r: "filepath_Rel (scxRootDir ?sc) ?off = Inr r" "take 2 r \<noteq> ''..''" "bgOffset cfg = []"
        "cfg' = cfg\<lparr>bgOffset := (if r = ''.'' then [] else r)\<rparr>"
      using Inr by (auto simp: OffsetFromWorkdir_def AbsDir_def Let_def split: if_splits sum.splits)
    have abs: "filepath_IsAbs (filepath_Clean q)" if "filepath_IsAbs q" for q using Clean_rooted [OF that] by auto
    have joined: "filepath_IsAbs (filepath_Join [q, t])" if "filepath_IsAbs q" for q t
      using abs [of "q @ ''/'' @ t"] that by (auto simp: filepath_IsAbs_def)
    have "filepath_IsAbs ?off" using joined [OF joined [OF assms(1)]] by (simp add: AbsDir_def)
    then have "filepath_Join [scxRootDir ?sc, if r = ''.'' then [] else r] = filepath_Clean ?off"
      using Rel_below [OF rs(1) _ _ r(2), of ?off] r(1) rs(2) by simp
    then show ?thesis using Inr r(3,4) assms(3) by simp
  next
    case (Inl e)
    have "bgOffset cfg \<noteq> []" if t: "filepath_Join [scxRootDir ?sc, r] = target" "plain_offset r" for r
    proof -
      obtain es where es: "list_all normal es" "r = join_with ''/'' es" "take 2 r \<noteq> ''..''"
        using t(2) unfolding plain_offset_def by blast
      have c: "filepath_Clean ?off = rooted_path (rs @ es)" using t(1) Join_below [OF rs(1) es(1)] by (simp add: es(2) rs(2) assms(3))
      have "filepath_Rel (scxRootDir ?sc) ?off = Inr (if es = [] then ''.'' else join_with ''/'' es)"
        unfolding rs(2) by (rule Rel_found [OF rs(1) es(1) c])
      then show ?thesis
        using Inl es(2,3) by (auto simp: OffsetFromWorkdir_def AbsDir_def Let_def split: if_splits)
    qed
    then have "bgOffset cfg \<noteq> [] \<or> \<not> (\<exists>r. plain_offset r \<and> filepath_Join [scxRootDir ?sc, r] = target)" by blast
    then show ?thesis by (simp only: Inl sum.case)
  qed
qed

lemma example_offset: "OffsetFromWorkdir ''x/../y'' (example_config False) = Inr ((example_config False)\<lparr>bgOffset := ''y''\<rparr>)"
  by code_simp

lemma offset_from_workdir_witness: "filepath_Join [scxRootDir (bxSource (bgContext (example_config False))), ''y''] = ''/w/y''"
proof -
  have "filepath_IsAbs (scxRootDir (bxSource (bgContext (example_config False))))"
    "filepath_Clean (scxRootDir (bxSource (bgContext (example_config False)))) = scxRootDir (bxSource (bgContext (example_config False)))"
    "''/w/y'' = filepath_Clean (if filepath_IsAbs ''x/../y'' then ''x/../y''
       else filepath_Join [AbsDir (bxSource (bgContext (example_config False))), ''x/../y''])"
    by code_simp+
  note f = offset_from_workdir [OF this]
  show ?thesis using f unfolding example_offset by simp
qed

text \<open>What is surprising: a directory whose name begins with two dots is taken to be outside the root;
  a directory beside the root whose name continues the root's is taken to be inside.\<close>

lemma dotted_directory_rejected: "\<exists>e. OffsetFromWorkdir ''..x'' (example_config False) = Inl e"
proof -
  have "isl (OffsetFromWorkdir ''..x'' (example_config False))" by code_simp
  then show ?thesis by (auto simp: isl_def)
qed

lemma sibling_inside: "NormalizedOffset Some ''/repo'' ''/repo-old/x'' = Inr ''-old/x''"
  by code_simp

text \<open>The advisory for builds without a version looks at the tags of the workspace, not at the requested one.\<close>

definition zero_config :: BuildConfig where "zero_config = (example_config False)\<lparr>bgTag := ''0.0.0''\<rparr>"

lemma zero_tag_unnoticed:
  "Version_Format (sidVersion (SourceContext_Version (bxSource (NewContext zero_config)))) ''M.m.p'' = ''0.0.0''"
  "Unversioned \<notin> set (bxAdvisories (NewContext zero_config))"
  by code_simp+

text \<open>An image that is built again under the same name keeps the source and the advisories of the first build.\<close>

definition rebuilt_names :: name_db where
  "rebuilt_names = fst (NameCache_Insert plain_registry (bpSource example_product) ''reg/o/r:1.2.3'' [] [] (bwNames example_built))"

lemma rebuilt_keeps_advisories:
  "dbQueryOnSourceID (bpSource example_product) rebuilt_names = Inr (''reg/o/r:1.2.3'', [advisory ''dirty workspace''])"
  by code_simp

text \<open>Products with blocking advisories are registered all the same.\<close>

lemma registered_despite_blockers:
  "GuardRegister [example_product] \<noteq> None" "snd (snd (RegisterAndWarnAdvisories example_docker [example_product] example_world)) = None"
  by code_simp+

end
