(* ===== verification/Client_Actions.thy ===== *)
theory Client_Actions
  imports Server_Handlers Resolve_Filter
begin

text \<open>
  The client's side of a change: the state manager that talks to a server
  (\<open>lib/http_state_manager.go\<close>), \<open>sous update\<close>, which changes a version in the GDM and tries again
  on a conflict (\<open>cli/actions/update.go\<close>), and \<open>sous deploy\<close>, which changes a single deployment and
  waits for its rectification (\<open>cli/actions/deploy.go\<close>).

  A server is a record of what its HTTP client does on a world \<open>'m\<close>: typed data go in and come out,
  an updater \<open>'u\<close> is what a retrieval leaves for the update. What decoding a body leaves in a
  variable that is used again is a function of its old value. The loop of \<open>sous update\<close> is bounded
  by a number it reads anew in every round, so it is a partial function. Log messages, the progress
  bar and pauses are left out.
\<close>

section \<open>The state manager\<close>

record ('m, 'u) cluster_service =
  csGet :: "'m \<Rightarrow> 'm \<times> (goerror + GDMWrapper \<times> 'u)"
  csPut :: "'u \<Rightarrow> GDMWrapper \<Rightarrow> User \<Rightarrow> 'm \<Rightarrow> 'm \<times> (goerror + 'u)"

record ('m, 'u) gdm_service =
  gsDefs :: "User \<Rightarrow> 'm \<Rightarrow> 'm \<times> (goerror + Defs)"
  gsGDM :: "User \<Rightarrow> 'm \<Rightarrow> 'm \<times> (goerror + GDMWrapper \<times> 'u)"
  gsPut :: "'u \<Rightarrow> GDMWrapper \<Rightarrow> User \<Rightarrow> 'm \<Rightarrow> 'm \<times> goerror option"
  gsClusters :: "string \<Rightarrow> ('m, 'u) cluster_service option"

record 'u HTTPStateManager =
  hsmCached :: "State option"
  hsmGdmState :: "'u option"
  hsmClusterUpdaters :: "(string, 'u) gomap"
  hsmUser :: User

definition NewHTTPStateManager :: "'u HTTPStateManager" where
  "NewHTTPStateManager = \<lparr>hsmCached = None, hsmGdmState = None, hsmClusterUpdaters = [], hsmUser = \<lparr>uName = [], uEmail = []\<rparr>\<rparr>"

definition wrapDeployments :: "Deployments \<Rightarrow> GDMWrapper" where
  "wrapDeployments source = map snd (Deployments_Snapshot source)"

definition gdmWrapper_manifests :: "GDMWrapper \<Rightarrow> Defs \<Rightarrow> Manifests \<times> gdm_error option" where
  "gdmWrapper_manifests g defs = RawManifests (foldl (\<lambda>ds d. fst (Deployments_Add ds d)) [] g) defs"

definition hsm_ReadState :: "('m, 'u) gdm_service \<Rightarrow> 'u HTTPStateManager \<times> 'm \<Rightarrow> ('u HTTPStateManager \<times> 'm) \<times> (store_error + State)" where
  "hsm_ReadState gs w =
     (let h = fst w
      in case gsDefs gs (hsmUser h) (snd w) of
          (m1, Inl err) \<Rightarrow> ((h, m1), Inl (StoreError (WithCause ''getting defs'' err)))
        | (m1, Inr defs) \<Rightarrow>
            (case gsGDM gs (hsmUser h) m1 of
               (m2, Inl err) \<Rightarrow> ((h, m2), Inl (StoreError (WithCause ''getting manifests'' err)))
             | (m2, Inr (g, up)) \<Rightarrow>
                 (let h1 = h\<lparr>hsmGdmState := Some up\<rparr>
                  in case gdmWrapper_manifests g defs of
                      (_, Some err) \<Rightarrow> ((h1, m2), Inl (GDMError err))
                    | (ms, None) \<Rightarrow>
                        (let state = \<lparr>sDefs = defs, sManifests = ms, sEtag = None\<rparr>
                         in ((h1\<lparr>hsmCached := Some state\<rparr>, m2), Inr (State_Clone state))))))"

definition hsm_put :: "('m, 'u) gdm_service \<Rightarrow> Deployments \<Rightarrow> 'u HTTPStateManager \<times> 'm \<Rightarrow> ('u HTTPStateManager \<times> 'm) \<times> store_error option" where
  "hsm_put gs wds w =
     (case hsmGdmState (fst w) of
        None \<Rightarrow> (w, Some (StoreError (PlainError ''runtime error'' ''nil pointer dereference'')))
      | Some up \<Rightarrow>
          (case gsPut gs up (wrapDeployments wds) (hsmUser (fst w)) (snd w) of
             (m', e) \<Rightarrow> ((fst w, m'), map_option (\<lambda>e. StoreError (WithCause ''putting GDM'' e)) e)))"

definition hsm_WriteState :: "('m, 'u) gdm_service \<Rightarrow> State \<Rightarrow> User \<Rightarrow> 'u HTTPStateManager \<times> 'm \<Rightarrow> ('u HTTPStateManager \<times> 'm) \<times> store_error option" where
  "hsm_WriteState gs s u w =
     (let w0 = ((fst w)\<lparr>hsmUser := u\<rparr>, snd w)
      in if length (State_Validate s) > 0 then (w0, Some (StoreError (PlainError ''*errors.fundamental'' ''Invalid update to state'')))
         else (case (if hsmGdmState (fst w0) = None
                     then (case hsm_ReadState gs w0 of (w1, Inl err) \<Rightarrow> (w1, Some err) | (w1, Inr _) \<Rightarrow> (w1, None))
                     else (w0, None)) of
             (w1, Some err) \<Rightarrow> (w1, Some err)
           | (w1, None) \<Rightarrow>
               (case State_Deployments s of
                  (_, Some err) \<Rightarrow> (w1, Some (GDMError err))
                | (wds, None) \<Rightarrow> hsm_put gs wds w1)))"

text \<open>\<open>NewDeployments\<close> panics on a body with two deployments of an ID.\<close>

definition hsm_ReadCluster ::
    "('m, 'u) gdm_service \<Rightarrow> string \<Rightarrow> 'u HTTPStateManager \<times> 'm \<Rightarrow> ('u HTTPStateManager \<times> 'm) \<times> (goerror, Deployments) outcome" where
  "hsm_ReadCluster gs clusterName w =
     (case gsClusters gs clusterName of
        None \<Rightarrow> (w, Err (PlainError ''*errors.fundamental'' (''no cluster known by name '' @ clusterName)))
      | Some client \<Rightarrow>
          (case csGet client (snd w) of
             (m', Inl err) \<Rightarrow> ((fst w, m'), Err err)
           | (m', Inr (ds, up)) \<Rightarrow>
               (((fst w)\<lparr>hsmClusterUpdaters := gset clusterName up (hsmClusterUpdaters (fst w))\<rparr>, m'),
                case NewDeployments ds of Ok deps \<Rightarrow> Ok deps | _ \<Rightarrow> Panic)))"

definition hsm_update_cluster ::
    "('m, 'u) gdm_service \<Rightarrow> string \<Rightarrow> Deployments \<Rightarrow> User \<Rightarrow> 'u HTTPStateManager \<times> 'm \<Rightarrow> ('u HTTPStateManager \<times> 'm) \<times> (goerror, unit) outcome" where
  "hsm_update_cluster gs clusterName deps user w =
     (case (gsClusters gs clusterName, gget (hsmClusterUpdaters (fst w)) clusterName) of
        (Some client, Some up) \<Rightarrow>
          (case csPut client up (wrapDeployments deps) user (snd w) of
             (m', Inl err) \<Rightarrow> ((fst w, m'), Err err)
           | (m', Inr up') \<Rightarrow> (((fst w)\<lparr>hsmClusterUpdaters := gset clusterName up' (hsmClusterUpdaters (fst w))\<rparr>, m'), Ok ()))
      | _ \<Rightarrow> (w, Panic))"

definition hsm_WriteCluster ::
    "('m, 'u) gdm_service \<Rightarrow> string \<Rightarrow> Deployments \<Rightarrow> User \<Rightarrow> 'u HTTPStateManager \<times> 'm \<Rightarrow> ('u HTTPStateManager \<times> 'm) \<times> (goerror, unit) outcome" where
  "hsm_WriteCluster gs clusterName deps user w =
     (if ghas (hsmClusterUpdaters (fst w)) clusterName then hsm_update_cluster gs clusterName deps user w
      else (case hsm_ReadCluster gs clusterName w of
          (w', Ok _) \<Rightarrow> hsm_update_cluster gs clusterName deps user w'
        | (w', Err err) \<Rightarrow> (w', Err err)
        | (w', Panic) \<Rightarrow> (w', Panic)))"

section \<open>Updating a version\<close>

text \<open>
  \<open>updateState\<close>: the deployment of the GDM is changed where it is, so the GDM changes with it; one
  that is missing is made with nothing but its source and cluster.
\<close>

definition updateState :: "State \<Rightarrow> Deployments \<Rightarrow> SourceID \<Rightarrow> DeploymentID \<Rightarrow> (State \<times> gdm_error option) \<times> Deployments" where
  "updateState s gdm sid did =
     (case Deployments_Get gdm did of
        Some d \<Rightarrow>
          (let d' = d\<lparr>dSourceID := sid, dClusterName := didCluster did\<rparr>
           in (State_UpdateDeployments s [d'], Deployments_Set gdm did d'))
      | None \<Rightarrow>
          (State_UpdateDeployments s [\<lparr>dDeployConfig = zeroDeployConfig, dClusterName = didCluster did, dCluster = None, dSourceID = sid,
             dFlavor = [], dOwners = [], dKind = []\<rparr>], gdm))"

definition store_Retryable :: "store_error \<Rightarrow> bool" where
  "store_Retryable err = (case err of StoreError e \<Rightarrow> Retryable e | _ \<Rightarrow> False)"

text \<open>One round: it stops with a result, or goes on with the limit it read.\<close>

datatype round = Stop "store_error + Deployments" | Again nat

definition update_round ::
    "('m, 'u) gdm_service \<Rightarrow> SourceID \<Rightarrow> DeploymentID \<Rightarrow> User \<Rightarrow> 'u HTTPStateManager \<times> 'm \<Rightarrow> ('u HTTPStateManager \<times> 'm) \<times> round" where
  "update_round gs sid did user w =
     (case hsm_ReadState gs w of
        (w1, Inl err) \<Rightarrow> (w1, Stop (Inl err))
      | (w1, Inr state) \<Rightarrow>
          (case Manifests_Get (sManifests state) (didManifestID did) of
             None \<Rightarrow> (w1, Stop (Inl (StoreError (PlainError ''*errors.errorString'' ''no manifest found - try sous init first''))))
           | Some manifest \<Rightarrow>
               (let tryLimit = length (mDeployments manifest)
                in case State_Deployments state of
                    (_, Some err) \<Rightarrow> (w1, Stop (Inl (GDMError err)))
                  | (gdm, None) \<Rightarrow>
                      (case updateState state gdm sid did of
                         ((_, Some err), _) \<Rightarrow> (w1, Stop (Inl (GDMError err)))
                       | ((state', None), gdm') \<Rightarrow>
                           (case hsm_WriteState gs state' user w1 of
                              (w2, Some err) \<Rightarrow> (w2, if store_Retryable err then Again tryLimit else Stop (Inl err))
                            | (w2, None) \<Rightarrow> (w2, Stop (Inr gdm')))))))"

partial_function (option) updateRetryLoop ::
    "('m, 'u) gdm_service \<Rightarrow> SourceID \<Rightarrow> DeploymentID \<Rightarrow> User \<Rightarrow> nat \<Rightarrow> nat \<Rightarrow> 'u HTTPStateManager \<times> 'm
     \<Rightarrow> (('u HTTPStateManager \<times> 'm) \<times> (store_error + Deployments)) option" where
  "updateRetryLoop gs sid did user tries tryLimit w =
     (if tries < tryLimit
      then (case update_round gs sid did user w of
          (w', Stop r) \<Rightarrow> Some (w', r)
        | (w', Again limit) \<Rightarrow> updateRetryLoop gs sid did user (Suc tries) limit w')
      else Some (w, Inl (StoreError (PlainError ''*errors.fundamental'' ''Tried to update''))))"

datatype update_result = FilterFailed filter_error | UpdateFailed store_error | Updated Deployments | UpdatePanics

definition Update_Do ::
    "('m, 'u) gdm_service \<Rightarrow> ResolveFilter \<Rightarrow> Manifest \<Rightarrow> User \<Rightarrow> Deployments \<Rightarrow> 'u HTTPStateManager \<times> 'm
     \<Rightarrow> (('u HTTPStateManager \<times> 'm) \<times> update_result) option" where
  "Update_Do gs rf manifest user GDM w =
     (let mid = Manifest_ID manifest
      in case ResolveFilter_SourceID rf mid of
          Err e \<Rightarrow> Some (w, FilterFailed e)
        | Panic \<Rightarrow> Some (w, UpdatePanics)
        | Ok sid \<Rightarrow>
            (case ResolveFilter_DeploymentID rf mid of
               Err e \<Rightarrow> Some (w, FilterFailed e)
             | Panic \<Rightarrow> Some (w, UpdatePanics)
             | Ok did \<Rightarrow>
                 map_option (\<lambda>(w', r). (w', case r of
                     Inl err \<Rightarrow> UpdateFailed err
                   | Inr gdm \<Rightarrow> Updated (foldl (\<lambda>g (k, d). Deployments_Set g k d) GDM (Deployments_Snapshot gdm))))
                   (updateRetryLoop gs sid did user 0 2 w)))"

section \<open>Deploying\<close>

definition checkFinished :: "DiffResolution \<Rightarrow> bool" where
  "checkFinished resolution = (drDesc resolution = CreateDiff \<or> drDesc resolution = ModifyDiff)"

definition checkResolutionSuccess :: "DeployState \<Rightarrow> bool" where
  "checkResolutionSuccess state = (dstStatus state = DeployStatusActive)"

definition deploy_failed :: "string \<Rightarrow> goerror" where
  "deploy_failed location = PlainError ''*errors.fundamental'' (''Failed to deploy '' @ location)"

text \<open>\<open>pollDeployQueue\<close>, over what each retrieval leaves in the response.\<close>

fun poll_queue :: "string \<Rightarrow> R11nResponse \<Rightarrow> (R11nResponse \<Rightarrow> goerror + R11nResponse) list \<Rightarrow> goerror option" where
  "poll_queue location response [] = Some (deploy_failed location)"
| "poll_queue location response (answer # answers) =
     (case answer response of
        Inl err \<Rightarrow> Some (WithCause ''Failed to deploy'' err)
      | Inr response' \<Rightarrow>
          (case rrResolution response' of
             None \<Rightarrow> poll_queue location response' answers
           | Some rez \<Rightarrow>
               (case drError rez of
                  Some ew \<Rightarrow> Some (WithCause ''Failed to deploy'' (WrapperPtr ew))
                | None \<Rightarrow>
                    (case drDeployState rez of
                       Some state \<Rightarrow>
                         if rrQueuePosition response' < 0 \<and> checkFinished rez
                         then (if checkResolutionSuccess state then None else Some (deploy_failed location))
                         else poll_queue location response' answers
                     | None \<Rightarrow> poll_queue location response' answers))))"

definition pollDeployQueue :: "string \<Rightarrow> nat \<Rightarrow> (R11nResponse \<Rightarrow> goerror + R11nResponse) list \<Rightarrow> goerror option" where
  "pollDeployQueue location pollAttempts answers =
     poll_queue (''http://'' @ location) \<lparr>rrQueuePosition = 0, rrResolution = None\<rparr> (take pollAttempts answers)"

record ('m, 'u) deploy_service =
  dsvRetrieve :: "(string, string) gomap \<Rightarrow> 'm \<Rightarrow> 'm \<times> (goerror + SingleDeploymentBody \<times> 'u)"
  dsvUpdate :: "'u \<Rightarrow> SingleDeploymentBody \<Rightarrow> User \<Rightarrow> 'm \<Rightarrow> 'm \<times> (goerror + string)"
  dsvAnswers :: "string \<Rightarrow> 'm \<Rightarrow> (R11nResponse \<Rightarrow> goerror + R11nResponse) list"

record Deploy =
  dpyResolveFilter :: ResolveFilter
  dpyTargetDeploymentID :: DeploymentID
  dpyUser :: User
  dpyForce :: bool
  dpyWaitStable :: bool
  dpyPollIntervalForClient :: nat

datatype deploy_result = NoVersion filter_error | Deployed | DeployFailed goerror | DeployPanics

definition set_version :: "Version \<Rightarrow> SingleDeploymentBody \<Rightarrow> SingleDeploymentBody option" where
  "set_version v d = map_option (\<lambda>spec. d\<lparr>sdbDeployment := Some (spec\<lparr>dsVersion := v\<rparr>)\<rparr>) (sdbDeployment d)"

definition Deploy_Do :: "('m, 'u) deploy_service \<Rightarrow> Deploy \<Rightarrow> 'm \<Rightarrow> 'm \<times> deploy_result" where
  "Deploy_Do sv sd m =
     (case TagVersion (dpyResolveFilter sd) of
        Err e \<Rightarrow> (m, NoVersion e)
      | Panic \<Rightarrow> (m, DeployPanics)
      | Ok newVersion \<Rightarrow>
          (let q = gset ''force'' (if dpyForce sd then ''true'' else ''false'') (DeploymentID_QueryMap (dpyTargetDeploymentID sd))
           in case dsvRetrieve sv q m of
               (m1, Inl err) \<Rightarrow> (m1, DeployFailed (PlainError ''*errors.fundamental'' ''Failed to retrieve current deployment''))
             | (m1, Inr (d, up)) \<Rightarrow>
                 (case set_version newVersion d of
                    None \<Rightarrow> (m1, DeployPanics)
                  | Some d' \<Rightarrow>
                      (case dsvUpdate sv up d' (dpyUser sd) m1 of
                         (m2, Inl err) \<Rightarrow> (m2, DeployFailed (WithCause ''Failed to update deployment'' err))
                       | (m2, Inr location) \<Rightarrow>
                           (m2, if \<not> dpyWaitStable sd then Deployed
                                else if location \<noteq> []
                                then (case pollDeployQueue location (dpyPollIntervalForClient sd) (dsvAnswers sv location m2) of
                                        None \<Rightarrow> Deployed | Some err \<Rightarrow> DeployFailed err)
                                else Deployed)))))"

section \<open>Facts\<close>

text \<open>The loop ends when the manifest's number of deployments stays bounded.\<close>

lemma loop_ends:
  assumes "\<And>w w' l. update_round gs sid did user w = (w', Again l) \<Longrightarrow> l \<le> N"
  shows "\<exists>r. updateRetryLoop gs sid did user tries limit w = Some r"
proof (induction "max N limit - tries" arbitrary: tries limit w rule: less_induct)
  case less
  show ?case
  proof (cases "tries < limit")
    case True
    obtain w' r where u: "update_round gs sid did user w = (w', r)" by fastforce
    show ?thesis
    proof (cases r)
      case (Again l)
      then have "l \<le> N" using assms u by simp
      then have "max N l - Suc tries < max N limit - tries" using True by auto
      from less [OF this, of w'] show ?thesis using True u Again by (subst updateRetryLoop.simps) simp
    qed (use True u in \<open>subst updateRetryLoop.simps, simp\<close>)
  qed (subst updateRetryLoop.simps, simp)
qed

text \<open>The worlds that rounds without an end lead to.\<close>

definition tried_again :: "('m, 'u) gdm_service \<Rightarrow> SourceID \<Rightarrow> DeploymentID \<Rightarrow> User \<Rightarrow> 'u HTTPStateManager \<times> 'm \<Rightarrow> 'u HTTPStateManager \<times> 'm \<Rightarrow> bool" where
  "tried_again gs sid did user = (\<lambda>w w'. \<exists>limit. update_round gs sid did user w = (w', Again limit))\<^sup>*\<^sup>*"

lemma loop_last_round:
  assumes "updateRetryLoop gs sid did user tries limit w = Some r"
  shows "(\<exists>w0. tried_again gs sid did user w w0 \<and> update_round gs sid did user w0 = (fst r, Stop (snd r))) \<or> isl (snd r)"
proof (rule updateRetryLoop.raw_induct [OF _ assms, where P = "\<lambda>gs sid did user tries limit w r.
    (\<exists>w0. tried_again gs sid did user w w0 \<and> update_round gs sid did user w0 = (fst r, Stop (snd r))) \<or> isl (snd r)"], goal_cases)
  case (1 loop gs sid did user tries limit w r)
  note IH = 1(1) and body = 1(2)
  obtain w1 x where u: "update_round gs sid did user w = (w1, x)" by fastforce
  show ?case
  proof (cases "tries < limit")
    case True
    show ?thesis
    proof (cases x)
      case (Stop y)
      then have "r = (w1, y)" using body u True by simp
      then have "update_round gs sid did user w = (fst r, Stop (snd r))" using u Stop by simp
      moreover have "tried_again gs sid did user w w" by (simp add: tried_again_def)
      ultimately show ?thesis by blast
    next
      case (Again l)
      then have "loop gs sid did user (Suc tries) l w1 = Some r" using body u True by simp
      then have "(\<exists>w0. tried_again gs sid did user w1 w0 \<and> update_round gs sid did user w0 = (fst r, Stop (snd r))) \<or> isl (snd r)"
        by (rule IH)
      moreover have "tried_again gs sid did user w w0" if "tried_again gs sid did user w1 w0" for w0
        using that u Again unfolding tried_again_def by (blast intro: converse_rtranclp_into_rtranclp)
      ultimately show ?thesis by blast
    qed
  next
    case False
    then show ?thesis using body by auto
  qed
qed

lemma loop_success:
  "updateRetryLoop gs sid did user tries limit w = Some (w', Inr gdm)
     \<Longrightarrow> \<exists>w0. tried_again gs sid did user w w0 \<and> update_round gs sid did user w0 = (w', Stop (Inr gdm))"
  using loop_last_round by fastforce

lemma round_success:
  assumes "update_round gs sid did user w = (w', Stop (Inr gdm'))"
  obtains w1 s man gdm s' where "hsm_ReadState gs w = (w1, Inr s)" "Manifests_Get (sManifests s) (didManifestID did) = Some man"
    "State_Deployments s = (gdm, None)" "updateState s gdm sid did = ((s', None), gdm')" "hsm_WriteState gs s' user w1 = (w', None)"
  using assms unfolding update_round_def Let_def
  by (auto split: prod.splits sum.splits option.splits if_splits)

lemma ReadState_updater: "hsm_ReadState gs w = (w1, Inr s) \<Longrightarrow> \<exists>up. hsmGdmState (fst w1) = Some up"
  unfolding hsm_ReadState_def Let_def by (auto split: prod.splits sum.splits option.splits)

lemma WriteState_result:
  assumes "hsmGdmState (fst w1) = Some up" and "hsm_WriteState gs s u w1 = (w', e)"
  shows "length (State_Validate s) > 0 \<and> e = Some (StoreError (PlainError ''*errors.fundamental'' ''Invalid update to state''))
    \<or> (\<exists>err. State_Deployments s = (fst (State_Deployments s), Some err) \<and> e = Some (GDMError err))
    \<or> (\<exists>wds e'. State_Deployments s = (wds, None) \<and> gsPut gs up (wrapDeployments wds) u (snd w1) = (snd w', e')
         \<and> e = map_option (\<lambda>e. StoreError (WithCause ''putting GDM'' e)) e')"
  using assms unfolding hsm_WriteState_def hsm_put_def Let_def
  by (auto split: prod.splits option.splits if_splits)

lemma round_again:
  assumes "update_round gs sid did user w = (w', Again l)"
  shows "\<exists>up g m m' e. gsPut gs up g user m = (m', Some e) \<and> Retryable e"
proof -
  obtain w1 s s' err where r: "hsm_ReadState gs w = (w1, Inr s)" "hsm_WriteState gs s' user w1 = (w', Some err)" "store_Retryable err"
    using assms unfolding update_round_def Let_def by (auto split: prod.splits sum.splits option.splits if_splits)
  obtain up where "hsmGdmState (fst w1) = Some up" using ReadState_updater r(1) by blast
  note res = WriteState_result [OF this r(2)]
  have "\<not> store_Retryable (StoreError (PlainError ''*errors.fundamental'' ''Invalid update to state''))"
    "\<not> store_Retryable (GDMError x)" for x by (simp_all add: store_Retryable_def Retryable_def)
  with res r(3) obtain wds e where "gsPut gs up (wrapDeployments wds) user (snd w1) = (snd w', Some e)" "err = StoreError (WithCause ''putting GDM'' e)"
    by (auto simp: eq_commute [of "Some _" "map_option _ _"])
  moreover from this r(3) have "Retryable e" by (simp add: store_Retryable_def Retryable_def)
  ultimately show ?thesis by blast
qed

lemma loop_once:
  assumes "\<And>up g m m' e. gsPut gs up g user m = (m', Some e) \<Longrightarrow> \<not> Retryable e"
  shows "\<exists>w' r. update_round gs sid did user w = (w', Stop r) \<and> updateRetryLoop gs sid did user 0 2 w = Some (w', r)"
proof -
  obtain w' r where u: "update_round gs sid did user w = (w', r)" by fastforce
  then obtain r' where "r = Stop r'" using assms round_again by (cases r) blast+
  then show ?thesis using u by (intro exI conjI) (assumption | simp, subst updateRetryLoop.simps, simp)+
qed

text \<open>What a round puts, when the deployment it changes is there.\<close>

lemma gget_wrapped:
  assumes "keyed Deployment_ID ds"
  shows "gget (map (\<lambda>d. (Deployment_ID d, d)) (wrapDeployments ds)) k = gget ds k"
proof -
  have "map (\<lambda>d. (Deployment_ID d, d)) (map snd ds) = ds"
    using keyed_map_id [OF assms] by (simp add: comp_def case_prod_unfold)
  then show ?thesis using keyed_gwf [OF assms] by (simp add: wrapDeployments_def Deployments_Snapshot_def CMap_Snapshot_def)
qed

lemma changed_storable:
  assumes wf: "wf_gdm (sDefs s) (sManifests s)" and g: "gget (all_deployments (sDefs s) (sManifests s)) did = Some d"
    and sid: "sidLocation sid = midSource (didManifestID did)"
  shows "Deployment_ID (d\<lparr>dSourceID := sid, dClusterName := didCluster did\<rparr>) = did"
    and "storable (sDefs s) (d\<lparr>dSourceID := sid, dClusterName := didCluster did\<rparr>)"
    and "joins (sManifests s) (d\<lparr>dSourceID := sid, dClusterName := didCluster did\<rparr>)"
proof -
  have ex: "expandable (sDefs s) (sManifests s)" using wf by (simp add: wf_gdm_def)
  obtain m spec where m: "gget (sManifests s) (didManifestID did) = Some m" "gget (mDeployments m) (didCluster did) = Some spec"
      and d: "d = built (sDefs s) m (didCluster did) spec"
    using g by (auto simp: gget_all_deployments [OF ex] split: option.splits)
  have mid: "Manifest_ID m = didManifestID did" using wf_gdmD(1) [OF wf m(1)] by simp
  have id: "Deployment_ManifestID (d\<lparr>dSourceID := sid, dClusterName := didCluster did\<rparr>) = didManifestID did"
    using Deployment_ManifestID_built [of "sDefs s" m "didCluster did" spec] mid sid
    by (cases "didManifestID did") (simp add: Deployment_ManifestID_def d)
  then show "Deployment_ID (d\<lparr>dSourceID := sid, dClusterName := didCluster did\<rparr>) = did" by (simp add: Deployment_ID_def)
  show "storable (sDefs s) (d\<lparr>dSourceID := sid, dClusterName := didCluster did\<rparr>)"
    using built_storable [OF wf m] dClusterName_built [of "sDefs s" m "didCluster did" spec]
    by (simp add: storable_def wf_deployment_def d split: option.splits)
  show "joins (sManifests s) (d\<lparr>dSourceID := sid, dClusterName := didCluster did\<rparr>)"
    by (simp add: joins_def id m(1)) (simp add: d owners_built kind_built)
qed

lemma round_puts:
  assumes u: "update_round gs sid did user w = (w', Stop (Inr gdm'))"
    and reads: "\<forall>w w1 s. hsm_ReadState gs w = (w1, Inr s) \<longrightarrow> wf_gdm (sDefs s) (sManifests s)
      \<and> gget (all_deployments (sDefs s) (sManifests s)) did \<noteq> None"
    and sid: "sidLocation sid = midSource (didManifestID did)"
  shows "\<exists>w1 s d up g. hsm_ReadState gs w = (w1, Inr s) \<and> hsmGdmState (fst w1) = Some up \<and> gsPut gs up g user (snd w1) = (snd w', None)
    \<and> gget (fst (State_Deployments s)) did = Some d
    \<and> gdm' = Deployments_Set (fst (State_Deployments s)) did (d\<lparr>dSourceID := sid, dClusterName := didCluster did\<rparr>)
    \<and> (\<forall>k. no_diff (gget (map (\<lambda>d. (Deployment_ID d, d)) g) k) (gget gdm' k))"
proof -
  obtain w1 s man gdm s' where r: "hsm_ReadState gs w = (w1, Inr s)" "State_Deployments s = (gdm, None)"
      "updateState s gdm sid did = ((s', None), gdm')" "hsm_WriteState gs s' user w1 = (w', None)"
    by (rule round_success [OF u])
  have wf: "wf_gdm (sDefs s) (sManifests s)" and present: "gget (all_deployments (sDefs s) (sManifests s)) did \<noteq> None"
    using reads r(1) by blast+
  have gdm: "gdm = all_deployments (sDefs s) (sManifests s)"
    using r(2) Manifests_Deployments_ok wf by (simp add: State_Deployments_def wf_gdm_def)
  obtain d where d: "gget gdm did = Some d" using present gdm by auto
  let ?d = "d\<lparr>dSourceID := sid, dClusterName := didCluster did\<rparr>"
  note c = changed_storable [OF wf d [unfolded gdm] sid]
  have upd: "State_UpdateDeployments s [?d] = (s', None)" "gdm' = Deployments_Set gdm did ?d"
    using r(3) d by (simp_all add: updateState_def Deployments_Get_def CMap_Get_def Let_def)
  obtain ds' where ds': "State_Deployments s' = (ds', None)" "keyed Deployment_ID ds'"
      "\<forall>k. rel_option (\<lambda>d' e. Deployment_Diff d' e = Ok (False, [])) (gget ds' k)
         (if k = did then Some ?d else gget (fst (State_Deployments s)) k)"
    using update_putget_keyed [OF wf c(2,3)] upd(1) unfolding c(1) by auto
  obtain up where up: "hsmGdmState (fst w1) = Some up" using ReadState_updater r(1) by blast
  have put: "gsPut gs up (wrapDeployments ds') user (snd w1) = (snd w', None)"
    using WriteState_result [OF up r(4)] ds'(1) by auto
  have "no_diff (gget (map (\<lambda>d. (Deployment_ID d, d)) (wrapDeployments ds')) k) (gget gdm' k)" for k
    using spec [OF ds'(3), of k] r(2)
    by (cases "k = did") (simp_all add: no_diff_def gget_wrapped [OF ds'(2)] upd(2) Deployments_Set_def CMap_Set_def gget_update)
  then show ?thesis using r(1,2) up put d upd(2) by auto
qed

text \<open>No error of the live client says that it can be tried again.\<close>

definition plain_update :: "LiveHTTPClient \<Rightarrow> resourceState \<Rightarrow> bool" where
  "plain_update client rs =
     ((\<forall>r e. lcDo client r = Inl e \<longrightarrow> \<not> Retryable e) \<and> (\<forall>p q e. lcURL client p q = Inl e \<longrightarrow> \<not> Retryable e)
      \<and> (\<forall>e. rsBody rs = Inl e \<or> rsResourceJSON rs = Inl e \<longrightarrow> \<not> Retryable e))"

lemma Retryable_wrapped [simp]: "Retryable (WithCause msg e) = Retryable e"
  by (simp add: Retryable_def)

lemma putback_error_plain:
  assumes "putbackJSON (rsBody rs) (rsResourceJSON rs) (Inr JSON) = Err err"
    and "\<forall>e. rsBody rs = Inl e \<or> rsResourceJSON rs = Inl e \<longrightarrow> \<not> Retryable e"
  shows "\<not> Retryable (putback_error err)"
proof -
  have m: "err = Inr ''*json.UnmarshalTypeError'' \<or> (\<exists>e. buf = Inl e \<and> err = Inl e)" if "mapDecode buf = Inl err" for buf :: reader and err
    using that by (auto simp: mapDecode_def split: sum.splits json.splits)
  have "mapDecode (rsBody rs) = Inl err \<or> mapDecode (rsResourceJSON rs) = Inl err \<or> mapDecode (Inr JSON :: reader) = Inl err"
    using assms(1) by (auto simp: putbackJSON_def split: sum.splits option.splits)
  then have "err = Inr ''*json.UnmarshalTypeError'' \<or> (\<exists>e. err = Inl e \<and> \<not> Retryable e)" using m assms(2) by blast
  then show ?thesis by (auto simp: putback_error_def) (simp add: Retryable_def)
qed

lemma extracted_plain: "extractBody None (Ok rz) = Some (st, Some err) \<Longrightarrow> \<not> Retryable err"
  by (cases "hzStatusCode rz = 409")
    (auto simp: extractBody_def receive_def errorf_def Retryable_def split: if_splits)

lemma Client_update_plain:
  assumes "plain_update client rs" and "Client_update client rs qBody headers = Some (st, Some e)"
  shows "\<not> Retryable e"
proof -
  obtain st' err where x: "extractBody None (sendRequest client (update_request client rs qBody headers)) = Some (st', Some err)"
      and e: "e = WithCause (''Update '' @ rsPath rs) err"
    using assms(2)
    by (cases "extractBody None (sendRequest client (update_request client rs qBody headers))")
      (auto simp: Client_update_def wrap_result_def case_prod_beta)
  show ?thesis
  proof (cases "sendRequest client (update_request client rs qBody headers)")
    case (Ok rz)
    then show ?thesis using x e extracted_plain by simp
  next
    case (Err err')
    then have "err' = err" using x by (simp add: extractBody_def)
    moreover have "\<not> Retryable err'"
    proof (cases "update_request client rs qBody headers")
      case (Ok rq)
      then show ?thesis using Err assms(1) by (auto simp: sendRequest_def plain_update_def split: sum.splits)
    next
      case rq: (Err err'')
      then have "err' = err''" using Err by (simp add: sendRequest_def)
      then show ?thesis using rq assms(1) putback_error_plain [of rs qBody]
        by (auto simp: update_request_def buildRequest_def plain_update_def Let_def split: sum.splits outcome.splits)
    qed (use Err in \<open>simp add: sendRequest_def\<close>)
    ultimately show ?thesis using e by simp
  qed (use x in \<open>simp add: extractBody_def\<close>)
qed

text \<open>Waiting.\<close>

definition answers_well :: "R11nResponse \<Rightarrow> bool" where
  "answers_well r = (rrQueuePosition r < 0 \<and> (\<exists>rez st. rrResolution r = Some rez \<and> drError rez = None \<and> drDeployState rez = Some st
     \<and> checkFinished rez \<and> checkResolutionSuccess st))"

definition answers_wait :: "R11nResponse \<Rightarrow> bool" where
  "answers_wait r = (case rrResolution r of None \<Rightarrow> True
     | Some rez \<Rightarrow> drError rez = None \<and> (drDeployState rez = None \<or> rrQueuePosition r \<ge> 0 \<or> \<not> checkFinished rez))"

lemma poll_queue_step:
  "poll_queue l r (a # as) = None \<longleftrightarrow>
     (\<exists>r'. a r = Inr r' \<and> (answers_well r' \<or> answers_wait r' \<and> poll_queue l r' as = None))"
  by (auto simp: answers_well_def answers_wait_def not_less split: sum.splits option.splits if_splits)

text \<open>What a server answers, at the states its queues are in when it is asked.\<close>

definition queue_answer :: "DeploymentID \<Rightarrow> R11nID \<Rightarrow> R11nQueueSet \<Rightarrow> R11nResponse \<Rightarrow> goerror + R11nResponse" where
  "queue_answer did rid rqs r =
     (case GETR11n_Exchange rqs False (Ok did) rid of
        Finished (Reply r' status) \<Rightarrow> Inr r'
      | _ \<Rightarrow> Inl (PlainError ''*errors.fundamental'' ''status''))"

definition queued :: "DeploymentID \<Rightarrow> R11nID \<Rightarrow> R11nQueueSet \<Rightarrow> Rectification QueuedR11n option" where
  "queued did rid rqs = (case gget (QueueSet_Queues rqs) did of None \<Rightarrow> None | Some queue \<Rightarrow> R11nQueue_ByID queue rid)"

lemma queue_answer_queued:
  "queue_answer did rid rqs r = (case queued did rid rqs of
      None \<Rightarrow> Inl (PlainError ''*errors.fundamental'' ''status'')
    | Some qr \<Rightarrow> Inr \<lparr>rrQueuePosition = qrPos qr, rrResolution = (if qrPos qr \<ge> 0 then None else Some (rResolution (qrRectification qr)))\<rparr>)"
  by (simp add: queue_answer_def queued_def GETR11n_Exchange_def Let_def split: option.split)

definition active_in :: "DeploymentID \<Rightarrow> R11nID \<Rightarrow> R11nQueueSet \<Rightarrow> bool" where
  "active_in did rid rqs = (\<exists>qr st. queued did rid rqs = Some qr \<and> qrPos qr < 0 \<and> drError (rResolution (qrRectification qr)) = None
     \<and> drDesc (rResolution (qrRectification qr)) \<in> {CreateDiff, ModifyDiff}
     \<and> drDeployState (rResolution (qrRectification qr)) = Some st \<and> dstStatus st = DeployStatusActive)"

definition waiting_in :: "DeploymentID \<Rightarrow> R11nID \<Rightarrow> R11nQueueSet \<Rightarrow> bool" where
  "waiting_in did rid rqs = (\<exists>qr. queued did rid rqs = Some qr \<and> (qrPos qr \<ge> 0 \<or>
     drError (rResolution (qrRectification qr)) = None
     \<and> (drDeployState (rResolution (qrRectification qr)) = None \<or> drDesc (rResolution (qrRectification qr)) \<notin> {CreateDiff, ModifyDiff})))"

lemma poll_server:
  "poll_queue l r (map (queue_answer did rid) rqss) = None \<longleftrightarrow>
     (\<exists>before rqs after. rqss = before @ rqs # after \<and> (\<forall>q \<in> set before. waiting_in did rid q) \<and> active_in did rid rqs)"
proof (induction rqss arbitrary: r)
  case (Cons q qs)
  let ?a = "queue_answer did rid q r"
  have well: "(\<exists>r'. ?a = Inr r' \<and> answers_well r') \<longleftrightarrow> active_in did rid q"
    by (auto simp: queue_answer_queued active_in_def answers_well_def checkFinished_def checkResolutionSuccess_def split: option.splits)
  have wait: "(\<exists>r'. ?a = Inr r' \<and> answers_wait r') \<longleftrightarrow> waiting_in did rid q"
    by (auto simp: queue_answer_queued waiting_in_def answers_wait_def checkFinished_def split: option.splits)
  have "poll_queue l r (map (queue_answer did rid) (q # qs)) = None \<longleftrightarrow> active_in did rid q \<or> waiting_in did rid q
      \<and> (\<exists>before rqs after. qs = before @ rqs # after \<and> (\<forall>q \<in> set before. waiting_in did rid q) \<and> active_in did rid rqs)"
    using well wait Cons.IH unfolding list.map poll_queue_step by blast
  also have "\<dots> \<longleftrightarrow> (\<exists>before rqs after. q # qs = before @ rqs # after \<and> (\<forall>q \<in> set before. waiting_in did rid q) \<and> active_in did rid rqs)"
  proof (intro iffI; elim disjE conjE exE)
    fix before rqs after
    assume a: "q # qs = before @ rqs # after" "\<forall>q \<in> set before. waiting_in did rid q" "active_in did rid rqs"
    then show "active_in did rid q \<or> waiting_in did rid q
      \<and> (\<exists>before rqs after. qs = before @ rqs # after \<and> (\<forall>q \<in> set before. waiting_in did rid q) \<and> active_in did rid rqs)"
      by (cases before) auto
  next
    assume "active_in did rid q"
    then show "\<exists>before rqs after. q # qs = before @ rqs # after \<and> (\<forall>q \<in> set before. waiting_in did rid q) \<and> active_in did rid rqs"
      by (intro exI [of _ "[]"] exI [of _ q] exI [of _ qs]) simp
  next
    fix before rqs after
    assume a: "waiting_in did rid q" "qs = before @ rqs # after" "\<forall>q \<in> set before. waiting_in did rid q" "active_in did rid rqs"
    then show "\<exists>before rqs after. q # qs = before @ rqs # after \<and> (\<forall>q \<in> set before. waiting_in did rid q) \<and> active_in did rid rqs"
      by (intro exI [of _ "q # before"] exI [of _ rqs] exI [of _ after]) simp
  qed
  finally show ?case .
qed simp

section \<open>A server with one deployment\<close>

definition one_manifest :: "Deployment \<Rightarrow> DeploySpec \<Rightarrow> Manifest" where
  "one_manifest d spec = (Manifest_SetID (Deployment_ManifestID d) (emptyManifest\<lparr>mOwners := OwnerSet_Slice (dOwners d)\<rparr>))
     \<lparr>mDeployments := [(''left'', spec)], mKind := dKind d\<rparr>"

definition one_built :: "Deployment \<Rightarrow> DeploySpec \<Rightarrow> Deployment" where
  "one_built d spec = built example_defs (one_manifest d spec) ''left'' spec"

lemma Manifest_ID_one [simp]: "Manifest_ID (one_manifest d spec) = Deployment_ManifestID d"
  by (simp add: one_manifest_def Manifest_ID_def Manifest_SetID_def)

lemma one_manifest_fields [simp]:
  "mDeployments (one_manifest d spec) = [(''left'', spec)]" "mKind (one_manifest d spec) = dKind d"
  "mOwners (one_manifest d spec) = OwnerSet_Slice (dOwners d)"
  by (simp_all add: one_manifest_def Manifest_SetID_def)

lemma one_resolved:
  assumes "dClusterName d = ''left''" and "dCluster d = None \<or> dCluster d = Some example_cluster"
  shows "resolve_cluster example_defs d = Inr example_cluster"
  using assms by (auto simp: resolve_cluster_def example_defs_def zeroDefs_def)

lemmas one_loops = put_spec_def manifest_for_def Manifests_Get_def Manifests_Set_def CMap_Get_def CMap_Set_def
  reset_all_def Manifests_Keys_def CMap_Keys_def

lemma one_put_back:
  assumes "dClusterName d = ''left''" and "dCluster d = None \<or> dCluster d = Some example_cluster"
  shows "PutbackManifests [(k, d)] example_defs olds
      = ([(Deployment_ManifestID d, one_manifest d (putback_spec example_cluster (old_spec olds (Deployment_ManifestID d) ''left'') d))], None)"
    and "RawManifests [(k, d)] example_defs = ([(Deployment_ManifestID d, one_manifest d (raw_spec d))], None)"
  using assms(1) one_resolved [OF assms]
  by (simp_all add: PutbackManifests_def RawManifests_def one_loops one_manifest_def emptyManifest_def Manifest_SetID_def Let_def)

lemma one_expandable: "expandable example_defs [(Deployment_ManifestID d, one_manifest d spec)]"
  by (simp add: keyed_def expandable_def example_defs_def zeroDefs_def clusters_defined_def ghas_def gwf_def)

lemma one_built_id [simp]: "Deployment_ID (one_built d spec) = \<lparr>didManifestID = Deployment_ManifestID d, didCluster = ''left''\<rparr>"
  by (simp add: one_built_def Deployment_ID_built)

lemma one_deployments:
  "State_Deployments \<lparr>sDefs = example_defs, sManifests = [(Deployment_ManifestID d, one_manifest d spec)], sEtag = e\<rparr>
     = ([(Deployment_ID (one_built d spec), one_built d spec)], None)"
  using Manifests_Deployments_ok [OF one_expandable [of d spec]]
  by (simp add: State_Deployments_def all_deployments_def manifest_deployments_def one_built_def)

definition plain_config :: "DeployConfig \<Rightarrow> bool" where
  "plain_config dc = (dcVolumes dc = [] \<and> SkipCheck (dcStartup dc)
     \<and> dcResources dc = Some [(''cpus'', ''1''), (''memory'', ''100''), (''ports'', ''1'')])"

lemma one_valid:
  assumes "dKind d = ''http-service''" and "plain_config (dDeployConfig (one_built d spec))"
  shows "State_Validate \<lparr>sDefs = example_defs, sManifests = [(Deployment_ManifestID d, one_manifest d spec)], sEtag = e\<rparr> = []"
proof -
  have "Deployment_Validate (one_built d spec) = []"
    using assms by (intro unflawed) (simp_all add: one_built_def kind_built plain_config_def)
  moreover have "ManifestKind_Validate ''http-service'' = []" by code_simp
  then have "Manifest_Validate (one_manifest d spec) = []" using assms(1) by (simp add: Manifest_Validate_def)
  ultimately show ?thesis
    using one_deployments [of d spec e] by (simp add: State_Validate_def Manifests_Snapshot_def Deployments_Snapshot_def CMap_Snapshot_def)
qed

lemma one_plain:
  assumes "plain_config (dDeployConfig d)"
  shows "plain_config (dDeployConfig (one_built d' (raw_spec d)))" "plain_config (dDeployConfig (one_built d' (putback_spec example_cluster os d)))"
  using assms
  by (simp_all add: plain_config_def one_built_def built_def BuildDeployment_def flattenDeploySpecs_def flattenDeployConfigs_def
      raw_spec_def putback_spec_def DeployConfig_Clone_def Startup_UnmergeDefaults_def zeroDeploySpec_def zeroDeployConfig_def
      Startup_MergeDefaults_def first_that_def merge_field_def unmerge_field_def zeroStartup_def example_cluster_def
      Volumes_Clone_def ghas_def Let_def split: option.splits)

definition one_service :: "(Deployment list \<Rightarrow> nat \<Rightarrow> goerror option) \<Rightarrow> (nat, unit) gdm_service" where
  "one_service refuse = \<lparr>gsDefs = \<lambda>u m. (m, Inr example_defs), gsGDM = \<lambda>u m. (m, Inr ([example_put], ())),
     gsPut = \<lambda>up g u m. (Suc m, refuse g m), gsClusters = \<lambda>c. None\<rparr>"

definition one_state :: State where
  "one_state = \<lparr>sDefs = example_defs, sManifests = [(Deployment_ManifestID example_put, one_manifest example_put (raw_spec example_put))], sEtag = None\<rparr>"

definition one_sid :: SourceID where
  "one_sid = (dSourceID example_put)\<lparr>sidVersion := zeroVersion\<lparr>vMajor := 9\<rparr>\<rparr>"

lemma example_put_fields:
  "dClusterName example_put = ''left''" "dCluster example_put = None" "dKind example_put = ''http-service''"
  "plain_config (dDeployConfig example_put)"
  by (simp_all add: example_put_def storable_deployment_def example_deployment_def plain_config_def zeroDeployConfig_def)

lemma one_state_clone: "State_Clone one_state = one_state"
proof -
  have "DeploySpec_Clone (raw_spec example_put) = raw_spec example_put"
    by (simp add: DeploySpec_Clone_def raw_spec_def example_put_def zeroDeploySpec_def zeroDeployConfig_def DeployConfig_Clone_def
        storable_deployment_def zeroStartup_def Volumes_Clone_def Resources_Clone_def)
  then have "Manifest_Clone (one_manifest example_put (raw_spec example_put)) = one_manifest example_put (raw_spec example_put)"
    by (simp add: Manifest_Clone_def one_manifest_def Manifest_SetID_def emptyManifest_def)
  then have "Manifests_Clone (sManifests one_state) = sManifests one_state"
    by (simp add: Manifests_Clone_def manifests.Clone_pointwise one_state_def keyed_def)
  moreover have "Defs_Clone example_defs = example_defs" by (simp add: Defs_Clone_def example_defs_def Clusters_Clone_def Cluster_Clone_def)
  ultimately show ?thesis by (simp add: State_Clone_def one_state_def)
qed

lemma one_read: "\<exists>h. hsm_ReadState (one_service refuse) w = ((h, snd w), Inr one_state) \<and> hsmGdmState h = Some ()"
proof -
  have "Deployments_Add [] example_put = ([(Deployment_ID example_put, example_put)], True)"
    by (simp add: Deployments_Add_def CMap_Add_def ghas_def Let_def)
  then show ?thesis
    using one_put_back(2) [of example_put] example_put_fields one_state_clone
    by (simp add: hsm_ReadState_def one_service_def gdmWrapper_manifests_def one_state_def Let_def)
qed

abbreviation one_did :: DeploymentID where
  "one_did \<equiv> Deployment_ID example_put"

abbreviation one_changed :: Deployment where
  "one_changed \<equiv> (one_built example_put (raw_spec example_put))\<lparr>dSourceID := one_sid, dClusterName := ''left''\<rparr>"

lemma one_did_fields: "didManifestID one_did = Deployment_ManifestID example_put" "didCluster one_did = ''left''"
  by (simp_all add: Deployment_ID_def example_put_fields)

lemma one_changed_fields:
  "Deployment_ManifestID one_changed = Deployment_ManifestID example_put" "dClusterName one_changed = ''left''"
  "dCluster one_changed = Some example_cluster" "dKind one_changed = ''http-service''" "plain_config (dDeployConfig one_changed)"
proof -
  have "dFlavor (one_built example_put (raw_spec example_put)) = dFlavor example_put"
    by (simp add: one_built_def built_def BuildDeployment_def one_manifest_def Manifest_SetID_def Deployment_ManifestID_def Let_def)
  then show "Deployment_ManifestID one_changed = Deployment_ManifestID example_put"
    by (simp add: Deployment_ManifestID_def one_sid_def)
  show "dCluster one_changed = Some example_cluster"
    by (simp add: one_built_def built_def BuildDeployment_def example_defs_def zeroDefs_def Let_def)
qed (simp_all add: one_built_def kind_built example_put_fields one_plain(1) [unfolded one_built_def])

lemma one_round:
  "\<exists>h gdm g. update_round (one_service refuse) one_sid one_did u w
     = ((h, Suc (snd w)), case refuse g (snd w) of
          None \<Rightarrow> Stop (Inr gdm)
        | Some e \<Rightarrow> if Retryable e then Again 1 else Stop (Inl (StoreError (WithCause ''putting GDM'' e))))
     \<and> gdm = [(one_did, one_changed)]"
proof -
  obtain h where read: "hsm_ReadState (one_service refuse) w = ((h, snd w), Inr one_state)" and up: "hsmGdmState h = Some ()"
    using one_read by blast
  have bid: "Deployment_ID (one_built example_put spec) = one_did" for spec
    unfolding one_built_id by (simp add: Deployment_ID_def example_put_fields)
  have deps: "State_Deployments one_state = ([(one_did, one_built example_put (raw_spec example_put))], None)"
    using one_deployments [of example_put "raw_spec example_put" None] bid by (simp add: one_state_def)
  have id: "Deployment_ID one_changed = one_did"
    using one_changed_fields(1,2) by (simp add: Deployment_ID_def example_put_fields)
  let ?s = "\<lparr>sDefs = example_defs, sManifests = [(Deployment_ManifestID one_changed, one_manifest one_changed
     (putback_spec example_cluster (old_spec (sManifests one_state) (Deployment_ManifestID one_changed) ''left'') one_changed))], sEtag = None\<rparr>"
  have "upsert_all [(one_did, one_built example_put (raw_spec example_put))] [one_changed] = [(one_did, one_changed)]"
    by (simp add: id Deployments_Set_def CMap_Set_def)
  then have upd: "State_UpdateDeployments one_state [one_changed] = (?s, None)"
    using one_put_back(1) [OF one_changed_fields(2) disjI2 [OF one_changed_fields(3)], of one_did "sManifests one_state"]
    by (simp add: State_UpdateDeployments_def deps) (simp add: one_state_def)
  then have new: "updateState one_state [(one_did, one_built example_put (raw_spec example_put))] one_sid one_did = ((?s, None), [(one_did, one_changed)])"
    by (simp add: updateState_def Deployments_Get_def CMap_Get_def Deployments_Set_def CMap_Set_def one_did_fields Let_def)
  have valid: "State_Validate ?s = []"
    by (intro one_valid one_plain(2) one_changed_fields)
  obtain ds where ds: "State_Deployments ?s = (ds, None)" using one_deployments by blast
  have man: "Manifests_Get (sManifests one_state) (didManifestID one_did) = Some (one_manifest example_put (raw_spec example_put))"
    by (simp add: Manifests_Get_def CMap_Get_def one_state_def one_did_fields)
  have put: "hsm_WriteState (one_service refuse) ?s u (h, snd w) = ((h\<lparr>hsmUser := u\<rparr>, Suc (snd w)),
     map_option (\<lambda>e. StoreError (WithCause ''putting GDM'' e)) (refuse (wrapDeployments ds) (snd w)))"
    by (simp add: hsm_WriteState_def valid up ds hsm_put_def) (simp add: one_service_def)
  have "update_round (one_service refuse) one_sid one_did u w
     = ((h\<lparr>hsmUser := u\<rparr>, Suc (snd w)), case refuse (wrapDeployments ds) (snd w) of
          None \<Rightarrow> Stop (Inr [(one_did, one_changed)])
        | Some e \<Rightarrow> if Retryable e then Again 1 else Stop (Inl (StoreError (WithCause ''putting GDM'' e))))"
    by (cases "refuse (wrapDeployments ds) (snd w)")
      (simp_all add: update_round_def read man deps new put store_Retryable_def)
  then show ?thesis by blast
qed

lemma one_wf: "wf_gdm (sDefs one_state) (sManifests one_state)"
proof -
  have "wf_config (dsDeployConfig (raw_spec example_put))" by (simp add: raw_spec_def zeroDeploySpec_def)
  moreover have "sorted (OwnerSet_Slice (dOwners example_put))" "distinct (OwnerSet_Slice (dOwners example_put))"
    by (simp_all add: example_put_def storable_deployment_def example_deployment_def OwnerSet_Slice_def)
  ultimately show ?thesis
    using one_expandable [of example_put]
    by (simp add: wf_gdm_def one_state_def example_defs_def zeroDefs_def example_cluster_def gwf_def)
qed

lemma one_present: "gget (all_deployments (sDefs one_state) (sManifests one_state)) one_did \<noteq> None"
  by (simp add: one_state_def all_deployments_def manifest_deployments_def Deployment_ID_built Deployment_ID_def example_put_fields)

section \<open>Properties\<close>

text \<open>\<open>sous update\<close> tries once. The loop is there to try again when updates collide, but no error that
  the live client's \<open>Update\<close> returns is retryable, a conflict included: whatever the server answers,
  the loop is its first round.\<close>

theorem update_tries_once:
  assumes "\<And>up g m m' e. gsPut gs up g user m = (m', Some e) \<Longrightarrow>
      \<exists>client rs qBody headers st. plain_update client rs \<and> Client_update client rs qBody headers = Some (st, Some e)"
  shows "\<exists>w' r. update_round gs sid did user w = (w', Stop r) \<and> updateRetryLoop gs sid did user 0 2 w = Some (w', r)"
  using loop_once [of gs user] assms Client_update_plain by meson

definition conflict_client :: LiveHTTPClient where
  "conflict_client = \<lparr>lcCommonHeaders = [], lcURL = \<lambda>p q. Inr p, lcDo = \<lambda>r. Inr (writeHeaders 409 [] ''Conflict'')\<rparr>"

lemma conflict_update:
  "\<exists>st e. Client_update conflict_client flag_state (JObj [(''flag'', JBool True)]) None = Some (st, Some e)"
proof -
  have "putbackJSON (rsBody flag_state) (rsResourceJSON flag_state) (Inr (JObj [(''flag'', JBool True)]))
      = Ok (JObj [(''off'', JStr ''canary''), (''flag'', JBool True), (''more'', JNull)])"
    by (simp add: putbackJSON_def mapDecode_def flag_state_def applyChanges.simps same_scalar Let_def)
  then show ?thesis
    by (simp add: Client_update_def update_request_def buildRequest_def conflict_client_def sendRequest_def extractBody_def
        writeHeaders_def wrap_result_def enrichState_def case_prod_beta Let_def)
qed

definition conflict_error :: goerror where
  "conflict_error = the (snd (the (Client_update conflict_client flag_state (JObj [(''flag'', JBool True)]) None)))"

theorem update_tries_once_witness:
  "\<exists>h. updateRetryLoop (one_service (\<lambda>g m. Some conflict_error)) one_sid one_did \<lparr>uName = [], uEmail = []\<rparr> 0 2 (NewHTTPStateManager, 0)
     = Some ((h, 1), Inl (StoreError (WithCause ''putting GDM'' conflict_error)))"
proof -
  let ?gs = "one_service (\<lambda>g m. Some conflict_error)" and ?u = "\<lparr>uName = [], uEmail = []\<rparr>"
  have plain: "plain_update conflict_client flag_state" by (simp add: plain_update_def conflict_client_def flag_state_def)
  obtain st where st: "Client_update conflict_client flag_state (JObj [(''flag'', JBool True)]) None = Some (st, Some conflict_error)"
    using conflict_update by (auto simp: conflict_error_def)
  have "\<exists>w' r. update_round ?gs one_sid one_did ?u (NewHTTPStateManager, 0) = (w', Stop r)
      \<and> updateRetryLoop ?gs one_sid one_did ?u 0 2 (NewHTTPStateManager, 0) = Some (w', r)"
    by (rule update_tries_once, rule exI [of _ conflict_client], rule exI [of _ flag_state])
      (use plain st in \<open>auto simp: one_service_def\<close>)
  then show ?thesis
    using one_round [of "\<lambda>g m. Some conflict_error" ?u "(NewHTTPStateManager, 0)"] Client_update_plain [OF plain st] by auto
qed

text \<open>C25: What a successful \<open>sous update\<close> did. When every GDM the server gives is well formed and has
  the deployment, success means that after rounds that were to be tried again, if any, the GDM was
  read and the server accepted a put: of this GDM with this deployment at the new source and
  version and every other deployment as it was, up to differences \<open>Diff\<close> does not see. It is also
  the GDM that the command goes on to poll.\<close>

theorem update_sound:
  assumes "updateRetryLoop gs sid did user 0 2 w = Some (w', Inr gdm')"
    and "\<forall>w w1 s. hsm_ReadState gs w = (w1, Inr s) \<longrightarrow> wf_gdm (sDefs s) (sManifests s)
      \<and> gget (all_deployments (sDefs s) (sManifests s)) did \<noteq> None"
    and "sidLocation sid = midSource (didManifestID did)"
  shows "\<exists>w0 w1 s d up g. tried_again gs sid did user w w0 \<and> hsm_ReadState gs w0 = (w1, Inr s)
    \<and> hsmGdmState (fst w1) = Some up \<and> gsPut gs up g user (snd w1) = (snd w', None)
    \<and> gget (fst (State_Deployments s)) did = Some d
    \<and> gdm' = Deployments_Set (fst (State_Deployments s)) did (d\<lparr>dSourceID := sid, dClusterName := didCluster did\<rparr>)
    \<and> (\<forall>k. no_diff (gget (map (\<lambda>d. (Deployment_ID d, d)) g) k) (gget gdm' k))"
proof -
  obtain w0 where w0: "tried_again gs sid did user w w0" "update_round gs sid did user w0 = (w', Stop (Inr gdm'))"
    using loop_success [OF assms(1)] by blast
  from round_puts [OF w0(2) _ assms(3)] assms(2) w0(1) show ?thesis by blast
qed

theorem update_sound_witness:
  "\<exists>h g. updateRetryLoop (one_service (\<lambda>g m. None)) one_sid one_did \<lparr>uName = [], uEmail = []\<rparr> 0 2 (NewHTTPStateManager, 0)
       = Some ((h, 1), Inr [(one_did, one_changed)])
     \<and> no_diff (gget (map (\<lambda>d. (Deployment_ID d, d)) g) one_did) (Some one_changed)"
proof -
  let ?gs = "one_service (\<lambda>g m. None)" and ?u = "\<lparr>uName = [], uEmail = []\<rparr>"
  obtain h where "update_round ?gs one_sid one_did ?u (NewHTTPStateManager, 0) = ((h, 1), Stop (Inr [(one_did, one_changed)]))"
    using one_round [of "\<lambda>g m. None" ?u "(NewHTTPStateManager, 0)"] by auto
  then have loop: "updateRetryLoop ?gs one_sid one_did ?u 0 2 (NewHTTPStateManager, 0) = Some ((h, 1), Inr [(one_did, one_changed)])"
    by (subst updateRetryLoop.simps) simp
  have "wf_gdm (sDefs s) (sManifests s) \<and> gget (all_deployments (sDefs s) (sManifests s)) one_did \<noteq> None"
    if "hsm_ReadState ?gs w = (w1, Inr s)" for w w1 s
    using that one_read [of "\<lambda>g m. None" w] one_wf one_present by auto
  moreover have "sidLocation one_sid = midSource (didManifestID one_did)"
    by (simp add: one_sid_def one_did_fields Deployment_ManifestID_def)
  ultimately obtain g where "\<forall>k. no_diff (gget (map (\<lambda>d. (Deployment_ID d, d)) g) k) (gget [(one_did, one_changed)] k)"
    using update_sound [OF loop] by blast
  then have "no_diff (gget (map (\<lambda>d. (Deployment_ID d, d)) g) one_did) (Some one_changed)" by (auto dest!: spec [of _ one_did])
  then show ?thesis using loop by blast
qed

text \<open>
  A deployment that the GDM does not have is made without a flavor: whatever was asked for, the one
  added has the ID without it.
\<close>

lemma update_missing_flavorless:
  assumes "Deployments_Get gdm did = None"
  shows "\<exists>d. updateState s gdm sid did = (State_UpdateDeployments s [d], gdm)
     \<and> Deployment_ID d = \<lparr>didManifestID = \<lparr>midSource = sidLocation sid, midFlavor = []\<rparr>, didCluster = didCluster did\<rparr>"
  using assms
  by (intro exI [of _ "\<lparr>dDeployConfig = zeroDeployConfig, dClusterName = didCluster did, dCluster = None, dSourceID = sid,
      dFlavor = [], dOwners = [], dKind = []\<rparr>"]) (simp add: updateState_def Deployment_ID_def Deployment_ManifestID_def)

text \<open>What \<open>sous deploy\<close> reports. When the server took the new version, the command reports success
  if and only if it was not to wait, or nothing had to be queued, or within its number of attempts it
  met a state of the queues in which the rectification was handled, was a creation or a modification without error, and
  the deployment active, having only met states before in which it was still underway.\<close>

theorem deploy_waits:
  assumes "TagVersion (dpyResolveFilter sd) = Ok v"
    and "dsvRetrieve sv (gset ''force'' (if dpyForce sd then ''true'' else ''false'') (DeploymentID_QueryMap (dpyTargetDeploymentID sd))) m
      = (m1, Inr (d, up))"
    and "sdbDeployment d = Some spec"
    and "dsvUpdate sv up (d\<lparr>sdbDeployment := Some (spec\<lparr>dsVersion := v\<rparr>)\<rparr>) (dpyUser sd) m1 = (m2, Inr location)"
    and "dsvAnswers sv location m2 = map (queue_answer did rid) rqss"
  shows "Deploy_Do sv sd m = (m2, Deployed) \<longleftrightarrow>
      \<not> dpyWaitStable sd \<or> location = [] \<or>
      (\<exists>before rqs after. take (dpyPollIntervalForClient sd) rqss = before @ rqs # after
         \<and> (\<forall>q \<in> set before. waiting_in did rid q) \<and> active_in did rid rqs)"
proof -
  have "pollDeployQueue location (dpyPollIntervalForClient sd) (dsvAnswers sv location m2) = None \<longleftrightarrow>
      (\<exists>before rqs after. take (dpyPollIntervalForClient sd) rqss = before @ rqs # after
         \<and> (\<forall>q \<in> set before. waiting_in did rid q) \<and> active_in did rid rqs)"
    unfolding pollDeployQueue_def assms(5) take_map by (rule poll_server)
  with assms(1-4) show ?thesis
    by (auto simp: Deploy_Do_def set_version_def Let_def split: option.splits)
qed

definition waited_set :: R11nQueueSet where
  "waited_set = put_queue (Deployment_ID example_deployment)
     (the (finish (\<lambda>r. r\<lparr>rResolution := (rResolution r)\<lparr>drDesc := CreateDiff, drError := None,
          drDeployState := Some \<lparr>dstDeployment = example_deployment,
          dstStatus = DeployStatusActive, dstExecutorMessage = [], dstExecutorData = None, dstSchedulerURL = []\<rparr>\<rparr>\<rparr>)
       (the (next_popped (the (next_receive (the (gget (qsSet example_set) (Deployment_ID example_deployment)))))))))
     example_set"

lemma waited_states:
  "waiting_in (Deployment_ID example_deployment) ''a'' example_set" "active_in (Deployment_ID example_deployment) ''a'' waited_set"
  by (simp_all add: waiting_in_def active_in_def queued_def waited_set_def example_set_def QueueSet_PushIfEmpty_def
      R11nQueue_PushIfEmpty_def internalPush_def queue_for_def NewR11nQueueSet_def NewR11nQueue_def put_queue_def next_receive_def
      next_popped_def handlePopped_def finish_def R11nQueue_ByID_def QueueSet_Queues_def example_rectification_def
      NewRectification_def plain_pair_def MaxRefsPerR11nQueue_def Let_def)

definition waited_deploy :: Deploy where
  "waited_deploy = \<lparr>dpyResolveFilter = \<lparr>rfRepo = None, rfOffset = None, rfTag = Some ''9.0.0'', rfRevision = None, rfFlavor = None,
       rfCluster = None, rfStatus = DeployStatusAny\<rparr>,
     dpyTargetDeploymentID = Deployment_ID example_deployment, dpyUser = \<lparr>uName = [], uEmail = []\<rparr>, dpyForce = False,
     dpyWaitStable = True, dpyPollIntervalForClient = 2\<rparr>"

definition waited_service :: "(SingleDeploymentBody option, unit) deploy_service" where
  "waited_service = \<lparr>dsvRetrieve = \<lambda>q m. (m, Inr (\<lparr>sdbLinks = [], sdbDeployment = Some zeroDeploySpec\<rparr>, ())),
     dsvUpdate = \<lambda>up d u m. (Some d, Inr ''here''),
     dsvAnswers = \<lambda>l m. map (queue_answer (Deployment_ID example_deployment) ''a'') [example_set, waited_set]\<rparr>"

theorem deploy_waits_witness:
  "\<exists>d. Deploy_Do waited_service waited_deploy None = (Some d, Deployed)
     \<and> map_option dsVersion (sdbDeployment d) = Some (zeroVersion\<lparr>vMajor := 9, vDefaultFormat := ''M.m.p''\<rparr>)"
proof -
  have "TagVersion (dpyResolveFilter waited_deploy) = Ok (zeroVersion\<lparr>vMajor := 9, vDefaultFormat := ''M.m.p''\<rparr>)" by code_simp
  note waits = deploy_waits [OF this, where sv = waited_service and m = None and ?m1.0 = None and up = "()"
      and d = "\<lparr>sdbLinks = [], sdbDeployment = Some zeroDeploySpec\<rparr>" and rid = "''a''" and location = "''here''"
      and did = "Deployment_ID example_deployment" and rqss = "[example_set, waited_set]" and spec = zeroDeploySpec]
  have "\<exists>before rqs after. [example_set, waited_set] = before @ rqs # after
      \<and> (\<forall>q \<in> set before. waiting_in (Deployment_ID example_deployment) ''a'' q) \<and> active_in (Deployment_ID example_deployment) ''a'' rqs"
    using waited_states by (intro exI [of _ "[example_set]"] exI [of _ waited_set] exI [of _ "[]"]) simp
  then have "Deploy_Do waited_service waited_deploy None = (Some \<lparr>sdbLinks = [],
      sdbDeployment = Some (zeroDeploySpec\<lparr>dsVersion := zeroVersion\<lparr>vMajor := 9, vDefaultFormat := ''M.m.p''\<rparr>\<rparr>)\<rparr>, Deployed)"
    using waits by (simp add: waited_service_def waited_deploy_def)
  then show ?thesis by simp
qed

end
